(* ===== verification/Prelude.thy ===== *)
theory Prelude
  imports Main "HOL-Library.Word" "HOL-Library.Monad_Syntax"
begin

text \<open>
  Shared ground of the development: the machine integer types of the Rust
  sources, byte-order conversions (\<open>to_le_bytes\<close>, \<open>from_be_bytes\<close> and
  their kin of the Rust standard library), slices, and the generic locale
  through which invariants of a component are lifted from one operation to any
  sequence of operations.

  Two conventions hold everywhere.  A Rust \<open>Result<T, E>\<close> is the sum
  \<open>E + T\<close>, with \<open>Inl\<close> for the error.  A call that may fail to return
  normally (a panic, an out-of-range slice, a loop that never ends) has an
  \<open>option\<close> type and \<open>None\<close> is that outcome; so a theorem that a call
  is \<open>Some\<close> says that it returns.  Unsigned integers are words and wrap as
  they do in the release profile of the crate, which leaves overflow checks off.
\<close>

unbundle bit_operations_syntax

named_theorems codec_simps "unfolding of encoders and decoders"
named_theorems frame_simps "fields an operation leaves alone"
named_theorems length_simps "lengths of encoded values"

type_synonym u8 = "8 word"
type_synonym u16 = "16 word"
type_synonym u32 = "32 word"
type_synonym u64 = "64 word"
type_synonym u128 = "128 word"
type_synonym usize = "64 word"
type_synonym bytes = "u8 list"

section \<open>Slices\<close>

text \<open>\<open>slice a b xs\<close> is \<open>xs[a..b]\<close>; a caller checks the bounds, as an
  out-of-range slice panics in Rust.\<close>

definition slice :: "nat \<Rightarrow> nat \<Rightarrow> 'a list \<Rightarrow> 'a list" where
  "slice a b xs = take (b - a) (drop a xs)"

lemma length_slice [simp]: "length (slice a b xs) = min (b - a) (length xs - a)"
  by (simp add: slice_def)

lemma slice_append1: "b \<le> length xs \<Longrightarrow> slice a b (xs @ ys) = slice a b xs"
  by (simp add: slice_def)

lemma slice_append2:
  "length xs \<le> a \<Longrightarrow> slice a b (xs @ ys) = slice (a - length xs) (b - length xs) ys"
  by (simp add: slice_def)

lemma slice_full: "length xs \<le> b \<Longrightarrow> slice 0 b xs = xs"
  by (simp add: slice_def)

lemma slice_0 [simp]: "slice 0 b xs = take b xs"
  by (simp add: slice_def)

text \<open>\<open>cut\<close> sets: reading a record back from the concatenation of its fields.\<close>

lemmas slice_simps = slice_append1 slice_append2 slice_def

lemma list_of_length_1: "length xs = Suc 0 \<Longrightarrow> \<exists>a. xs = [a]"
  by (cases xs) auto

section \<open>Byte order\<close>

fun nat_to_le :: "nat \<Rightarrow> nat \<Rightarrow> bytes" where
  "nat_to_le 0 k = []"
| "nat_to_le (Suc n) k = of_nat k # nat_to_le n (k div 256)"

fun le_to_nat :: "bytes \<Rightarrow> nat" where
  "le_to_nat [] = 0"
| "le_to_nat (b # bs) = unat b + 256 * le_to_nat bs"

lemma length_nat_to_le [simp, length_simps]: "length (nat_to_le n k) = n"
  by (induction n arbitrary: k) auto

lemma unat_u8_less: "unat (b :: u8) < 256"
proof -
  have "unat b < 2 ^ LENGTH(8)" by (rule unsigned_less)
  then show ?thesis by simp
qed

lemma unat_u16_less: "unat (w :: u16) < 65536"
proof -
  have "unat w < 2 ^ LENGTH(16)" by (rule unsigned_less)
  then show ?thesis by simp
qed

lemma unat_u64_less: "unat (c :: u64) < 18446744073709551616"
proof -
  have "unat c < 2 ^ LENGTH(64)" by (rule unsigned_less)
  then show ?thesis by simp
qed

text \<open>Word arithmetic that does not wrap, read through \<open>unat\<close>.\<close>

lemma unat_add_nowrap:
  "unat a + unat b < 2 ^ LENGTH('a) \<Longrightarrow> unat (a + b :: 'a::len word) = unat a + unat b"
  by (simp add: unat_word_ariths)

lemma unat_sub_le: "b \<le> a \<Longrightarrow> unat (a - b :: 'a::len word) = unat a - unat b"
  by (rule unat_sub)

lemma unat_add_u64:
  "unat a + unat b < 18446744073709551616 \<Longrightarrow> unat (a + b :: u64) = unat a + unat b"
  by (rule unat_add_nowrap) simp

lemma unat_inc_u64: "i < (c :: u64) \<Longrightarrow> unat (i + 1) = unat i + 1"
proof -
  assume "i < c"
  then have "unat i + 1 < 18446744073709551616"
    using unat_u64_less [of c] by (simp add: word_less_nat_alt)
  then show ?thesis by (simp add: unat_add_u64)
qed

lemma inc_le_u64: "i < (c :: u64) \<Longrightarrow> i + 1 \<le> c"
  using unat_inc_u64 [of i c] by (simp add: word_le_nat_alt word_less_nat_alt)

lemma unat_of_nat_u8: "unat (of_nat k :: u8) = k mod 256"
  by (simp add: unat_of_nat)

lemma le_to_nat_to_le: "le_to_nat (nat_to_le n k) = k mod 256 ^ n"
proof (induction n arbitrary: k)
  case 0
  then show ?case by simp
next
  case (Suc n)
  have "k mod (256 * 256 ^ n) = 256 * (k div 256 mod 256 ^ n) + k mod 256"
    by (rule mod_mult2_eq)
  then show ?case using Suc by (simp add: unat_of_nat_u8)
qed

lemma le_to_nat_bound: "le_to_nat bs < 256 ^ length bs"
proof (induction bs)
  case Nil
  then show ?case by simp
next
  case (Cons b bs)
  have "unat b < 256" by (rule unat_u8_less)
  with Cons show ?case by simp
qed

lemma nat_to_le_to_nat: "nat_to_le (length bs) (le_to_nat bs) = bs"
proof (induction bs)
  case Nil
  then show ?case by simp
next
  case (Cons b bs)
  have b: "unat b < 256" by (rule unat_u8_less)
  have "(unat b + 256 * le_to_nat bs) div 256 = le_to_nat bs" using b by simp
  moreover have "(of_nat (unat b + 256 * le_to_nat bs) :: u8) = b"
    by (rule word_unat_eq_iff [THEN iffD2]) (use b in \<open>simp only: unat_of_nat_u8, simp\<close>)
  ultimately show ?case using Cons by simp
qed

text \<open>The \<open>to_le_bytes\<close>, \<open>from_le_bytes\<close>, \<open>to_be_bytes\<close> and
  \<open>from_be_bytes\<close> of \<open>u16\<close>, \<open>u32\<close>, \<open>u64\<close> and \<open>u128\<close>.\<close>

definition to_le_bytes :: "'a::len word \<Rightarrow> bytes" where
  "to_le_bytes w = nat_to_le (LENGTH('a) div 8) (unat w)"

definition from_le_bytes :: "bytes \<Rightarrow> 'a::len word" where
  "from_le_bytes bs = of_nat (le_to_nat bs)"

definition to_be_bytes :: "'a::len word \<Rightarrow> bytes" where
  "to_be_bytes w = rev (to_le_bytes w)"

definition from_be_bytes :: "bytes \<Rightarrow> 'a::len word" where
  "from_be_bytes bs = from_le_bytes (rev bs)"

lemma length_to_le_bytes [simp, length_simps]:
  "length (to_le_bytes (w :: 'a::len word)) = LENGTH('a) div 8"
  by (simp add: to_le_bytes_def)

lemma length_to_be_bytes [simp, length_simps]:
  "length (to_be_bytes (w :: 'a::len word)) = LENGTH('a) div 8"
  by (simp add: to_be_bytes_def)

lemma from_to_le_bytes [simp]:
  assumes "8 dvd LENGTH('a)"
  shows "from_le_bytes (to_le_bytes (w :: 'a::len word)) = w"
proof -
  obtain k where k: "LENGTH('a) = 8 * k" using assms by (elim dvdE)
  have "(256 :: nat) ^ (LENGTH('a) div 8) = 2 ^ LENGTH('a)"
    by (simp add: k power_mult)
  then show ?thesis
    by (simp add: from_le_bytes_def to_le_bytes_def le_to_nat_to_le)
qed

lemma from_to_be_bytes [simp]:
  assumes "8 dvd LENGTH('a)"
  shows "from_be_bytes (to_be_bytes (w :: 'a::len word)) = w"
  using assms by (simp add: from_be_bytes_def to_be_bytes_def)

lemma to_from_le_bytes:
  assumes "length bs = LENGTH('a) div 8" and "8 dvd LENGTH('a)"
  shows "to_le_bytes (from_le_bytes bs :: 'a::len word) = bs"
proof -
  obtain k where k: "LENGTH('a) = 8 * k" using assms(2) by (elim dvdE)
  have "le_to_nat bs < 256 ^ length bs" by (rule le_to_nat_bound)
  then have "le_to_nat bs < 2 ^ LENGTH('a)" using assms(1) by (simp add: k power_mult)
  then have "unat (from_le_bytes bs :: 'a word) = le_to_nat bs"
    by (simp add: from_le_bytes_def unat_of_nat)
  then show ?thesis
    by (metis assms(1) nat_to_le_to_nat to_le_bytes_def)
qed

lemma to_from_be_bytes:
  assumes "length bs = LENGTH('a) div 8" and "8 dvd LENGTH('a)"
  shows "to_be_bytes (from_be_bytes bs :: 'a::len word) = bs"
  using assms by (simp add: from_be_bytes_def to_be_bytes_def to_from_le_bytes)

section \<open>Invariants of a component over sequences of operations\<close>

text \<open>
  A component whose operations are steps \<open>step s op\<close> on its state and that
  keeps an invariant keeps it along every sequence of operations.  Components
  instantiate the locale with their own step function and use \<open>run_inv\<close>.
\<close>

fun run_ops :: "('s \<Rightarrow> 'op \<Rightarrow> 's) \<Rightarrow> 's \<Rightarrow> 'op list \<Rightarrow> 's" where
  "run_ops step s [] = s"
| "run_ops step s (x # xs) = run_ops step (step s x) xs"

lemma run_ops_append: "run_ops step s (xs @ ys) = run_ops step (run_ops step s xs) ys"
  by (induction xs arbitrary: s) auto

locale invariant_machine =
  fixes step :: "'s \<Rightarrow> 'op \<Rightarrow> 's"
    and inv :: "'s \<Rightarrow> bool"
  assumes step_inv: "inv s \<Longrightarrow> inv (step s x)"
begin

lemma run_inv: "inv s \<Longrightarrow> inv (run_ops step s xs)"
  by (induction xs arbitrary: s) (auto intro: step_inv)

end

text \<open>The same for operations that may panic: a run stops at the first that does.\<close>

fun run_opt :: "('s \<Rightarrow> 'op \<Rightarrow> 's option) \<Rightarrow> 's \<Rightarrow> 'op list \<Rightarrow> 's option" where
  "run_opt step s [] = Some s"
| "run_opt step s (x # xs) = Option.bind (step s x) (\<lambda>s. run_opt step s xs)"

locale fallible_machine =
  fixes step :: "'s \<Rightarrow> 'op \<Rightarrow> 's option"
    and inv :: "'s \<Rightarrow> bool"
  assumes step_inv: "inv s \<Longrightarrow> step s x = Some s' \<Longrightarrow> inv s'"
begin

lemma run_inv: "inv s \<Longrightarrow> run_opt step s xs = Some s' \<Longrightarrow> inv s'"
  by (induction xs arbitrary: s) (auto split: bind_splits intro: step_inv)

end

end
