(* ===== verification/Errors.thy ===== *)
theory Errors
  imports Prelude
begin

text \<open>
  The error type of the WireGuard core (\<open>noise/errors.rs\<close>) and the results
  a tunnel operation hands back (\<open>noise/mod.rs\<close>, \<open>TunnResult\<close>).  A slice
  of the caller's buffer that a result carries is the list of its bytes.
\<close>

datatype WireGuardError =
    DestinationBufferTooSmall
  | IncorrectPacketLength
  | UnexpectedPacket
  | WrongPacketType
  | WrongIndex
  | WrongKey
  | InvalidTai64nTimestamp
  | WrongTai64nTimestamp
  | InvalidMac
  | InvalidAeadTag
  | InvalidCounter
  | DuplicateCounter
  | InvalidPacket
  | NoCurrentSession
  | LockFailed
  | ConnectionExpired
  | UnderLoad

text \<open>\<open>Ipv4Addr\<close> and \<open>Ipv6Addr\<close> by their octets.\<close>

datatype IpAddr = V4 bytes | V6 bytes

datatype TunnResult =
    Done
  | TErr WireGuardError
  | WriteToNetwork bytes
  | WriteToTunnelV4 bytes bytes
  | WriteToTunnelV6 bytes bytes

text \<open>\<open>unwrap_or_else(TunnResult::from)\<close> on a \<open>Result\<close>.\<close>

fun tunn_result :: "WireGuardError + TunnResult \<Rightarrow> TunnResult" where
  "tunn_result (Inl e) = TErr e"
| "tunn_result (Inr r) = r"

text \<open>The \<open>?\<close> operator and \<open>Result::and_then\<close>.\<close>

fun and_then :: "'e + 'a \<Rightarrow> ('a \<Rightarrow> 'e + 'b) \<Rightarrow> 'e + 'b" where
  "and_then (Inl e) f = Inl e"
| "and_then (Inr x) f = f x"

lemma and_then_Inr: "and_then r f = Inr y \<longleftrightarrow> (\<exists>x. r = Inr x \<and> f x = Inr y)"
  by (cases r) auto

end
