(* ===== verification/Replay_Window.thy ===== *)
theory Replay_Window
  imports Errors
begin

text \<open>
  The replay filter of a session: \<open>ReceivingKeyCounterValidator\<close> of
  \<open>noise/session.rs\<close>, a ring of 1024 bits over the last counters, with its
  operations on machine words as the code has them.  The lemmas show that it
  implements a set of received counters (\<open>window_rep\<close>), and the locale
  \<open>replay_filter\<close> is the contract the session relies on.
\<close>

section \<open>The validator\<close>

definition WORD_SIZE :: u64 where "WORD_SIZE = 64"
definition N_WORDS :: u64 where "N_WORDS = 16"
definition N_BITS :: u64 where "N_BITS = WORD_SIZE * N_WORDS"

record validator =
  rk_next :: u64
  receive_cnt :: u64
  bitmap :: "u64 list"

definition validator_default :: validator where
  "validator_default = \<lparr>rk_next = 0, receive_cnt = 0, bitmap = replicate 16 0\<rparr>"

definition word_of_idx :: "u64 \<Rightarrow> nat" where
  "word_of_idx idx = unat (idx mod N_BITS div WORD_SIZE)"

definition bit_of_idx :: "u64 \<Rightarrow> nat" where
  "bit_of_idx idx = unat (idx mod N_BITS mod WORD_SIZE)"

definition set_bit_at :: "validator \<Rightarrow> u64 \<Rightarrow> validator" where
  "set_bit_at v idx = (let w = word_of_idx idx in
     v\<lparr>bitmap := (bitmap v)[w := (bitmap v ! w) OR push_bit (bit_of_idx idx) 1]\<rparr>)"

definition clear_bit_at :: "validator \<Rightarrow> u64 \<Rightarrow> validator" where
  "clear_bit_at v idx = (let w = word_of_idx idx in
     v\<lparr>bitmap := (bitmap v)[w := (bitmap v ! w) AND NOT (push_bit (bit_of_idx idx) 1)]\<rparr>)"

text \<open>Clear the word that contains \<open>idx\<close>.\<close>

definition clear_word :: "validator \<Rightarrow> u64 \<Rightarrow> validator" where
  "clear_word v idx = v\<lparr>bitmap := (bitmap v)[word_of_idx idx := 0]\<rparr>"

definition check_bit :: "validator \<Rightarrow> u64 \<Rightarrow> bool" where
  "check_bit v idx \<longleftrightarrow> drop_bit (bit_of_idx idx) (bitmap v ! word_of_idx idx) AND 1 = 1"

definition will_accept :: "validator \<Rightarrow> u64 \<Rightarrow> WireGuardError + unit" where
  "will_accept v counter =
     (if counter \<ge> rk_next v then Inr ()
      else if counter + N_BITS < rk_next v then Inl InvalidCounter
      else if \<not> check_bit v counter then Inr ()
      else Inl DuplicateCounter)"

text \<open>
  The three loops of \<open>mark_did_receive\<close> that clear the bits of skipped
  counters.  The first and the last stop because \<open>i\<close> climbs to \<open>counter\<close>; the
  middle one adds 64 with wrap-around, and does not stop for every argument.
\<close>

function clear_to_aligned :: "validator \<Rightarrow> u64 \<Rightarrow> u64 \<Rightarrow> validator \<times> u64" where
  "clear_to_aligned v i counter =
     (if i mod WORD_SIZE \<noteq> 0 \<and> i < counter
      then clear_to_aligned (clear_bit_at v i) (i + 1) counter else (v, i))"
  by pat_completeness auto
termination
proof (relation "measure (\<lambda>(v, i, c). unat c - unat i)", goal_cases)
  case (2 v i counter)
  then have "i < counter" by simp
  then have "unat (i + 1) = unat i + 1" and "unat i < unat counter"
    by (simp_all add: word_less_nat_alt unat_inc_u64)
  then show ?case by simp
qed simp

partial_function (option) clear_words ::
  "validator \<Rightarrow> u64 \<Rightarrow> u64 \<Rightarrow> (validator \<times> u64) option" where
  "clear_words v i counter =
     (if i + WORD_SIZE < counter
      then clear_words (clear_word v i) ((i + WORD_SIZE) AND (0 - WORD_SIZE)) counter
      else Some (v, i))"

function clear_rest :: "validator \<Rightarrow> u64 \<Rightarrow> u64 \<Rightarrow> validator" where
  "clear_rest v i counter =
     (if i < counter then clear_rest (clear_bit_at v i) (i + 1) counter else v)"
  by pat_completeness auto
termination
proof (relation "measure (\<lambda>(v, i, c). unat c - unat i)", goal_cases)
  case (2 v i counter)
  then have "unat (i + 1) = unat i + 1" and "unat i < unat counter"
    by (simp_all add: word_less_nat_alt unat_inc_u64)
  then show ?case by simp
qed simp

declare clear_to_aligned.simps [simp del] clear_rest.simps [simp del]

definition skip_counters :: "validator \<Rightarrow> u64 \<Rightarrow> validator option" where
  "skip_counters v counter =
     (if counter - rk_next v \<ge> N_BITS
      then Some (v\<lparr>bitmap := map (\<lambda>_. 0) (bitmap v)\<rparr>)
      else let (v1, i1) = clear_to_aligned v (rk_next v) counter in
        do { (v2, i2) \<leftarrow> clear_words v1 i1 counter; Some (clear_rest v2 i2 counter) })"

definition mark_did_receive ::
  "validator \<Rightarrow> u64 \<Rightarrow> ((WireGuardError + unit) \<times> validator) option" where
  "mark_did_receive v counter =
     (if counter + N_BITS < rk_next v then Some (Inl InvalidCounter, v)
      else if counter = rk_next v
      then Some (Inr (), (set_bit_at v counter)\<lparr>rk_next := rk_next v + 1\<rparr>)
      else if counter < rk_next v
      then (if check_bit v counter then Some (Inl InvalidCounter, v)
            else Some (Inr (), set_bit_at v counter))
      else do {
        v' \<leftarrow> skip_counters v counter;
        Some (Inr (), (set_bit_at v' counter)\<lparr>rk_next := counter + 1\<rparr>) })"

section \<open>Reading the bitmap\<close>

text \<open>Bit \<open>p\<close> of the ring, \<open>p < 1024\<close>; counter \<open>c\<close> lives at bit \<open>c mod 1024\<close>.\<close>

definition ring_bit :: "validator \<Rightarrow> nat \<Rightarrow> bool" where
  "ring_bit v p \<longleftrightarrow> bit (bitmap v ! (p div 64)) (p mod 64)"

lemma idx_simps [simp]:
  "word_of_idx idx = unat idx mod 1024 div 64"
  "bit_of_idx idx = unat idx mod 1024 mod 64"
  by (simp_all add: word_of_idx_def bit_of_idx_def N_BITS_def WORD_SIZE_def N_WORDS_def
      unat_div unat_mod)

lemma ring_pos_split:
  assumes "p < 1024" "q < 1024" "p div 64 = q div 64" "p mod 64 = q mod 64"
  shows "p = (q :: nat)"
  using assms by (metis div_mult_mod_eq)

lemma check_bit_ring: "check_bit v idx \<longleftrightarrow> ring_bit v (unat idx mod 1024)"
  by (simp add: check_bit_def ring_bit_def and_one_eq bit_drop_bit_eq mod_2_eq_odd
      flip: bit_iff_odd_drop_bit)

lemma ring_bit_set_bit_at:
  assumes "length (bitmap v) = 16" "p < 1024"
  shows "ring_bit (set_bit_at v idx) p \<longleftrightarrow> p = unat idx mod 1024 \<or> ring_bit v p"
proof -
  have "p div 64 < 16" using assms(2) by simp
  then show ?thesis
    using assms ring_pos_split [of p "unat idx mod 1024"]
    by (auto simp: ring_bit_def set_bit_at_def Let_def nth_list_update bit_or_iff
        bit_exp_iff)
qed

lemma ring_bit_clear_bit_at:
  assumes "length (bitmap v) = 16" "p < 1024"
  shows "ring_bit (clear_bit_at v idx) p \<longleftrightarrow> p \<noteq> unat idx mod 1024 \<and> ring_bit v p"
proof -
  have "p div 64 < 16" using assms(2) by simp
  then show ?thesis
    using assms ring_pos_split [of p "unat idx mod 1024"]
    by (auto simp: ring_bit_def clear_bit_at_def Let_def nth_list_update bit_and_iff
        bit_not_iff bit_exp_iff)
qed

lemma ring_bit_clear_word:
  assumes "length (bitmap v) = 16" "p < 1024"
  shows "ring_bit (clear_word v idx) p \<longleftrightarrow>
    p div 64 \<noteq> unat idx mod 1024 div 64 \<and> ring_bit v p"
  using assms by (auto simp: ring_bit_def clear_word_def nth_list_update)

section \<open>Clearing a range of counters\<close>

text \<open>\<open>cleared v v' i j\<close>: \<open>v'\<close> is \<open>v\<close> with the bits of the counters
  \<open>i, \<dots>, j - 1\<close> cleared and nothing else changed.\<close>

definition cleared :: "validator \<Rightarrow> validator \<Rightarrow> nat \<Rightarrow> nat \<Rightarrow> bool" where
  "cleared v v' i j \<longleftrightarrow> length (bitmap v') = 16 \<and> rk_next v' = rk_next v \<and>
     receive_cnt v' = receive_cnt v \<and>
     (\<forall>p<1024. ring_bit v' p \<longleftrightarrow> ring_bit v p \<and> (\<forall>k. i \<le> k \<and> k < j \<longrightarrow> p \<noteq> k mod 1024))"

lemma cleared_refl: "length (bitmap v) = 16 \<Longrightarrow> cleared v v i i"
  by (auto simp: cleared_def)

lemma cleared_trans:
  assumes "cleared u v i j" "cleared v w j k" "i \<le> j" "j \<le> k"
  shows "cleared u w i k"
proof -
  have "(\<forall>m. i \<le> m \<and> m < k \<longrightarrow> p \<noteq> m mod 1024) \<longleftrightarrow>
      (\<forall>m. i \<le> m \<and> m < j \<longrightarrow> p \<noteq> m mod 1024) \<and>
      (\<forall>m. j \<le> m \<and> m < k \<longrightarrow> p \<noteq> m mod 1024)" for p
    using assms(3,4) by (metis le_less_trans less_le_trans linorder_not_le order_trans)
  then show ?thesis using assms(1,2) by (simp add: cleared_def conj_assoc)
qed

lemma cleared_clear_bit_at:
  assumes "length (bitmap v) = 16"
  shows "cleared v (clear_bit_at v i) (unat i) (unat i + 1)"
proof -
  have e: "(\<forall>k. unat i \<le> k \<and> k < Suc (unat i) \<longrightarrow> p \<noteq> k mod 1024) \<longleftrightarrow> p \<noteq> unat i mod 1024" for p
    by (metis le_antisym lessI less_Suc_eq_le order_refl)
  moreover have "length (bitmap (clear_bit_at v i)) = 16"
      "rk_next (clear_bit_at v i) = rk_next v" "receive_cnt (clear_bit_at v i) = receive_cnt v"
    using assms by (simp_all add: clear_bit_at_def Let_def)
  moreover have "ring_bit (clear_bit_at v i) p \<longleftrightarrow> ring_bit v p \<and> p \<noteq> unat i mod 1024"
    if "p < 1024" for p
    using ring_bit_clear_bit_at [OF assms that, of i] by blast
  ultimately show ?thesis by (simp add: cleared_def)
qed

text \<open>A run of 1024 counters goes round the whole ring.\<close>

lemma ring_pos_reached:
  assumes "p < 1024" "i + 1024 \<le> j"
  shows "\<exists>k. i \<le> k \<and> k < j \<and> p = k mod (1024 :: nat)"
proof -
  let ?k = "i + (p + 1024 - i mod 1024) mod 1024"
  have "?k mod 1024 = (i mod 1024 + (p + 1024 - i mod 1024)) mod 1024"
    by (simp only: mod_add_left_eq mod_add_right_eq)
  moreover have "i mod 1024 < 1024" by simp
  then have "i mod 1024 + (p + 1024 - i mod 1024) = p + 1024" by linarith
  ultimately have "?k mod 1024 = (p + 1024) mod 1024" by (simp only:)
  then have "?k mod 1024 = p" using assms(1) by (simp only: mod_add_self2 mod_less)
  moreover have "?k < i + 1024" by simp
  ultimately show ?thesis using assms(2) by (intro exI [of _ ?k]) simp
qed

lemma word_of_ring:
  assumes "i mod 64 = 0" "p < (1024 :: nat)"
  shows "p div 64 = i mod 1024 div 64 \<longleftrightarrow> (\<exists>k. i \<le> k \<and> k < i + 64 \<and> p = k mod 1024)"
proof
  assume h: "p div 64 = i mod 1024 div 64"
  have "i mod 1024 mod 64 = 0" using assms(1) by (simp add: mod_mod_cancel)
  then have "p = i mod 1024 + p mod 64"
    using h by (metis add.right_neutral div_mult_mod_eq)
  moreover have "(i + p mod 64) mod 1024 = i mod 1024 + p mod 64"
    using calculation assms(2) by (metis mod_add_left_eq mod_less)
  ultimately have "p = (i + p mod 64) mod 1024" by simp
  moreover have "p mod 64 < 64" by simp
  ultimately show "\<exists>k. i \<le> k \<and> k < i + 64 \<and> p = k mod 1024"
    by (intro exI [of _ "i + p mod 64"]) simp
next
  assume "\<exists>k. i \<le> k \<and> k < i + 64 \<and> p = k mod 1024"
  then obtain k where k: "i \<le> k" "k < i + 64" "p = k mod 1024" by blast
  have m: "n mod 1024 div 64 = n div 64 mod 16" for n :: nat
    using mod_mult2_eq [of n 64 16] by simp
  obtain q where q: "i = 64 * q" using assms(1) by (auto elim: dvdE simp: mod_eq_0_iff_dvd)
  have "k div 64 = q" by (rule div_nat_eqI) (use k(1,2) q in simp_all)
  then have "k div 64 = i div 64" using q by simp
  then show "p div 64 = i mod 1024 div 64" using k(3) by (simp add: m)
qed

lemma cleared_clear_word:
  assumes "length (bitmap v) = 16" "unat i mod 64 = 0"
  shows "cleared v (clear_word v i) (unat i) (unat i + 64)"
proof -
  have "(\<forall>k. unat i \<le> k \<and> k < unat i + 64 \<longrightarrow> p \<noteq> k mod 1024) \<longleftrightarrow>
      p div 64 \<noteq> unat i mod 1024 div 64" if "p < 1024" for p
    using word_of_ring [OF assms(2) that] by blast
  then show ?thesis
    using assms(1) by (simp add: cleared_def ring_bit_clear_word conj_commute) (simp add: clear_word_def)
qed

lemma clear_to_aligned_cleared:
  assumes "length (bitmap v) = 16" "i \<le> counter"
    and "clear_to_aligned v i counter = (v', i')"
  shows "cleared v v' (unat i) (unat i') \<and> i \<le> i' \<and> i' \<le> counter \<and>
    (unat i' mod 64 = 0 \<or> i' = counter)"
  using assms
proof (induction v i counter rule: clear_to_aligned.induct)
  case (1 v i counter)
  show ?case
  proof (cases "i mod WORD_SIZE \<noteq> 0 \<and> i < counter")
    case True
    then have lt: "i < counter" by simp
    note le = inc_le_u64 [OF lt] and inc = unat_inc_u64 [OF lt]
    have len: "length (bitmap (clear_bit_at v i)) = 16"
      using "1.prems"(1) by (simp add: clear_bit_at_def Let_def)
    have eq: "clear_to_aligned (clear_bit_at v i) (i + 1) counter = (v', i')"
      using True "1.prems"(3) by (simp add: clear_to_aligned.simps [of v])
    have IH: "cleared (clear_bit_at v i) v' (unat (i + 1)) (unat i') \<and> i + 1 \<le> i' \<and>
        i' \<le> counter \<and> (unat i' mod 64 = 0 \<or> i' = counter)"
      by (rule "1.IH" [OF True len le eq])
    moreover have "cleared v (clear_bit_at v i) (unat i) (unat i + 1)"
      by (rule cleared_clear_bit_at [OF "1.prems"(1)])
    ultimately show ?thesis
      using inc by (auto simp: word_le_nat_alt intro: cleared_trans)
  next
    case False
    then have "clear_to_aligned v i counter = (v, i)"
      by (simp only: clear_to_aligned.simps [of v] if_False)
    then have "v' = v" "i' = i" using "1.prems"(3) by simp_all
    moreover have "unat i mod 64 = 0 \<or> i = counter"
    proof (cases "i < counter")
      case True
      then have "i mod 64 = 0" using False by (simp add: WORD_SIZE_def)
      then have "unat (i mod 64) = 0" by simp
      then show ?thesis by (simp add: unat_mod)
    next
      case False
      then show ?thesis using "1.prems"(2) by simp
    qed
    ultimately show ?thesis using "1.prems"(1,2) by (simp add: cleared_refl)
  qed
qed

lemma clear_rest_cleared:
  assumes "length (bitmap v) = 16" "i \<le> counter"
  shows "cleared v (clear_rest v i counter) (unat i) (unat counter)"
  using assms
proof (induction v i counter rule: clear_rest.induct)
  case (1 v i counter)
  show ?case
  proof (cases "i < counter")
    case True
    then have lt: "i < counter" by simp
    note le = inc_le_u64 [OF lt] and inc = unat_inc_u64 [OF lt]
    have len: "length (bitmap (clear_bit_at v i)) = 16"
      using "1.prems"(1) by (simp add: clear_bit_at_def Let_def)
    have "cleared (clear_bit_at v i) (clear_rest (clear_bit_at v i) (i + 1) counter)
        (unat (i + 1)) (unat counter)"
      by (rule "1.IH" [OF True len le])
    moreover have "cleared v (clear_bit_at v i) (unat i) (unat i + 1)"
      by (rule cleared_clear_bit_at [OF "1.prems"(1)])
    ultimately show ?thesis
      using True inc le by (auto simp: clear_rest.simps [of v] word_le_nat_alt intro: cleared_trans)
  next
    case False
    then show ?thesis using "1.prems" by (simp add: clear_rest.simps [of v] cleared_refl)
  qed
qed

lemma and_align_64:
  assumes "unat (x :: u64) mod 64 = 0"
  shows "x AND (0 - 64) = x"
proof -
  have "take_bit 6 x = 0"
    using assms by (simp add: take_bit_eq_mod word_unat_eq_iff unat_mod)
  then have "\<not> bit x n" if "n < 6" for n
    using that by (metis bit_0_eq bit_take_bit_iff bot_apply bot_bool_def)
  then have "x AND NOT (mask 6) = x"
    by (intro bit_word_eqI) (simp add: bit_and_iff bit_not_iff bit_mask_iff, metis not_less)
  moreover have "(0 :: u64) - 64 = NOT (mask 6)" by (simp add: mask_eq_exp_minus_1)
  ultimately show ?thesis by (simp only:)
qed

lemma clear_words_cleared:
  assumes "length (bitmap v) = 16" "i \<le> counter" "unat i mod 64 = 0 \<or> i = counter"
    and "unat counter + 64 < 18446744073709551616"
  shows "\<exists>v' i'. clear_words v i counter = Some (v', i') \<and> cleared v v' (unat i) (unat i') \<and>
    i \<le> i' \<and> i' \<le> counter"
  using assms
proof (induction "unat counter - unat i" arbitrary: v i rule: less_induct)
  case less
  have sum: "unat (i + 64) = unat i + 64"
    using less.prems(2,4) by (simp add: unat_add_u64 word_le_nat_alt)
  show ?case
  proof (cases "i + WORD_SIZE < counter")
    case True
    then have lt: "unat i + 64 < unat counter" by (simp add: WORD_SIZE_def word_less_nat_alt sum)
    then have al: "unat i mod 64 = 0" using less.prems(3) by auto
    then have al': "unat (i + 64) mod 64 = 0" by (simp add: sum)
    have len: "length (bitmap (clear_word v i)) = 16"
      using less.prems(1) by (simp add: clear_word_def)
    have "unat counter - unat (i + 64) < unat counter - unat i" "i + 64 \<le> counter"
      using lt by (simp_all add: sum word_le_nat_alt)
    from less.hyps [OF this(1) len this(2) _ less.prems(4)] al' obtain v' i' where
      IH: "clear_words (clear_word v i) (i + 64) counter = Some (v', i')"
        "cleared (clear_word v i) v' (unat (i + 64)) (unat i')" "i + 64 \<le> i'" "i' \<le> counter"
      by blast
    have "clear_words v i counter = Some (v', i')"
      using True IH(1) and_align_64 [OF al'] by (simp add: clear_words.simps [of v] WORD_SIZE_def)
    moreover have "cleared v v' (unat i) (unat i')"
      using cleared_clear_word [OF less.prems(1) al] IH(2,3)
      by (auto simp: sum word_le_nat_alt intro: cleared_trans)
    moreover have "i \<le> i'" using IH(3) by (simp add: word_le_nat_alt sum)
    ultimately show ?thesis using IH(4) by blast
  next
    case False
    then have "clear_words v i counter = Some (v, i)" by (simp add: clear_words.simps [of v])
    then show ?thesis using less.prems(1,2) by (simp add: cleared_refl)
  qed
qed

lemma skip_counters_cleared:
  assumes "length (bitmap v) = 16" "rk_next v \<le> counter"
    and "unat counter + 64 < 18446744073709551616"
  shows "\<exists>v'. skip_counters v counter = Some v' \<and> cleared v v' (unat (rk_next v)) (unat counter)"
proof (cases "counter - rk_next v \<ge> N_BITS")
  case True
  then have "unat (rk_next v) + 1024 \<le> unat counter"
    using assms(2) by (simp add: N_BITS_def WORD_SIZE_def N_WORDS_def word_le_nat_alt unat_sub)
  then have "\<exists>k. unat (rk_next v) \<le> k \<and> k < unat counter \<and> p = k mod 1024"
    if "p < 1024" for p
    by (intro ring_pos_reached [OF that])
  moreover have "\<not> ring_bit (v\<lparr>bitmap := map (\<lambda>_. 0) (bitmap v)\<rparr>) p" if "p < 1024" for p
    using that assms(1) by (simp add: ring_bit_def)
  ultimately have "cleared v (v\<lparr>bitmap := map (\<lambda>_. 0) (bitmap v)\<rparr>) (unat (rk_next v)) (unat counter)"
    using assms(1) by (simp add: cleared_def)
  then show ?thesis using True by (simp add: skip_counters_def)
next
  case False
  obtain v1 i1 where e1: "clear_to_aligned v (rk_next v) counter = (v1, i1)"
    by (cases "clear_to_aligned v (rk_next v) counter")
  have c1: "cleared v v1 (unat (rk_next v)) (unat i1)" "rk_next v \<le> i1" "i1 \<le> counter"
      "unat i1 mod 64 = 0 \<or> i1 = counter"
    using clear_to_aligned_cleared [OF assms(1,2) e1] by simp_all
  have len1: "length (bitmap v1) = 16" using c1(1) by (simp add: cleared_def)
  obtain v2 i2 where e2: "clear_words v1 i1 counter = Some (v2, i2)"
    and c2: "cleared v1 v2 (unat i1) (unat i2)" "i1 \<le> i2" "i2 \<le> counter"
    using clear_words_cleared [OF len1 c1(3,4) assms(3)] by blast
  have len2: "length (bitmap v2) = 16" using c2(1) by (simp add: cleared_def)
  have c3: "cleared v2 (clear_rest v2 i2 counter) (unat i2) (unat counter)"
    by (rule clear_rest_cleared [OF len2 c2(3)])
  have "cleared v (clear_rest v2 i2 counter) (unat (rk_next v)) (unat counter)"
    using c1 c2 c3 by (meson cleared_trans word_le_nat_alt order_trans)
  then show ?thesis using False e1 e2 by (simp add: skip_counters_def)
qed

section \<open>The set of counters a window stands for\<close>

text \<open>
  The abstract filter is the bound \<open>N\<close> of the counters seen and the set \<open>R\<close>
  of those received.  \<open>window_rep v N R\<close> relates it to the ring of bits, which
  tells the last 1024 counters below \<open>N\<close>.
\<close>

definition window_rep :: "validator \<Rightarrow> nat \<Rightarrow> nat set \<Rightarrow> bool" where
  "window_rep v N R \<longleftrightarrow> length (bitmap v) = 16 \<and> unat (rk_next v) = N \<and>
     (\<forall>c\<in>R. c < N) \<and> (\<forall>c<N. N \<le> c + 1024 \<longrightarrow> (ring_bit v (c mod 1024) \<longleftrightarrow> c \<in> R))"

text \<open>What a replay filter promises: too old, already seen, or new.\<close>

definition spec_verdict :: "nat \<Rightarrow> nat set \<Rightarrow> nat \<Rightarrow> WireGuardError + unit" where
  "spec_verdict N R c = (if c + 1024 < N then Inl InvalidCounter
     else if c \<in> R then Inl DuplicateCounter else Inr ())"

lemma window_rep_default: "window_rep validator_default 0 {}"
  by (simp add: window_rep_def validator_default_def)

lemma unat_add_1024:
  "unat c < 18446744073709550592 \<Longrightarrow> unat (c + N_BITS) = unat c + 1024"
  by (simp add: N_BITS_def WORD_SIZE_def N_WORDS_def unat_add_u64)

lemma will_accept_refines:
  assumes "window_rep v N R" "unat c < 18446744073709550592"
  shows "will_accept v c = spec_verdict N R (unat c)"
  using assms unat_add_1024 [OF assms(2)]
  by (auto simp: will_accept_def spec_verdict_def window_rep_def check_bit_ring
      word_le_nat_alt word_less_nat_alt)

lemma ring_pos_distinct:
  assumes "(a :: nat) < b" "b < a + 1024"
  shows "a mod 1024 \<noteq> b mod 1024"
proof
  assume "a mod 1024 = b mod 1024"
  then have "1024 dvd b - a" using assms(1) by (metis less_imp_le mod_eq_dvd_iff_nat)
  then have "1024 \<le> b - a" using assms(1) by (intro dvd_imp_le) simp_all
  then show False using assms by simp
qed

definition spec_mark ::
  "nat \<Rightarrow> nat set \<Rightarrow> nat \<Rightarrow> (WireGuardError + unit) \<times> nat \<times> nat set" where
  "spec_mark N R c = (case spec_verdict N R c of
     Inl _ \<Rightarrow> (Inl InvalidCounter, N, R)
   | Inr _ \<Rightarrow> (Inr (), max N (c + 1), insert c R))"

lemma ring_bit_rk_next [simp]: "ring_bit (v\<lparr>rk_next := n\<rparr>) p = ring_bit v p"
  by (simp add: ring_bit_def)

lemma set_bit_at_fields [simp, frame_simps]:
  "length (bitmap (set_bit_at v c)) = length (bitmap v)"
  "rk_next (set_bit_at v c) = rk_next v"
  "receive_cnt (set_bit_at v c) = receive_cnt v"
  by (simp_all add: set_bit_at_def Let_def)

lemma window_rep_set_bit:
  assumes "window_rep v N R" "unat c < N" "N \<le> unat c + 1024"
  shows "window_rep (set_bit_at v c) N (insert (unat c) R)"
proof -
  have len: "length (bitmap v) = 16" using assms(1) by (simp add: window_rep_def)
  have "ring_bit (set_bit_at v c) (d mod 1024) \<longleftrightarrow> d \<in> insert (unat c) R"
    if d: "d < N" "N \<le> d + 1024" for d
  proof -
    have "d mod 1024 = unat c mod 1024 \<longleftrightarrow> d = unat c"
    proof (cases d "unat c" rule: linorder_cases)
      case less
      then have "d mod 1024 \<noteq> unat c mod 1024"
        by (rule ring_pos_distinct) (use d assms(2) in linarith)
      then show ?thesis using less by simp
    next
      case greater
      then have "unat c mod 1024 \<noteq> d mod 1024"
        by (rule ring_pos_distinct) (use d assms(3) in linarith)
      then show ?thesis using greater by simp
    qed simp
    moreover have "ring_bit v (d mod 1024) \<longleftrightarrow> d \<in> R"
      using assms(1) d by (simp add: window_rep_def)
    ultimately show ?thesis by (simp add: ring_bit_set_bit_at [OF len])
  qed
  then show ?thesis using assms(1,2) by (simp add: window_rep_def)
qed

lemma window_rep_advance:
  assumes rep: "window_rep v N R" and cl: "cleared v v' N (unat c)" and le: "N \<le> unat c"
    and nx: "unat n = unat c + 1"
  shows "window_rep ((set_bit_at v' c)\<lparr>rk_next := n\<rparr>) (unat c + 1) (insert (unat c) R)"
proof -
  have len: "length (bitmap v') = 16" using cl by (simp add: cleared_def)
  have "ring_bit (set_bit_at v' c) (d mod 1024) \<longleftrightarrow> d \<in> insert (unat c) R"
    if d: "d < unat c + 1" "unat c + 1 \<le> d + 1024" for d
  proof (cases "d = unat c")
    case True
    then show ?thesis by (simp add: ring_bit_set_bit_at [OF len])
  next
    case False
    then have dc: "d < unat c" using d by simp
    have "d mod 1024 \<noteq> unat c mod 1024" by (rule ring_pos_distinct) (use dc d in simp_all)
    then have r: "ring_bit (set_bit_at v' c) (d mod 1024) \<longleftrightarrow> ring_bit v' (d mod 1024)"
      by (simp add: ring_bit_set_bit_at [OF len])
    have cl': "ring_bit v' (d mod 1024) \<longleftrightarrow> ring_bit v (d mod 1024) \<and>
        (\<forall>k. N \<le> k \<and> k < unat c \<longrightarrow> d mod 1024 \<noteq> k mod 1024)"
      using cl by (simp add: cleared_def)
    show ?thesis
    proof (cases "d < N")
      case True
      then have "\<forall>k. N \<le> k \<and> k < unat c \<longrightarrow> d mod 1024 \<noteq> k mod 1024"
        using d by (intro allI impI ring_pos_distinct) simp_all
      moreover have "ring_bit v (d mod 1024) \<longleftrightarrow> d \<in> R"
        using rep True d le by (simp add: window_rep_def)
      ultimately show ?thesis using r cl' False by simp
    next
      case dN: False
      then have "d \<notin> R" using rep unfolding window_rep_def by blast
      moreover have "\<not> ring_bit v' (d mod 1024)"
      proof
        assume "ring_bit v' (d mod 1024)"
        then have "\<forall>k. N \<le> k \<and> k < unat c \<longrightarrow> d mod 1024 \<noteq> k mod 1024" using cl' by blast
        from this [rule_format, of d] dN dc show False by simp
      qed
      ultimately show ?thesis using r False by simp
    qed
  qed
  moreover have "\<forall>d\<in>insert (unat c) R. d < unat c + 1"
    using rep le by (auto simp: window_rep_def)
  ultimately show ?thesis using len nx by (simp add: window_rep_def)
qed

text \<open>Below the last 1024 counters of the \<open>u64\<close> range, marking returns and
  does what the abstract filter does.\<close>

lemma mark_refines:
  assumes rep: "window_rep v N R" and small: "unat c < 18446744073709550592"
  shows "\<exists>r v' N' R'. mark_did_receive v c = Some (r, v') \<and>
    spec_mark N R (unat c) = (r, N', R') \<and> window_rep v' N' R'"
proof -
  note add = unat_add_1024 [OF small]
  have len: "length (bitmap v) = 16" and nx: "unat (rk_next v) = N"
    and below: "\<And>d. d \<in> R \<Longrightarrow> d < N"
    using rep by (auto simp: window_rep_def)
  have inc: "unat (c + 1) = unat c + 1" using small by (simp add: unat_add_u64)
  consider "unat c + 1024 < N" | "unat c = N" | "unat c < N" "N \<le> unat c + 1024" | "N < unat c"
    by linarith
  then show ?thesis
  proof cases
    case 1
    then show ?thesis using rep nx add
      by (simp add: mark_did_receive_def word_less_nat_alt spec_mark_def spec_verdict_def)
  next
    case 2
    then have "c = rk_next v" using nx by (simp add: word_unat_eq_iff)
    moreover have "window_rep ((set_bit_at v c)\<lparr>rk_next := c + 1\<rparr>) (unat c + 1) (insert (unat c) R)"
      using window_rep_advance [OF rep _ _ inc] 2 cleared_refl [OF len] by simp
    moreover have "unat c \<notin> R" using below 2 by blast
    ultimately show ?thesis using 2 nx add
      by (simp add: mark_did_receive_def word_less_nat_alt spec_mark_def spec_verdict_def)
  next
    case 3
    then have ne: "c \<noteq> rk_next v" "c < rk_next v" "\<not> c + N_BITS < rk_next v"
      using nx add by (auto simp: word_less_nat_alt)
    have "check_bit v c \<longleftrightarrow> unat c \<in> R"
      using rep 3 by (simp add: check_bit_ring window_rep_def)
    then show ?thesis using 3 ne rep window_rep_set_bit [OF rep 3]
      by (simp add: mark_did_receive_def spec_mark_def spec_verdict_def max_absorb1)
  next
    case 4
    then have ne: "c \<noteq> rk_next v" "\<not> c < rk_next v" "\<not> c + N_BITS < rk_next v"
      using nx add by (auto simp: word_less_nat_alt)
    have "rk_next v \<le> c" using 4 nx by (simp add: word_le_nat_alt)
    from skip_counters_cleared [OF len this] small obtain v' where
      v': "skip_counters v c = Some v'" "cleared v v' N (unat c)" using nx by auto
    have "window_rep ((set_bit_at v' c)\<lparr>rk_next := c + 1\<rparr>) (unat c + 1) (insert (unat c) R)"
      using window_rep_advance [OF rep v'(2) _ inc] 4 by simp
    moreover have "unat c \<notin> R" using below 4 by fastforce
    ultimately show ?thesis using 4 ne v'(1)
      by (simp add: mark_did_receive_def spec_mark_def spec_verdict_def max_def)
  qed
qed

section \<open>The contract of a replay filter\<close>

text \<open>
  A filter marks items one by one and says for each whether it was accepted;
  \<open>key x\<close> is the counter of item \<open>x\<close>.  \<open>rep s R\<close> says that state
  \<open>s\<close> stands for the set \<open>R\<close> of accepted counters, \<open>ok x\<close> that the item is
  in the range the filter is made for.
\<close>

fun accepted_run ::
  "('s \<Rightarrow> 'p \<Rightarrow> (bool \<times> 's) option) \<Rightarrow> 's \<Rightarrow> 'p list \<Rightarrow> ('p list \<times> 's) option" where
  "accepted_run mark s [] = Some ([], s)"
| "accepted_run mark s (x # xs) = do {
     (b, s1) \<leftarrow> mark s x;
     (acc, s2) \<leftarrow> accepted_run mark s1 xs;
     Some (if b then x # acc else acc, s2) }"

locale replay_filter =
  fixes rep :: "'s \<Rightarrow> 'c set \<Rightarrow> bool"
    and mark :: "'s \<Rightarrow> 'p \<Rightarrow> (bool \<times> 's) option"
    and key :: "'p \<Rightarrow> 'c"
    and ok :: "'p \<Rightarrow> bool"
  assumes mark_returns: "rep s R \<Longrightarrow> ok x \<Longrightarrow> \<exists>b s'. mark s x = Some (b, s')"
    and mark_accepts: "rep s R \<Longrightarrow> ok x \<Longrightarrow> mark s x = Some (True, s') \<Longrightarrow>
      key x \<notin> R \<and> rep s' (insert (key x) R)"
    and mark_rejects: "rep s R \<Longrightarrow> ok x \<Longrightarrow> mark s x = Some (False, s') \<Longrightarrow> rep s' R"
begin

lemma run_distinct:
  assumes "rep s R" "\<forall>x\<in>set xs. ok x"
  shows "\<exists>acc s'. accepted_run mark s xs = Some (acc, s') \<and> distinct (map key acc) \<and>
    set acc \<subseteq> set xs \<and> key ` set acc \<inter> R = {} \<and> rep s' (R \<union> key ` set acc)"
  using assms
proof (induction xs arbitrary: s R)
  case Nil
  then show ?case by simp
next
  case (Cons x xs)
  have ok: "ok x" "\<forall>x\<in>set xs. ok x" using Cons.prems(2) by simp_all
  obtain b s1 where m: "mark s x = Some (b, s1)" using mark_returns [OF Cons.prems(1) ok(1)] by blast
  show ?case
  proof (cases b)
    case True
    then have f: "key x \<notin> R" "rep s1 (insert (key x) R)"
      using mark_accepts [OF Cons.prems(1) ok(1)] m by simp_all
    from Cons.IH [OF f(2) ok(2)] obtain acc s2 where
      "accepted_run mark s1 xs = Some (acc, s2)" "distinct (map key acc)" "set acc \<subseteq> set xs"
      "key ` set acc \<inter> insert (key x) R = {}" "rep s2 (insert (key x) R \<union> key ` set acc)"
      by blast
    then show ?thesis using m True f(1) by auto
  next
    case False
    then have "rep s1 R" using mark_rejects [OF Cons.prems(1) ok(1)] m by simp
    from Cons.IH [OF this ok(2)] show ?thesis using m False by auto
  qed
qed

end

definition mark_step :: "validator \<Rightarrow> u64 \<Rightarrow> (bool \<times> validator) option" where
  "mark_step v c = map_option (\<lambda>(r, v'). (r = Inr (), v')) (mark_did_receive v c)"

definition window_set :: "validator \<Rightarrow> u64 set \<Rightarrow> bool" where
  "window_set v R \<longleftrightarrow> (\<exists>N. window_rep v N (unat ` R))"

lemma spec_mark_cases:
  "spec_mark N R c = (r, N', R') \<Longrightarrow>
    (r = Inr () \<and> c \<notin> R \<and> R' = insert c R) \<or> (r \<noteq> Inr () \<and> N' = N \<and> R' = R)"
  by (auto simp: spec_mark_def spec_verdict_def split: if_splits)

interpretation rk: replay_filter window_set mark_step "\<lambda>c. c" "\<lambda>c. unat c < 18446744073709550592"
proof (unfold_locales, goal_cases)
  case (1 v R c)
  then show ?case using mark_refines [of v _ _ c] by (force simp: window_set_def mark_step_def)
next
  case (2 v R c v')
  then obtain N where "window_rep v N (unat ` R)" by (auto simp: window_set_def)
  from mark_refines [OF this 2(2)] obtain r v1 N' R' where
    "mark_did_receive v c = Some (r, v1)" "spec_mark N (unat ` R) (unat c) = (r, N', R')"
    "window_rep v1 N' R'" by blast
  then show ?case using 2(3) spec_mark_cases
    by (force simp: mark_step_def window_set_def)
next
  case (3 v R c v')
  then obtain N where "window_rep v N (unat ` R)" by (auto simp: window_set_def)
  from mark_refines [OF this 3(2)] obtain r v1 N' R' where
    "mark_did_receive v c = Some (r, v1)" "spec_mark N (unat ` R) (unat c) = (r, N', R')"
    "window_rep v1 N' R'" by blast
  then show ?case using 3(3) spec_mark_cases
    by (force simp: mark_step_def window_set_def)
qed

lemma mark_rejects_frame:
  "mark_did_receive v c = Some (r, v') \<Longrightarrow> r \<noteq> Inr () \<Longrightarrow> v' = v"
  by (auto simp: mark_did_receive_def bind_eq_Some_conv split: if_splits)

lemma window_set_default: "window_set validator_default {}"
  using window_rep_default by (auto simp: window_set_def)

lemma mark_did_receive_ok:
  assumes "length (bitmap v) = 16"
  shows "\<exists>r v'. mark_did_receive v c = Some (r, v') \<and> length (bitmap v') = 16"
proof (cases "unat c + 64 < 18446744073709551616")
  case True
  have "\<exists>v'. skip_counters v c = Some v' \<and> length (bitmap v') = 16" if "rk_next v \<le> c"
    using skip_counters_cleared [OF assms that True] by (auto simp: cleared_def)
  then show ?thesis
    using assms by (cases "rk_next v \<le> c") (auto simp: mark_did_receive_def)
next
  case False
  then have "unat (c + N_BITS) = unat c + 1024 - 18446744073709551616"
    using unat_u64_less [of c]
    by (simp add: unat_word_ariths mod_if N_BITS_def WORD_SIZE_def N_WORDS_def)
  then have w: "unat (c + N_BITS) < 1024" using unat_u64_less [of c] by simp
  show ?thesis
  proof (cases "c + N_BITS < rk_next v")
    case True
    then show ?thesis using assms by (simp add: mark_did_receive_def)
  next
    case nw: False
    then have nx: "unat (rk_next v) < 1024" using w by (simp add: word_less_nat_alt)
    then have "rk_next v \<le> c" using False by (simp add: word_le_nat_alt)
    then have "unat (c - rk_next v) = unat c - unat (rk_next v)" by (rule unat_sub)
    then have "N_BITS \<le> c - rk_next v"
      using nx False by (simp add: word_le_nat_alt N_BITS_def WORD_SIZE_def N_WORDS_def)
    then show ?thesis
      using nw assms by (auto simp: mark_did_receive_def skip_counters_def)
  qed
qed

section \<open>Properties\<close>

text \<open>Every call of \<open>mark_did_receive\<close> returns, for every counter of the
  \<open>u64\<close> range: the loops that clear skipped counters end, also where
  \<open>counter + N_BITS\<close> wraps around.\<close>

lemma mark_did_receive_returns:
  assumes "length (bitmap v) = 16"
  shows "\<exists>r v'. mark_did_receive v c = Some (r, v') \<and> length (bitmap v') = 16"
  by (rule mark_did_receive_ok [OF assms])

text \<open>C13: the bitmap validator implements the abstract filter: for a window that
  stands for the set \<open>R\<close> of received counters below \<open>N\<close>, \<open>will_accept\<close>
  answers as the abstract filter (too old, duplicate or acceptable) and
  \<open>mark_did_receive\<close> accepts exactly the acceptable counters and then stands for
  the set with the counter added.\<close>

theorem replay_window_refines:
  assumes "window_rep v N R" and "unat c < 18446744073709550592"
  shows "will_accept v c = spec_verdict N R (unat c) \<and>
    (case spec_verdict N R (unat c) of
       Inl _ \<Rightarrow> mark_did_receive v c = Some (Inl InvalidCounter, v)
     | Inr _ \<Rightarrow> \<exists>v'. mark_did_receive v c = Some (Inr (), v') \<and>
         window_rep v' (max N (unat c + 1)) (insert (unat c) R))"
proof -
  obtain r v' N' R' where m: "mark_did_receive v c = Some (r, v')"
      "spec_mark N R (unat c) = (r, N', R')" "window_rep v' N' R'"
    using mark_refines [OF assms] by blast
  then show ?thesis
    using will_accept_refines [OF assms] mark_rejects_frame [OF m(1)]
    by (auto simp: spec_mark_def split: sum.splits)
qed

theorem replay_window_refines_witness:
  "will_accept validator_default 7 = spec_verdict 0 {} 7 \<and>
   (\<exists>v'. mark_did_receive validator_default 7 = Some (Inr (), v') \<and> window_rep v' 8 {7})"
  using replay_window_refines [OF window_rep_default, of 7] by (simp add: spec_verdict_def)

text \<open>C12: no counter is accepted twice, whatever the order in which counters
  arrive: over every sequence of calls on a fresh validator the accepted counters
  are pairwise distinct.\<close>

theorem no_counter_accepted_twice:
  assumes "\<forall>c\<in>set cs. unat c < 18446744073709550592"
  shows "\<exists>acc v. accepted_run mark_step validator_default cs = Some (acc, v) \<and> distinct acc \<and>
    set acc \<subseteq> set cs \<and> window_set v (set acc)"
  using rk.run_distinct [OF window_set_default assms] by auto

theorem no_counter_accepted_twice_witness:
  "\<exists>acc v. accepted_run mark_step validator_default [5, 3, 5, 2000, 5] = Some (acc, v) \<and>
    distinct acc \<and> set acc \<subseteq> {5, 3, 2000} \<and> window_set v (set acc)"
  using no_counter_accepted_twice [of "[5, 3, 5, 2000, 5]"] by auto

text \<open>The bound of the window property is needed: a counter at the end of the
  \<open>u64\<close> range that arrives while \<open>next\<close> is below 1024 makes \<open>next\<close> wrap to
  0, and a counter received before is accepted again.\<close>

lemma replay_after_wrap:
  "map_option fst (accepted_run mark_step validator_default [5, - 1, 5]) = Some [5, - 1, 5]"
  by (simp add: mark_step_def mark_did_receive_def skip_counters_def N_BITS_def WORD_SIZE_def
      N_WORDS_def validator_default_def clear_to_aligned.simps clear_words.simps
      clear_rest.simps)

end
