(* ===== verification/Crypto_Api.thy ===== *)
theory Crypto_Api
  imports Errors
begin

text \<open>
  The cryptography the tunnel is built on.  BLAKE2s, HMAC, X25519,
  ChaCha20-Poly1305 and XChaCha20-Poly1305 come from third-party crates, so they
  are a parameter, the record \<open>crypto\<close>; \<open>crypto_ok\<close> states what the crates
  document: the lengths of outputs, that Diffie-Hellman commutes, that opening
  what was sealed gives it back and that only sealed boxes open.  The wrappers of
  \<open>noise/handshake.rs\<close> (lines 19 to 159) are definitions over the record.
  \<open>toy_crypto\<close> is a concrete record that satisfies \<open>crypto_ok\<close>, for the
  witnesses only.
\<close>

section \<open>The parameter\<close>

record crypto =
  cr_hash :: "bytes \<Rightarrow> bytes"
  cr_hmac :: "bytes \<Rightarrow> bytes \<Rightarrow> bytes"
  cr_mac16 :: "bytes \<Rightarrow> bytes \<Rightarrow> bytes"
  cr_mac24 :: "bytes \<Rightarrow> bytes \<Rightarrow> bytes"
  cr_pub :: "bytes \<Rightarrow> bytes"
  cr_dh :: "bytes \<Rightarrow> bytes \<Rightarrow> bytes"
  cr_seal :: "bytes \<Rightarrow> bytes \<Rightarrow> bytes \<Rightarrow> bytes \<Rightarrow> bytes"
  cr_open :: "bytes \<Rightarrow> bytes \<Rightarrow> bytes \<Rightarrow> bytes \<Rightarrow> bytes option"
  cr_xseal :: "bytes \<Rightarrow> bytes \<Rightarrow> bytes \<Rightarrow> bytes \<Rightarrow> bytes"
  cr_xopen :: "bytes \<Rightarrow> bytes \<Rightarrow> bytes \<Rightarrow> bytes \<Rightarrow> bytes option"

text \<open>Arguments of the sealed-box functions: key, nonce, associated data, and
  the plaintext or the ciphertext with its 16-byte tag.\<close>

definition crypto_ok :: "crypto \<Rightarrow> bool" where
  "crypto_ok cr \<longleftrightarrow>
     (\<forall>d. length (cr_hash cr d) = 32) \<and> (\<forall>k d. length (cr_hmac cr k d) = 32) \<and>
     (\<forall>k d. length (cr_mac16 cr k d) = 16) \<and> (\<forall>k d. length (cr_mac24 cr k d) = 24) \<and>
     (\<forall>k. length (cr_pub cr k) = 32) \<and> (\<forall>k p. length (cr_dh cr k p) = 32) \<and>
     (\<forall>a b. cr_dh cr a (cr_pub cr b) = cr_dh cr b (cr_pub cr a)) \<and>
     (\<forall>k n a p. length (cr_seal cr k n a p) = length p + 16) \<and>
     (\<forall>k n a p. cr_open cr k n a (cr_seal cr k n a p) = Some p) \<and>
     (\<forall>k n a x p. cr_open cr k n a x = Some p \<longrightarrow> cr_seal cr k n a p = x) \<and>
     (\<forall>k n a p. length (cr_xseal cr k n a p) = length p + 16) \<and>
     (\<forall>k n a p. cr_xopen cr k n a (cr_xseal cr k n a p) = Some p) \<and>
     (\<forall>k n a x p. cr_xopen cr k n a x = Some p \<longrightarrow> cr_xseal cr k n a p = x)"

named_theorems crypto_simps "consequences of crypto_ok"

lemma crypto_ok_simps [crypto_simps]:
  assumes "crypto_ok cr"
  shows "length (cr_hash cr d) = 32" "length (cr_hmac cr k d) = 32"
    "length (cr_mac16 cr k d) = 16" "length (cr_mac24 cr k d) = 24"
    "length (cr_pub cr k) = 32" "length (cr_dh cr k p) = 32"
    "length (cr_seal cr k n a p) = length p + 16"
    "cr_open cr k n a (cr_seal cr k n a p) = Some p"
    "length (cr_xseal cr k n a p) = length p + 16"
    "cr_xopen cr k n a (cr_xseal cr k n a p) = Some p"
  using assms by (auto simp: crypto_ok_def)

lemma dh_comm: "crypto_ok cr \<Longrightarrow> cr_dh cr a (cr_pub cr b) = cr_dh cr b (cr_pub cr a)"
  unfolding crypto_ok_def by (elim conjE allE) assumption

lemma open_sealed: "crypto_ok cr \<Longrightarrow> cr_open cr k n a x = Some p \<Longrightarrow> x = cr_seal cr k n a p"
  unfolding crypto_ok_def by metis

lemma open_length: "crypto_ok cr \<Longrightarrow> cr_open cr k n a x = Some p \<Longrightarrow> length x = length p + 16"
  by (frule (1) open_sealed) (simp add: crypto_simps)

lemma xopen_length: "crypto_ok cr \<Longrightarrow> cr_xopen cr k n a x = Some p \<Longrightarrow> length x = length p + 16"
  unfolding crypto_ok_def by metis

section \<open>The wrappers of handshake.rs\<close>

definition LABEL_MAC1 :: bytes where "LABEL_MAC1 = [109, 97, 99, 49, 45, 45, 45, 45]"
definition LABEL_COOKIE :: bytes where "LABEL_COOKIE = [99, 111, 111, 107, 105, 101, 45, 45]"

definition INITIAL_CHAIN_KEY :: bytes where
  "INITIAL_CHAIN_KEY =
    [96, 226, 109, 174, 243, 39, 239, 192, 46, 195, 53, 226, 160, 37, 210, 208, 22, 235, 66, 6, 248,
     114, 119, 245, 45, 56, 209, 152, 139, 120, 205, 54]"

definition INITIAL_CHAIN_HASH :: bytes where
  "INITIAL_CHAIN_HASH =
    [34, 17, 179, 97, 8, 26, 197, 102, 105, 18, 67, 219, 69, 138, 213, 50, 45, 156, 108, 102, 34,
     147, 232, 183, 14, 225, 156, 101, 186, 7, 158, 243]"

text \<open>Feeding a digest two inputs is feeding it their concatenation.\<close>

definition b2s_hash :: "crypto \<Rightarrow> bytes \<Rightarrow> bytes \<Rightarrow> bytes" where
  "b2s_hash cr data1 data2 = cr_hash cr (data1 @ data2)"

definition b2s_hmac :: "crypto \<Rightarrow> bytes \<Rightarrow> bytes \<Rightarrow> bytes" where
  "b2s_hmac cr key data1 = cr_hmac cr key data1"

definition b2s_hmac2 :: "crypto \<Rightarrow> bytes \<Rightarrow> bytes \<Rightarrow> bytes \<Rightarrow> bytes" where
  "b2s_hmac2 cr key data1 data2 = cr_hmac cr key (data1 @ data2)"

definition b2s_keyed_mac_16 :: "crypto \<Rightarrow> bytes \<Rightarrow> bytes \<Rightarrow> bytes" where
  "b2s_keyed_mac_16 cr key data1 = cr_mac16 cr key data1"

definition b2s_keyed_mac_16_2 :: "crypto \<Rightarrow> bytes \<Rightarrow> bytes \<Rightarrow> bytes \<Rightarrow> bytes" where
  "b2s_keyed_mac_16_2 cr key data1 data2 = cr_mac16 cr key (data1 @ data2)"

definition b2s_mac_24 :: "crypto \<Rightarrow> bytes \<Rightarrow> bytes \<Rightarrow> bytes" where
  "b2s_mac_24 cr key data1 = cr_mac24 cr key data1"

text \<open>The 12-byte nonce of a counter: four zero bytes, then the counter.\<close>

definition counter_nonce :: "u64 \<Rightarrow> bytes" where
  "counter_nonce counter = replicate 4 0 @ to_le_bytes counter"

text \<open>Sealing writes into a buffer whose length must be the plaintext's plus the
  tag's (\<open>copy_from_slice\<close> panics otherwise); opening writes into a buffer that
  must have the plaintext's length.\<close>

definition aead_chacha20_seal_inner ::
  "crypto \<Rightarrow> nat \<Rightarrow> bytes \<Rightarrow> bytes \<Rightarrow> bytes \<Rightarrow> bytes \<Rightarrow> bytes option" where
  "aead_chacha20_seal_inner cr buf_len key nonce data aad =
     (if buf_len = length data + 16 then Some (cr_seal cr key nonce aad data) else None)"

definition aead_chacha20_seal ::
  "crypto \<Rightarrow> nat \<Rightarrow> bytes \<Rightarrow> u64 \<Rightarrow> bytes \<Rightarrow> bytes \<Rightarrow> bytes option" where
  "aead_chacha20_seal cr buf_len key counter data aad =
     aead_chacha20_seal_inner cr buf_len key (counter_nonce counter) data aad"

definition aead_chacha20_open_inner ::
  "crypto \<Rightarrow> nat \<Rightarrow> bytes \<Rightarrow> bytes \<Rightarrow> bytes \<Rightarrow> bytes \<Rightarrow> (unit + bytes) option" where
  "aead_chacha20_open_inner cr buf_len key nonce data aad =
     (case cr_open cr key nonce aad data of
        None \<Rightarrow> Some (Inl ())
      | Some plaintext \<Rightarrow> if length plaintext = buf_len then Some (Inr plaintext) else None)"

definition aead_chacha20_open ::
  "crypto \<Rightarrow> nat \<Rightarrow> bytes \<Rightarrow> u64 \<Rightarrow> bytes \<Rightarrow> bytes \<Rightarrow> (WireGuardError + bytes) option" where
  "aead_chacha20_open cr buf_len key counter data aad =
     map_option (map_sum (\<lambda>_. InvalidAeadTag) id)
       (aead_chacha20_open_inner cr buf_len key (counter_nonce counter) data aad)"

lemma b2s_lengths [crypto_simps]:
  assumes "crypto_ok cr"
  shows "length (b2s_hash cr a b) = 32" "length (b2s_hmac cr k a) = 32"
    "length (b2s_hmac2 cr k a b) = 32" "length (b2s_keyed_mac_16 cr k a) = 16"
    "length (b2s_keyed_mac_16_2 cr k a b) = 16" "length (b2s_mac_24 cr k a) = 24"
  using assms by (simp_all add: b2s_hash_def b2s_hmac_def b2s_hmac2_def b2s_keyed_mac_16_def
      b2s_keyed_mac_16_2_def b2s_mac_24_def crypto_simps)

lemma aead_seal_some:
  "n = length data + 16 \<Longrightarrow>
    aead_chacha20_seal cr n key ctr data aad = Some (cr_seal cr key (counter_nonce ctr) aad data)"
  by (simp add: aead_chacha20_seal_def aead_chacha20_seal_inner_def)

text \<open>A buffer of the right size for the ciphertext never panics.\<close>

lemma aead_open_cases:
  assumes "crypto_ok cr" "length data = n + 16"
  shows "aead_chacha20_open cr n key ctr data aad =
    Some (case cr_open cr key (counter_nonce ctr) aad data of
            None \<Rightarrow> Inl InvalidAeadTag | Some p \<Rightarrow> Inr p)"
  using assms open_length [OF assms(1)]
  by (auto simp: aead_chacha20_open_def aead_chacha20_open_inner_def split: option.splits)

lemma aead_open_seal:
  assumes "crypto_ok cr" "length p = n"
  shows "aead_chacha20_open cr n key ctr (cr_seal cr key (counter_nonce ctr) aad p) aad = Some (Inr p)"
  using assms by (simp add: aead_open_cases crypto_simps)

section \<open>A concrete instance\<close>

text \<open>Checksums in place of the real functions; commutative by construction.\<close>

definition toy_sum :: "bytes \<Rightarrow> u8" where "toy_sum d = foldl (\<lambda>a b. 3 * a + b) 7 d"

definition toy_pad :: "bytes \<Rightarrow> bytes" where "toy_pad d = take 32 (d @ replicate 32 0)"

definition toy_seal :: "bytes \<Rightarrow> bytes \<Rightarrow> bytes \<Rightarrow> bytes \<Rightarrow> bytes" where
  "toy_seal k n a p = p @ replicate 16 (toy_sum (k @ n @ a @ p))"

definition toy_open :: "bytes \<Rightarrow> bytes \<Rightarrow> bytes \<Rightarrow> bytes \<Rightarrow> bytes option" where
  "toy_open k n a x = (let p = take (length x - 16) x in
     if toy_seal k n a p = x then Some p else None)"

definition toy_crypto :: crypto where
  "toy_crypto = \<lparr>cr_hash = (\<lambda>d. replicate 32 (toy_sum d)),
     cr_hmac = (\<lambda>k d. replicate 32 (toy_sum (k @ d))),
     cr_mac16 = (\<lambda>k d. replicate 16 (toy_sum (k @ d) OR 1)),
     cr_mac24 = (\<lambda>k d. replicate 24 (toy_sum (k @ d))),
     cr_pub = toy_pad,
     cr_dh = (\<lambda>a b. map2 (XOR) (toy_pad a) (toy_pad b)),
     cr_seal = toy_seal, cr_open = toy_open, cr_xseal = toy_seal, cr_xopen = toy_open\<rparr>"

lemma toy_pad_simps [simp]: "length (toy_pad d) = 32" "toy_pad (toy_pad d) = toy_pad d"
  by (simp_all add: toy_pad_def)

lemma toy_open_seal: "toy_open k n a (toy_seal k n a p) = Some p"
  by (simp add: toy_open_def toy_seal_def Let_def)

lemma toy_crypto_ok: "crypto_ok toy_crypto"
proof -
  have "toy_seal k n a p = x" if "toy_open k n a x = Some p" for k n a x p
    using that by (auto simp: toy_open_def Let_def split: if_splits)
  moreover have "map2 (XOR) u v = map2 (XOR) v u" for u v :: bytes
    by (subst zip_commute) (auto simp: xor.commute)
  ultimately show ?thesis
    by (simp add: crypto_ok_def toy_crypto_def toy_open_seal) (simp add: toy_seal_def)
qed

end
