(* ===== verification/Packet.thy ===== *)
theory Packet
  imports Errors
begin

text \<open>
  The wire messages of \<open>noise/mod.rs\<close>: the four packet structs, the parser
  \<open>Tunn::parse_incoming_packet\<close> and the reading of IP headers.  The lemmas give
  the exact classification of datagrams, and that parsing loses nothing of a data
  packet.
\<close>

definition IPV4_MIN_HEADER_SIZE :: nat where "IPV4_MIN_HEADER_SIZE = 20"
definition IPV6_MIN_HEADER_SIZE :: nat where "IPV6_MIN_HEADER_SIZE = 40"
definition MAX_QUEUE_DEPTH :: nat where "MAX_QUEUE_DEPTH = 256"
definition N_SESSIONS :: nat where "N_SESSIONS = 8"

definition HANDSHAKE_INIT :: u32 where "HANDSHAKE_INIT = 1"
definition HANDSHAKE_RESP :: u32 where "HANDSHAKE_RESP = 2"
definition COOKIE_REPLY :: u32 where "COOKIE_REPLY = 3"
definition DATA :: u32 where "DATA = 4"

definition HANDSHAKE_INIT_SZ :: nat where "HANDSHAKE_INIT_SZ = 148"
definition HANDSHAKE_RESP_SZ :: nat where "HANDSHAKE_RESP_SZ = 92"
definition COOKIE_REPLY_SZ :: nat where "COOKIE_REPLY_SZ = 64"
definition DATA_OVERHEAD_SZ :: nat where "DATA_OVERHEAD_SZ = 32"

lemmas wire_consts = HANDSHAKE_INIT_def HANDSHAKE_RESP_def COOKIE_REPLY_def DATA_def
  HANDSHAKE_INIT_SZ_def HANDSHAKE_RESP_SZ_def COOKIE_REPLY_SZ_def DATA_OVERHEAD_SZ_def

record handshake_init =
  hi_sender_idx :: u32
  hi_unencrypted_ephemeral :: bytes
  hi_encrypted_static :: bytes
  hi_encrypted_timestamp :: bytes

record handshake_response =
  hr_sender_idx :: u32
  hr_receiver_idx :: u32
  hr_unencrypted_ephemeral :: bytes
  hr_encrypted_nothing :: bytes

record packet_cookie_reply =
  cp_receiver_idx :: u32
  cp_nonce :: bytes
  cp_encrypted_cookie :: bytes

record packet_data =
  pd_receiver_idx :: u32
  pd_counter :: u64
  pd_encrypted_encapsulated_packet :: bytes

datatype packet =
    HandshakeInit handshake_init
  | HandshakeResponse handshake_response
  | PacketCookieReply packet_cookie_reply
  | PacketData packet_data

definition parse_incoming_packet :: "bytes \<Rightarrow> WireGuardError + packet" where
  "parse_incoming_packet src =
     (if length src < 4 then Inl InvalidPacket
      else let packet_type = from_le_bytes (slice 0 4 src) :: u32; n = length src in
        if packet_type = HANDSHAKE_INIT \<and> n = HANDSHAKE_INIT_SZ then
          Inr (HandshakeInit \<lparr>hi_sender_idx = from_le_bytes (slice 4 8 src),
            hi_unencrypted_ephemeral = slice 8 40 src,
            hi_encrypted_static = slice 40 88 src,
            hi_encrypted_timestamp = slice 88 116 src\<rparr>)
        else if packet_type = HANDSHAKE_RESP \<and> n = HANDSHAKE_RESP_SZ then
          Inr (HandshakeResponse \<lparr>hr_sender_idx = from_le_bytes (slice 4 8 src),
            hr_receiver_idx = from_le_bytes (slice 8 12 src),
            hr_unencrypted_ephemeral = slice 12 44 src,
            hr_encrypted_nothing = slice 44 60 src\<rparr>)
        else if packet_type = COOKIE_REPLY \<and> n = COOKIE_REPLY_SZ then
          Inr (PacketCookieReply \<lparr>cp_receiver_idx = from_le_bytes (slice 4 8 src),
            cp_nonce = slice 8 32 src,
            cp_encrypted_cookie = slice 32 64 src\<rparr>)
        else if packet_type = DATA \<and> DATA_OVERHEAD_SZ \<le> n then
          Inr (PacketData \<lparr>pd_receiver_idx = from_le_bytes (slice 4 8 src),
            pd_counter = from_le_bytes (slice 8 16 src),
            pd_encrypted_encapsulated_packet = drop 16 src\<rparr>)
        else Inl InvalidPacket)"

definition dst_address :: "bytes \<Rightarrow> IpAddr option" where
  "dst_address packet =
     (if packet = [] then None
      else let version = drop_bit 4 (packet ! 0) in
        if version = 4 \<and> length packet \<ge> IPV4_MIN_HEADER_SIZE then Some (V4 (slice 16 20 packet))
        else if version = 6 \<and> length packet \<ge> IPV6_MIN_HEADER_SIZE then Some (V6 (slice 24 40 packet))
        else None)"

section \<open>Layouts\<close>

text \<open>The bytes of each message as the formatting code writes them.\<close>

definition wire_init :: "handshake_init \<Rightarrow> bytes \<Rightarrow> bytes" where
  "wire_init p macs = to_le_bytes HANDSHAKE_INIT @ to_le_bytes (hi_sender_idx p) @
     hi_unencrypted_ephemeral p @ hi_encrypted_static p @ hi_encrypted_timestamp p @ macs"

definition wire_response :: "handshake_response \<Rightarrow> bytes \<Rightarrow> bytes" where
  "wire_response p macs = to_le_bytes HANDSHAKE_RESP @ to_le_bytes (hr_sender_idx p) @
     to_le_bytes (hr_receiver_idx p) @ hr_unencrypted_ephemeral p @ hr_encrypted_nothing p @ macs"

definition wire_cookie :: "packet_cookie_reply \<Rightarrow> bytes" where
  "wire_cookie p = to_le_bytes COOKIE_REPLY @ to_le_bytes (cp_receiver_idx p) @
     cp_nonce p @ cp_encrypted_cookie p"

definition wire_data :: "packet_data \<Rightarrow> bytes" where
  "wire_data p = to_le_bytes DATA @ to_le_bytes (pd_receiver_idx p) @
     to_le_bytes (pd_counter p) @ pd_encrypted_encapsulated_packet p"

definition init_shape :: "handshake_init \<Rightarrow> bool" where
  "init_shape p \<longleftrightarrow> length (hi_unencrypted_ephemeral p) = 32 \<and>
     length (hi_encrypted_static p) = 48 \<and> length (hi_encrypted_timestamp p) = 28"

definition response_shape :: "handshake_response \<Rightarrow> bool" where
  "response_shape p \<longleftrightarrow> length (hr_unencrypted_ephemeral p) = 32 \<and> length (hr_encrypted_nothing p) = 16"

definition cookie_shape :: "packet_cookie_reply \<Rightarrow> bool" where
  "cookie_shape p \<longleftrightarrow> length (cp_nonce p) = 24 \<and> length (cp_encrypted_cookie p) = 32"

lemma parse_wire_init:
  "init_shape p \<Longrightarrow> length macs = 32 \<Longrightarrow> parse_incoming_packet (wire_init p macs) = Inr (HandshakeInit p)"
  by (simp add: parse_incoming_packet_def wire_init_def init_shape_def Let_def wire_consts slice_simps)

lemma parse_wire_response:
  "response_shape p \<Longrightarrow> length macs = 32 \<Longrightarrow>
    parse_incoming_packet (wire_response p macs) = Inr (HandshakeResponse p)"
  by (simp add: parse_incoming_packet_def wire_response_def response_shape_def Let_def wire_consts slice_simps)

lemma parse_wire_cookie:
  "cookie_shape p \<Longrightarrow> parse_incoming_packet (wire_cookie p) = Inr (PacketCookieReply p)"
  by (simp add: parse_incoming_packet_def wire_cookie_def cookie_shape_def Let_def wire_consts slice_simps)

lemma parse_wire_data:
  "16 \<le> length (pd_encrypted_encapsulated_packet p) \<Longrightarrow>
    parse_incoming_packet (wire_data p) = Inr (PacketData p)"
  by (simp add: parse_incoming_packet_def wire_data_def Let_def wire_consts slice_simps)

text \<open>A datagram cut at fixed offsets is the concatenation of the pieces.\<close>

lemma cut_at: "a \<le> b \<Longrightarrow> b \<le> length xs \<Longrightarrow> slice a b xs @ drop b xs = drop a xs"
  by (simp add: slice_def) (metis append_take_drop_id drop_drop le_add_diff_inverse2)

lemma reassemble_le:
  "length xs = LENGTH('a::len) div 8 \<Longrightarrow> 8 dvd LENGTH('a) \<Longrightarrow>
    to_le_bytes (from_le_bytes xs :: 'a word) = xs"
  by (rule to_from_le_bytes)

lemma type_bytes:
  assumes "4 \<le> length src" "(from_le_bytes (slice 0 4 src) :: u32) = t"
  shows "take 4 src = to_le_bytes t"
  using assms to_from_le_bytes [where 'a = 32, of "take 4 src"] by simp

lemma parse_data_wire:
  assumes "parse_incoming_packet src = Inr (PacketData p)"
  shows "src = wire_data p \<and> 16 \<le> length (pd_encrypted_encapsulated_packet p)"
proof -
  from assms have len: "32 \<le> length src" and ty: "(from_le_bytes (slice 0 4 src) :: u32) = DATA"
    and p: "p = \<lparr>pd_receiver_idx = from_le_bytes (slice 4 8 src),
      pd_counter = from_le_bytes (slice 8 16 src), pd_encrypted_encapsulated_packet = drop 16 src\<rparr>"
    by (auto simp: parse_incoming_packet_def Let_def DATA_OVERHEAD_SZ_def split: if_splits)
  have "src = take 4 src @ slice 4 8 src @ slice 8 16 src @ drop 16 src"
    using len by (simp add: cut_at)
  moreover have "take 4 src = to_le_bytes DATA" by (rule type_bytes) (use len ty in simp_all)
  ultimately show ?thesis using len by (simp add: p wire_data_def to_from_le_bytes)
qed

lemma parse_init_wire:
  assumes "parse_incoming_packet src = Inr (HandshakeInit p)"
  shows "src = wire_init p (drop 116 src) \<and> init_shape p \<and> length src = 148"
proof -
  from assms have len: "length src = 148" and ty: "(from_le_bytes (slice 0 4 src) :: u32) = HANDSHAKE_INIT"
    and p: "p = \<lparr>hi_sender_idx = from_le_bytes (slice 4 8 src), hi_unencrypted_ephemeral = slice 8 40 src,
      hi_encrypted_static = slice 40 88 src, hi_encrypted_timestamp = slice 88 116 src\<rparr>"
    by (auto simp: parse_incoming_packet_def Let_def HANDSHAKE_INIT_SZ_def split: if_splits)
  have "src = take 4 src @ slice 4 8 src @ slice 8 40 src @ slice 40 88 src @ slice 88 116 src @ drop 116 src"
    using len by (simp add: cut_at)
  moreover have "take 4 src = to_le_bytes HANDSHAKE_INIT" by (rule type_bytes) (use len ty in simp_all)
  ultimately show ?thesis using len by (simp add: p wire_init_def init_shape_def to_from_le_bytes)
qed

lemma parse_response_wire:
  assumes "parse_incoming_packet src = Inr (HandshakeResponse p)"
  shows "src = wire_response p (drop 60 src) \<and> response_shape p \<and> length src = 92"
proof -
  from assms have len: "length src = 92" and ty: "(from_le_bytes (slice 0 4 src) :: u32) = HANDSHAKE_RESP"
    and p: "p = \<lparr>hr_sender_idx = from_le_bytes (slice 4 8 src), hr_receiver_idx = from_le_bytes (slice 8 12 src),
      hr_unencrypted_ephemeral = slice 12 44 src, hr_encrypted_nothing = slice 44 60 src\<rparr>"
    by (auto simp: parse_incoming_packet_def Let_def HANDSHAKE_RESP_SZ_def split: if_splits)
  have "src = take 4 src @ slice 4 8 src @ slice 8 12 src @ slice 12 44 src @ slice 44 60 src @ drop 60 src"
    using len by (simp add: cut_at)
  moreover have "take 4 src = to_le_bytes HANDSHAKE_RESP" by (rule type_bytes) (use len ty in simp_all)
  ultimately show ?thesis using len by (simp add: p wire_response_def response_shape_def to_from_le_bytes)
qed

lemma parse_cookie_wire:
  assumes "parse_incoming_packet src = Inr (PacketCookieReply p)"
  shows "src = wire_cookie p \<and> cookie_shape p"
proof -
  from assms have len: "length src = 64" and ty: "(from_le_bytes (slice 0 4 src) :: u32) = COOKIE_REPLY"
    and p: "p = \<lparr>cp_receiver_idx = from_le_bytes (slice 4 8 src), cp_nonce = slice 8 32 src,
      cp_encrypted_cookie = slice 32 64 src\<rparr>"
    by (auto simp: parse_incoming_packet_def Let_def COOKIE_REPLY_SZ_def split: if_splits)
  have "src = take 4 src @ slice 4 8 src @ slice 8 32 src @ slice 32 64 src"
    using len cut_at [of 4 8 src] cut_at [of 8 32 src] cut_at [of 32 64 src] by simp
  moreover have "take 4 src = to_le_bytes COOKIE_REPLY" by (rule type_bytes) (use len ty in simp_all)
  ultimately show ?thesis using len by (simp add: p wire_cookie_def cookie_shape_def to_from_le_bytes)
qed

text \<open>C35: the parser accepts exactly the four layouts and loses nothing: a
  datagram parses to a packet if and only if it is the wire form of that packet
  (followed, for handshake messages, by 32 bytes of MACs).\<close>

theorem parse_incoming_packet_exact:
  "(parse_incoming_packet src = Inr (HandshakeInit i) \<longleftrightarrow>
      (\<exists>macs. length macs = 32 \<and> init_shape i \<and> src = wire_init i macs)) \<and>
   (parse_incoming_packet src = Inr (HandshakeResponse r) \<longleftrightarrow>
      (\<exists>macs. length macs = 32 \<and> response_shape r \<and> src = wire_response r macs)) \<and>
   (parse_incoming_packet src = Inr (PacketCookieReply c) \<longleftrightarrow> cookie_shape c \<and> src = wire_cookie c) \<and>
   (parse_incoming_packet src = Inr (PacketData d) \<longleftrightarrow>
      16 \<le> length (pd_encrypted_encapsulated_packet d) \<and> src = wire_data d)"
proof (intro conjI)
  show "parse_incoming_packet src = Inr (HandshakeInit i) \<longleftrightarrow>
      (\<exists>macs. length macs = 32 \<and> init_shape i \<and> src = wire_init i macs)"
  proof
    assume "parse_incoming_packet src = Inr (HandshakeInit i)"
    from parse_init_wire [OF this]
    have "length (drop 116 src) = 32 \<and> init_shape i \<and> src = wire_init i (drop 116 src)"
      by simp
    then show "\<exists>macs. length macs = 32 \<and> init_shape i \<and> src = wire_init i macs" ..
  qed (auto simp: parse_wire_init)
  show "parse_incoming_packet src = Inr (HandshakeResponse r) \<longleftrightarrow>
      (\<exists>macs. length macs = 32 \<and> response_shape r \<and> src = wire_response r macs)"
  proof
    assume "parse_incoming_packet src = Inr (HandshakeResponse r)"
    from parse_response_wire [OF this]
    have "length (drop 60 src) = 32 \<and> response_shape r \<and> src = wire_response r (drop 60 src)"
      by simp
    then show "\<exists>macs. length macs = 32 \<and> response_shape r \<and> src = wire_response r macs" ..
  qed (auto simp: parse_wire_response)
  show "parse_incoming_packet src = Inr (PacketCookieReply c) \<longleftrightarrow> cookie_shape c \<and> src = wire_cookie c"
    using parse_wire_cookie parse_cookie_wire by blast
  show "parse_incoming_packet src = Inr (PacketData d) \<longleftrightarrow>
      16 \<le> length (pd_encrypted_encapsulated_packet d) \<and> src = wire_data d"
    using parse_wire_data parse_data_wire by blast
qed

end
