(* ===== verification/Session.thy ===== *)
theory Session
  imports Replay_Window Crypto_Api Packet
begin

text \<open>
  An established session (\<open>noise/session.rs\<close>, \<open>Session\<close>): a pair of keys, the
  sending counter and the replay filter of the receiving direction.  The length of
  the caller's buffer is an argument of the operations that write into it.
\<close>

record session =
  s_receiving_index :: u32
  s_sending_index :: u32
  s_receiver :: bytes
  s_sender :: bytes
  s_sending_key_counter :: u64
  s_receiving_key_counter :: validator

definition session_new :: "u32 \<Rightarrow> u32 \<Rightarrow> bytes \<Rightarrow> bytes \<Rightarrow> session" where
  "session_new local_index peer_index receiving_key sending_key =
     \<lparr>s_receiving_index = local_index, s_sending_index = peer_index,
      s_receiver = receiving_key, s_sender = sending_key,
      s_sending_key_counter = 0, s_receiving_key_counter = validator_default\<rparr>"

definition session_local_index :: "session \<Rightarrow> nat" where
  "session_local_index s = unat (s_receiving_index s)"

definition receiving_counter_quick_check :: "session \<Rightarrow> u64 \<Rightarrow> WireGuardError + unit" where
  "receiving_counter_quick_check s counter = will_accept (s_receiving_key_counter s) counter"

definition receiving_counter_mark ::
  "session \<Rightarrow> u64 \<Rightarrow> ((WireGuardError + unit) \<times> session) option" where
  "receiving_counter_mark s counter = do {
     (ret, v) \<leftarrow> mark_did_receive (s_receiving_key_counter s) counter;
     Some (ret, s\<lparr>s_receiving_key_counter :=
       (case ret of Inr _ \<Rightarrow> v\<lparr>receive_cnt := receive_cnt v + 1\<rparr> | Inl _ \<Rightarrow> v)\<rparr>) }"

definition format_packet_data :: "crypto \<Rightarrow> session \<Rightarrow> bytes \<Rightarrow> nat \<Rightarrow> (bytes \<times> session) option" where
  "format_packet_data cr s src dst_len =
     (if dst_len < length src + DATA_OVERHEAD_SZ then None
      else let sending_key_counter = s_sending_key_counter s in
        Some (to_le_bytes DATA @ to_le_bytes (s_sending_index s) @ to_le_bytes sending_key_counter @
                cr_seal cr (s_sender s) (counter_nonce sending_key_counter) [] src,
              s\<lparr>s_sending_key_counter := sending_key_counter + 1\<rparr>))"

definition receive_packet_data ::
  "crypto \<Rightarrow> session \<Rightarrow> packet_data \<Rightarrow> nat \<Rightarrow> ((WireGuardError + bytes) \<times> session) option" where
  "receive_packet_data cr s packet dst_len =
     (if dst_len < length (pd_encrypted_encapsulated_packet packet) then None
      else if pd_receiver_idx packet \<noteq> s_receiving_index s then Some (Inl WrongIndex, s)
      else case receiving_counter_quick_check s (pd_counter packet) of
        Inl e \<Rightarrow> Some (Inl e, s)
      | Inr _ \<Rightarrow>
        (case cr_open cr (s_receiver s) (counter_nonce (pd_counter packet)) []
                (pd_encrypted_encapsulated_packet packet) of
           None \<Rightarrow> Some (Inl InvalidAeadTag, s)
         | Some ret \<Rightarrow> do {
             (m, s') \<leftarrow> receiving_counter_mark s (pd_counter packet);
             Some (map_sum id (\<lambda>_. ret) m, s') }))"

definition current_packet_cnt :: "session \<Rightarrow> u64 \<times> u64" where
  "current_packet_cnt s =
     (rk_next (s_receiving_key_counter s), receive_cnt (s_receiving_key_counter s))"

section \<open>The counters of a session\<close>

definition session_window :: "session \<Rightarrow> nat \<Rightarrow> nat set \<Rightarrow> bool" where
  "session_window s N R \<longleftrightarrow> window_rep (s_receiving_key_counter s) N R"

text \<open>Every session's filter has its 16 words; this is all that returning needs.\<close>

definition session_ok :: "session \<Rightarrow> bool" where
  "session_ok s \<longleftrightarrow> length (bitmap (s_receiving_key_counter s)) = 16"

lemma session_new_window [simp]: "session_window (session_new i j k k') 0 {}"
  by (simp add: session_window_def session_new_def window_rep_default)

lemma session_new_ok [simp]: "session_ok (session_new i j k k')"
  by (simp add: session_ok_def session_new_def validator_default_def)

lemma session_window_ok: "session_window s N R \<Longrightarrow> session_ok s"
  by (simp add: session_window_def session_ok_def window_rep_def)

lemma window_rep_receive_cnt [simp]: "window_rep (v\<lparr>receive_cnt := n\<rparr>) N R = window_rep v N R"
  by (simp add: window_rep_def ring_bit_def)

text \<open>A session identity is everything but its counters.\<close>

definition same_session :: "session \<Rightarrow> session \<Rightarrow> bool" where
  "same_session s s' \<longleftrightarrow> s_receiving_index s' = s_receiving_index s \<and>
     s_sending_index s' = s_sending_index s \<and> s_receiver s' = s_receiver s \<and> s_sender s' = s_sender s"

lemma same_session_refl [simp]: "same_session s s"
  by (simp add: same_session_def)

lemma same_session_local_index:
  "same_session s s' \<Longrightarrow> session_local_index s' = session_local_index s"
  by (simp add: same_session_def session_local_index_def)

lemma mark_returns_ok:
  "length (bitmap v) = 16 \<Longrightarrow> \<exists>r v'. mark_did_receive v c = Some (r, v') \<and> length (bitmap v') = 16"
  by (rule mark_did_receive_ok)

lemma counter_mark_ok:
  assumes "session_ok s"
  shows "\<exists>r s'. receiving_counter_mark s c = Some (r, s') \<and> session_ok s' \<and> same_session s s' \<and>
    s_sending_key_counter s' = s_sending_key_counter s"
proof -
  obtain r v' where "mark_did_receive (s_receiving_key_counter s) c = Some (r, v')"
    "length (bitmap v') = 16" using assms mark_returns_ok unfolding session_ok_def by blast
  then show ?thesis
    by (auto simp: receiving_counter_mark_def session_ok_def same_session_def split: sum.splits)
qed

lemma counter_mark_window:
  assumes "session_window s N R" "unat c < 18446744073709550592"
    and "spec_verdict N R (unat c) = Inr ()"
  shows "\<exists>s'. receiving_counter_mark s c = Some (Inr (), s') \<and>
    session_window s' (max N (unat c + 1)) (insert (unat c) R) \<and> same_session s s'"
proof -
  obtain r v' N' R' where "mark_did_receive (s_receiving_key_counter s) c = Some (r, v')"
      "spec_mark N R (unat c) = (r, N', R')" "window_rep v' N' R'"
    using mark_refines assms(1,2) unfolding session_window_def by blast
  then have "mark_did_receive (s_receiving_key_counter s) c = Some (Inr (), v')"
      "window_rep v' (max N (unat c + 1)) (insert (unat c) R)"
    using assms(3) by (simp_all add: spec_mark_def)
  then show ?thesis
    by (simp add: receiving_counter_mark_def session_window_def same_session_def)
qed

text \<open>Every outcome of receiving a data packet, on a window that stands for \<open>R\<close>.\<close>

lemma receive_packet_data_spec:
  assumes "session_window s N R" "unat (pd_counter p) < 18446744073709550592"
    and "length (pd_encrypted_encapsulated_packet p) \<le> dst_len"
  shows "receive_packet_data cr s p dst_len =
    (if pd_receiver_idx p \<noteq> s_receiving_index s then Some (Inl WrongIndex, s)
     else case spec_verdict N R (unat (pd_counter p)) of
       Inl e \<Rightarrow> Some (Inl e, s)
     | Inr _ \<Rightarrow>
       (case cr_open cr (s_receiver s) (counter_nonce (pd_counter p)) []
               (pd_encrypted_encapsulated_packet p) of
          None \<Rightarrow> Some (Inl InvalidAeadTag, s)
        | Some ret \<Rightarrow> map_option (\<lambda>(_, s'). (Inr ret, s')) (receiving_counter_mark s (pd_counter p))))"
proof -
  have q: "receiving_counter_quick_check s (pd_counter p) = spec_verdict N R (unat (pd_counter p))"
    using will_accept_refines assms(1,2) unfolding session_window_def receiving_counter_quick_check_def by blast
  show ?thesis
  proof (cases "spec_verdict N R (unat (pd_counter p))")
    case (Inl e)
    then show ?thesis using assms(3) q by (simp add: receive_packet_data_def)
  next
    case (Inr u)
    then obtain s' where "receiving_counter_mark s (pd_counter p) = Some (Inr (), s')"
      using counter_mark_window [OF assms(1,2)] by auto
    then show ?thesis using assms(3) q Inr
      by (simp add: receive_packet_data_def split: option.splits)
  qed
qed

definition receive_step :: "crypto \<Rightarrow> nat \<Rightarrow> session \<Rightarrow> packet_data \<Rightarrow> (bool \<times> session) option" where
  "receive_step cr dst_len s p =
     map_option (\<lambda>(r, s'). (\<not> isl r, s')) (receive_packet_data cr s p dst_len)"

definition packet_fits :: "nat \<Rightarrow> packet_data \<Rightarrow> bool" where
  "packet_fits dst_len p \<longleftrightarrow> length (pd_encrypted_encapsulated_packet p) \<le> dst_len \<and>
     unat (pd_counter p) < 18446744073709550592"

definition session_set :: "session \<Rightarrow> u64 set \<Rightarrow> bool" where
  "session_set s R \<longleftrightarrow> (\<exists>N. session_window s N (unat ` R))"

lemma receive_step_cases:
  assumes "session_window s N R" "packet_fits dst_len p"
  shows "\<exists>b s'. receive_step cr dst_len s p = Some (b, s') \<and>
    (b \<longrightarrow> unat (pd_counter p) \<notin> R \<and>
       session_window s' (max N (unat (pd_counter p) + 1)) (insert (unat (pd_counter p)) R)) \<and>
    (\<not> b \<longrightarrow> s' = s)"
proof (cases "spec_verdict N R (unat (pd_counter p))")
  case (Inl e)
  then show ?thesis using receive_packet_data_spec [OF assms(1), of p dst_len cr] assms(2)
    by (auto simp: receive_step_def packet_fits_def)
next
  case (Inr u)
  have c: "unat (pd_counter p) < 18446744073709550592" using assms(2) by (simp add: packet_fits_def)
  obtain s' where s': "receiving_counter_mark s (pd_counter p) = Some (Inr (), s')"
      "session_window s' (max N (unat (pd_counter p) + 1)) (insert (unat (pd_counter p)) R)"
    using counter_mark_window [OF assms(1) c] Inr by auto
  moreover have "unat (pd_counter p) \<notin> R" using Inr by (auto simp: spec_verdict_def split: if_splits)
  ultimately show ?thesis
    using receive_packet_data_spec [OF assms(1), of p dst_len cr] assms(2) Inr
    by (auto simp: receive_step_def packet_fits_def split: option.splits)
qed

interpretation sess: replay_filter session_set "receive_step cr dst_len" pd_counter "packet_fits dst_len"
proof (unfold_locales, goal_cases)
  case (1 s R p)
  then show ?case using receive_step_cases unfolding session_set_def by blast
next
  case (2 s R p s')
  then obtain N where "session_window s N (unat ` R)" by (auto simp: session_set_def)
  from receive_step_cases [OF this 2(2), of cr] 2(3)
  have "unat (pd_counter p) \<notin> unat ` R" 
    "session_window s' (max N (unat (pd_counter p) + 1)) (insert (unat (pd_counter p)) (unat ` R))"
    by auto
  then show ?case by (auto simp: session_set_def)
next
  case (3 s R p s')
  then obtain N where "session_window s N (unat ` R)" by (auto simp: session_set_def)
  from receive_step_cases [OF this 3(2), of cr] 3(1,3) show ?case by auto
qed

section \<open>Properties\<close>

text \<open>Two ends of one session: what one seals the other opens.\<close>

definition sessions_paired :: "session \<Rightarrow> session \<Rightarrow> bool" where
  "sessions_paired a b \<longleftrightarrow> s_sending_index a = s_receiving_index b \<and> s_sender a = s_receiver b"

text \<open>A payload that one end formats reaches the other, and both ends keep their
  identity.\<close>

lemma data_delivered:
  assumes ok: "crypto_ok cr" and pair: "sessions_paired a b"
    and win: "session_window b N R"
    and ctr: "c = unat (s_sending_key_counter a)" "c < 18446744073709550592"
    and acc: "spec_verdict N R c = Inr ()"
    and fit: "length src + 32 \<le> dst_len" "length src + 16 \<le> dst_len'"
  shows "\<exists>wire p b'. format_packet_data cr a src dst_len =
      Some (wire, a\<lparr>s_sending_key_counter := s_sending_key_counter a + 1\<rparr>) \<and>
    length wire = length src + 32 \<and> parse_incoming_packet wire = Inr (PacketData p) \<and>
    pd_receiver_idx p = s_receiving_index b \<and>
    receive_packet_data cr b p dst_len' = Some (Inr src, b') \<and>
    session_window b' (max N (c + 1)) (insert c R) \<and>
    same_session b b' \<and> s_sending_key_counter b' = s_sending_key_counter b"
proof -
  define k where "k = s_sending_key_counter a"
  define p where "p = \<lparr>pd_receiver_idx = s_sending_index a, pd_counter = k,
    pd_encrypted_encapsulated_packet = cr_seal cr (s_sender a) (counter_nonce k) [] src\<rparr>"
  have c: "unat (pd_counter p) = c" by (simp add: p_def k_def ctr(1))
  obtain b' where b': "receiving_counter_mark b (pd_counter p) = Some (Inr (), b')"
      "session_window b' (max N (c + 1)) (insert c R)" "same_session b b'"
    using counter_mark_window [OF win, of "pd_counter p"] ctr(2) acc by (auto simp: c)
  have "s_sending_key_counter b' = s_sending_key_counter b"
    using counter_mark_ok [OF session_window_ok [OF win], of "pd_counter p"] b'(1) by auto
  moreover have "pd_receiver_idx p = s_receiving_index b"
    using pair by (simp add: p_def sessions_paired_def)
  moreover have "format_packet_data cr a src dst_len = Some (wire_data p, a\<lparr>s_sending_key_counter := k + 1\<rparr>)"
    using fit(1) by (simp add: format_packet_data_def wire_data_def p_def k_def DATA_OVERHEAD_SZ_def Let_def)
  moreover have "length (wire_data p) = length src + 32"
    using ok by (simp add: wire_data_def p_def crypto_simps)
  moreover have "parse_incoming_packet (wire_data p) = Inr (PacketData p)"
    using ok by (intro parse_wire_data) (simp add: p_def crypto_simps)
  moreover have "receive_packet_data cr b p dst_len' = Some (Inr src, b')"
  proof -
    have "cr_open cr (s_receiver b) (counter_nonce (pd_counter p)) []
        (pd_encrypted_encapsulated_packet p) = Some src"
      "length (pd_encrypted_encapsulated_packet p) = length src + 16"
      "pd_receiver_idx p = s_receiving_index b"
      using pair ok by (simp_all add: p_def sessions_paired_def crypto_simps)
    then show ?thesis
      using receive_packet_data_spec [OF win, of p dst_len' cr] ctr(2) acc fit(2) b'(1)
      by (simp add: c)
  qed
  ultimately show ?thesis using b'(2,3) by (auto simp: k_def)
qed

text \<open>C29: data round trip.  A payload that one end formats parses as a data packet
  and the other end, whose window accepts the counter, receives exactly that
  payload, and then counts the counter as received.\<close>

theorem data_roundtrip:
  assumes ok: "crypto_ok cr" and pair: "sessions_paired a b"
    and win: "session_window b N R"
    and ctr: "c = unat (s_sending_key_counter a)" "c < 18446744073709550592"
    and acc: "spec_verdict N R c = Inr ()"
    and fit: "length src + 32 \<le> dst_len" "length src + 16 \<le> dst_len'"
  shows "\<exists>wire a' p b'. format_packet_data cr a src dst_len = Some (wire, a') \<and>
    length wire = length src + 32 \<and>
    parse_incoming_packet wire = Inr (PacketData p) \<and>
    receive_packet_data cr b p dst_len' = Some (Inr src, b') \<and>
    session_window b' (max N (c + 1)) (insert c R) \<and>
    s_sending_key_counter a' = s_sending_key_counter a + 1"
  using data_delivered [OF assms] by fastforce

text \<open>C3: a session never hands out two packets with the same counter, whatever
  datagrams the network delivers and in whatever order.\<close>

theorem session_no_replay:
  assumes "\<forall>p\<in>set ps. packet_fits dst_len p"
  shows "\<exists>acc s. accepted_run (receive_step cr dst_len) (session_new i j k k') ps = Some (acc, s) \<and>
    distinct (map pd_counter acc) \<and> set acc \<subseteq> set ps"
proof -
  have "session_set (session_new i j k k') {}"
    unfolding session_set_def using session_new_window by (metis image_empty)
  from sess.run_distinct [OF this assms] show ?thesis by blast
qed

theorem data_roundtrip_witness:
  "\<exists>wire a' p b'. format_packet_data toy_crypto (session_new 1 2 [3] [4]) [9, 8] 100 = Some (wire, a') \<and>
    length wire = 34 \<and> parse_incoming_packet wire = Inr (PacketData p) \<and>
    receive_packet_data toy_crypto (session_new 2 1 [4] [3]) p 100 = Some (Inr [9, 8], b') \<and>
    session_window b' 1 {0} \<and> s_sending_key_counter a' = 1"
proof -
  have "sessions_paired (session_new 1 2 [3] [4]) (session_new 2 1 [4] [3])"
    by (simp add: sessions_paired_def session_new_def)
  from data_roundtrip [OF toy_crypto_ok this session_new_window, of 0 "[9, 8]" 100 100]
  show ?thesis by (simp add: session_new_def spec_verdict_def)
qed

theorem session_no_replay_witness:
  "\<exists>acc s. accepted_run (receive_step toy_crypto 100) (session_new 1 2 [3] [4])
      [\<lparr>pd_receiver_idx = 1, pd_counter = 5, pd_encrypted_encapsulated_packet = replicate 16 0\<rparr>] = Some (acc, s) \<and>
    distinct (map pd_counter acc)"
  using session_no_replay [of "[\<lparr>pd_receiver_idx = 1, pd_counter = 5,
      pd_encrypted_encapsulated_packet = replicate 16 0\<rparr>]" 100 toy_crypto 1 2 "[3]" "[4]"]
  by (auto simp: packet_fits_def)

end
