(* ===== verification/Handshake.thy ===== *)
theory Handshake
  imports Session
begin

text \<open>
  The Noise handshake of \<open>noise/handshake.rs\<close>: timestamps, the parameters of
  a peer, the state machine (no handshake, initiation sent, initiation received,
  expired), cookies, and the formatting and receiving of the three handshake
  messages.  A monotonic clock reading (\<open>Instant\<close>) and a \<open>Duration\<close> are
  numbers of nanoseconds; the clock readings and the ephemeral secret a call draws
  are arguments of it.  \<open>Instant::duration_since\<close> returns zero for a later
  instant, as the subtraction of natural numbers does.
\<close>

section \<open>Timestamps\<close>

record tai64n =
  tn_secs :: u64
  tn_nano :: u32

record time_stamper =
  duration_at_start :: nat
  instant_at_start :: nat

definition stamp :: "time_stamper \<Rightarrow> nat \<Rightarrow> bytes" where
  "stamp ts now =
     (let TAI64_BASE = push_bit 62 1 + 37 :: u64;
          d = (now - instant_at_start ts) + duration_at_start ts
      in to_be_bytes (of_nat (d div 1000000000) + TAI64_BASE) @
         to_be_bytes (of_nat (d mod 1000000000) :: u32))"

definition tai64n_zero :: tai64n where "tai64n_zero = \<lparr>tn_secs = 0, tn_nano = 0\<rparr>"

definition tai64n_parse :: "bytes \<Rightarrow> WireGuardError + tai64n" where
  "tai64n_parse buf =
     (if length buf < 12 then Inl InvalidTai64nTimestamp
      else Inr \<lparr>tn_secs = from_be_bytes (take 8 buf), tn_nano = from_be_bytes (drop 8 buf)\<rparr>)"

definition tai64n_after :: "tai64n \<Rightarrow> tai64n \<Rightarrow> bool" where
  "tai64n_after a b \<longleftrightarrow> tn_secs a > tn_secs b \<or> (tn_secs a = tn_secs b \<and> tn_nano a > tn_nano b)"

section \<open>State\<close>

record noise_params =
  np_static_public :: bytes
  np_static_private :: bytes
  np_peer_static_public :: bytes
  np_static_shared :: bytes
  np_sending_mac1_key :: bytes
  np_preshared_key :: "bytes option"

record init_sent =
  is_local_index :: u32
  is_hash :: bytes
  is_chaining_key :: bytes
  is_ephemeral_private :: bytes
  is_time_sent :: nat

datatype handshake_state =
    NoHandshake
  | InitSent init_sent
  | InitReceived (ir_hash: bytes) (ir_chaining_key: bytes) (ir_peer_ephemeral: bytes) (ir_peer_index: u32)
  | Expired

record cookies =
  ck_last_mac1 :: "bytes option"
  ck_index :: u32
  ck_write_cookie :: "bytes option"

record handshake =
  h_params :: noise_params
  h_next_index :: u32
  h_previous :: handshake_state
  h_state :: handshake_state
  h_cookies :: cookies
  h_last_timestamp :: tai64n
  h_stamper :: time_stamper
  h_last_rtt :: "u32 option"

record half_handshake =
  hh_peer_index :: u32
  hh_peer_static_public :: bytes

definition noise_params_new :: "crypto \<Rightarrow> bytes \<Rightarrow> bytes \<Rightarrow> bytes \<Rightarrow> bytes option \<Rightarrow> noise_params" where
  "noise_params_new cr static_private static_public peer_static_public preshared_key =
     \<lparr>np_static_public = static_public, np_static_private = static_private,
      np_peer_static_public = peer_static_public,
      np_static_shared = cr_dh cr static_private peer_static_public,
      np_sending_mac1_key = b2s_hash cr LABEL_MAC1 peer_static_public,
      np_preshared_key = preshared_key\<rparr>"

definition np_set_static_private :: "crypto \<Rightarrow> noise_params \<Rightarrow> bytes \<Rightarrow> bytes \<Rightarrow> noise_params option" where
  "np_set_static_private cr np static_private static_public =
     (if cr_pub cr static_private \<noteq> static_public then None
      else Some (np\<lparr>np_static_private := static_private, np_static_public := static_public,
        np_static_shared := cr_dh cr static_private (np_peer_static_public np)\<rparr>))"

text \<open>The stamper reads both clocks once: the system time since the epoch and
  the monotonic clock.\<close>

definition handshake_new ::
  "crypto \<Rightarrow> bytes \<Rightarrow> bytes \<Rightarrow> bytes \<Rightarrow> u32 \<Rightarrow> bytes option \<Rightarrow> time_stamper \<Rightarrow> handshake" where
  "handshake_new cr static_private static_public peer_static_public global_idx preshared_key stamper =
     \<lparr>h_params = noise_params_new cr static_private static_public peer_static_public preshared_key,
      h_next_index = global_idx, h_previous = NoHandshake, h_state = NoHandshake,
      h_cookies = \<lparr>ck_last_mac1 = None, ck_index = 0, ck_write_cookie = None\<rparr>,
      h_last_timestamp = tai64n_zero, h_stamper = stamper, h_last_rtt = None\<rparr>"

definition is_in_progress :: "handshake \<Rightarrow> bool" where
  "is_in_progress h = (case h_state h of NoHandshake \<Rightarrow> False | Expired \<Rightarrow> False | _ \<Rightarrow> True)"

definition hs_timer :: "handshake \<Rightarrow> nat option" where
  "hs_timer h = (case h_state h of InitSent s \<Rightarrow> Some (is_time_sent s) | _ \<Rightarrow> None)"

definition set_expired :: "handshake \<Rightarrow> handshake" where
  "set_expired h = h\<lparr>h_previous := Expired, h_state := Expired\<rparr>"

definition hs_is_expired :: "handshake \<Rightarrow> bool" where
  "hs_is_expired h \<longleftrightarrow> h_state h = Expired"

definition has_cookie :: "handshake \<Rightarrow> bool" where
  "has_cookie h \<longleftrightarrow> ck_write_cookie (h_cookies h) \<noteq> None"

definition clear_cookie :: "handshake \<Rightarrow> handshake" where
  "clear_cookie h = h\<lparr>h_cookies := (h_cookies h)\<lparr>ck_write_cookie := None\<rparr>\<rparr>"

definition next_session_index :: "u32 \<Rightarrow> u32" where
  "next_session_index index = (index AND NOT 0xff) OR ucast (ucast index + 1 :: u8)"

definition inc_index :: "handshake \<Rightarrow> u32 \<times> handshake" where
  "inc_index h = (let i = next_session_index (h_next_index h) in (i, h\<lparr>h_next_index := i\<rparr>))"

definition hs_set_static_private :: "crypto \<Rightarrow> handshake \<Rightarrow> bytes \<Rightarrow> bytes \<Rightarrow> handshake option" where
  "hs_set_static_private cr h private_key public_key =
     map_option (\<lambda>np. h\<lparr>h_params := np\<rparr>) (np_set_static_private cr (h_params h) private_key public_key)"

section \<open>Key derivation steps\<close>

text \<open>The step every message repeats: \<open>temp = HMAC(ck, x)\<close>, the new chaining
  key \<open>HMAC(temp, 1)\<close>, and where needed a key from \<open>temp\<close>.\<close>

definition mix1 :: "crypto \<Rightarrow> bytes \<Rightarrow> bytes \<Rightarrow> bytes" where
  "mix1 cr chaining_key x = b2s_hmac cr (b2s_hmac cr chaining_key x) [1]"

definition mix2 :: "crypto \<Rightarrow> bytes \<Rightarrow> bytes \<Rightarrow> bytes \<times> bytes" where
  "mix2 cr chaining_key x =
     (let temp = b2s_hmac cr chaining_key x; ck = b2s_hmac cr temp [1]
      in (ck, b2s_hmac2 cr temp ck [2]))"

definition mix_psk :: "crypto \<Rightarrow> bytes \<Rightarrow> bytes option \<Rightarrow> bytes \<times> bytes \<times> bytes" where
  "mix_psk cr chaining_key psk =
     (let temp = b2s_hmac cr chaining_key (case psk of Some k \<Rightarrow> k | None \<Rightarrow> replicate 32 0);
          ck = b2s_hmac cr temp [1]; temp2 = b2s_hmac2 cr temp ck [2]
      in (ck, temp2, b2s_hmac2 cr temp temp2 [3]))"

definition derive_keys :: "crypto \<Rightarrow> bytes \<Rightarrow> bytes \<times> bytes" where
  "derive_keys cr chaining_key =
     (let temp1 = b2s_hmac cr chaining_key []; temp2 = b2s_hmac cr temp1 [1]
      in (temp2, b2s_hmac2 cr temp1 temp2 [2]))"

section \<open>Messages\<close>

definition parse_handshake_anon ::
  "crypto \<Rightarrow> bytes \<Rightarrow> bytes \<Rightarrow> handshake_init \<Rightarrow> (WireGuardError + half_handshake) option" where
  "parse_handshake_anon cr static_private static_public packet =
     (let peer_index = hi_sender_idx packet;
          hash = b2s_hash cr INITIAL_CHAIN_HASH static_public;
          peer_ephemeral_public = hi_unencrypted_ephemeral packet;
          hash = b2s_hash cr hash peer_ephemeral_public;
          chaining_key = mix1 cr INITIAL_CHAIN_KEY peer_ephemeral_public;
          (chaining_key, key) = mix2 cr chaining_key (cr_dh cr static_private peer_ephemeral_public)
      in do {
        r \<leftarrow> aead_chacha20_open cr 32 key 0 (hi_encrypted_static packet) hash;
        Some (map_sum id (\<lambda>peer_static_public.
          \<lparr>hh_peer_index = peer_index, hh_peer_static_public = peer_static_public\<rparr>) r) })"

text \<open>\<open>msg\<close> is the message up to the MACs.\<close>

definition append_mac1_and_mac2 :: "crypto \<Rightarrow> handshake \<Rightarrow> u32 \<Rightarrow> bytes \<Rightarrow> bytes \<times> handshake" where
  "append_mac1_and_mac2 cr h local_index msg =
     (let msg_mac1 = b2s_keyed_mac_16 cr (np_sending_mac1_key (h_params h)) msg;
          msg_mac2 = (case ck_write_cookie (h_cookies h) of
            Some cookie \<Rightarrow> b2s_keyed_mac_16 cr cookie (msg @ msg_mac1)
          | None \<Rightarrow> replicate 16 0)
      in (msg @ msg_mac1 @ msg_mac2,
          h\<lparr>h_cookies := (h_cookies h)\<lparr>ck_index := local_index, ck_last_mac1 := Some msg_mac1\<rparr>\<rparr>))"

definition format_handshake_initiation ::
  "crypto \<Rightarrow> handshake \<Rightarrow> bytes \<Rightarrow> nat \<Rightarrow> nat \<Rightarrow> nat \<Rightarrow> ((WireGuardError + bytes) \<times> handshake) option" where
  "format_handshake_initiation cr h ephemeral_private stamp_now time_now dst_len =
     (if dst_len < HANDSHAKE_INIT_SZ then Some (Inl DestinationBufferTooSmall, h)
      else let np = h_params h;
          (local_index, h) = inc_index h;
          hash = b2s_hash cr INITIAL_CHAIN_HASH (np_peer_static_public np);
          unencrypted_ephemeral = cr_pub cr ephemeral_private;
          hash = b2s_hash cr hash unencrypted_ephemeral;
          chaining_key = mix1 cr INITIAL_CHAIN_KEY unencrypted_ephemeral;
          (chaining_key, key) = mix2 cr chaining_key (cr_dh cr ephemeral_private (np_peer_static_public np))
      in do {
        encrypted_static \<leftarrow> aead_chacha20_seal cr 48 key 0 (np_static_public np) hash;
        let hash = b2s_hash cr hash encrypted_static;
        let (chaining_key, key) = mix2 cr chaining_key (np_static_shared np);
        encrypted_timestamp \<leftarrow> aead_chacha20_seal cr 28 key 0 (stamp (h_stamper h) stamp_now) hash;
        let hash = b2s_hash cr hash encrypted_timestamp;
        let h = h\<lparr>h_previous := h_state h, h_state := InitSent \<lparr>is_local_index = local_index,
          is_hash = hash, is_chaining_key = chaining_key, is_ephemeral_private = ephemeral_private,
          is_time_sent = time_now\<rparr>\<rparr>;
        let (dst, h) = append_mac1_and_mac2 cr h local_index
          (to_le_bytes HANDSHAKE_INIT @ to_le_bytes local_index @ unencrypted_ephemeral @
           encrypted_static @ encrypted_timestamp);
        Some (Inr dst, h) })"

definition format_handshake_response ::
  "crypto \<Rightarrow> handshake \<Rightarrow> bytes \<Rightarrow> nat \<Rightarrow> ((WireGuardError + (bytes \<times> session)) \<times> handshake) option" where
  "format_handshake_response cr h ephemeral_private dst_len =
     (if dst_len < HANDSHAKE_RESP_SZ then Some (Inl DestinationBufferTooSmall, h)
      else case h_state h of
        InitReceived hash chaining_key peer_ephemeral_public peer_index \<Rightarrow>
          let np = h_params h;
              (local_index, h) = inc_index (h\<lparr>h_state := NoHandshake\<rparr>);
              unencrypted_ephemeral = cr_pub cr ephemeral_private;
              hash = b2s_hash cr hash unencrypted_ephemeral;
              chaining_key = mix1 cr chaining_key unencrypted_ephemeral;
              chaining_key = mix1 cr chaining_key (cr_dh cr ephemeral_private peer_ephemeral_public);
              chaining_key = mix1 cr chaining_key (cr_dh cr ephemeral_private (np_peer_static_public np));
              (chaining_key, temp2, key) = mix_psk cr chaining_key (np_preshared_key np);
              hash = b2s_hash cr hash temp2
          in do {
            encrypted_nothing \<leftarrow> aead_chacha20_seal cr 16 key 0 [] hash;
            let (temp2, temp3) = derive_keys cr chaining_key;
            let (dst, h) = append_mac1_and_mac2 cr h local_index
              (to_le_bytes HANDSHAKE_RESP @ to_le_bytes local_index @ to_le_bytes peer_index @
               unencrypted_ephemeral @ encrypted_nothing);
            Some (Inr (dst, session_new local_index peer_index temp2 temp3), h) }
      | _ \<Rightarrow> None)"

definition receive_handshake_initialization ::
  "crypto \<Rightarrow> handshake \<Rightarrow> handshake_init \<Rightarrow> bytes \<Rightarrow> nat \<Rightarrow>
    ((WireGuardError + (bytes \<times> session)) \<times> handshake) option" where
  "receive_handshake_initialization cr h packet ephemeral_private dst_len =
     (let np = h_params h;
          hash = b2s_hash cr INITIAL_CHAIN_HASH (np_static_public np);
          peer_index = hi_sender_idx packet;
          peer_ephemeral_public = hi_unencrypted_ephemeral packet;
          hash = b2s_hash cr hash peer_ephemeral_public;
          chaining_key = mix1 cr INITIAL_CHAIN_KEY peer_ephemeral_public;
          (chaining_key, key) = mix2 cr chaining_key (cr_dh cr (np_static_private np) peer_ephemeral_public)
      in do {
        r \<leftarrow> aead_chacha20_open cr 32 key 0 (hi_encrypted_static packet) hash;
        case r of Inl e \<Rightarrow> Some (Inl e, h)
        | Inr peer_static_public_decrypted \<Rightarrow>
          if np_peer_static_public np \<noteq> peer_static_public_decrypted then Some (Inl WrongKey, h)
          else let hash = b2s_hash cr hash (hi_encrypted_static packet);
                   (chaining_key, key) = mix2 cr chaining_key (np_static_shared np)
          in do {
            r \<leftarrow> aead_chacha20_open cr 12 key 0 (hi_encrypted_timestamp packet) hash;
            case and_then r tai64n_parse of Inl e \<Rightarrow> Some (Inl e, h)
            | Inr timestamp \<Rightarrow>
              if \<not> tai64n_after timestamp (h_last_timestamp h) then Some (Inl WrongTai64nTimestamp, h)
              else let hash = b2s_hash cr hash (hi_encrypted_timestamp packet)
                in format_handshake_response cr
                     (h\<lparr>h_last_timestamp := timestamp, h_previous := h_state h,
                        h_state := InitReceived hash chaining_key peer_ephemeral_public peer_index\<rparr>)
                     ephemeral_private dst_len }})"

text \<open>Which initiation a response answers: the current one, or the previous one.\<close>

definition awaiting :: "handshake \<Rightarrow> u32 \<Rightarrow> (init_sent \<times> bool) option" where
  "awaiting h receiver_idx =
     (case (h_state h, h_previous h) of (st, prev) \<Rightarrow>
        (case (case st of InitSent s \<Rightarrow> if is_local_index s = receiver_idx then Some (s, False) else None
                | _ \<Rightarrow> None) of
           Some r \<Rightarrow> Some r
         | None \<Rightarrow> (case prev of InitSent s \<Rightarrow> if is_local_index s = receiver_idx then Some (s, True) else None
                | _ \<Rightarrow> None)))"

definition receive_handshake_response ::
  "crypto \<Rightarrow> handshake \<Rightarrow> handshake_response \<Rightarrow> nat \<Rightarrow> ((WireGuardError + session) \<times> handshake) option" where
  "receive_handshake_response cr h packet now =
     (case awaiting h (hr_receiver_idx packet) of
        None \<Rightarrow> Some (Inl UnexpectedPacket, h)
      | Some (state, is_previous) \<Rightarrow>
        let np = h_params h;
            peer_index = hr_sender_idx packet;
            local_index = is_local_index state;
            unencrypted_ephemeral = hr_unencrypted_ephemeral packet;
            hash = b2s_hash cr (is_hash state) unencrypted_ephemeral;
            chaining_key = mix1 cr (is_chaining_key state) unencrypted_ephemeral;
            chaining_key = mix1 cr chaining_key (cr_dh cr (is_ephemeral_private state) unencrypted_ephemeral);
            chaining_key = mix1 cr chaining_key (cr_dh cr (np_static_private np) unencrypted_ephemeral);
            (chaining_key, temp2, key) = mix_psk cr chaining_key (np_preshared_key np);
            hash = b2s_hash cr hash temp2
        in do {
          r \<leftarrow> aead_chacha20_open cr 0 key 0 (hr_encrypted_nothing packet) hash;
          case r of Inl e \<Rightarrow> Some (Inl e, h)
          | Inr _ \<Rightarrow>
            let (temp2, temp3) = derive_keys cr chaining_key;
                h = h\<lparr>h_last_rtt := Some (of_nat ((now - is_time_sent state) div 1000000))\<rparr>;
                h = (if is_previous then h\<lparr>h_previous := NoHandshake\<rparr> else h\<lparr>h_state := NoHandshake\<rparr>)
            in Some (Inr (session_new local_index peer_index temp3 temp2), h) })"

definition receive_cookie_reply ::
  "crypto \<Rightarrow> handshake \<Rightarrow> packet_cookie_reply \<Rightarrow> ((WireGuardError + unit) \<times> handshake) option" where
  "receive_cookie_reply cr h packet =
     (case ck_last_mac1 (h_cookies h) of
        None \<Rightarrow> Some (Inl UnexpectedPacket, h)
      | Some mac1 \<Rightarrow>
        if cp_receiver_idx packet \<noteq> ck_index (h_cookies h) then Some (Inl WrongIndex, h)
        else let key = b2s_hash cr LABEL_COOKIE (np_peer_static_public (h_params h)) in
          if length (cp_nonce packet) \<noteq> 24 then None
          else (case cr_xopen cr key (cp_nonce packet) (take 16 mac1) (cp_encrypted_cookie packet) of
            None \<Rightarrow> Some (Inl InvalidAeadTag, h)
          | Some plaintext \<Rightarrow>
            if length plaintext \<noteq> 16 then Some (Inl InvalidPacket, h)
            else Some (Inr (), h\<lparr>h_cookies := (h_cookies h)\<lparr>ck_write_cookie := Some plaintext\<rparr>\<rparr>)))"

section \<open>Session indices\<close>

text \<open>The low byte of an index cycles, the peer's 24 bits above it stay.\<close>

lemma bit_next_session_index:
  "bit (next_session_index i) n \<longleftrightarrow>
    (if n < 8 then bit (ucast i + 1 :: u8) n else bit i n)"
proof -
  have m: "(0xff :: u32) = mask 8" by (simp add: mask_eq_exp_minus_1)
  have "\<not> bit (ucast i + 1 :: u8) n" if "8 \<le> n"
    using that by (auto dest: bit_imp_le_length)
  then show ?thesis
    unfolding next_session_index_def m
    by (auto simp: bit_or_iff bit_and_iff bit_not_iff bit_mask_iff bit_ucast_iff
        dest: bit_imp_le_length)
qed

lemma next_session_index_high: "drop_bit 8 (next_session_index i) = drop_bit 8 i"
  by (rule bit_word_eqI) (simp add: bit_drop_bit_eq bit_next_session_index)

lemma next_session_index_low: "(ucast (next_session_index i) :: u8) = ucast i + 1"
  by (rule bit_word_eqI) (simp add: bit_ucast_iff bit_next_session_index)

lemma next_session_index_neq: "next_session_index i \<noteq> i"
proof
  assume "next_session_index i = i"
  then have "(ucast i :: u8) + 1 = ucast i" by (metis next_session_index_low)
  then show False by simp
qed

section \<open>What the two sides compute\<close>

text \<open>The transcript of an initiation, from the values both sides know, and of a
  response.\<close>

definition init_transcript ::
  "crypto \<Rightarrow> bytes \<Rightarrow> bytes \<Rightarrow> bytes \<Rightarrow> bytes \<Rightarrow> bytes \<Rightarrow> bytes \<Rightarrow> bytes \<times> bytes \<times> bytes \<times> bytes" where
  "init_transcript cr resp_static eph_pub dh_es dh_ss init_static ts =
     (let hash = b2s_hash cr (b2s_hash cr INITIAL_CHAIN_HASH resp_static) eph_pub;
          (ck, key) = mix2 cr (mix1 cr INITIAL_CHAIN_KEY eph_pub) dh_es;
          es = cr_seal cr key (counter_nonce 0) hash init_static;
          hash = b2s_hash cr hash es;
          (ck, key) = mix2 cr ck dh_ss;
          et = cr_seal cr key (counter_nonce 0) hash ts
      in (es, et, b2s_hash cr hash et, ck))"

definition resp_transcript ::
  "crypto \<Rightarrow> bytes \<Rightarrow> bytes \<Rightarrow> bytes \<Rightarrow> bytes \<Rightarrow> bytes \<Rightarrow> bytes option \<Rightarrow> bytes \<times> bytes" where
  "resp_transcript cr hash ck eph_pub dh_ee dh_se psk =
     (let hash = b2s_hash cr hash eph_pub;
          (ck, temp2, key) = mix_psk cr (mix1 cr (mix1 cr (mix1 cr ck eph_pub) dh_ee) dh_se) psk
      in (cr_seal cr key (counter_nonce 0) (b2s_hash cr hash temp2) [], ck))"

lemma length_stamp [simp]: "length (stamp ts now) = 12"
  by (simp add: stamp_def Let_def)

lemma append_macs_length:
  assumes "crypto_ok cr" "append_mac1_and_mac2 cr h idx msg = (dst, h')"
  shows "\<exists>macs. dst = msg @ macs \<and> length macs = 32 \<and> h' = h\<lparr>h_cookies := h_cookies h'\<rparr> \<and>
    ck_write_cookie (h_cookies h') = ck_write_cookie (h_cookies h)"
  using assms by (auto simp: append_mac1_and_mac2_def Let_def crypto_simps split: option.splits)

lemma format_initiation_result:
  assumes ok: "crypto_ok cr" and len: "148 \<le> dst_len" "length (np_static_public (h_params h)) = 32"
    and tr: "init_transcript cr (np_peer_static_public (h_params h)) (cr_pub cr eph)
        (cr_dh cr eph (np_peer_static_public (h_params h))) (np_static_shared (h_params h))
        (np_static_public (h_params h)) (stamp (h_stamper h) stamp_now) = (es, et, hash, ck)"
    and i: "i = next_session_index (h_next_index h)"
  shows "\<exists>macs cks. format_handshake_initiation cr h eph stamp_now time_now dst_len =
      Some (Inr (wire_init \<lparr>hi_sender_idx = i, hi_unencrypted_ephemeral = cr_pub cr eph,
                   hi_encrypted_static = es, hi_encrypted_timestamp = et\<rparr> macs),
            h\<lparr>h_next_index := i, h_previous := h_state h,
              h_state := InitSent \<lparr>is_local_index = i, is_hash = hash, is_chaining_key = ck,
                is_ephemeral_private = eph, is_time_sent = time_now\<rparr>, h_cookies := cks\<rparr>) \<and>
    length macs = 32 \<and> length es = 48 \<and> length et = 28 \<and>
    ck_write_cookie cks = ck_write_cookie (h_cookies h)"
proof -
  obtain ck1 key1 where m1: "mix2 cr (mix1 cr INITIAL_CHAIN_KEY (cr_pub cr eph))
      (cr_dh cr eph (np_peer_static_public (h_params h))) = (ck1, key1)" by fastforce
  obtain ck2 key2 where m2: "mix2 cr ck1 (np_static_shared (h_params h)) = (ck2, key2)" by fastforce
  let ?h1 = "h\<lparr>h_next_index := i, h_previous := h_state h,
      h_state := InitSent \<lparr>is_local_index = i, is_hash = hash, is_chaining_key = ck,
        is_ephemeral_private = eph, is_time_sent = time_now\<rparr>\<rparr>"
  let ?msg = "to_le_bytes HANDSHAKE_INIT @ to_le_bytes i @ cr_pub cr eph @ es @ et"
  obtain dst h' where a: "append_mac1_and_mac2 cr ?h1 i ?msg = (dst, h')" by fastforce
  then obtain macs where macs: "dst = ?msg @ macs" "length macs = 32" "h' = ?h1\<lparr>h_cookies := h_cookies h'\<rparr>"
      "ck_write_cookie (h_cookies h') = ck_write_cookie (h_cookies h)"
    using append_macs_length [OF ok a] by auto
  let ?H = "b2s_hash cr (b2s_hash cr INITIAL_CHAIN_HASH (np_peer_static_public (h_params h))) (cr_pub cr eph)"
  have s: "cr_seal cr key1 (counter_nonce 0) ?H (np_static_public (h_params h)) = es"
      "cr_seal cr key2 (counter_nonce 0) (b2s_hash cr ?H es) (stamp (h_stamper h) stamp_now) = et"
      "b2s_hash cr (b2s_hash cr ?H es) et = hash" "ck2 = ck"
    using tr by (auto simp: init_transcript_def Let_def m1 m2)
  then have t: "length es = 48" "length et = 28" using ok len(2) by (auto simp: crypto_simps)
  have "format_handshake_initiation cr h eph stamp_now time_now dst_len = Some (Inr dst, h')"
    using len a
    by (simp add: format_handshake_initiation_def Let_def m1 m2 inc_index_def aead_seal_some
        HANDSHAKE_INIT_SZ_def s i [symmetric])
  moreover have "dst = wire_init \<lparr>hi_sender_idx = i, hi_unencrypted_ephemeral = cr_pub cr eph,
      hi_encrypted_static = es, hi_encrypted_timestamp = et\<rparr> macs"
    by (simp add: wire_init_def macs(1))
  ultimately show ?thesis
    using macs t by (intro exI [of _ macs] exI [of _ "h_cookies h'"]) simp
qed

lemma aead_open_sealed:
  assumes "crypto_ok cr" "cr_seal cr key (counter_nonce ctr) aad p = x" "length p = n"
  shows "aead_chacha20_open cr n key ctr x aad = Some (Inr p)"
  using aead_open_seal assms by blast

lemma receive_initialization_result:
  assumes ok: "crypto_ok cr"
    and tr: "init_transcript cr (np_static_public (h_params h)) (hi_unencrypted_ephemeral p)
        (cr_dh cr (np_static_private (h_params h)) (hi_unencrypted_ephemeral p))
        (np_static_shared (h_params h)) (np_peer_static_public (h_params h)) ts =
      (hi_encrypted_static p, hi_encrypted_timestamp p, hash, ck)"
    and len: "length (np_peer_static_public (h_params h)) = 32" "length ts = 12"
    and ts: "tai64n_parse ts = Inr t" "tai64n_after t (h_last_timestamp h)"
  shows "receive_handshake_initialization cr h p eph dst_len =
    format_handshake_response cr
      (h\<lparr>h_last_timestamp := t, h_previous := h_state h,
         h_state := InitReceived hash ck (hi_unencrypted_ephemeral p) (hi_sender_idx p)\<rparr>) eph dst_len"
proof -
  obtain ck1 key1 where m1: "mix2 cr (mix1 cr INITIAL_CHAIN_KEY (hi_unencrypted_ephemeral p))
      (cr_dh cr (np_static_private (h_params h)) (hi_unencrypted_ephemeral p)) = (ck1, key1)" by fastforce
  obtain ck2 key2 where m2: "mix2 cr ck1 (np_static_shared (h_params h)) = (ck2, key2)" by fastforce
  let ?H = "b2s_hash cr (b2s_hash cr INITIAL_CHAIN_HASH (np_static_public (h_params h))) (hi_unencrypted_ephemeral p)"
  have s: "cr_seal cr key1 (counter_nonce 0) ?H (np_peer_static_public (h_params h)) = hi_encrypted_static p"
      "cr_seal cr key2 (counter_nonce 0) (b2s_hash cr ?H (hi_encrypted_static p)) ts = hi_encrypted_timestamp p"
      "b2s_hash cr (b2s_hash cr ?H (hi_encrypted_static p)) (hi_encrypted_timestamp p) = hash" "ck2 = ck"
    using tr by (auto simp: init_transcript_def Let_def m1 m2)
  show ?thesis
    by (simp add: receive_handshake_initialization_def Let_def m1 m2 ts s(3,4)
        aead_open_sealed [OF ok s(1) len(1)] aead_open_sealed [OF ok s(2) len(2)])
qed

lemma format_response_result:
  assumes ok: "crypto_ok cr" and len: "92 \<le> dst_len"
    and st: "h_state h = InitReceived hash ck E peer_index"
    and tr: "resp_transcript cr hash ck (cr_pub cr eph) (cr_dh cr eph E)
        (cr_dh cr eph (np_peer_static_public (h_params h))) (np_preshared_key (h_params h)) = (en, ck')"
    and dk: "derive_keys cr ck' = (k2, k3)"
    and i: "i = next_session_index (h_next_index h)"
  shows "\<exists>macs cks. format_handshake_response cr h eph dst_len =
      Some (Inr (wire_response \<lparr>hr_sender_idx = i, hr_receiver_idx = peer_index,
                   hr_unencrypted_ephemeral = cr_pub cr eph, hr_encrypted_nothing = en\<rparr> macs,
                 session_new i peer_index k2 k3),
            h\<lparr>h_next_index := i, h_state := NoHandshake, h_cookies := cks\<rparr>) \<and>
    length macs = 32 \<and> length en = 16 \<and> ck_write_cookie cks = ck_write_cookie (h_cookies h)"
proof -
  let ?c = "mix1 cr (mix1 cr (mix1 cr ck (cr_pub cr eph)) (cr_dh cr eph E))
      (cr_dh cr eph (np_peer_static_public (h_params h)))"
  obtain ck1 temp2 key where m: "mix_psk cr ?c (np_preshared_key (h_params h)) = (ck1, temp2, key)"
    by (metis prod_cases3)
  have s: "cr_seal cr key (counter_nonce 0) (b2s_hash cr (b2s_hash cr hash (cr_pub cr eph)) temp2) [] = en"
      "ck1 = ck'"
    using tr by (auto simp: resp_transcript_def Let_def m)
  then have len': "length en = 16" using ok by (auto simp: crypto_simps)
  let ?h1 = "h\<lparr>h_state := NoHandshake, h_next_index := i\<rparr>"
  let ?msg = "to_le_bytes HANDSHAKE_RESP @ to_le_bytes i @ to_le_bytes peer_index @ cr_pub cr eph @ en"
  obtain dst h' where a: "append_mac1_and_mac2 cr ?h1 i ?msg = (dst, h')" by fastforce
  then obtain macs where macs: "dst = ?msg @ macs" "length macs = 32" "h' = ?h1\<lparr>h_cookies := h_cookies h'\<rparr>"
      "ck_write_cookie (h_cookies h') = ck_write_cookie (h_cookies h)"
    using append_macs_length [OF ok a] by auto
  have "format_handshake_response cr h eph dst_len = Some (Inr (dst, session_new i peer_index k2 k3), h')"
    using len a dk
    by (simp add: format_handshake_response_def Let_def st m inc_index_def aead_seal_some
        HANDSHAKE_RESP_SZ_def s i [symmetric])
  moreover have "dst = wire_response \<lparr>hr_sender_idx = i, hr_receiver_idx = peer_index,
      hr_unencrypted_ephemeral = cr_pub cr eph, hr_encrypted_nothing = en\<rparr> macs"
    by (simp add: wire_response_def macs(1))
  moreover have "h' = h\<lparr>h_next_index := i, h_state := NoHandshake, h_cookies := h_cookies h'\<rparr>"
    by (subst macs(3)) (rule handshake.equality; simp)
  ultimately show ?thesis
    using macs(2,4) len' by (intro exI [of _ macs] exI [of _ "h_cookies h'"]) simp
qed

lemma receive_response_result:
  assumes ok: "crypto_ok cr"
    and aw: "awaiting h (hr_receiver_idx p) = Some (st, prev)"
    and tr: "resp_transcript cr (is_hash st) (is_chaining_key st) (hr_unencrypted_ephemeral p)
        (cr_dh cr (is_ephemeral_private st) (hr_unencrypted_ephemeral p))
        (cr_dh cr (np_static_private (h_params h)) (hr_unencrypted_ephemeral p))
        (np_preshared_key (h_params h)) = (hr_encrypted_nothing p, ck')"
    and dk: "derive_keys cr ck' = (k2, k3)"
  shows "\<exists>h'. receive_handshake_response cr h p now =
      Some (Inr (session_new (is_local_index st) (hr_sender_idx p) k3 k2), h') \<and>
    h' = h\<lparr>h_last_rtt := h_last_rtt h', h_previous := (if prev then NoHandshake else h_previous h),
           h_state := (if prev then h_state h else NoHandshake)\<rparr>"
proof -
  let ?c = "mix1 cr (mix1 cr (mix1 cr (is_chaining_key st) (hr_unencrypted_ephemeral p))
      (cr_dh cr (is_ephemeral_private st) (hr_unencrypted_ephemeral p)))
      (cr_dh cr (np_static_private (h_params h)) (hr_unencrypted_ephemeral p))"
  obtain ck1 temp2 key where m: "mix_psk cr ?c (np_preshared_key (h_params h)) = (ck1, temp2, key)"
    by (metis prod_cases3)
  have s: "cr_seal cr key (counter_nonce 0)
        (b2s_hash cr (b2s_hash cr (is_hash st) (hr_unencrypted_ephemeral p)) temp2) [] = hr_encrypted_nothing p"
      "ck1 = ck'"
    using tr by (auto simp: resp_transcript_def Let_def m)
  show ?thesis
    using dk by (simp add: receive_handshake_response_def aw Let_def m s(2) aead_open_sealed [OF ok s(1)])
qed

section \<open>Receiving an initiation, by its checks\<close>

text \<open>What the checks of an initiation yield before the timestamp is compared:
  they depend on the parameters only.\<close>

definition init_check ::
  "crypto \<Rightarrow> noise_params \<Rightarrow> handshake_init \<Rightarrow> (WireGuardError + (tai64n \<times> bytes \<times> bytes)) option" where
  "init_check cr np p =
     (let hash = b2s_hash cr (b2s_hash cr INITIAL_CHAIN_HASH (np_static_public np)) (hi_unencrypted_ephemeral p);
          (ck, key) = mix2 cr (mix1 cr INITIAL_CHAIN_KEY (hi_unencrypted_ephemeral p))
            (cr_dh cr (np_static_private np) (hi_unencrypted_ephemeral p))
      in do {
        r \<leftarrow> aead_chacha20_open cr 32 key 0 (hi_encrypted_static p) hash;
        case r of Inl e \<Rightarrow> Some (Inl e)
        | Inr k \<Rightarrow>
          if np_peer_static_public np \<noteq> k then Some (Inl WrongKey)
          else let hash = b2s_hash cr hash (hi_encrypted_static p);
                   (ck, key) = mix2 cr ck (np_static_shared np)
          in do {
            r \<leftarrow> aead_chacha20_open cr 12 key 0 (hi_encrypted_timestamp p) hash;
            Some (map_sum id (\<lambda>t. (t, b2s_hash cr hash (hi_encrypted_timestamp p), ck))
              (and_then r tai64n_parse)) }})"

lemma receive_initialization_checks:
  "receive_handshake_initialization cr h p e n =
    (case init_check cr (h_params h) p of
       None \<Rightarrow> None
     | Some (Inl er) \<Rightarrow> Some (Inl er, h)
     | Some (Inr (t, hash, ck)) \<Rightarrow>
       if \<not> tai64n_after t (h_last_timestamp h) then Some (Inl WrongTai64nTimestamp, h)
       else format_handshake_response cr
         (h\<lparr>h_last_timestamp := t, h_previous := h_state h,
            h_state := InitReceived hash ck (hi_unencrypted_ephemeral p) (hi_sender_idx p)\<rparr>) e n)"
  by (simp add: receive_handshake_initialization_def init_check_def Let_def split_beta
      split: option.split sum.split bind_splits)

lemma init_check_total:
  assumes "crypto_ok cr" "init_shape p"
  shows "init_check cr np p \<noteq> None"
  using assms
  by (auto simp: init_check_def init_shape_def Let_def split_beta aead_open_cases
      split: option.splits sum.splits if_splits)

lemma init_check_anon:
  assumes "init_check cr np p = Some (Inr r)"
  shows "parse_handshake_anon cr (np_static_private np) (np_static_public np) p =
    Some (Inr \<lparr>hh_peer_index = hi_sender_idx p, hh_peer_static_public = np_peer_static_public np\<rparr>)"
proof -
  obtain ck1 key1 where m1: "mix2 cr (mix1 cr INITIAL_CHAIN_KEY (hi_unencrypted_ephemeral p))
      (cr_dh cr (np_static_private np) (hi_unencrypted_ephemeral p)) = (ck1, key1)" by fastforce
  let ?o = "aead_chacha20_open cr 32 key1 0 (hi_encrypted_static p)
      (b2s_hash cr (b2s_hash cr INITIAL_CHAIN_HASH (np_static_public np)) (hi_unencrypted_ephemeral p))"
  have "?o = Some (Inr (np_peer_static_public np))"
  proof (cases ?o)
    case None
    then show ?thesis using assms by (simp add: init_check_def Let_def m1)
  next
    case (Some r0)
    then show ?thesis using assms by (cases r0) (auto simp: init_check_def Let_def m1 split: if_splits)
  qed
  then show ?thesis by (simp add: parse_handshake_anon_def Let_def m1)
qed

lemma s_receiving_index_new [simp]: "s_receiving_index (session_new i j k k') = i"
  by (simp add: session_new_def)

text \<open>Formatting a response changes only the state, the index and the MAC fields.\<close>

lemma format_response_frame:
  assumes "format_handshake_response cr h e n = Some (r, h')"
  shows "h_params h' = h_params h \<and> h_last_timestamp h' = h_last_timestamp h \<and>
    h_stamper h' = h_stamper h \<and> h_previous h' = h_previous h \<and> h_last_rtt h' = h_last_rtt h \<and>
    ck_write_cookie (h_cookies h') = ck_write_cookie (h_cookies h) \<and>
    (case r of Inl er \<Rightarrow> er = DestinationBufferTooSmall \<and> h' = h
     | Inr (dst, s) \<Rightarrow> h_state h' = NoHandshake \<and>
         h_next_index h' = next_session_index (h_next_index h) \<and>
         s_receiving_index s = h_next_index h' \<and> session_window s 0 {})"
  using assms session_new_window
  by (auto simp: format_handshake_response_def Let_def split_beta inc_index_def append_mac1_and_mac2_def
      aead_chacha20_seal_def aead_chacha20_seal_inner_def session_new_def bind_eq_Some_conv
      split: if_splits handshake_state.splits)

lemma receive_initialization_frame:
  assumes "receive_handshake_initialization cr h p e n = Some (r, h')"
  shows "h_params h' = h_params h \<and> h_stamper h' = h_stamper h \<and> h_last_rtt h' = h_last_rtt h \<and>
    ck_write_cookie (h_cookies h') = ck_write_cookie (h_cookies h) \<and>
    (case r of
       Inl er \<Rightarrow> h' = h \<or> (er = DestinationBufferTooSmall \<and>
         (\<exists>t hash ck. tai64n_after t (h_last_timestamp h) \<and>
           h' = h\<lparr>h_last_timestamp := t, h_previous := h_state h,
             h_state := InitReceived hash ck (hi_unencrypted_ephemeral p) (hi_sender_idx p)\<rparr>))
     | Inr (dst, s) \<Rightarrow> tai64n_after (h_last_timestamp h') (h_last_timestamp h) \<and>
         h_previous h' = h_state h \<and> h_state h' = NoHandshake \<and>
         h_next_index h' = next_session_index (h_next_index h) \<and>
         s_receiving_index s = h_next_index h' \<and> session_window s 0 {})"
proof (cases "init_check cr (h_params h) p")
  case None
  then show ?thesis using assms by (simp add: receive_initialization_checks)
next
  case (Some c)
  show ?thesis
  proof (cases c)
    case (Inl er)
    then show ?thesis using assms Some by (auto simp: receive_initialization_checks)
  next
    case (Inr x)
    then obtain t hash ck where c: "c = Inr (t, hash, ck)" by (cases x) auto
    show ?thesis
    proof (cases "tai64n_after t (h_last_timestamp h)")
      case False
      then show ?thesis using assms Some c by (auto simp: receive_initialization_checks)
    next
      case True
      then have "format_handshake_response cr
         (h\<lparr>h_last_timestamp := t, h_previous := h_state h,
            h_state := InitReceived hash ck (hi_unencrypted_ephemeral p) (hi_sender_idx p)\<rparr>) e n
        = Some (r, h')"
        using assms Some c by (simp add: receive_initialization_checks)
      from format_response_frame [OF this] True show ?thesis by (cases r) (force, auto)
    qed
  qed
qed

section \<open>The state machine and its invariant\<close>

datatype hs_op =
    FormatInit bytes nat nat nat
  | ReceiveInit handshake_init bytes nat
  | ReceiveResponse handshake_response nat
  | ReceiveCookie packet_cookie_reply
  | SetExpired
  | ClearCookie
  | SetStaticPrivate bytes bytes

text \<open>A call that panics leaves no state to speak of; the step then stays.\<close>

definition kept :: "'a \<Rightarrow> ('r \<times> 'a) option \<Rightarrow> 'a" where
  "kept h r = (case r of None \<Rightarrow> h | Some (_, h') \<Rightarrow> h')"

fun hs_step :: "crypto \<Rightarrow> handshake \<Rightarrow> hs_op \<Rightarrow> handshake" where
  "hs_step cr h (FormatInit e t1 t2 n) = kept h (format_handshake_initiation cr h e t1 t2 n)"
| "hs_step cr h (ReceiveInit p e n) = kept h (receive_handshake_initialization cr h p e n)"
| "hs_step cr h (ReceiveResponse q now) = kept h (receive_handshake_response cr h q now)"
| "hs_step cr h (ReceiveCookie c) = kept h (receive_cookie_reply cr h c)"
| "hs_step cr h SetExpired = set_expired h"
| "hs_step cr h ClearCookie = clear_cookie h"
| "hs_step cr h (SetStaticPrivate k p) = (case hs_set_static_private cr h k p of None \<Rightarrow> h | Some h' \<Rightarrow> h')"

text \<open>\<open>k\<close> is the 24-bit peer index of the tunnel.  The two initiations that may
  await a response have different indices.\<close>

fun state_index :: "handshake_state \<Rightarrow> u32 option" where
  "state_index (InitSent s) = Some (is_local_index s)"
| "state_index _ = None"

definition hs_inv :: "u32 \<Rightarrow> handshake \<Rightarrow> bool" where
  "hs_inv k h \<longleftrightarrow> drop_bit 8 (h_next_index h) = k \<and>
     (\<forall>i. state_index (h_state h) = Some i \<longrightarrow> i = h_next_index h) \<and>
     (\<forall>i. state_index (h_previous h) = Some i \<longrightarrow> drop_bit 8 i = k) \<and>
     (\<forall>i. state_index (h_state h) = Some i \<longrightarrow> state_index (h_previous h) \<noteq> Some i)"

lemma format_initiation_frame:
  assumes "format_handshake_initiation cr h e t1 t2 n = Some (r, h')"
  shows "h_params h' = h_params h \<and> h_last_timestamp h' = h_last_timestamp h \<and>
    h_stamper h' = h_stamper h \<and> h_last_rtt h' = h_last_rtt h \<and>
    ck_write_cookie (h_cookies h') = ck_write_cookie (h_cookies h) \<and>
    (case r of Inl er \<Rightarrow> er = DestinationBufferTooSmall \<and> h' = h
     | Inr dst \<Rightarrow> h_previous h' = h_state h \<and> h_next_index h' = next_session_index (h_next_index h) \<and>
         (\<exists>s. h_state h' = InitSent s \<and> is_local_index s = h_next_index h' \<and> is_time_sent s = t2))"
  using assms
  by (auto simp: format_handshake_initiation_def Let_def split_beta inc_index_def append_mac1_and_mac2_def
      aead_chacha20_seal_def aead_chacha20_seal_inner_def bind_eq_Some_conv split: if_splits)

lemma awaiting_cases:
  assumes "awaiting h i = Some (s, b)"
  shows "is_local_index s = i \<and> (if b then h_previous h = InitSent s else h_state h = InitSent s)"
  using assms by (auto simp: awaiting_def split: handshake_state.splits if_splits)

lemma awaiting_none:
  "state_index (h_state h) \<noteq> Some i \<Longrightarrow> state_index (h_previous h) \<noteq> Some i \<Longrightarrow> awaiting h i = None"
  by (auto simp: awaiting_def split: handshake_state.splits)

lemma receive_response_frame:
  assumes "receive_handshake_response cr h q now = Some (r, h')"
  shows "h_params h' = h_params h \<and> h_next_index h' = h_next_index h \<and>
    h_last_timestamp h' = h_last_timestamp h \<and> h_stamper h' = h_stamper h \<and> h_cookies h' = h_cookies h \<and>
    (case r of Inl er \<Rightarrow> h' = h
     | Inr s \<Rightarrow> (\<exists>st b. awaiting h (hr_receiver_idx q) = Some (st, b) \<and>
         s_receiving_index s = hr_receiver_idx q \<and> session_window s 0 {} \<and>
         h_previous h' = (if b then NoHandshake else h_previous h) \<and>
         h_state h' = (if b then h_state h else NoHandshake)))"
proof (cases "awaiting h (hr_receiver_idx q)")
  case None
  then show ?thesis using assms by (auto simp: receive_handshake_response_def)
next
  case (Some sb)
  then obtain st b where a: "awaiting h (hr_receiver_idx q) = Some (st, b)" by (cases sb) auto
  have i: "is_local_index st = hr_receiver_idx q" using awaiting_cases [OF a] by simp
  let ?c = "mix1 cr (mix1 cr (mix1 cr (is_chaining_key st) (hr_unencrypted_ephemeral q))
      (cr_dh cr (is_ephemeral_private st) (hr_unencrypted_ephemeral q)))
      (cr_dh cr (np_static_private (h_params h)) (hr_unencrypted_ephemeral q))"
  obtain ck temp2 key where m: "mix_psk cr ?c (np_preshared_key (h_params h)) = (ck, temp2, key)"
    by (metis prod_cases3)
  obtain k2 k3 where dk: "derive_keys cr ck = (k2, k3)" by fastforce
  let ?o = "aead_chacha20_open cr 0 key 0 (hr_encrypted_nothing q)
      (b2s_hash cr (b2s_hash cr (is_hash st) (hr_unencrypted_ephemeral q)) temp2)"
  note def = receive_handshake_response_def a Let_def m dk
  show ?thesis
  proof (cases ?o)
    case None
    then show ?thesis using assms by (simp add: def)
  next
    case (Some x)
    show ?thesis
    proof (cases x)
      case (Inl er)
      then show ?thesis using assms Some by (auto simp: def)
    next
      case (Inr y)
      then show ?thesis using assms Some by (cases b; auto simp: def i; blast)
    qed
  qed
qed

lemma receive_cookie_frame:
  assumes "receive_cookie_reply cr h c = Some (r, h')"
  shows "h' = h\<lparr>h_cookies := (h_cookies h)\<lparr>ck_write_cookie := ck_write_cookie (h_cookies h')\<rparr>\<rparr> \<and>
    (isl r \<longrightarrow> h' = h)"
  using assms by (auto simp: receive_cookie_reply_def Let_def split: option.splits if_splits)

lemma hs_inv_cong:
  "h_next_index h' = h_next_index h \<Longrightarrow> h_state h' = h_state h \<Longrightarrow> h_previous h' = h_previous h \<Longrightarrow>
    hs_inv k h' = hs_inv k h"
  by (simp add: hs_inv_def)

lemma hs_inv_format_initiation:
  assumes "hs_inv k h" "format_handshake_initiation cr h e t1 t2 n = Some (r, h')"
  shows "hs_inv k h'"
  using assms(1) format_initiation_frame [OF assms(2)] next_session_index_neq [of "h_next_index h"]
  by (cases r) (auto simp: hs_inv_def next_session_index_high)

lemma hs_inv_receive_initialization:
  assumes "hs_inv k h" "receive_handshake_initialization cr h p e n = Some (r, h')"
  shows "hs_inv k h'"
proof (cases r)
  case (Inl er)
  from assms(1) have "hs_inv k (h\<lparr>h_last_timestamp := t, h_previous := h_state h,
      h_state := InitReceived hash ck E i\<rparr>)" for t hash ck E i
    by (auto simp: hs_inv_def)
  then show ?thesis using assms(1) receive_initialization_frame [OF assms(2)] Inl by auto
next
  case (Inr x)
  then show ?thesis using assms(1) receive_initialization_frame [OF assms(2)]
    by (auto simp: hs_inv_def next_session_index_high)
qed

text \<open>The timestamp of the last accepted initiation never goes back.\<close>

definition ts_le :: "tai64n \<Rightarrow> tai64n \<Rightarrow> bool" where
  "ts_le a b \<longleftrightarrow> a = b \<or> tai64n_after b a"

lemma ts_le_trans: "ts_le a b \<Longrightarrow> ts_le b c \<Longrightarrow> ts_le a c"
  by (auto simp: ts_le_def tai64n_after_def)

lemma ts_le_not_after: "ts_le a b \<Longrightarrow> \<not> tai64n_after a b"
  by (auto simp: ts_le_def tai64n_after_def)

lemma hs_step_frame:
  assumes "\<forall>a b. x \<noteq> SetStaticPrivate a b"
  shows "h_params (hs_step cr h x) = h_params h \<and>
    ts_le (h_last_timestamp h) (h_last_timestamp (hs_step cr h x))"
proof (cases x)
  case (FormatInit e t1 t2 n)
  then show ?thesis
    by (auto simp: kept_def ts_le_def dest: format_initiation_frame split: option.split)
next
  case (ReceiveInit p e n)
  show ?thesis
  proof (cases "receive_handshake_initialization cr h p e n")
    case None
    then show ?thesis by (simp add: ReceiveInit kept_def ts_le_def)
  next
    case (Some rh)
    then obtain r h' where r: "receive_handshake_initialization cr h p e n = Some (r, h')"
      by (cases rh) auto
    show ?thesis using receive_initialization_frame [OF r]
      by (cases r) (auto simp: ReceiveInit kept_def r ts_le_def)
  qed
next
  case (ReceiveResponse q now)
  then show ?thesis
    by (auto simp: kept_def ts_le_def dest: receive_response_frame split: option.split)
next
  case (ReceiveCookie c)
  then show ?thesis
    by (auto simp: kept_def ts_le_def receive_cookie_reply_def Let_def split: option.split)
qed (use assms in \<open>auto simp: ts_le_def set_expired_def clear_cookie_def\<close>)

lemma hs_run_frame:
  assumes "\<forall>a b. SetStaticPrivate a b \<notin> set xs"
  shows "h_params (run_ops (hs_step cr) h xs) = h_params h \<and>
    ts_le (h_last_timestamp h) (h_last_timestamp (run_ops (hs_step cr) h xs))"
  using assms
proof (induction xs arbitrary: h)
  case Nil
  then show ?case by (simp add: ts_le_def)
next
  case (Cons x xs)
  then have "\<forall>a b. x \<noteq> SetStaticPrivate a b" by auto
  from hs_step_frame [OF this, of cr h] Cons.IH [of "hs_step cr h x"] Cons.prems show ?case
    by (auto intro: ts_le_trans)
qed

lemma receive_initialization_accepted:
  assumes "receive_handshake_initialization cr h p e n = Some (Inr r, h')"
  shows "\<exists>t hash ck. init_check cr (h_params h) p = Some (Inr (t, hash, ck)) \<and> h_last_timestamp h' = t"
proof (cases "init_check cr (h_params h) p")
  case None
  then show ?thesis using assms by (simp add: receive_initialization_checks)
next
  case (Some c)
  then obtain t hash ck where c: "c = Inr (t, hash, ck)" "tai64n_after t (h_last_timestamp h)"
    using assms by (auto simp: receive_initialization_checks split: sum.splits if_splits)
  then have "format_handshake_response cr
       (h\<lparr>h_last_timestamp := t, h_previous := h_state h,
          h_state := InitReceived hash ck (hi_unencrypted_ephemeral p) (hi_sender_idx p)\<rparr>) e n
      = Some (Inr r, h')"
    using assms Some by (simp add: receive_initialization_checks)
  from format_response_frame [OF this] show ?thesis using Some c by simp
qed

section \<open>Properties\<close>

definition params_ok :: "crypto \<Rightarrow> noise_params \<Rightarrow> bool" where
  "params_ok cr np \<longleftrightarrow> np_static_public np = cr_pub cr (np_static_private np) \<and>
     np_static_shared np = cr_dh cr (np_static_private np) (np_peer_static_public np) \<and>
     np_sending_mac1_key np = b2s_hash cr LABEL_MAC1 (np_peer_static_public np)"

text \<open>Two tunnels configured for each other.\<close>

definition params_matched :: "crypto \<Rightarrow> noise_params \<Rightarrow> noise_params \<Rightarrow> bool" where
  "params_matched cr a b \<longleftrightarrow> params_ok cr a \<and> params_ok cr b \<and>
     np_peer_static_public a = np_static_public b \<and> np_peer_static_public b = np_static_public a \<and>
     np_preshared_key a = np_preshared_key b"

lemma params_new_ok: "params_ok cr (noise_params_new cr k (cr_pub cr k) peer psk)"
  by (simp add: params_ok_def noise_params_new_def)

lemma params_matched_facts:
  assumes "crypto_ok cr" "params_matched cr a b"
  shows "np_static_shared a = np_static_shared b"
    "length (np_static_public a) = 32" "length (np_static_public b) = 32"
  using assms by (simp_all add: params_matched_def params_ok_def crypto_simps dh_comm)

lemma handshake_completes:
  assumes ok: "crypto_ok cr" and pm: "params_matched cr (h_params hi) (h_params hr)"
    and ts: "tai64n_parse (stamp (h_stamper hi) stamp_now) = Inr t" "tai64n_after t (h_last_timestamp hr)"
    and len: "148 \<le> n1" "92 \<le> n2"
  shows "\<exists>wire1 hi1 p wire2 sr hr1 q si hi2.
    format_handshake_initiation cr hi e1 stamp_now time_now n1 = Some (Inr wire1, hi1) \<and>
    parse_incoming_packet wire1 = Inr (HandshakeInit p) \<and>
    receive_handshake_initialization cr hr p e2 n2 = Some (Inr (wire2, sr), hr1) \<and>
    parse_incoming_packet wire2 = Inr (HandshakeResponse q) \<and>
    receive_handshake_response cr hi1 q now = Some (Inr si, hi2) \<and>
    sessions_paired si sr \<and> sessions_paired sr si \<and>
    session_window si 0 {} \<and> session_window sr 0 {} \<and>
    s_receiving_index si = next_session_index (h_next_index hi) \<and>
    s_receiving_index sr = next_session_index (h_next_index hr)"
proof -
  let ?a = "h_params hi" and ?b = "h_params hr"
  let ?i = "next_session_index (h_next_index hi)" and ?j = "next_session_index (h_next_index hr)"
  note facts = params_matched_facts [OF ok pm]
  have peers: "np_peer_static_public ?a = np_static_public ?b" "np_peer_static_public ?b = np_static_public ?a"
    and psk: "np_preshared_key ?a = np_preshared_key ?b"
    and pubs: "np_static_public ?b = cr_pub cr (np_static_private ?b)"
      "np_static_public ?a = cr_pub cr (np_static_private ?a)"
    using pm by (auto simp: params_matched_def params_ok_def)
  obtain es et hash ck where tr1: "init_transcript cr (np_peer_static_public ?a) (cr_pub cr e1)
      (cr_dh cr e1 (np_peer_static_public ?a)) (np_static_shared ?a) (np_static_public ?a)
      (stamp (h_stamper hi) stamp_now) = (es, et, hash, ck)" by (metis prod_cases4)
  obtain macs cks where f1: "format_handshake_initiation cr hi e1 stamp_now time_now n1 =
      Some (Inr (wire_init \<lparr>hi_sender_idx = ?i, hi_unencrypted_ephemeral = cr_pub cr e1,
              hi_encrypted_static = es, hi_encrypted_timestamp = et\<rparr> macs),
            hi\<lparr>h_next_index := ?i, h_previous := h_state hi,
              h_state := InitSent \<lparr>is_local_index = ?i, is_hash = hash, is_chaining_key = ck,
                is_ephemeral_private = e1, is_time_sent = time_now\<rparr>, h_cookies := cks\<rparr>)"
      "length macs = 32" "length es = 48" "length et = 28"
    using format_initiation_result [OF ok len(1) facts(2) tr1 refl] by blast
  let ?p = "\<lparr>hi_sender_idx = ?i, hi_unencrypted_ephemeral = cr_pub cr e1,
      hi_encrypted_static = es, hi_encrypted_timestamp = et\<rparr>"
  let ?hi1 = "hi\<lparr>h_next_index := ?i, h_previous := h_state hi,
      h_state := InitSent \<lparr>is_local_index = ?i, is_hash = hash, is_chaining_key = ck,
        is_ephemeral_private = e1, is_time_sent = time_now\<rparr>, h_cookies := cks\<rparr>"
  have p: "parse_incoming_packet (wire_init ?p macs) = Inr (HandshakeInit ?p)"
    using f1 ok by (intro parse_wire_init) (simp_all add: init_shape_def crypto_simps)
  have dh1: "cr_dh cr (np_static_private ?b) (cr_pub cr e1) = cr_dh cr e1 (np_peer_static_public ?a)"
    by (simp add: peers pubs dh_comm [OF ok, of e1])
  have tr1': "init_transcript cr (np_static_public ?b) (hi_unencrypted_ephemeral ?p)
      (cr_dh cr (np_static_private ?b) (hi_unencrypted_ephemeral ?p)) (np_static_shared ?b)
      (np_peer_static_public ?b) (stamp (h_stamper hi) stamp_now) =
      (hi_encrypted_static ?p, hi_encrypted_timestamp ?p, hash, ck)"
    using tr1 by (simp add: dh1 facts(1)) (simp add: peers)
  let ?hr0 = "hr\<lparr>h_last_timestamp := t, h_previous := h_state hr,
      h_state := InitReceived hash ck (cr_pub cr e1) ?i\<rparr>"
  have r1: "receive_handshake_initialization cr hr ?p e2 n2 = format_handshake_response cr ?hr0 e2 n2"
    using receive_initialization_result [OF ok tr1' _ _ ts] facts(2) by (simp add: peers)
  obtain en ck' where tr2: "resp_transcript cr hash ck (cr_pub cr e2) (cr_dh cr e2 (cr_pub cr e1))
      (cr_dh cr e2 (np_peer_static_public ?b)) (np_preshared_key ?b) = (en, ck')" by fastforce
  obtain k2 k3 where dk: "derive_keys cr ck' = (k2, k3)" by fastforce
  obtain macs2 cks2 where f2: "format_handshake_response cr ?hr0 e2 n2 =
      Some (Inr (wire_response \<lparr>hr_sender_idx = ?j, hr_receiver_idx = ?i,
              hr_unencrypted_ephemeral = cr_pub cr e2, hr_encrypted_nothing = en\<rparr> macs2,
            session_new ?j ?i k2 k3),
          ?hr0\<lparr>h_next_index := ?j, h_state := NoHandshake, h_cookies := cks2\<rparr>)"
      "length macs2 = 32" "length en = 16"
    using format_response_result [OF ok len(2), of ?hr0 hash ck "cr_pub cr e1" ?i e2 en ck' k2 k3 ?j]
      tr2 dk by auto
  let ?q = "\<lparr>hr_sender_idx = ?j, hr_receiver_idx = ?i, hr_unencrypted_ephemeral = cr_pub cr e2,
      hr_encrypted_nothing = en\<rparr>"
  have q: "parse_incoming_packet (wire_response ?q macs2) = Inr (HandshakeResponse ?q)"
    using f2 ok by (intro parse_wire_response) (simp_all add: response_shape_def crypto_simps)
  have dh2: "cr_dh cr (np_static_private ?a) (cr_pub cr e2) = cr_dh cr e2 (np_peer_static_public ?b)"
    by (simp add: peers pubs dh_comm [OF ok, of e2])
  obtain hi2 where r2: "receive_handshake_response cr ?hi1 ?q now = Some (Inr (session_new ?i ?j k3 k2), hi2)"
    using receive_response_result [OF ok, of ?hi1 ?q "\<lparr>is_local_index = ?i, is_hash = hash,
        is_chaining_key = ck, is_ephemeral_private = e1, is_time_sent = time_now\<rparr>" False ck' k2 k3 now]
      tr2 dk by (auto simp: awaiting_def psk dh2 dh_comm [OF ok, of e1 e2])
  show ?thesis
    using f1(1) p r1 f2(1) q r2 session_new_window
    by (intro exI conjI) (auto simp: sessions_paired_def session_new_def)
qed


lemma hs_inv_receive_response:
  assumes "hs_inv k h" "receive_handshake_response cr h q now = Some (r, h')"
  shows "hs_inv k h'"
  using assms(1) receive_response_frame [OF assms(2)]
  by (cases r) (auto simp: hs_inv_def split: if_splits)

lemma hs_inv_step: "hs_inv k h \<Longrightarrow> hs_inv k (hs_step cr h x)"
proof (cases x)
  case (FormatInit e t1 t2 n)
  then show "hs_inv k h \<Longrightarrow> ?thesis"
    by (auto simp: kept_def dest: hs_inv_format_initiation split: option.split)
next
  case (ReceiveInit p e n)
  then show "hs_inv k h \<Longrightarrow> ?thesis"
    by (auto simp: kept_def dest: hs_inv_receive_initialization split: option.split)
next
  case (ReceiveResponse q now)
  then show "hs_inv k h \<Longrightarrow> ?thesis"
    by (auto simp: kept_def dest: hs_inv_receive_response split: option.split)
next
  case (ReceiveCookie c)
  then show "hs_inv k h \<Longrightarrow> ?thesis"
    by (auto simp: kept_def receive_cookie_reply_def Let_def hs_inv_def split: option.split)
qed (auto simp: hs_inv_def set_expired_def clear_cookie_def hs_set_static_private_def split: option.split)

interpretation hs: invariant_machine "hs_step cr" "hs_inv k"
  by unfold_locales (rule hs_inv_step)

lemma hs_inv_new: "hs_inv (drop_bit 8 i) (handshake_new cr k p q i psk ts)"
  by (simp add: hs_inv_def handshake_new_def)

lemma response_session_index:
  assumes "hs_inv k h" "receive_handshake_response cr h q now = Some (Inr s, h')"
  shows "drop_bit 8 (s_receiving_index s) = k"
proof -
  obtain st b where a: "awaiting h (hr_receiver_idx q) = Some (st, b)"
      "s_receiving_index s = hr_receiver_idx q"
    using receive_response_frame [OF assms(2)] by auto
  then show ?thesis using awaiting_cases [OF a(1)] assms(1)
    by (cases b) (auto simp: hs_inv_def)
qed

text \<open>A concrete pair of tunnels, for the witnesses.\<close>

definition toy_stamper :: time_stamper where
  "toy_stamper = \<lparr>duration_at_start = 0, instant_at_start = 0\<rparr>"

definition toy_initiator :: handshake where
  "toy_initiator = handshake_new toy_crypto [1] (cr_pub toy_crypto [1]) (cr_pub toy_crypto [2])
     (push_bit 8 5) None toy_stamper"

definition toy_responder :: handshake where
  "toy_responder = handshake_new toy_crypto [2] (cr_pub toy_crypto [2]) (cr_pub toy_crypto [1])
     (push_bit 8 9) None toy_stamper"

lemma toy_matched: "params_matched toy_crypto (h_params toy_initiator) (h_params toy_responder)"
  by (simp add: params_matched_def toy_initiator_def toy_responder_def handshake_new_def params_new_ok)
    (simp add: noise_params_new_def)

lemma tai64n_parse_stamp:
  "tai64n_parse (stamp ts now) = (let d = (now - instant_at_start ts) + duration_at_start ts in
    Inr \<lparr>tn_secs = of_nat (d div 1000000000) + (push_bit 62 1 + 37), tn_nano = of_nat (d mod 1000000000)\<rparr>)"
  by (simp add: stamp_def tai64n_parse_def Let_def)

lemma toy_stamp: "\<exists>t. tai64n_parse (stamp (h_stamper toy_initiator) 3) = Inr t \<and>
    tai64n_after t (h_last_timestamp toy_responder)"
  by (simp add: tai64n_parse_stamp Let_def toy_initiator_def toy_responder_def handshake_new_def
      toy_stamper_def tai64n_after_def tai64n_zero_def word_gt_0_no push_bit_eq_mult)

lemma toy_handshake:
  "\<exists>wire1 hi1 p wire2 sr hr1 q si hi2.
    format_handshake_initiation toy_crypto toy_initiator [7] 3 4 200 = Some (Inr wire1, hi1) \<and>
    parse_incoming_packet wire1 = Inr (HandshakeInit p) \<and>
    receive_handshake_initialization toy_crypto toy_responder p [8] 200 = Some (Inr (wire2, sr), hr1) \<and>
    parse_incoming_packet wire2 = Inr (HandshakeResponse q) \<and>
    receive_handshake_response toy_crypto hi1 q 9 = Some (Inr si, hi2) \<and>
    sessions_paired si sr \<and> sessions_paired sr si \<and>
    session_window si 0 {} \<and> session_window sr 0 {} \<and>
    s_receiving_index si = next_session_index (h_next_index toy_initiator) \<and>
    s_receiving_index sr = next_session_index (h_next_index toy_responder)"
  using handshake_completes [OF toy_crypto_ok toy_matched, of 3 _ 200 200] toy_stamp by fastforce

text \<open>C2: the handshake establishes a common session.  Between two tunnels
  configured for each other, whose responder has not seen a later timestamp, the
  initiation parses and is answered, the response parses and is accepted, and the
  two sessions have crossed keys and crossed indices.\<close>

theorem handshake_agrees:
  assumes ok: "crypto_ok cr" and pm: "params_matched cr (h_params hi) (h_params hr)"
    and ts: "tai64n_parse (stamp (h_stamper hi) stamp_now) = Inr t" "tai64n_after t (h_last_timestamp hr)"
    and len: "148 \<le> n1" "92 \<le> n2"
  shows "\<exists>wire1 hi1 p wire2 sr hr1 q si hi2.
    format_handshake_initiation cr hi e1 stamp_now time_now n1 = Some (Inr wire1, hi1) \<and>
    parse_incoming_packet wire1 = Inr (HandshakeInit p) \<and>
    receive_handshake_initialization cr hr p e2 n2 = Some (Inr (wire2, sr), hr1) \<and>
    parse_incoming_packet wire2 = Inr (HandshakeResponse q) \<and>
    receive_handshake_response cr hi1 q now = Some (Inr si, hi2) \<and>
    sessions_paired si sr \<and> sessions_paired sr si \<and>
    session_window si 0 {} \<and> session_window sr 0 {} \<and>
    s_receiving_index si = next_session_index (h_next_index hi) \<and>
    s_receiving_index sr = next_session_index (h_next_index hr)"
  by (rule handshake_completes [OF assms])

theorem handshake_agrees_witness:
  "\<exists>wire1 hi1 p wire2 sr hr1 q si hi2.
    format_handshake_initiation toy_crypto toy_initiator [7] 3 4 200 = Some (Inr wire1, hi1) \<and>
    parse_incoming_packet wire1 = Inr (HandshakeInit p) \<and>
    receive_handshake_initialization toy_crypto toy_responder p [8] 200 = Some (Inr (wire2, sr), hr1) \<and>
    parse_incoming_packet wire2 = Inr (HandshakeResponse q) \<and>
    receive_handshake_response toy_crypto hi1 q 9 = Some (Inr si, hi2) \<and>
    sessions_paired si sr \<and> sessions_paired sr si"
proof -
  obtain t where "tai64n_parse (stamp (h_stamper toy_initiator) 3) = Inr t"
    "tai64n_after t (h_last_timestamp toy_responder)" using toy_stamp by blast
  from handshake_agrees [OF toy_crypto_ok toy_matched this, of 200 200 "[7]" 4 "[8]" 9]
  show ?thesis by auto
qed

text \<open>C11: replayed initiations are refused.  An accepted initiation has a later
  timestamp than every one before it, and the same initiation is refused as a
  replay in every state the handshake reaches afterwards with the same key.\<close>

theorem init_replay_refused:
  assumes "receive_handshake_initialization cr h p e n = Some (Inr r, h')"
    and "\<forall>a b. SetStaticPrivate a b \<notin> set ops"
  shows "tai64n_after (h_last_timestamp h') (h_last_timestamp h) \<and>
    receive_handshake_initialization cr (run_ops (hs_step cr) h' ops) p e' n' =
      Some (Inl WrongTai64nTimestamp, run_ops (hs_step cr) h' ops)"
proof -
  obtain t hash ck where c: "init_check cr (h_params h) p = Some (Inr (t, hash, ck))"
      "h_last_timestamp h' = t" using receive_initialization_accepted [OF assms(1)] by blast
  have f: "h_params h' = h_params h" "tai64n_after (h_last_timestamp h') (h_last_timestamp h)"
    using receive_initialization_frame [OF assms(1)] by (auto split: prod.splits)
  from hs_run_frame [OF assms(2), of cr h'] show ?thesis
    using c f by (simp add: receive_initialization_checks ts_le_not_after)
qed

theorem init_replay_refused_witness:
  "\<exists>p r h'. receive_handshake_initialization toy_crypto toy_responder p [8] 200 = Some (Inr r, h') \<and>
    receive_handshake_initialization toy_crypto h' p [9] 200 = Some (Inl WrongTai64nTimestamp, h')"
proof -
  obtain p r h' where "receive_handshake_initialization toy_crypto toy_responder p [8] 200 = Some (Inr r, h')"
    using toy_handshake by blast
  moreover from init_replay_refused [OF this, of "[]" "[9]" 200]
  have "receive_handshake_initialization toy_crypto h' p [9] 200 = Some (Inl WrongTai64nTimestamp, h')"
    by simp
  ultimately show ?thesis by blast
qed

text \<open>C32: the peer named by an initiation.  When a tunnel accepts an initiation,
  \<open>parse_handshake_anon\<close>, by which the device chooses the tunnel, has named
  exactly the tunnel's peer.\<close>

theorem initiation_identifies_peer:
  assumes "receive_handshake_initialization cr h p e n = Some (Inr r, h')"
  shows "parse_handshake_anon cr (np_static_private (h_params h)) (np_static_public (h_params h)) p =
    Some (Inr \<lparr>hh_peer_index = hi_sender_idx p, hh_peer_static_public = np_peer_static_public (h_params h)\<rparr>)"
  using receive_initialization_accepted [OF assms] init_check_anon by blast

theorem initiation_identifies_peer_witness:
  "\<exists>p hh. parse_handshake_anon toy_crypto [2] (cr_pub toy_crypto [2]) p = Some (Inr hh) \<and>
    hh_peer_static_public hh = cr_pub toy_crypto [1]"
proof -
  obtain p r h' where "receive_handshake_initialization toy_crypto toy_responder p [8] 200 = Some (Inr r, h')"
    using toy_handshake by blast
  from initiation_identifies_peer [OF this]
  have "parse_handshake_anon toy_crypto [2] (cr_pub toy_crypto [2]) p = Some (Inr
      \<lparr>hh_peer_index = hi_sender_idx p, hh_peer_static_public = cr_pub toy_crypto [1]\<rparr>)"
    by (simp add: toy_responder_def handshake_new_def noise_params_new_def)
  then show ?thesis by (intro exI conjI) (assumption, simp)
qed

text \<open>Session indices name their peer.  Whatever messages a tunnel formats and
  receives after it was created for the peer index \<open>idx\<close>, the index of every
  session it establishes has \<open>idx\<close> in its upper 24 bits, which is how the device
  finds the tunnel of a datagram.\<close>

lemma session_index_names_peer:
  assumes idx: "unat idx < 16777216"
    and h: "h = run_ops (hs_step cr) (handshake_new cr k p q (push_bit 8 idx) psk ts) ops"
    and s: "(\<exists>m e n w h'. receive_handshake_initialization cr h m e n = Some (Inr (w, s), h')) \<or>
      (\<exists>m now h'. receive_handshake_response cr h m now = Some (Inr s, h'))"
  shows "drop_bit 8 (s_receiving_index s) = idx"
proof -
  have i: "drop_bit 8 (push_bit 8 idx) = idx"
  proof (rule bit_word_eqI)
    fix n assume "n < LENGTH(32)"
    have "\<not> bit idx n" if "24 \<le> n"
    proof -
      have "take_bit 24 (unat idx) = unat idx" using idx by (simp add: take_bit_nat_eq_self_iff)
      then have "\<not> bit (unat idx) n" using that by (metis bit_take_bit_iff not_le)
      then show ?thesis by (simp add: bit_unsigned_iff)
    qed
    then show "bit (drop_bit 8 (push_bit 8 idx)) n = bit idx n"
      by (cases "24 \<le> n") (auto simp: bit_drop_bit_eq bit_push_bit_iff)
  qed
  have "hs_inv idx (handshake_new cr k p q (push_bit 8 idx) psk ts)"
    using hs_inv_new [of "push_bit 8 idx"] by (simp add: i)
  then have inv: "hs_inv idx h" unfolding h by (rule hs.run_inv)
  show ?thesis using s
  proof (elim disjE exE)
    fix m e n w h' assume r: "receive_handshake_initialization cr h m e n = Some (Inr (w, s), h')"
    from receive_initialization_frame [OF r] inv show ?thesis
      by (simp add: hs_inv_def next_session_index_high)
  next
    fix m now h' assume "receive_handshake_response cr h m now = Some (Inr s, h')"
    then show ?thesis by (rule response_session_index [OF inv])
  qed
qed

text \<open>A response is consumed.  In every reachable state, a response that
  establishes a session establishes no second one: received again at once it is an
  unexpected packet and changes nothing.\<close>

lemma response_consumed:
  assumes h: "h = run_ops (hs_step cr) (handshake_new cr k p q i psk ts) ops"
    and r: "receive_handshake_response cr h m now = Some (Inr s, h')"
  shows "receive_handshake_response cr h' m now' = Some (Inl UnexpectedPacket, h')"
proof -
  have "hs_inv (drop_bit 8 i) h" unfolding h by (rule hs.run_inv [OF hs_inv_new])
  moreover obtain st b where a: "awaiting h (hr_receiver_idx m) = Some (st, b)"
      "h_previous h' = (if b then NoHandshake else h_previous h)"
      "h_state h' = (if b then h_state h else NoHandshake)"
    using receive_response_frame [OF r] by auto
  ultimately have "awaiting h' (hr_receiver_idx m) = None"
    using awaiting_cases [OF a(1)] by (intro awaiting_none) (auto simp: hs_inv_def split: if_splits)
  then show ?thesis by (simp add: receive_handshake_response_def)
qed

end
