(* ===== verification/Rate_Limiter.thy ===== *)
theory Rate_Limiter
  imports Handshake
begin

text \<open>
  The rate limiter of handshake messages (\<open>noise/rate_limiter.rs\<close>): MAC1
  checks, the count of handshakes per second, and cookies under load.  The limiter
  is shared between the tunnels of a device through atomics, so every operation
  takes it and gives it back; secrets drawn from the operating system and clock
  readings are arguments.
\<close>

definition COOKIE_REFRESH :: nat where "COOKIE_REFRESH = 128"
definition RESET_PERIOD :: nat where "RESET_PERIOD = 1"

text \<open>Nanoseconds in a second: \<open>Duration::as_secs\<close> divides by it.\<close>

definition as_secs :: "nat \<Rightarrow> nat" where "as_secs d = d div 1000000000"

record rate_limiter =
  rl_nonce_key :: bytes
  rl_secret_key :: bytes
  rl_start_time :: nat
  rl_nonce_ctr :: u64
  rl_mac1_key :: bytes
  rl_cookie_key :: bytes
  rl_limit :: u64
  rl_count :: u64
  rl_last_reset :: nat

definition rate_limiter_new ::
  "crypto \<Rightarrow> bytes \<Rightarrow> u64 \<Rightarrow> bytes \<Rightarrow> bytes \<Rightarrow> nat \<Rightarrow> rate_limiter" where
  "rate_limiter_new cr public_key limit secret_key nonce_key now =
     \<lparr>rl_nonce_key = nonce_key, rl_secret_key = secret_key, rl_start_time = now, rl_nonce_ctr = 0,
      rl_mac1_key = b2s_hash cr LABEL_MAC1 public_key, rl_cookie_key = b2s_hash cr LABEL_COOKIE public_key,
      rl_limit = limit, rl_count = 0, rl_last_reset = now\<rparr>"

definition reset_count :: "rate_limiter \<Rightarrow> nat \<Rightarrow> rate_limiter" where
  "reset_count rl current_time =
     (if as_secs (current_time - rl_last_reset rl) \<ge> RESET_PERIOD
      then rl\<lparr>rl_count := 0, rl_last_reset := current_time\<rparr> else rl)"

definition addr_bytes :: "IpAddr \<Rightarrow> bytes" where
  "addr_bytes addr = (case addr of V4 a \<Rightarrow> a @ replicate 12 0 | V6 a \<Rightarrow> a)"

definition current_cookie :: "crypto \<Rightarrow> rate_limiter \<Rightarrow> IpAddr \<Rightarrow> nat \<Rightarrow> bytes" where
  "current_cookie cr rl addr now =
     (let cur_counter = of_nat (as_secs (now - rl_start_time rl) div COOKIE_REFRESH) :: u64
      in b2s_keyed_mac_16_2 cr (rl_secret_key rl) (to_le_bytes cur_counter) (addr_bytes addr))"

definition rl_nonce :: "crypto \<Rightarrow> rate_limiter \<Rightarrow> bytes \<times> rate_limiter" where
  "rl_nonce cr rl = (b2s_mac_24 cr (rl_nonce_key rl) (to_le_bytes (rl_nonce_ctr rl)),
     rl\<lparr>rl_nonce_ctr := rl_nonce_ctr rl + 1\<rparr>)"

definition is_under_load :: "rate_limiter \<Rightarrow> bool \<times> rate_limiter" where
  "is_under_load rl = (rl_count rl \<ge> rl_limit rl, rl\<lparr>rl_count := rl_count rl + 1\<rparr>)"

definition format_cookie_reply ::
  "crypto \<Rightarrow> rate_limiter \<Rightarrow> u32 \<Rightarrow> bytes \<Rightarrow> bytes \<Rightarrow> nat \<Rightarrow> (WireGuardError + bytes) \<times> rate_limiter" where
  "format_cookie_reply cr rl idx cookie mac1 dst_len =
     (if dst_len < COOKIE_REPLY_SZ then (Inl DestinationBufferTooSmall, rl)
      else let (nonce, rl) = rl_nonce cr rl in
        (Inr (to_le_bytes COOKIE_REPLY @ to_le_bytes idx @ nonce @
              cr_xseal cr (rl_cookie_key rl) nonce mac1 cookie), rl))"

fun handshake_sender :: "packet \<Rightarrow> u32 option" where
  "handshake_sender (HandshakeInit p) = Some (hi_sender_idx p)"
| "handshake_sender (HandshakeResponse p) = Some (hr_sender_idx p)"
| "handshake_sender _ = None"

definition verify_packet ::
  "crypto \<Rightarrow> rate_limiter \<Rightarrow> IpAddr option \<Rightarrow> bytes \<Rightarrow> nat \<Rightarrow> nat \<Rightarrow> (TunnResult + packet) \<times> rate_limiter" where
  "verify_packet cr rl src_addr src now dst_len =
     (case parse_incoming_packet src of
        Inl e \<Rightarrow> (Inl (TErr e), rl)
      | Inr packet \<Rightarrow>
        (case handshake_sender packet of
           None \<Rightarrow> (Inr packet, rl)
         | Some sender_idx \<Rightarrow>
           let msg = take (length src - 32) src; macs = drop (length src - 32) src;
               mac1 = take 16 macs; mac2 = drop 16 macs
           in if b2s_keyed_mac_16 cr (rl_mac1_key rl) msg \<noteq> mac1 then (Inl (TErr InvalidMac), rl)
           else let (loaded, rl) = is_under_load rl in
             if \<not> loaded then (Inr packet, rl)
             else (case src_addr of
                 None \<Rightarrow> (Inl (TErr UnderLoad), rl)
               | Some addr \<Rightarrow>
                 let cookie = current_cookie cr rl addr now in
                 if b2s_keyed_mac_16_2 cr cookie msg mac1 = mac2 then (Inr packet, rl)
                 else (case format_cookie_reply cr rl sender_idx cookie mac1 dst_len of
                     (Inl e, rl) \<Rightarrow> (Inl (TErr e), rl)
                   | (Inr cookie_packet, rl) \<Rightarrow> (Inl (WriteToNetwork cookie_packet), rl)))))"

section \<open>MACs of formatted messages\<close>

definition macs_of :: "crypto \<Rightarrow> noise_params \<Rightarrow> bytes option \<Rightarrow> bytes \<Rightarrow> bytes \<times> bytes" where
  "macs_of cr np cookie msg =
     (let m1 = b2s_keyed_mac_16 cr (np_sending_mac1_key np) msg
      in (m1, case cookie of Some c \<Rightarrow> b2s_keyed_mac_16 cr c (msg @ m1) | None \<Rightarrow> replicate 16 0))"

lemma format_initiation_macs:
  assumes "crypto_ok cr" "format_handshake_initiation cr h e t1 t2 n = Some (Inr wire, h')"
  shows "\<exists>p m1 m2. parse_incoming_packet wire = Inr (HandshakeInit p) \<and> length wire = 148 \<and>
    hi_sender_idx p = h_next_index h' \<and> wire = take 116 wire @ m1 @ m2 \<and> length m1 = 16 \<and> length m2 = 16 \<and>
    macs_of cr (h_params h) (ck_write_cookie (h_cookies h)) (take 116 wire) = (m1, m2) \<and>
    h_cookies h' = (h_cookies h)\<lparr>ck_last_mac1 := Some m1, ck_index := h_next_index h'\<rparr>"
proof -
  let ?i = "next_session_index (h_next_index h)"
  from assms(2) obtain es et h0 where
    a: "append_mac1_and_mac2 cr h0 ?i (to_le_bytes HANDSHAKE_INIT @ to_le_bytes ?i @ cr_pub cr e @ es @ et) = (wire, h')"
    and len: "length es = 48" "length et = 28"
    and h0: "h_params h0 = h_params h" "h_cookies h0 = h_cookies h" "h_next_index h0 = ?i"
    using assms(1)
    by (auto simp: format_handshake_initiation_def Let_def split_beta inc_index_def
        aead_chacha20_seal_def aead_chacha20_seal_inner_def crypto_simps split: if_splits)
  let ?p = "\<lparr>hi_sender_idx = ?i, hi_unencrypted_ephemeral = cr_pub cr e, hi_encrypted_static = es,
      hi_encrypted_timestamp = et\<rparr>"
  let ?msg = "to_le_bytes HANDSHAKE_INIT @ to_le_bytes ?i @ cr_pub cr e @ es @ et"
  obtain m1 m2 where m: "macs_of cr (h_params h) (ck_write_cookie (h_cookies h)) ?msg = (m1, m2)" by fastforce
  then have lm: "length m1 = 16" "length m2 = 16"
    using assms(1) by (auto simp: macs_of_def Let_def crypto_simps split: option.splits)
  have lmsg: "length ?msg = 116" using len assms(1) by (simp add: crypto_simps)
  have w: "wire = ?msg @ m1 @ m2" "h_next_index h' = ?i"
      "h_cookies h' = (h_cookies h)\<lparr>ck_last_mac1 := Some m1, ck_index := ?i\<rparr>"
    using a m h0 by (auto simp: append_mac1_and_mac2_def macs_of_def Let_def split: option.splits)
  then have "wire = wire_init ?p (m1 @ m2)" by (simp add: wire_init_def)
  moreover have "parse_incoming_packet (wire_init ?p (m1 @ m2)) = Inr (HandshakeInit ?p)"
    using len lm assms(1) by (intro parse_wire_init) (simp_all add: init_shape_def crypto_simps)
  moreover have "take 116 wire = ?msg" "length wire = 148" using w(1) lmsg lm by simp_all
  ultimately show ?thesis using w m lm by (intro exI [of _ ?p] exI [of _ m1] exI [of _ m2]) simp
qed

lemma is_under_load_nowrap:
  "unat (rl_count rl) + 1 < 18446744073709551616 \<Longrightarrow> unat (rl_count rl + 1) = unat (rl_count rl) + 1"
  by (simp add: unat_add_u64)

section \<open>Admission within one period\<close>

text \<open>Whether a datagram carries a valid MAC2 for its source.\<close>

definition has_valid_cookie :: "crypto \<Rightarrow> rate_limiter \<Rightarrow> IpAddr option \<Rightarrow> bytes \<Rightarrow> nat \<Rightarrow> bool" where
  "has_valid_cookie cr rl src_addr src now =
     (case src_addr of None \<Rightarrow> False
      | Some addr \<Rightarrow>
        b2s_keyed_mac_16_2 cr (current_cookie cr rl addr now) (take (length src - 32) src)
          (take 16 (drop (length src - 32) src)) = drop 16 (drop (length src - 32) src))"

text \<open>The handshake messages of a sequence of datagrams that are let through
  without a valid cookie.\<close>

fun admitted_uncookied ::
  "crypto \<Rightarrow> nat \<Rightarrow> rate_limiter \<Rightarrow> (IpAddr option \<times> bytes \<times> nat) list \<Rightarrow> (IpAddr option \<times> bytes \<times> nat) list" where
  "admitted_uncookied cr n rl [] = []"
| "admitted_uncookied cr n rl ((src_addr, src, now) # ds) =
     (let (r, rl') = verify_packet cr rl src_addr src now n;
          rest = admitted_uncookied cr n rl' ds
      in case r of
           Inr packet \<Rightarrow> if handshake_sender packet \<noteq> None \<and> \<not> has_valid_cookie cr rl src_addr src now
             then (src_addr, src, now) # rest else rest
         | Inl _ \<Rightarrow> rest)"

lemma format_cookie_reply_frame:
  "format_cookie_reply cr rl i c m n = (r, rl') \<Longrightarrow> rl_count rl' = rl_count rl \<and> rl_limit rl' = rl_limit rl"
  by (auto simp: format_cookie_reply_def rl_nonce_def split: if_splits)

text \<open>Every call counts at most one, the limit stays, and a handshake message let
  through without a cookie found the count below the limit.\<close>

lemma verify_packet_counts:
  assumes "verify_packet cr rl src_addr src now n = (r, rl')"
  shows "rl_limit rl' = rl_limit rl \<and> (rl_count rl' = rl_count rl \<or> rl_count rl' = rl_count rl + 1) \<and>
    (\<forall>packet. r = Inr packet \<and> handshake_sender packet \<noteq> None \<and> \<not> has_valid_cookie cr rl src_addr src now \<longrightarrow>
       rl_count rl < rl_limit rl \<and> rl_count rl' = rl_count rl + 1)"
proof -
  have cookie: "current_cookie cr (rl\<lparr>rl_count := c\<rparr>) a t = current_cookie cr rl a t" for c a t
    by (simp add: current_cookie_def)
  show ?thesis
    using assms
    by (auto simp: verify_packet_def is_under_load_def Let_def has_valid_cookie_def cookie not_le
        dest!: format_cookie_reply_frame
        split: sum.splits option.splits if_splits prod.splits)
qed

lemma admitted_uncookied_bound:
  assumes "unat (rl_count rl) + length ds < 18446744073709551616"
  shows "length (admitted_uncookied cr n rl ds) \<le> unat (rl_limit rl) - unat (rl_count rl)"
  using assms
proof (induction ds arbitrary: rl)
  case Nil
  then show ?case by simp
next
  case (Cons d ds)
  obtain a s t where d: "d = (a, s, t)" by (cases d)
  obtain r rl' where v: "verify_packet cr rl a s t n = (r, rl')" by fastforce
  note c = verify_packet_counts [OF v]
  have inc: "unat (rl_count rl + 1) = unat (rl_count rl) + 1"
    using Cons.prems by (simp add: is_under_load_nowrap)
  have IH: "length (admitted_uncookied cr n rl' ds) \<le> unat (rl_limit rl) - unat (rl_count rl')"
    using Cons.IH [of rl'] Cons.prems c inc by auto
  have mono: "unat (rl_count rl) \<le> unat (rl_count rl')" using c inc by auto
  show ?case
  proof (cases "\<exists>packet. r = Inr packet \<and> handshake_sender packet \<noteq> None \<and> \<not> has_valid_cookie cr rl a s t")
    case True
    then have "unat (rl_count rl) < unat (rl_limit rl)" "unat (rl_count rl') = unat (rl_count rl) + 1"
      using c inc by (auto simp: word_less_nat_alt)
    then show ?thesis using IH by (auto simp: d v Let_def split: sum.splits)
  next
    case False
    then have "admitted_uncookied cr n rl (d # ds) = admitted_uncookied cr n rl' ds"
      by (auto simp: d v Let_def split: sum.splits)
    then show ?thesis using IH mono by simp
  qed
qed

section \<open>Properties\<close>

text \<open>C30: rate limiting.  Between two resets, of any sequence of datagrams at most
  \<open>limit\<close> handshake messages without a valid cookie are let through, less those
  already counted.\<close>

theorem rate_limit_bounds_handshakes:
  assumes "unat (rl_count rl) + length ds < 18446744073709551616"
  shows "length (admitted_uncookied cr n rl ds) \<le> unat (rl_limit rl) - unat (rl_count rl)"
  by (rule admitted_uncookied_bound [OF assms])

theorem rate_limit_bounds_handshakes_witness:
  "length (admitted_uncookied toy_crypto 64 (rate_limiter_new toy_crypto [1] 10 [2] [3] 0)
     (replicate 50 (None, replicate 148 0, 5))) \<le> 10"
  using rate_limit_bounds_handshakes [of "rate_limiter_new toy_crypto [1] 10 [2] [3] 0"
      "replicate 50 (None, replicate 148 0, 5)" toy_crypto 64]
  by (simp add: rate_limiter_new_def)

definition limiter_for :: "crypto \<Rightarrow> rate_limiter \<Rightarrow> bytes \<Rightarrow> bool" where
  "limiter_for cr rl public_key \<longleftrightarrow> rl_mac1_key rl = b2s_hash cr LABEL_MAC1 public_key \<and>
     rl_cookie_key rl = b2s_hash cr LABEL_COOKIE public_key"

lemma limiter_for_new [simp]: "limiter_for cr (rate_limiter_new cr pk l s n now) pk"
  by (simp add: limiter_for_def rate_limiter_new_def)

lemma split_macs:
  assumes "wire = take 116 wire @ m1 @ m2" "length wire = 148" "length m1 = 16" "length m2 = 16"
  shows "take (length wire - 32) wire = take 116 wire" "take 16 (drop (length wire - 32) wire) = m1"
    "drop 16 (drop (length wire - 32) wire) = m2"
proof -
  have "drop 116 wire = m1 @ m2" using assms by (metis append_take_drop_id same_append_eq)
  then show "take (length wire - 32) wire = take 116 wire" "take 16 (drop (length wire - 32) wire) = m1"
    "drop 16 (drop (length wire - 32) wire) = m2" using assms(2,3) by simp_all
qed

text \<open>Every initiation of a peer configured for this limiter's key passes the MAC1
  check.\<close>

lemma verify_formatted_initiation:
  assumes ok: "crypto_ok cr" and f: "format_handshake_initiation cr h e t1 t2 k = Some (Inr wire, h')"
    and lim: "limiter_for cr rl pk" and np: "np_sending_mac1_key (h_params h) = b2s_hash cr LABEL_MAC1 pk"
  shows "\<exists>p m1. parse_incoming_packet wire = Inr (HandshakeInit p) \<and> hi_sender_idx p = h_next_index h' \<and>
    ck_last_mac1 (h_cookies h') = Some m1 \<and> length m1 = 16 \<and> ck_index (h_cookies h') = h_next_index h' \<and>
    verify_packet cr rl src_addr wire now n =
      (let (loaded, rl) = is_under_load rl in
       if \<not> loaded then (Inr (HandshakeInit p), rl)
       else (case src_addr of None \<Rightarrow> (Inl (TErr UnderLoad), rl)
         | Some addr \<Rightarrow>
           if has_valid_cookie cr rl src_addr wire now then (Inr (HandshakeInit p), rl)
           else (case format_cookie_reply cr rl (h_next_index h') (current_cookie cr rl addr now) m1 n of
               (Inl e, rl) \<Rightarrow> (Inl (TErr e), rl)
             | (Inr c, rl) \<Rightarrow> (Inl (WriteToNetwork c), rl))))"
proof -
  obtain p m1 m2 where p: "parse_incoming_packet wire = Inr (HandshakeInit p)" "length wire = 148"
      "hi_sender_idx p = h_next_index h'" "wire = take 116 wire @ m1 @ m2" "length m1 = 16" "length m2 = 16"
      "macs_of cr (h_params h) (ck_write_cookie (h_cookies h)) (take 116 wire) = (m1, m2)"
      "h_cookies h' = (h_cookies h)\<lparr>ck_last_mac1 := Some m1, ck_index := h_next_index h'\<rparr>"
    using format_initiation_macs [OF ok f] by blast
  note sp = split_macs [OF p(4,2,5,6)]
  have "b2s_keyed_mac_16 cr (rl_mac1_key rl) (take 116 wire) = m1"
    using p(7) lim np by (simp add: macs_of_def Let_def limiter_for_def)
  then show ?thesis
    using p(1,3,5,8)
    by (intro exI [of _ p] exI [of _ m1])
      (simp add: verify_packet_def sp Let_def is_under_load_def has_valid_cookie_def split: option.split)
qed

lemma parse_cookie_reply:
  assumes "crypto_ok cr" "length cookie = 16" "COOKIE_REPLY_SZ \<le> n"
  shows "\<exists>p rl'. format_cookie_reply cr rl idx cookie mac1 n = (Inr (wire_cookie p), rl') \<and>
    parse_incoming_packet (wire_cookie p) = Inr (PacketCookieReply p) \<and>
    p = \<lparr>cp_receiver_idx = idx, cp_nonce = b2s_mac_24 cr (rl_nonce_key rl) (to_le_bytes (rl_nonce_ctr rl)),
      cp_encrypted_cookie = cr_xseal cr (rl_cookie_key rl)
        (b2s_mac_24 cr (rl_nonce_key rl) (to_le_bytes (rl_nonce_ctr rl))) mac1 cookie\<rparr> \<and>
    rl' = rl\<lparr>rl_nonce_ctr := rl_nonce_ctr rl + 1\<rparr>"
proof -
  let ?p = "\<lparr>cp_receiver_idx = idx, cp_nonce = b2s_mac_24 cr (rl_nonce_key rl) (to_le_bytes (rl_nonce_ctr rl)),
      cp_encrypted_cookie = cr_xseal cr (rl_cookie_key rl)
        (b2s_mac_24 cr (rl_nonce_key rl) (to_le_bytes (rl_nonce_ctr rl))) mac1 cookie\<rparr>"
  have "parse_incoming_packet (wire_cookie ?p) = Inr (PacketCookieReply ?p)"
    using assms by (intro parse_wire_cookie) (simp add: cookie_shape_def crypto_simps)
  moreover have "fst (format_cookie_reply cr rl idx cookie mac1 n) = Inr (wire_cookie ?p)"
      "snd (format_cookie_reply cr rl idx cookie mac1 n) = rl\<lparr>rl_nonce_ctr := rl_nonce_ctr rl + 1\<rparr>"
    using assms by (simp_all add: format_cookie_reply_def rl_nonce_def wire_cookie_def)
  ultimately show ?thesis by (intro exI [of _ ?p]) (simp add: prod_eq_iff)
qed

text \<open>C31: the cookie exchange works.  Under load an initiation without a valid
  cookie from address \<open>addr\<close> is answered by a cookie reply; the initiator takes the
  cookie from it, and its next initiation from that address within the cookie's
  lifetime is let through although the limiter is still under load.\<close>

theorem cookie_exchange:
  assumes ok: "crypto_ok cr" and lim: "limiter_for cr rl pk"
    and np: "np_sending_mac1_key (h_params h) = b2s_hash cr LABEL_MAC1 pk" "np_peer_static_public (h_params h) = pk"
    and load: "rl_limit rl \<le> rl_count rl" "unat (rl_count rl) + 2 < 18446744073709551616"
    and f1: "format_handshake_initiation cr h e t1 t2 k = Some (Inr w1, h1)"
    and nc: "\<not> has_valid_cookie cr rl (Some addr) w1 now" and n: "64 \<le> n"
    and k': "148 \<le> k'" "length (np_static_public (h_params h)) = 32"
    and now': "as_secs (now' - rl_start_time rl) div COOKIE_REFRESH = as_secs (now - rl_start_time rl) div COOKIE_REFRESH"
  shows "\<exists>c rl1 p h2. verify_packet cr rl (Some addr) w1 now n = (Inl (WriteToNetwork c), rl1) \<and>
    parse_incoming_packet c = Inr (PacketCookieReply p) \<and>
    receive_cookie_reply cr h1 p = Some (Inr (), h2) \<and>
    (\<exists>w2 h3 q rl2. format_handshake_initiation cr h2 e' t1' t2' k' = Some (Inr w2, h3) \<and>
       verify_packet cr rl1 (Some addr) w2 now' n' = (Inr (HandshakeInit q), rl2))"
proof -
  let ?cookie = "current_cookie cr rl addr now" and ?i = "h_next_index h1"
  obtain p0 m1 where v: "length m1 = 16" "ck_last_mac1 (h_cookies h1) = Some m1" "ck_index (h_cookies h1) = ?i"
      "verify_packet cr rl (Some addr) w1 now n =
        (case format_cookie_reply cr (rl\<lparr>rl_count := rl_count rl + 1\<rparr>) ?i ?cookie m1 n of
           (Inl e, rl) \<Rightarrow> (Inl (TErr e), rl) | (Inr c, rl) \<Rightarrow> (Inl (WriteToNetwork c), rl))"
    using verify_formatted_initiation [OF ok f1 lim np(1), of "Some addr" now n] load(1) nc
    by (auto simp: is_under_load_def has_valid_cookie_def current_cookie_def Let_def)
  have lc: "length ?cookie = 16" using ok by (simp add: current_cookie_def Let_def crypto_simps)
  obtain p rl1 where p: "format_cookie_reply cr (rl\<lparr>rl_count := rl_count rl + 1\<rparr>) ?i ?cookie m1 n =
        (Inr (wire_cookie p), rl1)"
      "parse_incoming_packet (wire_cookie p) = Inr (PacketCookieReply p)"
      "cp_receiver_idx p = ?i" "length (cp_nonce p) = 24"
      "cp_encrypted_cookie p = cr_xseal cr (rl_cookie_key rl) (cp_nonce p) m1 ?cookie"
      "rl1 = rl\<lparr>rl_count := rl_count rl + 1, rl_nonce_ctr := rl_nonce_ctr rl + 1\<rparr>"
    using parse_cookie_reply [OF ok lc, of n "rl\<lparr>rl_count := rl_count rl + 1\<rparr>" ?i m1] n ok
    by (auto simp: COOKIE_REPLY_SZ_def crypto_simps)
  have np1: "h_params h1 = h_params h" using format_initiation_frame [OF f1] by simp
  let ?h2 = "h1\<lparr>h_cookies := (h_cookies h1)\<lparr>ck_write_cookie := Some ?cookie\<rparr>\<rparr>"
  have r: "receive_cookie_reply cr h1 p = Some (Inr (), ?h2)"
    using v(1,2,3) p(3,4,5) lc ok np(2) lim np1
    by (simp add: receive_cookie_reply_def Let_def limiter_for_def crypto_simps)
  have "\<exists>w2 h3 q rl2. format_handshake_initiation cr ?h2 e' t1' t2' k' = Some (Inr w2, h3) \<and>
      verify_packet cr rl1 (Some addr) w2 now' n' = (Inr (HandshakeInit q), rl2)"
  proof -
    obtain es et hash ck where tr: "init_transcript cr (np_peer_static_public (h_params ?h2)) (cr_pub cr e')
        (cr_dh cr e' (np_peer_static_public (h_params ?h2))) (np_static_shared (h_params ?h2))
        (np_static_public (h_params ?h2)) (stamp (h_stamper ?h2) t1') = (es, et, hash, ck)"
      by (metis prod_cases4)
    obtain w2 h3 where f2: "format_handshake_initiation cr ?h2 e' t1' t2' k' = Some (Inr w2, h3)"
      using format_initiation_result [OF ok k'(1) _ tr refl, of t2'] k'(2) np1 by auto
    obtain q m1' m2' where q: "length w2 = 148" "w2 = take 116 w2 @ m1' @ m2'" "length m1' = 16" "length m2' = 16"
        "macs_of cr (h_params ?h2) (Some ?cookie) (take 116 w2) = (m1', m2')"
      using format_initiation_macs [OF ok f2] by auto
    note sp = split_macs [OF q(2,1,3,4)]
    have "has_valid_cookie cr rl1 (Some addr) w2 now'"
      unfolding has_valid_cookie_def option.case sp
      using q(5) now' by (auto simp: macs_of_def Let_def p(6) current_cookie_def
          b2s_keyed_mac_16_def b2s_keyed_mac_16_2_def)
    moreover have "limiter_for cr rl1 pk" using lim by (simp add: p(6) limiter_for_def)
    moreover have "rl_limit rl1 \<le> rl_count rl1"
      using load by (simp add: p(6) word_le_nat_alt is_under_load_nowrap)
    ultimately have "\<exists>q rl2. verify_packet cr rl1 (Some addr) w2 now' n' = (Inr (HandshakeInit q), rl2)"
      using verify_formatted_initiation [OF ok f2, of rl1 pk "Some addr" now' n'] np np1
      by (auto simp: is_under_load_def has_valid_cookie_def current_cookie_def Let_def)
    with f2 show ?thesis by blast
  qed
  then show ?thesis using v(4) p(1,2) r by auto
qed

definition toy_limiter :: rate_limiter where
  "toy_limiter = rate_limiter_new toy_crypto (cr_pub toy_crypto [2]) 0 [2] [3] 0"

lemma toy_uncookied:
  assumes "format_handshake_initiation toy_crypto toy_initiator e t1 t2 k = Some (Inr w, h)"
  shows "\<not> has_valid_cookie toy_crypto rl (Some addr) w now"
proof -
  obtain m1 m2 where m: "length w = 148" "w = take 116 w @ m1 @ m2" "length m1 = 16" "length m2 = 16"
      "macs_of toy_crypto (h_params toy_initiator) None (take 116 w) = (m1, m2)"
    using format_initiation_macs [OF toy_crypto_ok assms]
    by (auto simp: toy_initiator_def handshake_new_def)
  then have "m2 = replicate 16 0" by (simp add: macs_of_def Let_def)
  then show ?thesis
    unfolding has_valid_cookie_def option.case split_macs [OF m(2,1,3,4)]
    by (simp add: b2s_keyed_mac_16_2_def toy_crypto_def or_eq_0_iff)
qed

theorem cookie_exchange_witness:
  "\<exists>w1 h1 c rl1 p h2 w2 h3 q rl2.
    format_handshake_initiation toy_crypto toy_initiator [7] 3 4 200 = Some (Inr w1, h1) \<and>
    verify_packet toy_crypto toy_limiter (Some (V4 [10, 0, 0, 1])) w1 5 64 = (Inl (WriteToNetwork c), rl1) \<and>
    parse_incoming_packet c = Inr (PacketCookieReply p) \<and>
    receive_cookie_reply toy_crypto h1 p = Some (Inr (), h2) \<and>
    format_handshake_initiation toy_crypto h2 [8] 6 7 200 = Some (Inr w2, h3) \<and>
    verify_packet toy_crypto rl1 (Some (V4 [10, 0, 0, 1])) w2 9 64 = (Inr (HandshakeInit q), rl2)"
proof -
  obtain w1 h1 where f: "format_handshake_initiation toy_crypto toy_initiator [7] 3 4 200 = Some (Inr w1, h1)"
    using toy_handshake by blast
  have np: "np_sending_mac1_key (h_params toy_initiator) = b2s_hash toy_crypto LABEL_MAC1 (cr_pub toy_crypto [2])"
      "np_peer_static_public (h_params toy_initiator) = cr_pub toy_crypto [2]"
      "length (np_static_public (h_params toy_initiator)) = 32"
    by (simp_all add: toy_initiator_def handshake_new_def noise_params_new_def crypto_ok_simps [OF toy_crypto_ok])
  have rl: "limiter_for toy_crypto toy_limiter (cr_pub toy_crypto [2])" "rl_limit toy_limiter \<le> rl_count toy_limiter"
      "unat (rl_count toy_limiter) + 2 < 18446744073709551616" "rl_start_time toy_limiter = 0"
    by (simp_all add: toy_limiter_def) (simp_all add: rate_limiter_new_def)
  from cookie_exchange [OF toy_crypto_ok rl(1) np(1,2) rl(2,3) f toy_uncookied [OF f], of 64 200 9 5 "V4 [10, 0, 0, 1]" "[8]" 6 7 64]
  show ?thesis using f np(3) rl(4) by (auto simp: as_secs_def)
qed

end
