(* ===== verification/Tunn.thy ===== *)
theory Tunn
  imports Rate_Limiter
begin

text \<open>
  The tunnel (\<open>Tunn\<close> of \<open>noise/mod.rs\<close> with \<open>noise/timers.rs\<close>): the
  handshake, a ring of eight sessions, the queue of packets that wait for a
  session, and the timers.  The rate limiter is shared between tunnels, so it is
  passed in and handed back.  \<open>env\<close> holds what a call reads from outside: clock
  readings in nanoseconds and the ephemeral secret.  Subtraction of
  \<open>Duration\<close>s panics on underflow (\<open>dur_sub\<close>).
\<close>

record env =
  ev_time :: nat
  ev_reset :: nat
  ev_elapsed :: nat
  ev_clear :: nat
  ev_stamp :: nat
  ev_sent :: nat
  ev_ephemeral :: bytes

definition secs :: "nat \<Rightarrow> nat" where "secs n = n * 1000000000"

definition REKEY_AFTER_TIME :: nat where "REKEY_AFTER_TIME = secs 120"
definition REJECT_AFTER_TIME :: nat where "REJECT_AFTER_TIME = secs 180"
definition REKEY_ATTEMPT_TIME :: nat where "REKEY_ATTEMPT_TIME = secs 90"
definition REKEY_TIMEOUT :: nat where "REKEY_TIMEOUT = secs 5"
definition KEEPALIVE_TIMEOUT :: nat where "KEEPALIVE_TIMEOUT = secs 10"
definition COOKIE_EXPIRATION_TIME :: nat where "COOKIE_EXPIRATION_TIME = secs 120"

definition dur_sub :: "nat \<Rightarrow> nat \<Rightarrow> nat option" where
  "dur_sub a b = (if a < b then None else Some (a - b))"

section \<open>State\<close>

datatype TimerName =
    TimeCurrent
  | TimeSessionEstablished
  | TimeLastHandshakeStarted
  | TimeLastPacketReceived
  | TimeLastPacketSent
  | TimeLastDataPacketReceived
  | TimeLastDataPacketSent
  | TimeCookieReceived
  | TimePersistentKeepalive

record timers =
  tm_is_initiator :: bool
  tm_time_started :: nat
  tm_timers :: "TimerName \<Rightarrow> nat"
  tm_session_timers :: "nat list"
  tm_want_keepalive :: bool
  tm_want_handshake :: bool
  tm_persistent_keepalive :: nat
  tm_should_reset_rr :: bool

record tunn =
  t_handshake :: handshake
  t_sessions :: "session option list"
  t_current :: nat
  t_packet_queue :: "bytes list"
  t_timers :: timers
  t_tx_bytes :: u64
  t_rx_bytes :: u64

definition timers_new :: "u16 option \<Rightarrow> bool \<Rightarrow> nat \<Rightarrow> timers" where
  "timers_new persistent_keepalive reset_rr now =
     \<lparr>tm_is_initiator = False, tm_time_started = now, tm_timers = (\<lambda>_. 0),
      tm_session_timers = replicate N_SESSIONS 0, tm_want_keepalive = False, tm_want_handshake = False,
      tm_persistent_keepalive = (case persistent_keepalive of Some k \<Rightarrow> unat k | None \<Rightarrow> 0),
      tm_should_reset_rr = reset_rr\<rparr>"

definition timers_clear :: "timers \<Rightarrow> nat \<Rightarrow> timers" where
  "timers_clear tm instant = (let now = instant - tm_time_started tm in
     tm\<lparr>tm_timers := (\<lambda>_. now), tm_want_handshake := False, tm_want_keepalive := False\<rparr>)"

text \<open>The caller keeps the limiter; \<open>own_limiter\<close> says whether the tunnel made its own.\<close>

definition tunn_new ::
  "crypto \<Rightarrow> bytes \<Rightarrow> bytes \<Rightarrow> bytes option \<Rightarrow> u16 option \<Rightarrow> u32 \<Rightarrow> bool \<Rightarrow> time_stamper \<Rightarrow> nat \<Rightarrow> tunn" where
  "tunn_new cr static_private peer_static_public preshared_key persistent_keepalive index own_limiter stamper now =
     (let static_public = cr_pub cr static_private in
      \<lparr>t_handshake = handshake_new cr static_private static_public peer_static_public (push_bit 8 index)
         preshared_key stamper,
       t_sessions = replicate N_SESSIONS None, t_current = 0, t_packet_queue = [],
       t_timers = timers_new persistent_keepalive own_limiter now, t_tx_bytes = 0, t_rx_bytes = 0\<rparr>)"

definition tunn_is_expired :: "tunn \<Rightarrow> bool" where
  "tunn_is_expired t = hs_is_expired (t_handshake t)"

definition tunn_set_static_private :: "crypto \<Rightarrow> tunn \<Rightarrow> bytes \<Rightarrow> bytes \<Rightarrow> bool \<Rightarrow> tunn option" where
  "tunn_set_static_private cr t static_private static_public own_limiter = do {
     h \<leftarrow> hs_set_static_private cr (t_handshake t) static_private static_public;
     Some (t\<lparr>t_timers := (t_timers t)\<lparr>tm_should_reset_rr := own_limiter\<rparr>, t_handshake := h,
       t_sessions := map (\<lambda>_. None) (t_sessions t)\<rparr>) }"

section \<open>Timers\<close>

definition timer :: "tunn \<Rightarrow> TimerName \<Rightarrow> nat" where
  "timer t name = tm_timers (t_timers t) name"

definition timer_tick :: "tunn \<Rightarrow> TimerName \<Rightarrow> tunn" where
  "timer_tick t timer_name =
     (let tm = t_timers t;
          tm = (case timer_name of
            TimeLastPacketReceived \<Rightarrow> tm\<lparr>tm_want_keepalive := True, tm_want_handshake := False\<rparr>
          | TimeLastPacketSent \<Rightarrow> tm\<lparr>tm_want_handshake := True, tm_want_keepalive := False\<rparr>
          | _ \<Rightarrow> tm);
          time = tm_timers tm TimeCurrent
      in t\<lparr>t_timers := tm\<lparr>tm_timers := (tm_timers tm)(timer_name := time)\<rparr>\<rparr>)"

definition timer_tick_session_established :: "tunn \<Rightarrow> bool \<Rightarrow> nat \<Rightarrow> tunn" where
  "timer_tick_session_established t is_initiator session_idx =
     (let t = timer_tick t TimeSessionEstablished; tm = t_timers t in
      t\<lparr>t_timers := tm\<lparr>tm_session_timers := (tm_session_timers tm)[session_idx mod N_SESSIONS := tm_timers tm TimeCurrent],
        tm_is_initiator := is_initiator\<rparr>\<rparr>)"

definition clear_all :: "tunn \<Rightarrow> nat \<Rightarrow> tunn" where
  "clear_all t instant = t\<lparr>t_sessions := map (\<lambda>_. None) (t_sessions t), t_packet_queue := [],
     t_timers := timers_clear (t_timers t) instant\<rparr>"

text \<open>One step of the loop over the session timers, then the loop.\<close>

fun expire_sessions :: "nat \<Rightarrow> nat list \<Rightarrow> session option list \<Rightarrow> (nat list \<times> session option list) option" where
  "expire_sessions time_now (x # xs) (s # ss) = do {
     age \<leftarrow> dur_sub time_now x;
     (xs', ss') \<leftarrow> expire_sessions time_now xs ss;
     Some (if age > REJECT_AFTER_TIME then (time_now # xs', None # ss') else (x # xs', s # ss')) }"
| "expire_sessions time_now xs ss = Some (xs, ss)"

definition update_session_timers :: "tunn \<Rightarrow> nat \<Rightarrow> tunn option" where
  "update_session_timers t time_now = do {
     (xs, ss) \<leftarrow> expire_sessions time_now (tm_session_timers (t_timers t)) (t_sessions t);
     Some (t\<lparr>t_sessions := ss, t_timers := (t_timers t)\<lparr>tm_session_timers := xs\<rparr>\<rparr>) }"

section \<open>The packet queue\<close>

definition queue_packet :: "tunn \<Rightarrow> bytes \<Rightarrow> tunn" where
  "queue_packet t p = (if length (t_packet_queue t) < MAX_QUEUE_DEPTH
     then t\<lparr>t_packet_queue := t_packet_queue t @ [p]\<rparr> else t)"

definition requeue_packet :: "tunn \<Rightarrow> bytes \<Rightarrow> tunn" where
  "requeue_packet t p = (if length (t_packet_queue t) < MAX_QUEUE_DEPTH
     then t\<lparr>t_packet_queue := p # t_packet_queue t\<rparr> else t)"

definition dequeue_packet :: "tunn \<Rightarrow> bytes option \<times> tunn" where
  "dequeue_packet t = (case t_packet_queue t of [] \<Rightarrow> (None, t)
     | p # ps \<Rightarrow> (Some p, t\<lparr>t_packet_queue := ps\<rparr>))"

section \<open>Sending\<close>

definition tunn_format_handshake_initiation ::
  "crypto \<Rightarrow> tunn \<Rightarrow> env \<Rightarrow> nat \<Rightarrow> bool \<Rightarrow> (TunnResult \<times> tunn) option" where
  "tunn_format_handshake_initiation cr t ev dst_len force_resend =
     (if is_in_progress (t_handshake t) \<and> \<not> force_resend then Some (Done, t)
      else let t = (if hs_is_expired (t_handshake t)
                    then t\<lparr>t_timers := timers_clear (t_timers t) (ev_clear ev)\<rparr> else t);
               starting_new_handshake = \<not> is_in_progress (t_handshake t)
      in do {
        (r, h) \<leftarrow> format_handshake_initiation cr (t_handshake t) (ev_ephemeral ev) (ev_stamp ev) (ev_sent ev) dst_len;
        let t = t\<lparr>t_handshake := h\<rparr>;
        Some (case r of
          Inr packet \<Rightarrow>
            (let t = (if starting_new_handshake then timer_tick t TimeLastHandshakeStarted else t)
             in (WriteToNetwork packet, timer_tick t TimeLastPacketSent))
        | Inl e \<Rightarrow> (TErr e, t)) })"

definition encapsulate :: "crypto \<Rightarrow> tunn \<Rightarrow> bytes \<Rightarrow> env \<Rightarrow> nat \<Rightarrow> (TunnResult \<times> tunn) option" where
  "encapsulate cr t src ev dst_len =
     (let i = t_current t mod N_SESSIONS in
      case t_sessions t ! i of
        Some session \<Rightarrow> do {
          (packet, session) \<leftarrow> format_packet_data cr session src dst_len;
          let t = t\<lparr>t_sessions := (t_sessions t)[i := Some session]\<rparr>;
          let t = timer_tick t TimeLastPacketSent;
          let t = (if src \<noteq> [] then timer_tick t TimeLastDataPacketSent else t);
          Some (WriteToNetwork packet, t\<lparr>t_tx_bytes := t_tx_bytes t + of_nat (length src)\<rparr>) }
      | None \<Rightarrow> tunn_format_handshake_initiation cr (queue_packet t src) ev dst_len False)"

definition send_queued_packet :: "crypto \<Rightarrow> tunn \<Rightarrow> env \<Rightarrow> nat \<Rightarrow> (TunnResult \<times> tunn) option" where
  "send_queued_packet cr t ev dst_len =
     (case dequeue_packet t of
        (None, t) \<Rightarrow> Some (Done, t)
      | (Some packet, t) \<Rightarrow> do {
          (r, t) \<leftarrow> encapsulate cr t packet ev dst_len;
          Some (case r of TErr _ \<Rightarrow> (Done, requeue_packet t packet) | _ \<Rightarrow> (r, t)) })"

section \<open>Receiving\<close>

definition set_current_session :: "tunn \<Rightarrow> nat \<Rightarrow> tunn" where
  "set_current_session t new_idx =
     (let cur_idx = t_current t; st = tm_session_timers (t_timers t) in
      if cur_idx = new_idx then t
      else if t_sessions t ! (cur_idx mod N_SESSIONS) = None \<or>
              st ! (new_idx mod N_SESSIONS) \<ge> st ! (cur_idx mod N_SESSIONS)
      then t\<lparr>t_current := new_idx\<rparr> else t)"

definition validate_decapsulated_packet :: "tunn \<Rightarrow> bytes \<Rightarrow> TunnResult \<times> tunn" where
  "validate_decapsulated_packet t packet =
     (if length packet = 0 then (Done, t)
      else case (if drop_bit 4 (packet ! 0) = 4 \<and> length packet \<ge> IPV4_MIN_HEADER_SIZE
                 then Some (unat (from_be_bytes (slice 2 4 packet) :: u16), V4 (slice 12 16 packet))
                 else if drop_bit 4 (packet ! 0) = 6 \<and> length packet \<ge> IPV6_MIN_HEADER_SIZE
                 then Some (unat (from_be_bytes (slice 4 6 packet) :: u16) + IPV6_MIN_HEADER_SIZE, V6 (slice 8 24 packet))
                 else None) of
        None \<Rightarrow> (TErr InvalidPacket, t)
      | Some (computed_len, src_ip_address) \<Rightarrow>
        if computed_len > length packet then (TErr InvalidPacket, t)
        else let t = timer_tick t TimeLastDataPacketReceived;
                 t = t\<lparr>t_rx_bytes := t_rx_bytes t + of_nat computed_len\<rparr>
          in (case src_ip_address of
                V4 addr \<Rightarrow> (WriteToTunnelV4 (take computed_len packet) addr, t)
              | V6 addr \<Rightarrow> (WriteToTunnelV6 (take computed_len packet) addr, t)))"

definition handle_handshake_init ::
  "crypto \<Rightarrow> tunn \<Rightarrow> handshake_init \<Rightarrow> env \<Rightarrow> nat \<Rightarrow> ((WireGuardError + TunnResult) \<times> tunn) option" where
  "handle_handshake_init cr t p ev dst_len = do {
     (r, h) \<leftarrow> receive_handshake_initialization cr (t_handshake t) p (ev_ephemeral ev) dst_len;
     let t = t\<lparr>t_handshake := h\<rparr>;
     Some (case r of
       Inl e \<Rightarrow> (Inl e, t)
     | Inr (packet, session) \<Rightarrow>
       let index = session_local_index session;
           t = t\<lparr>t_sessions := (t_sessions t)[index mod N_SESSIONS := Some session]\<rparr>;
           t = timer_tick t TimeLastPacketReceived;
           t = timer_tick t TimeLastPacketSent;
           t = timer_tick_session_established t False index
       in (Inr (WriteToNetwork packet), t)) }"

definition handle_handshake_response ::
  "crypto \<Rightarrow> tunn \<Rightarrow> handshake_response \<Rightarrow> env \<Rightarrow> nat \<Rightarrow> ((WireGuardError + TunnResult) \<times> tunn) option" where
  "handle_handshake_response cr t p ev dst_len = do {
     (r, h) \<leftarrow> receive_handshake_response cr (t_handshake t) p (ev_time ev);
     let t = t\<lparr>t_handshake := h\<rparr>;
     case r of
       Inl e \<Rightarrow> Some (Inl e, t)
     | Inr session \<Rightarrow> do {
         (keepalive_packet, session) \<leftarrow> format_packet_data cr session [] dst_len;
         let l_idx = session_local_index session;
         let index = l_idx mod N_SESSIONS;
         let t = t\<lparr>t_sessions := (t_sessions t)[index := Some session]\<rparr>;
         let t = timer_tick t TimeLastPacketReceived;
         let t = timer_tick_session_established t True index;
         Some (Inr (WriteToNetwork keepalive_packet), set_current_session t l_idx) } }"

definition handle_cookie_reply ::
  "crypto \<Rightarrow> tunn \<Rightarrow> packet_cookie_reply \<Rightarrow> ((WireGuardError + TunnResult) \<times> tunn) option" where
  "handle_cookie_reply cr t p = do {
     (r, h) \<leftarrow> receive_cookie_reply cr (t_handshake t) p;
     let t = t\<lparr>t_handshake := h\<rparr>;
     Some (case r of
       Inl e \<Rightarrow> (Inl e, t)
     | Inr _ \<Rightarrow> (Inr Done, timer_tick (timer_tick t TimeLastPacketReceived) TimeCookieReceived)) }"

definition handle_data ::
  "crypto \<Rightarrow> tunn \<Rightarrow> packet_data \<Rightarrow> nat \<Rightarrow> ((WireGuardError + TunnResult) \<times> tunn) option" where
  "handle_data cr t packet dst_len =
     (let r_idx = unat (pd_receiver_idx packet); idx = r_idx mod N_SESSIONS in
      case t_sessions t ! idx of
        None \<Rightarrow> Some (Inl NoCurrentSession, t)
      | Some session \<Rightarrow> do {
          (r, session) \<leftarrow> receive_packet_data cr session packet dst_len;
          let t = t\<lparr>t_sessions := (t_sessions t)[idx := Some session]\<rparr>;
          Some (case r of
            Inl e \<Rightarrow> (Inl e, t)
          | Inr decapsulated_packet \<Rightarrow>
            let t = timer_tick (set_current_session t r_idx) TimeLastPacketReceived;
                (res, t) = validate_decapsulated_packet t decapsulated_packet
            in (Inr res, t)) })"

definition handle_verified_packet ::
  "crypto \<Rightarrow> tunn \<Rightarrow> packet \<Rightarrow> env \<Rightarrow> nat \<Rightarrow> (TunnResult \<times> tunn) option" where
  "handle_verified_packet cr t packet ev dst_len =
     map_option (\<lambda>(r, t). (tunn_result r, t))
       (case packet of
          HandshakeInit p \<Rightarrow> handle_handshake_init cr t p ev dst_len
        | HandshakeResponse p \<Rightarrow> handle_handshake_response cr t p ev dst_len
        | PacketCookieReply p \<Rightarrow> handle_cookie_reply cr t p
        | PacketData p \<Rightarrow> handle_data cr t p dst_len)"

definition decapsulate ::
  "crypto \<Rightarrow> tunn \<Rightarrow> rate_limiter \<Rightarrow> IpAddr option \<Rightarrow> bytes \<Rightarrow> env \<Rightarrow> nat \<Rightarrow>
    (TunnResult \<times> tunn \<times> rate_limiter) option" where
  "decapsulate cr t rl src_addr datagram ev dst_len =
     (if datagram = [] then map_option (\<lambda>(r, t). (r, t, rl)) (send_queued_packet cr t ev dst_len)
      else case verify_packet cr rl src_addr datagram (ev_time ev) COOKIE_REPLY_SZ of
        (Inr packet, rl) \<Rightarrow> map_option (\<lambda>(r, t). (r, t, rl)) (handle_verified_packet cr t packet ev dst_len)
      | (Inl (WriteToNetwork cookie), rl) \<Rightarrow>
          if dst_len < length cookie then None else Some (WriteToNetwork cookie, t, rl)
      | (Inl (TErr e), rl) \<Rightarrow> Some (TErr e, t, rl)
      | (Inl _, rl) \<Rightarrow> None)"

section \<open>The periodic call\<close>

text \<open>An expired connection: keys, sessions and queue go.\<close>

definition expire :: "tunn \<Rightarrow> nat \<Rightarrow> tunn" where
  "expire t instant = clear_all (t\<lparr>t_handshake := set_expired (t_handshake t)\<rparr>) instant"

text \<open>The decisions of \<open>update_timers\<close> once an initiation is not awaited: whether a
  new handshake, or a keepalive, is required.  \<open>\<and>\<close> of the source short-circuits, so
  a subtraction takes place only after the comparison before it holds.\<close>

definition elapsed_least :: "nat \<Rightarrow> nat \<Rightarrow> nat \<Rightarrow> bool option" where
  "elapsed_least now since least = map_option (\<lambda>d. least \<le> d) (dur_sub now since)"

definition and_elapsed :: "bool \<Rightarrow> nat \<Rightarrow> nat \<Rightarrow> nat \<Rightarrow> bool option" where
  "and_elapsed c now since least = (if c then elapsed_least now since least else Some False)"

definition idle_handshake_required :: "tunn \<Rightarrow> nat \<Rightarrow> (bool \<times> tunn) option" where
  "idle_handshake_required t now = do {
     let est = timer t TimeSessionEstablished;
     (on_send, on_receive) \<leftarrow>
       (if tm_is_initiator (t_timers t) then do {
          a \<leftarrow> and_elapsed (est < timer t TimeLastDataPacketSent) now est REKEY_AFTER_TIME;
          b \<leftarrow> and_elapsed (est < timer t TimeLastDataPacketReceived) now est
                (REJECT_AFTER_TIME - KEEPALIVE_TIMEOUT - REKEY_TIMEOUT);
          Some (a, b) }
        else Some (False, False));
     c \<leftarrow> and_elapsed (timer t TimeLastDataPacketSent > timer t TimeLastPacketReceived) now
            (timer t TimeLastPacketReceived) (KEEPALIVE_TIMEOUT + REKEY_TIMEOUT);
     let want = tm_want_handshake (t_timers t);
     let t = (if c then t\<lparr>t_timers := (t_timers t)\<lparr>tm_want_handshake := False\<rparr>\<rparr> else t);
     Some (on_send \<or> on_receive \<or> (c \<and> want), t) }"

definition idle_keepalive_required :: "tunn \<Rightarrow> nat \<Rightarrow> (bool \<times> tunn) option" where
  "idle_keepalive_required t now = do {
     d \<leftarrow> and_elapsed (timer t TimeLastDataPacketReceived > timer t TimeLastPacketSent) now
            (timer t TimeLastPacketSent) KEEPALIVE_TIMEOUT;
     let want = tm_want_keepalive (t_timers t);
     let t = (if d then t\<lparr>t_timers := (t_timers t)\<lparr>tm_want_keepalive := False\<rparr>\<rparr> else t);
     let pk = tm_persistent_keepalive (t_timers t);
     e \<leftarrow> and_elapsed (pk > 0) now (timer t TimePersistentKeepalive) (secs pk);
     Some ((d \<and> want) \<or> e, if e then timer_tick t TimePersistentKeepalive else t) }"

text \<open>What \<open>update_timers\<close> decides: the connection expired, or which message is due.\<close>

datatype due = DueExpired | DueHandshake | DueKeepalive | DueNothing

definition timers_due :: "tunn \<Rightarrow> env \<Rightarrow> nat \<Rightarrow> (due \<times> tunn) option" where
  "timers_due t ev now =
     (if hs_is_expired (t_handshake t) then Some (DueExpired, t)
      else do {
        cookie_old \<leftarrow> and_elapsed (has_cookie (t_handshake t)) now (timer t TimeCookieReceived) COOKIE_EXPIRATION_TIME;
        let est = timer t TimeSessionEstablished;
        let started = timer t TimeLastHandshakeStarted;
        let t = (if cookie_old then t\<lparr>t_handshake := clear_cookie (t_handshake t)\<rparr> else t);
        dead \<leftarrow> elapsed_least now est (REJECT_AFTER_TIME * 3);
        if dead then Some (DueExpired, expire t (ev_clear ev))
        else (case hs_timer (t_handshake t) of
            Some time_init_sent \<Rightarrow> do {
              give_up \<leftarrow> elapsed_least now started REKEY_ATTEMPT_TIME;
              Some (if give_up then (DueExpired, expire t (ev_clear ev))
                    else if ev_elapsed ev - time_init_sent \<ge> REKEY_TIMEOUT then (DueHandshake, t)
                    else (DueNothing, t)) }
          | None \<Rightarrow> do {
              (hs, t) \<leftarrow> idle_handshake_required t now;
              if hs then Some (DueHandshake, t)
              else do {
                (ka, t) \<leftarrow> idle_keepalive_required t now;
                Some (if ka then DueKeepalive else DueNothing, t) } }) })"

definition update_timers ::
  "crypto \<Rightarrow> tunn \<Rightarrow> rate_limiter \<Rightarrow> env \<Rightarrow> nat \<Rightarrow> (TunnResult \<times> tunn \<times> rate_limiter) option" where
  "update_timers cr t rl ev dst_len = do {
     let rl = (if tm_should_reset_rr (t_timers t) then reset_count rl (ev_reset ev) else rl);
     let now = ev_time ev - tm_time_started (t_timers t);
     let t = t\<lparr>t_timers := (t_timers t)\<lparr>tm_timers := (tm_timers (t_timers t))(TimeCurrent := now)\<rparr>\<rparr>;
     t \<leftarrow> update_session_timers t now;
     (d, t) \<leftarrow> timers_due t ev now;
     (r, t) \<leftarrow> (case d of
        DueExpired \<Rightarrow> Some (TErr ConnectionExpired, t)
      | DueHandshake \<Rightarrow> tunn_format_handshake_initiation cr t ev dst_len True
      | DueKeepalive \<Rightarrow> encapsulate cr t [] ev dst_len
      | DueNothing \<Rightarrow> Some (Done, t));
     Some (r, t, rl) }"

definition time_since_last_handshake :: "tunn \<Rightarrow> nat \<Rightarrow> nat option option" where
  "time_since_last_handshake t instant =
     (if t_sessions t ! (t_current t mod N_SESSIONS) \<noteq> None
      then map_option Some (dur_sub (instant - tm_time_started (t_timers t)) (timer t TimeSessionEstablished))
      else Some None)"

definition persistent_keepalive :: "tunn \<Rightarrow> u16 option" where
  "persistent_keepalive t =
     (let keepalive = tm_persistent_keepalive (t_timers t) in
      if keepalive > 0 then Some (of_nat keepalive) else None)"

end
