(* ===== verification/Tunn_Invariant.thy ===== *)
theory Tunn_Invariant
  imports Tunn
begin

text \<open>
  The invariant of a tunnel and that every operation keeps it and returns: the
  ring holds session \<open>i\<close> at place \<open>i mod 8\<close>, the queue is bounded, no timer is
  ahead of the clock.  So no panic of \<open>Tunn\<close> is reachable with a monotonic clock
  and large enough buffers.
\<close>

text \<open>\<open>M\<close> bounds the packets handed to the tunnel, \<open>L\<close> the clock readings so far.\<close>

definition ring_ok :: "session option list \<Rightarrow> bool" where
  "ring_ok ss \<longleftrightarrow> length ss = 8 \<and>
     (\<forall>i<8. \<forall>s. ss ! i = Some s \<longrightarrow> session_local_index s mod 8 = i \<and> session_ok s)"

definition clock_ok :: "nat \<Rightarrow> timers \<Rightarrow> bool" where
  "clock_ok L tm \<longleftrightarrow> tm_time_started tm \<le> L \<and> length (tm_session_timers tm) = 8 \<and>
     (\<forall>n. tm_timers tm n \<le> L - tm_time_started tm) \<and>
     (\<forall>x\<in>set (tm_session_timers tm). x \<le> L - tm_time_started tm)"

definition queue_ok :: "nat \<Rightarrow> bytes list \<Rightarrow> bool" where
  "queue_ok M q \<longleftrightarrow> length q \<le> 256 \<and> (\<forall>p\<in>set q. length p \<le> M)"

definition tunn_ok :: "nat \<Rightarrow> nat \<Rightarrow> tunn \<Rightarrow> bool" where
  "tunn_ok M L t \<longleftrightarrow> ring_ok (t_sessions t) \<and> clock_ok L (t_timers t) \<and> queue_ok M (t_packet_queue t) \<and>
     length (np_static_public (h_params (t_handshake t))) = 32"

lemma clock_ok_mono: "clock_ok L tm \<Longrightarrow> L \<le> L' \<Longrightarrow> clock_ok L' tm"
  unfolding clock_ok_def by (meson diff_le_mono le_trans)

lemma tunn_ok_mono: "tunn_ok M L t \<Longrightarrow> L \<le> L' \<Longrightarrow> tunn_ok M L' t"
  by (auto simp: tunn_ok_def intro: clock_ok_mono)

lemma ring_ok_update:
  assumes "ring_ok ss" "session_ok s"
  shows "ring_ok (ss[session_local_index s mod 8 := Some s])"
  using assms by (auto simp: ring_ok_def nth_list_update)

lemma ring_ok_at:
  assumes "ring_ok ss" "ss ! (i mod 8) = Some s"
  shows "session_local_index s mod 8 = i mod 8 \<and> session_ok s"
proof -
  have "i mod 8 < 8" by simp
  then show ?thesis using assms unfolding ring_ok_def by blast
qed

lemma ring_ok_same:
  assumes "ring_ok ss" "ss ! (i mod 8) = Some s" "same_session s s'" "session_ok s'"
  shows "ring_ok (ss[i mod 8 := Some s'])"
proof -
  have "session_local_index s mod 8 = i mod 8" using ring_ok_at [OF assms(1,2)] by simp
  then have "session_local_index s' mod 8 = i mod 8"
    using assms(3) by (simp add: same_session_local_index)
  then show ?thesis using ring_ok_update [OF assms(1,4)] by simp
qed

lemma ring_ok_none: "length ss = 8 \<Longrightarrow> ring_ok (map (\<lambda>_. None) ss)"
  by (auto simp: ring_ok_def)

section \<open>Ticks and clears\<close>

lemma timer_tick_fields [simp]:
  "t_handshake (timer_tick t n) = t_handshake t" "t_sessions (timer_tick t n) = t_sessions t"
  "t_current (timer_tick t n) = t_current t" "t_packet_queue (timer_tick t n) = t_packet_queue t"
  "t_tx_bytes (timer_tick t n) = t_tx_bytes t" "t_rx_bytes (timer_tick t n) = t_rx_bytes t"
  by (simp_all add: timer_tick_def Let_def)

lemma clock_ok_tick: "clock_ok L (t_timers t) \<Longrightarrow> clock_ok L (t_timers (timer_tick t n))"
  by (cases n) (auto simp: clock_ok_def timer_tick_def Let_def)

lemma tunn_ok_tick [intro!]: "tunn_ok M L t \<Longrightarrow> tunn_ok M L (timer_tick t n)"
  by (simp add: tunn_ok_def clock_ok_tick)

lemma tunn_ok_established [intro!]: "tunn_ok M L t \<Longrightarrow> tunn_ok M L (timer_tick_session_established t b i)"
  using tunn_ok_tick [of M L t TimeSessionEstablished]
  by (auto simp: tunn_ok_def timer_tick_session_established_def Let_def clock_ok_def
      dest!: set_update_subset_insert [THEN subsetD])

lemma clock_ok_clear: "clock_ok L tm \<Longrightarrow> L \<le> c \<Longrightarrow> c \<le> L' \<Longrightarrow> clock_ok L' (timers_clear tm c)"
  by (fastforce simp: clock_ok_def timers_clear_def Let_def)

lemma tunn_ok_handshake:
  "tunn_ok M L t \<Longrightarrow> h_params h = h_params (t_handshake t) \<Longrightarrow> tunn_ok M L (t\<lparr>t_handshake := h\<rparr>)"
  by (simp add: tunn_ok_def)

lemma tunn_ok_session:
  "tunn_ok M L t \<Longrightarrow> session_ok s \<Longrightarrow>
    tunn_ok M L (t\<lparr>t_sessions := (t_sessions t)[session_local_index s mod 8 := Some s]\<rparr>)"
  by (simp add: tunn_ok_def ring_ok_update)

lemma tunn_ok_same_session:
  "tunn_ok M L t \<Longrightarrow> t_sessions t ! (i mod 8) = Some s \<Longrightarrow> same_session s s' \<Longrightarrow> session_ok s' \<Longrightarrow>
    tunn_ok M L (t\<lparr>t_sessions := (t_sessions t)[i mod 8 := Some s']\<rparr>)"
  by (simp add: tunn_ok_def ring_ok_same)

lemma tunn_ok_counts [simp]:
  "tunn_ok M L (t\<lparr>t_tx_bytes := n\<rparr>) = tunn_ok M L t" "tunn_ok M L (t\<lparr>t_rx_bytes := n\<rparr>) = tunn_ok M L t"
  "tunn_ok M L (t\<lparr>t_current := i\<rparr>) = tunn_ok M L t"
  by (simp_all add: tunn_ok_def)

lemma tunn_ok_set_current [intro!]: "tunn_ok M L t \<Longrightarrow> tunn_ok M L (set_current_session t i)"
  by (simp add: set_current_session_def Let_def)

lemma tunn_ok_queue [intro!]: "tunn_ok M L t \<Longrightarrow> length p \<le> M \<Longrightarrow> tunn_ok M L (queue_packet t p)"
  by (auto simp: queue_packet_def tunn_ok_def queue_ok_def MAX_QUEUE_DEPTH_def)

lemma tunn_ok_requeue [intro!]: "tunn_ok M L t \<Longrightarrow> length p \<le> M \<Longrightarrow> tunn_ok M L (requeue_packet t p)"
  by (auto simp: requeue_packet_def tunn_ok_def queue_ok_def MAX_QUEUE_DEPTH_def)

section \<open>Sending\<close>

lemma format_initiation_total:
  assumes "crypto_ok cr" "length (np_static_public (h_params h)) = 32"
  shows "\<exists>r h'. format_handshake_initiation cr h e t1 t2 n = Some (r, h')"
proof (cases "148 \<le> n")
  case True
  obtain es et hash ck where tr: "init_transcript cr (np_peer_static_public (h_params h)) (cr_pub cr e)
      (cr_dh cr e (np_peer_static_public (h_params h))) (np_static_shared (h_params h))
      (np_static_public (h_params h)) (stamp (h_stamper h) t1) = (es, et, hash, ck)"
    by (metis prod_cases4)
  from format_initiation_result [OF assms(1) True assms(2) tr refl, of t2] show ?thesis by blast
next
  case False
  then show ?thesis by (simp add: format_handshake_initiation_def HANDSHAKE_INIT_SZ_def)
qed

lemma tunn_format_initiation_ok:
  assumes ok: "crypto_ok cr" and t: "tunn_ok M L t" and ev: "L \<le> ev_clear ev" "ev_clear ev \<le> L'"
  shows "\<exists>r t'. tunn_format_handshake_initiation cr t ev n force = Some (r, t') \<and> tunn_ok M L' t'"
proof -
  let ?t1 = "if hs_is_expired (t_handshake t) then t\<lparr>t_timers := timers_clear (t_timers t) (ev_clear ev)\<rparr> else t"
  have t1: "tunn_ok M L' ?t1"
    using t ev tunn_ok_mono [OF t, of L'] by (auto simp: tunn_ok_def clock_ok_clear)
  then have "length (np_static_public (h_params (t_handshake ?t1))) = 32" by (simp add: tunn_ok_def)
  from format_initiation_total [OF ok this, of "ev_ephemeral ev" "ev_stamp ev" "ev_sent ev" n]
  obtain r h' where f: "format_handshake_initiation cr (t_handshake ?t1) (ev_ephemeral ev) (ev_stamp ev)
      (ev_sent ev) n = Some (r, h')" by blast
  have t2: "tunn_ok M L' (?t1\<lparr>t_handshake := h'\<rparr>)"
    by (rule tunn_ok_handshake [OF t1]) (use format_initiation_frame [OF f] in simp)
  have L: "tunn_ok M L' t" using tunn_ok_mono [OF t] ev by simp
  show ?thesis
  proof (cases "is_in_progress (t_handshake t) \<and> \<not> force")
    case True
    then show ?thesis using L by (simp add: tunn_format_handshake_initiation_def)
  next
    case False
    then show ?thesis using t2 f
      by (cases r) (auto simp: tunn_format_handshake_initiation_def Let_def simp del: if_split)
  qed
qed

lemma format_packet_data_some:
  assumes "length src + 32 \<le> n"
  shows "\<exists>p s'. format_packet_data cr s src n = Some (p, s') \<and> same_session s s' \<and>
    (session_ok s \<longrightarrow> session_ok s')"
  using assms by (simp add: format_packet_data_def Let_def DATA_OVERHEAD_SZ_def same_session_def session_ok_def)

lemma encapsulate_ok:
  assumes ok: "crypto_ok cr" and t: "tunn_ok M L t" and ev: "L \<le> ev_clear ev" "ev_clear ev \<le> L'"
    and src: "length src \<le> M" "length src + 32 \<le> n"
  shows "\<exists>r t'. encapsulate cr t src ev n = Some (r, t') \<and> tunn_ok M L' t'"
proof (cases "t_sessions t ! (t_current t mod 8)")
  case None
  then show ?thesis
    using tunn_format_initiation_ok [OF ok tunn_ok_queue [OF t src(1)] ev]
    by (simp add: encapsulate_def N_SESSIONS_def)
next
  case (Some s)
  obtain p s' where f: "format_packet_data cr s src n = Some (p, s')" "same_session s s'"
    "session_ok s \<longrightarrow> session_ok s'" using format_packet_data_some [OF src(2)] by blast
  have "session_ok s" using t ring_ok_at [OF _ Some] by (simp add: tunn_ok_def)
  then have "tunn_ok M L (t\<lparr>t_sessions := (t_sessions t)[t_current t mod 8 := Some s']\<rparr>)"
    using tunn_ok_same_session [OF t Some f(2)] f(3) by blast
  then have "tunn_ok M L' (t\<lparr>t_sessions := (t_sessions t)[t_current t mod 8 := Some s']\<rparr>)"
    using ev tunn_ok_mono by force
  then show ?thesis using Some f(1) by (auto simp: encapsulate_def N_SESSIONS_def Let_def)
qed

lemma send_queued_ok:
  assumes ok: "crypto_ok cr" and t: "tunn_ok M L t" and ev: "L \<le> ev_clear ev" "ev_clear ev \<le> L'"
    and n: "M + 32 \<le> n"
  shows "\<exists>r t'. send_queued_packet cr t ev n = Some (r, t') \<and> tunn_ok M L' t'"
proof (cases "t_packet_queue t")
  case Nil
  then show ?thesis using tunn_ok_mono [OF t] ev by (simp add: send_queued_packet_def dequeue_packet_def)
next
  case (Cons p ps)
  have t1: "tunn_ok M L (t\<lparr>t_packet_queue := ps\<rparr>)" and p: "length p \<le> M"
    using t Cons by (auto simp: tunn_ok_def queue_ok_def)
  from encapsulate_ok [OF ok t1 ev p] n p obtain r t' where
    "encapsulate cr (t\<lparr>t_packet_queue := ps\<rparr>) p ev n = Some (r, t')" "tunn_ok M L' t'"
    by (meson add_le_mono1 order_trans)
  then show ?thesis using p
    by (cases r) (auto simp: send_queued_packet_def dequeue_packet_def Cons)
qed

section \<open>Receiving\<close>

lemma format_response_total:
  assumes "h_state h = InitReceived hash ck E i"
  shows "\<exists>r h'. format_handshake_response cr h e n = Some (r, h')"
  using assms by (simp add: format_handshake_response_def Let_def split_beta aead_seal_some)

lemma receive_initialization_total:
  assumes "crypto_ok cr" "init_shape p"
  shows "\<exists>r h'. receive_handshake_initialization cr h p e n = Some (r, h')"
proof -
  obtain c where c: "init_check cr (h_params h) p = Some c"
    using init_check_total [OF assms, of "h_params h"] by blast
  show ?thesis
  proof (cases c)
    case (Inl er)
    then show ?thesis by (simp add: receive_initialization_checks c)
  next
    case (Inr x)
    obtain t hash ck where x: "x = (t, hash, ck)" by (cases x)
    show ?thesis
      using format_response_total [of "h\<lparr>h_last_timestamp := t, h_previous := h_state h,
        h_state := InitReceived hash ck (hi_unencrypted_ephemeral p) (hi_sender_idx p)\<rparr>"]
      by (simp add: receive_initialization_checks c Inr x)
  qed
qed

lemma receive_response_total:
  assumes "crypto_ok cr" "response_shape q"
  shows "\<exists>r h'. receive_handshake_response cr h q now = Some (r, h')"
proof (cases "awaiting h (hr_receiver_idx q)")
  case None
  then show ?thesis by (simp add: receive_handshake_response_def)
next
  case (Some x)
  obtain st b where x: "x = (st, b)" by (cases x)
  show ?thesis
    using assms Some x
    by (simp add: receive_handshake_response_def Let_def split_beta response_shape_def aead_open_cases
        split: sum.split option.split)
qed

lemma receive_packet_total:
  assumes "session_ok s" "length (pd_encrypted_encapsulated_packet p) \<le> n"
  shows "\<exists>r s'. receive_packet_data cr s p n = Some (r, s') \<and> same_session s s' \<and> session_ok s'"
proof -
  obtain r s' where "receiving_counter_mark s (pd_counter p) = Some (r, s')" "session_ok s'" "same_session s s'"
    using counter_mark_ok [OF assms(1)] by blast
  then show ?thesis using assms
    by (auto simp: receive_packet_data_def split: sum.split option.split)
qed

lemma validate_ok:
  assumes "tunn_ok M L t" "validate_decapsulated_packet t p = (r, t')"
  shows "tunn_ok M L t'"
  using assms by (auto simp: validate_decapsulated_packet_def Let_def split: if_splits option.splits IpAddr.splits)

lemma handle_init_ok:
  assumes ok: "crypto_ok cr" and t: "tunn_ok M L t" and p: "init_shape p"
  shows "\<exists>r t'. handle_handshake_init cr t p ev n = Some (r, t') \<and> tunn_ok M L t'"
proof -
  obtain r h' where r: "receive_handshake_initialization cr (t_handshake t) p (ev_ephemeral ev) n = Some (r, h')"
    using receive_initialization_total [OF ok p] by blast
  note f = receive_initialization_frame [OF r]
  then have t1: "tunn_ok M L (t\<lparr>t_handshake := h'\<rparr>)" using t by (intro tunn_ok_handshake) simp_all
  show ?thesis
  proof (cases r)
    case (Inl e)
    then show ?thesis using r t1 by (simp add: handle_handshake_init_def)
  next
    case (Inr x)
    obtain w s where x: "x = (w, s)" by (cases x)
    have "session_ok s" using f Inr x by (auto intro: session_window_ok)
    from tunn_ok_session [OF t1 this] show ?thesis using r Inr x
      by (auto simp: handle_handshake_init_def N_SESSIONS_def Let_def)
  qed
qed

lemma handle_response_ok:
  assumes ok: "crypto_ok cr" and t: "tunn_ok M L t" and p: "response_shape p" and n: "32 \<le> n"
  shows "\<exists>r t'. handle_handshake_response cr t p ev n = Some (r, t') \<and> tunn_ok M L t'"
proof -
  obtain r h' where r: "receive_handshake_response cr (t_handshake t) p (ev_time ev) = Some (r, h')"
    using receive_response_total [OF ok p] by blast
  note f = receive_response_frame [OF r]
  then have t1: "tunn_ok M L (t\<lparr>t_handshake := h'\<rparr>)" using t by (intro tunn_ok_handshake) simp_all
  show ?thesis
  proof (cases r)
    case (Inl e)
    then show ?thesis using r t1 by (simp add: handle_handshake_response_def)
  next
    case (Inr s)
    obtain w s' where w: "format_packet_data cr s [] n = Some (w, s')" "session_ok s \<longrightarrow> session_ok s'"
      using format_packet_data_some [of "[]" n cr s] n by auto
    have "session_ok s'" using f Inr w(2) by (auto intro: session_window_ok)
    from tunn_ok_session [OF t1 this] show ?thesis using r Inr w(1)
      by (auto simp: handle_handshake_response_def N_SESSIONS_def Let_def)
  qed
qed

lemma receive_cookie_total: "cookie_shape p \<Longrightarrow> receive_cookie_reply cr h p \<noteq> None"
  by (auto simp: receive_cookie_reply_def cookie_shape_def Let_def split: option.split)

lemma handle_cookie_ok:
  assumes t: "tunn_ok M L t" and p: "cookie_shape p"
  shows "\<exists>r t'. handle_cookie_reply cr t p = Some (r, t') \<and> tunn_ok M L t'"
proof -
  obtain r h' where r: "receive_cookie_reply cr (t_handshake t) p = Some (r, h')"
    using receive_cookie_total [OF p] by fastforce
  have "h_params h' = h_params (t_handshake t)"
    using receive_cookie_frame [OF r] by (metis handshake.ext_inject handshake.surjective handshake.update_convs(5))
  then have "tunn_ok M L (t\<lparr>t_handshake := h'\<rparr>)" by (rule tunn_ok_handshake [OF t])
  then show ?thesis using r by (cases r) (auto simp: handle_cookie_reply_def)
qed

lemma handle_data_ok:
  assumes t: "tunn_ok M L t" and n: "length (pd_encrypted_encapsulated_packet p) \<le> n"
  shows "\<exists>r t'. handle_data cr t p n = Some (r, t') \<and> tunn_ok M L t'"
proof (cases "t_sessions t ! (unat (pd_receiver_idx p) mod 8)")
  case None
  then show ?thesis using t by (simp add: handle_data_def N_SESSIONS_def Let_def)
next
  case (Some s)
  have "session_ok s" using t ring_ok_at [OF _ Some] by (simp add: tunn_ok_def)
  then obtain r s' where r: "receive_packet_data cr s p n = Some (r, s')" "same_session s s'" "session_ok s'"
    using receive_packet_total [OF _ n] by blast
  have t1: "tunn_ok M L (t\<lparr>t_sessions := (t_sessions t)[unat (pd_receiver_idx p) mod 8 := Some s']\<rparr>)"
    by (rule tunn_ok_same_session [OF t Some r(2,3)])
  show ?thesis
  proof (cases r)
    case (Inl e)
    then show ?thesis using t1 r(1) Some by (simp add: handle_data_def N_SESSIONS_def Let_def)
  next
    case (Inr x)
    let ?t2 = "timer_tick (set_current_session (t\<lparr>t_sessions := (t_sessions t)[unat (pd_receiver_idx p) mod 8 := Some s']\<rparr>)
        (unat (pd_receiver_idx p))) TimeLastPacketReceived"
    obtain v t3 where v: "validate_decapsulated_packet ?t2 x = (v, t3)" by fastforce
    have "tunn_ok M L ?t2" using t1 by (intro tunn_ok_tick tunn_ok_set_current)
    from validate_ok [OF this v] show ?thesis using r(1) Some Inr v
      by (simp add: handle_data_def N_SESSIONS_def Let_def)
  qed
qed

definition packet_shape :: "packet \<Rightarrow> nat \<Rightarrow> bool" where
  "packet_shape p n = (case p of HandshakeInit i \<Rightarrow> init_shape i | HandshakeResponse r \<Rightarrow> response_shape r
     | PacketCookieReply c \<Rightarrow> cookie_shape c
     | PacketData d \<Rightarrow> length (pd_encrypted_encapsulated_packet d) \<le> n)"

lemma parse_shape:
  assumes "parse_incoming_packet src = Inr p" "length src \<le> n"
  shows "packet_shape p n"
  using assms parse_init_wire parse_response_wire parse_cookie_wire parse_data_wire
  by (cases p) (fastforce simp: packet_shape_def wire_data_def)+

lemma handle_verified_ok:
  assumes "crypto_ok cr" "tunn_ok M L t" "packet_shape p n" "32 \<le> n"
  shows "\<exists>r t'. handle_verified_packet cr t p ev n = Some (r, t') \<and> tunn_ok M L t'"
proof (cases p)
  case (HandshakeInit i)
  then show ?thesis using handle_init_ok [OF assms(1,2), of i ev n] assms(3)
    by (auto simp: handle_verified_packet_def packet_shape_def)
next
  case (HandshakeResponse r)
  then show ?thesis using handle_response_ok [OF assms(1,2), of r n ev] assms(3,4)
    by (auto simp: handle_verified_packet_def packet_shape_def)
next
  case (PacketCookieReply c)
  then show ?thesis using handle_cookie_ok [OF assms(2), of c cr] assms(3)
    by (auto simp: handle_verified_packet_def packet_shape_def)
next
  case (PacketData d)
  then show ?thesis using handle_data_ok [OF assms(2), of d n cr] assms(3)
    by (auto simp: handle_verified_packet_def packet_shape_def)
qed

lemma verify_packet_parse:
  "verify_packet cr rl a src now n = (Inr p, rl') \<Longrightarrow> parse_incoming_packet src = Inr p"
  by (auto simp: verify_packet_def is_under_load_def Let_def
      split: sum.splits option.splits if_splits prod.splits)

lemma verify_packet_error:
  assumes "crypto_ok cr" "verify_packet cr rl a src now 64 = (Inl r, rl')"
  shows "(\<exists>e. r = TErr e) \<or> (\<exists>c. r = WriteToNetwork c \<and> length c = 64)"
  using assms
  by (auto simp: verify_packet_def is_under_load_def Let_def format_cookie_reply_def rl_nonce_def
      COOKIE_REPLY_SZ_def current_cookie_def crypto_simps
      split: sum.splits option.splits if_splits prod.splits)

lemma decapsulate_ok:
  assumes ok: "crypto_ok cr" and t: "tunn_ok M L t" and ev: "L \<le> ev_clear ev" "ev_clear ev \<le> L'"
    and n: "M + 32 \<le> n" "64 \<le> n" "length datagram \<le> n"
  shows "\<exists>r t' rl'. decapsulate cr t rl a datagram ev n = Some (r, t', rl') \<and> tunn_ok M L' t'"
proof (cases "datagram = []")
  case True
  then show ?thesis using send_queued_ok [OF ok t ev n(1)] by (auto simp: decapsulate_def)
next
  case False
  have tL: "tunn_ok M L' t" using tunn_ok_mono [OF t] ev by simp
  obtain v rl' where v: "verify_packet cr rl a datagram (ev_time ev) 64 = (v, rl')" by fastforce
  show ?thesis
  proof (cases v)
    case (Inl r)
    then show ?thesis using verify_packet_error [OF ok] v False tL n(2)
      by (fastforce simp: decapsulate_def COOKIE_REPLY_SZ_def)
  next
    case (Inr p)
    have "packet_shape p n" using verify_packet_parse parse_shape v Inr n(3) by blast
    from handle_verified_ok [OF ok tL this, of ev] n(2) show ?thesis
      using v Inr False by (auto simp: decapsulate_def COOKIE_REPLY_SZ_def)
  qed
qed

section \<open>The periodic call\<close>

lemma expire_sessions_ok:
  assumes "\<forall>x\<in>set xs. x \<le> now" "length xs = length ss"
  shows "\<exists>xs' ss'. expire_sessions now xs ss = Some (xs', ss') \<and> length xs' = length xs \<and>
    length ss' = length ss \<and> (\<forall>x\<in>set xs'. x \<le> now) \<and> (\<forall>i<length ss. ss' ! i = None \<or> ss' ! i = ss ! i)"
  using assms
proof (induction now xs ss rule: expire_sessions.induct)
  case (1 now x xs s ss)
  then obtain xs' ss' where IH: "expire_sessions now xs ss = Some (xs', ss')" "length xs' = length xs"
      "length ss' = length ss" "\<forall>x\<in>set xs'. x \<le> now" "\<forall>i<length ss. ss' ! i = None \<or> ss' ! i = ss ! i"
    by (auto simp: dur_sub_def)
  have "dur_sub now x = Some (now - x)" using "1.prems" by (simp add: dur_sub_def)
  then show ?case using IH "1.prems" by (auto simp: nth_Cons split: nat.split)
qed auto

lemma update_session_timers_ok:
  assumes t: "tunn_ok M L t" and now: "\<forall>x\<in>set (tm_session_timers (t_timers t)). x \<le> now"
    "now \<le> L - tm_time_started (t_timers t)"
  shows "\<exists>t'. update_session_timers t now = Some t' \<and> tunn_ok M L t' \<and>
    tm_timers (t_timers t') = tm_timers (t_timers t) \<and> tm_time_started (t_timers t') = tm_time_started (t_timers t)"
proof -
  have len: "length (tm_session_timers (t_timers t)) = length (t_sessions t)" "length (t_sessions t) = 8"
    using t by (simp_all add: tunn_ok_def clock_ok_def ring_ok_def)
  obtain xs' ss' where e: "expire_sessions now (tm_session_timers (t_timers t)) (t_sessions t) = Some (xs', ss')"
      "length xs' = 8" "length ss' = 8" "\<forall>x\<in>set xs'. x \<le> now"
      "\<forall>i<8. ss' ! i = None \<or> ss' ! i = t_sessions t ! i"
    using expire_sessions_ok [OF now(1) len(1)] len by auto
  have "ring_ok ss'" using t e(3,5) by (fastforce simp: tunn_ok_def ring_ok_def)
  moreover have "\<forall>x\<in>set xs'. x \<le> L - tm_time_started (t_timers t)" using e(4) now(2) by fastforce
  ultimately show ?thesis using e(1,2) t by (simp add: update_session_timers_def tunn_ok_def clock_ok_def)
qed

lemma and_elapsed_some: "since \<le> now \<Longrightarrow> \<exists>b. and_elapsed c now since l = Some b"
  by (cases c) (simp_all add: and_elapsed_def elapsed_least_def dur_sub_def, blast)

lemma elapsed_least_le: "since \<le> now \<Longrightarrow> elapsed_least now since l = Some (l \<le> now - since)"
  by (simp add: elapsed_least_def dur_sub_def)

text \<open>Every timer is at most \<open>now\<close>: what the subtractions of \<open>update_timers\<close> need.\<close>

definition timers_past :: "tunn \<Rightarrow> nat \<Rightarrow> bool" where
  "timers_past t now \<longleftrightarrow> (\<forall>n. timer t n \<le> now)"

lemma tunn_ok_flags:
  "tunn_ok M L t \<Longrightarrow> tunn_ok M L (t\<lparr>t_timers := (t_timers t)\<lparr>tm_want_handshake := b\<rparr>\<rparr>)"
  "tunn_ok M L t \<Longrightarrow> tunn_ok M L (t\<lparr>t_timers := (t_timers t)\<lparr>tm_want_keepalive := b\<rparr>\<rparr>)"
  by (simp_all add: tunn_ok_def clock_ok_def)

lemma timers_past_flags [simp]:
  "timers_past (t\<lparr>t_timers := (t_timers t)\<lparr>tm_want_handshake := b\<rparr>\<rparr>) now = timers_past t now"
  "timers_past (t\<lparr>t_timers := (t_timers t)\<lparr>tm_want_keepalive := b\<rparr>\<rparr>) now = timers_past t now"
  "timers_past (t\<lparr>t_handshake := h\<rparr>) now = timers_past t now"
  by (simp_all add: timers_past_def timer_def)

lemma idle_handshake_ok:
  assumes "tunn_ok M L t" "timers_past t now"
  shows "\<exists>b t'. idle_handshake_required t now = Some (b, t') \<and> tunn_ok M L t' \<and> timers_past t' now"
proof -
  have s: "\<exists>b. and_elapsed c now (timer t n) l = Some b" for c n l
    using assms(2) by (intro and_elapsed_some) (simp add: timers_past_def)
  obtain a where a: "and_elapsed (timer t TimeSessionEstablished < timer t TimeLastDataPacketSent) now
      (timer t TimeSessionEstablished) REKEY_AFTER_TIME = Some a" using s by blast
  obtain b where b: "and_elapsed (timer t TimeSessionEstablished < timer t TimeLastDataPacketReceived) now
      (timer t TimeSessionEstablished) (REJECT_AFTER_TIME - KEEPALIVE_TIMEOUT - REKEY_TIMEOUT) = Some b" using s by blast
  obtain c where c: "and_elapsed (timer t TimeLastDataPacketSent > timer t TimeLastPacketReceived) now
      (timer t TimeLastPacketReceived) (KEEPALIVE_TIMEOUT + REKEY_TIMEOUT) = Some c" using s by blast
  show ?thesis using assms tunn_ok_flags(1) [OF assms(1), of False]
    by (cases "tm_is_initiator (t_timers t)") (simp_all add: idle_handshake_required_def Let_def a b c del: diff_diff_left)
qed

lemma idle_keepalive_ok:
  assumes "tunn_ok M L t" "timers_past t now"
  shows "\<exists>b t'. idle_keepalive_required t now = Some (b, t') \<and> tunn_ok M L t'"
proof -
  obtain d where d: "and_elapsed (timer t TimeLastDataPacketReceived > timer t TimeLastPacketSent) now
      (timer t TimeLastPacketSent) KEEPALIVE_TIMEOUT = Some d"
    using assms(2) and_elapsed_some by (metis timers_past_def)
  let ?t1 = "if d then t\<lparr>t_timers := (t_timers t)\<lparr>tm_want_keepalive := False\<rparr>\<rparr> else t"
  have t1: "tunn_ok M L ?t1" "timers_past ?t1 now" using assms tunn_ok_flags(2) by auto
  obtain e where e: "and_elapsed (tm_persistent_keepalive (t_timers ?t1) > 0) now
      (timer ?t1 TimePersistentKeepalive) (secs (tm_persistent_keepalive (t_timers ?t1))) = Some e"
    using t1(2) and_elapsed_some by (metis timers_past_def)
  have "tunn_ok M L (if e then timer_tick ?t1 TimePersistentKeepalive else ?t1)"
    using t1(1) tunn_ok_tick by simp
  then show ?thesis using d e by (simp add: idle_keepalive_required_def Let_def del: if_split)
qed

lemma expire_ok:
  assumes "tunn_ok M L t" "L \<le> c" "c \<le> L'"
  shows "tunn_ok M L' (expire t c)"
  using assms
  by (auto simp: expire_def clear_all_def tunn_ok_def set_expired_def queue_ok_def
      intro!: ring_ok_none clock_ok_clear [of L] simp: ring_ok_def [of "t_sessions t"])

lemma timers_due_ok:
  assumes t: "tunn_ok M L t" "timers_past t now" and ev: "L \<le> ev_clear ev" "ev_clear ev \<le> L'"
  shows "\<exists>d t'. timers_due t ev now = Some (d, t') \<and>
    (if d = DueExpired then tunn_ok M L' t' else tunn_ok M L t')"
proof (cases "hs_is_expired (t_handshake t)")
  case True
  then show ?thesis using t ev tunn_ok_mono [OF t(1), of L'] by (simp add: timers_due_def)
next
  case False
  obtain c where c: "and_elapsed (has_cookie (t_handshake t)) now (timer t TimeCookieReceived) COOKIE_EXPIRATION_TIME = Some c"
    using t(2) and_elapsed_some by (metis timers_past_def)
  define t1 where "t1 = (if c then t\<lparr>t_handshake := clear_cookie (t_handshake t)\<rparr> else t)"
  have t1: "tunn_ok M L t1" "timers_past t1 now"
    using t tunn_ok_handshake [OF t(1), of "clear_cookie (t_handshake t)"]
    by (simp_all add: t1_def clear_cookie_def)
  have ex: "tunn_ok M L' (expire t1 (ev_clear ev))" by (rule expire_ok [OF t1(1) ev])
  have le: "timer t TimeSessionEstablished \<le> now" "timer t TimeLastHandshakeStarted \<le> now"
    using t(2) by (simp_all add: timers_past_def)
  obtain hs t2 where hs: "idle_handshake_required t1 now = Some (hs, t2)" "tunn_ok M L t2" "timers_past t2 now"
    using idle_handshake_ok [OF t1] by blast
  obtain ka t3 where ka: "idle_keepalive_required t2 now = Some (ka, t3)" "tunn_ok M L t3"
    using idle_keepalive_ok [OF hs(2,3)] by blast
  note def = timers_due_def Let_def elapsed_least_le le c t1_def [symmetric]
  show ?thesis
  proof (cases "REJECT_AFTER_TIME * 3 \<le> now - timer t TimeSessionEstablished")
    case True
    then show ?thesis using False ex by (simp add: def)
  next
    case alive: False
    show ?thesis
    proof (cases "hs_timer (t_handshake t1)")
      case None
      then show ?thesis using False alive hs ka by (cases hs; cases ka; simp add: def)
    next
      case (Some x)
      then show ?thesis using False alive ex t1(1)
        by (cases "REKEY_ATTEMPT_TIME \<le> now - timer t TimeLastHandshakeStarted";
            cases "REKEY_TIMEOUT \<le> ev_elapsed ev - x"; simp add: def)
    qed
  qed
qed

lemma update_timers_start:
  assumes t: "tunn_ok M L t" and ev: "L \<le> ev_time ev"
    and now: "now = ev_time ev - tm_time_started (t_timers t)"
  shows "\<exists>t1. update_session_timers
      (t\<lparr>t_timers := (t_timers t)\<lparr>tm_timers := (tm_timers (t_timers t))(TimeCurrent := now)\<rparr>\<rparr>) now = Some t1 \<and>
    tunn_ok M (ev_time ev) t1 \<and> timers_past t1 now \<and>
    tm_timers (t_timers t1) = (tm_timers (t_timers t))(TimeCurrent := now)"
proof -
  let ?t0 = "t\<lparr>t_timers := (t_timers t)\<lparr>tm_timers := (tm_timers (t_timers t))(TimeCurrent := now)\<rparr>\<rparr>"
  have c: "clock_ok (ev_time ev) (t_timers t)" using t ev clock_ok_mono by (auto simp: tunn_ok_def)
  then have t0: "tunn_ok M (ev_time ev) ?t0" using t by (auto simp: tunn_ok_def clock_ok_def now)
  have b: "\<forall>x\<in>set (tm_session_timers (t_timers ?t0)). x \<le> now" using c by (simp add: clock_ok_def now)
  obtain t1 where t1: "update_session_timers ?t0 now = Some t1" "tunn_ok M (ev_time ev) t1"
      "tm_timers (t_timers t1) = tm_timers (t_timers ?t0)"
    using update_session_timers_ok [OF t0 b] by (auto simp: now)
  have "timers_past t1 now" using c t1(3) by (auto simp: timers_past_def timer_def clock_ok_def now)
  then show ?thesis using t1 by simp
qed

lemma update_timers_ok:
  assumes ok: "crypto_ok cr" and t: "tunn_ok M L t" and ev: "L \<le> ev_time ev" "ev_time ev \<le> ev_clear ev"
    and n: "32 \<le> n"
  shows "\<exists>r t' rl'. update_timers cr t rl ev n = Some (r, t', rl') \<and> tunn_ok M (ev_clear ev) t'"
proof -
  define now where "now = ev_time ev - tm_time_started (t_timers t)"
  obtain t1 where t1: "update_session_timers
      (t\<lparr>t_timers := (t_timers t)\<lparr>tm_timers := (tm_timers (t_timers t))(TimeCurrent := now)\<rparr>\<rparr>) now = Some t1"
      "tunn_ok M (ev_time ev) t1" "timers_past t1 now"
    using update_timers_start [OF t ev(1) now_def] by blast
  obtain d t2 where d: "timers_due t1 ev now = Some (d, t2)"
      "if d = DueExpired then tunn_ok M (ev_clear ev) t2 else tunn_ok M (ev_time ev) t2"
    using timers_due_ok [OF t1(2,3) ev(2) order_refl] by blast
  note def = update_timers_def Let_def now_def [symmetric] t1(1) d(1)
  show ?thesis
  proof (cases d)
    case DueExpired
    then show ?thesis using d(2) by (simp add: def)
  next
    case DueHandshake
    then show ?thesis using d(2) tunn_format_initiation_ok [OF ok _ ev(2) order_refl, of M t2 n True]
      by (auto simp: def)
  next
    case DueKeepalive
    then show ?thesis using d(2) n encapsulate_ok [OF ok _ ev(2) order_refl, of M t2 "[]" n]
      by (auto simp: def)
  next
    case DueNothing
    then show ?thesis using d(2) tunn_ok_mono [OF _ ev(2)] by (auto simp: def)
  qed
qed

lemma tunn_new_ok:
  "crypto_ok cr \<Longrightarrow> tunn_ok M now (tunn_new cr k peer psk ka idx own stamper now)"
  by (simp add: tunn_new_def tunn_ok_def ring_ok_def clock_ok_def queue_ok_def timers_new_def
      handshake_new_def noise_params_new_def N_SESSIONS_def crypto_simps Let_def)

definition prefix_of :: "bytes \<Rightarrow> bytes \<Rightarrow> bool" where
  "prefix_of xs ys \<longleftrightarrow> take (length xs) ys = xs \<and> length xs \<le> length ys"

section \<open>Runs of a tunnel\<close>

datatype tunn_op =
    OpEncapsulate bytes
  | OpDecapsulate "IpAddr option" bytes
  | OpUpdateTimers
  | OpFormatInitiation bool

fun tunn_step ::
  "crypto \<Rightarrow> nat \<Rightarrow> tunn \<times> rate_limiter \<Rightarrow> tunn_op \<Rightarrow> env \<Rightarrow> (TunnResult \<times> tunn \<times> rate_limiter) option" where
  "tunn_step cr n (t, rl) (OpEncapsulate src) ev = map_option (\<lambda>(r, t). (r, t, rl)) (encapsulate cr t src ev n)"
| "tunn_step cr n (t, rl) (OpDecapsulate a d) ev = decapsulate cr t rl a d ev n"
| "tunn_step cr n (t, rl) OpUpdateTimers ev = update_timers cr t rl ev n"
| "tunn_step cr n (t, rl) (OpFormatInitiation force) ev =
     map_option (\<lambda>(r, t). (r, t, rl)) (tunn_format_handshake_initiation cr t ev n force)"

fun tunn_run ::
  "crypto \<Rightarrow> nat \<Rightarrow> tunn \<times> rate_limiter \<Rightarrow> (tunn_op \<times> env) list \<Rightarrow> (TunnResult list \<times> tunn \<times> rate_limiter) option" where
  "tunn_run cr n s [] = Some ([], s)"
| "tunn_run cr n s ((x, ev) # xs) = do {
     (r, s) \<leftarrow> tunn_step cr n s x ev;
     (rs, s) \<leftarrow> tunn_run cr n s xs;
     Some (r # rs, s) }"

text \<open>What callers owe: packets of at most \<open>M\<close> bytes, datagrams no longer than the
  buffer, and a clock that does not go back.\<close>

fun op_fits :: "nat \<Rightarrow> nat \<Rightarrow> tunn_op \<Rightarrow> bool" where
  "op_fits M n (OpEncapsulate src) = (length src \<le> M)"
| "op_fits M n (OpDecapsulate a d) = (length d \<le> n)"
| "op_fits M n _ = True"

fun clock_forward :: "nat \<Rightarrow> env list \<Rightarrow> bool" where
  "clock_forward L [] = True"
| "clock_forward L (ev # evs) = (L \<le> ev_time ev \<and> ev_time ev \<le> ev_clear ev \<and> clock_forward (ev_clear ev) evs)"

lemma tunn_step_ok:
  assumes "crypto_ok cr" "tunn_ok M L t" "M + 32 \<le> n" "64 \<le> n" "op_fits M n x"
    and "L \<le> ev_time ev" "ev_time ev \<le> ev_clear ev"
  shows "\<exists>r t' rl'. tunn_step cr n (t, rl) x ev = Some (r, t', rl') \<and> tunn_ok M (ev_clear ev) t'"
proof (cases x)
  case (OpEncapsulate src)
  then show ?thesis using encapsulate_ok [OF assms(1,2), of ev "ev_clear ev" src n] assms by auto
next
  case (OpDecapsulate a d)
  then show ?thesis using decapsulate_ok [OF assms(1,2), of ev "ev_clear ev" n d rl a] assms by auto
next
  case OpUpdateTimers
  then show ?thesis using update_timers_ok [OF assms(1,2,6,7), of n rl] assms by auto
next
  case (OpFormatInitiation f)
  then show ?thesis using tunn_format_initiation_ok [OF assms(1,2), of ev "ev_clear ev" n f] assms by auto
qed

lemma tunn_run_ok:
  assumes "crypto_ok cr" "M + 32 \<le> n" "64 \<le> n"
    and "tunn_ok M L t" "\<forall>(x, ev)\<in>set xs. op_fits M n x" "clock_forward L (map snd xs)"
  shows "\<exists>rs t' rl' L'. tunn_run cr n (t, rl) xs = Some (rs, t', rl') \<and> length rs = length xs \<and> tunn_ok M L' t'"
  using assms(4-)
proof (induction xs arbitrary: t rl L)
  case Nil
  then show ?case by auto
next
  case (Cons a xs)
  obtain x ev where a: "a = (x, ev)" by (cases a)
  obtain r t1 rl1 where s: "tunn_step cr n (t, rl) x ev = Some (r, t1, rl1)" "tunn_ok M (ev_clear ev) t1"
    using tunn_step_ok [OF assms(1) Cons.prems(1) assms(2,3), of x ev rl] Cons.prems(2,3) by (auto simp: a)
  obtain rs t' rl' L' where "tunn_run cr n (t1, rl1) xs = Some (rs, t', rl')" "length rs = length xs" "tunn_ok M L' t'"
    using Cons.IH [OF s(2), of rl1] Cons.prems(2,3) by (auto simp: a)
  then show ?case using s(1) by (auto simp: a)
qed

section \<open>Properties\<close>

text \<open>C4: a tunnel does not panic.  From a new tunnel, every sequence of calls with
  packets and datagrams that fit the buffer and a clock that does not go back
  returns, and the ring, the queue bound and the timers stay well formed.\<close>

theorem tunnel_never_panics:
  assumes "crypto_ok cr" "M + 32 \<le> n" "64 \<le> n"
    and "\<forall>(x, ev)\<in>set ops. op_fits M n x" "clock_forward now (map snd ops)"
  shows "\<exists>rs t' rl' L'. tunn_run cr n (tunn_new cr k peer psk ka idx own stamper now, rl) ops = Some (rs, t', rl') \<and>
    length rs = length ops \<and> ring_ok (t_sessions t') \<and> length (t_packet_queue t') \<le> 256 \<and> clock_ok L' (t_timers t')"
proof -
  obtain rs t' rl' L' where "tunn_run cr n (tunn_new cr k peer psk ka idx own stamper now, rl) ops = Some (rs, t', rl')"
      "length rs = length ops" "tunn_ok M L' t'"
    using tunn_run_ok [OF assms(1-3) tunn_new_ok [OF assms(1)] assms(4,5)] by blast
  then show ?thesis by (intro exI [of _ rs] exI [of _ t'] exI [of _ rl'] exI [of _ L']) (simp add: tunn_ok_def queue_ok_def)
qed

definition toy_env :: "nat \<Rightarrow> env" where
  "toy_env now = \<lparr>ev_time = now, ev_reset = now, ev_elapsed = now, ev_clear = now, ev_stamp = now, ev_sent = now,
     ev_ephemeral = [7]\<rparr>"

theorem tunnel_never_panics_witness:
  "\<exists>rs t' rl'. tunn_run toy_crypto 200 (tunn_new toy_crypto [1] (cr_pub toy_crypto [2]) None None 5 False toy_stamper 0, toy_limiter)
      [(OpEncapsulate [1, 2, 3], toy_env 1), (OpDecapsulate None (replicate 148 1), toy_env 2),
       (OpUpdateTimers, toy_env (secs 700))] = Some (rs, t', rl') \<and>
    length rs = 3 \<and> ring_ok (t_sessions t') \<and> length (t_packet_queue t') \<le> 256"
proof -
  let ?ops = "[(OpEncapsulate [1, 2, 3], toy_env 1), (OpDecapsulate None (replicate 148 1), toy_env 2),
      (OpUpdateTimers, toy_env (secs 700))]"
  have "\<forall>(x, ev)\<in>set ?ops. op_fits 100 200 x" "clock_forward 0 (map snd ?ops)"
    by (simp_all add: toy_env_def secs_def)
  from tunnel_never_panics [OF toy_crypto_ok _ _ this, of "[1]" "cr_pub toy_crypto [2]" None None 5 False toy_stamper toy_limiter]
  obtain rs t' rl' where "tunn_run toy_crypto 200 (tunn_new toy_crypto [1] (cr_pub toy_crypto [2]) None None 5 False toy_stamper 0,
      toy_limiter) ?ops = Some (rs, t', rl')" "length rs = length ?ops" "ring_ok (t_sessions t')"
      "length (t_packet_queue t') \<le> 256" by auto
  then show ?thesis by (intro exI conjI) (assumption, simp_all)
qed

text \<open>C33: expiry.  When 540 seconds have passed since the last session was
  established, \<open>update_timers\<close> reports an expired connection and leaves no session,
  no queued packet and no handshake in progress.\<close>

theorem connection_expires:
  assumes t: "tunn_ok M L t" "L \<le> ev_time ev" and alive: "\<not> tunn_is_expired t"
    and old: "timer t TimeSessionEstablished + secs 540 \<le> ev_time ev - tm_time_started (t_timers t)"
  shows "\<exists>t' rl'. update_timers cr t rl ev n = Some (TErr ConnectionExpired, t', rl') \<and>
    t_sessions t' = replicate 8 None \<and> t_packet_queue t' = [] \<and> tunn_is_expired t'"
proof -
  define now where "now = ev_time ev - tm_time_started (t_timers t)"
  let ?t0 = "t\<lparr>t_timers := (t_timers t)\<lparr>tm_timers := (tm_timers (t_timers t))(TimeCurrent := now)\<rparr>\<rparr>"
  obtain t1 where t1: "update_session_timers ?t0 now = Some t1" "tunn_ok M (ev_time ev) t1" "timers_past t1 now"
      "tm_timers (t_timers t1) = (tm_timers (t_timers t))(TimeCurrent := now)"
    using update_timers_start [OF t now_def] by blast
  have h: "t_handshake t1 = t_handshake t"
    using t1(1) by (auto simp: update_session_timers_def bind_eq_Some_conv)
  have est: "timer t1 TimeSessionEstablished = timer t TimeSessionEstablished"
    by (simp add: timer_def t1(4))
  obtain c where c: "and_elapsed (has_cookie (t_handshake t1)) now (timer t1 TimeCookieReceived) COOKIE_EXPIRATION_TIME = Some c"
    using t1(3) and_elapsed_some by (metis timers_past_def)
  define t2 where "t2 = (if c then t1\<lparr>t_handshake := clear_cookie (t_handshake t1)\<rparr> else t1)"
  have "timer t1 TimeSessionEstablished \<le> now" using t1(3) by (simp add: timers_past_def)
  moreover have "REJECT_AFTER_TIME * 3 \<le> now - timer t1 TimeSessionEstablished"
    using old by (simp add: est now_def [symmetric] REJECT_AFTER_TIME_def secs_def)
  ultimately have "timers_due t1 ev now = Some (DueExpired, expire t2 (ev_clear ev))"
    using alive c h
    by (simp add: timers_due_def tunn_is_expired_def Let_def elapsed_least_le t2_def [symmetric])
  moreover have "length (t_sessions t2) = 8" using t1(2) by (simp add: t2_def tunn_ok_def ring_ok_def)
  ultimately show ?thesis
    using t1(1) by (simp add: update_timers_def Let_def now_def [symmetric] expire_def clear_all_def
        tunn_is_expired_def hs_is_expired_def set_expired_def map_replicate_const)
qed

theorem connection_expires_witness:
  "\<exists>t' rl'. update_timers toy_crypto (tunn_new toy_crypto [1] (cr_pub toy_crypto [2]) None None 5 False toy_stamper 0)
      toy_limiter (toy_env (secs 600)) 200 = Some (TErr ConnectionExpired, t', rl') \<and>
    t_sessions t' = replicate 8 None \<and> t_packet_queue t' = [] \<and> tunn_is_expired t'"
proof -
  let ?t = "tunn_new toy_crypto [1] (cr_pub toy_crypto [2]) None None 5 False toy_stamper 0"
  have "\<not> tunn_is_expired ?t" "timer ?t TimeSessionEstablished = 0" "tm_time_started (t_timers ?t) = 0"
    by (simp_all add: tunn_new_def tunn_is_expired_def hs_is_expired_def handshake_new_def timer_def timers_new_def Let_def)
  then show ?thesis
    using connection_expires [OF tunn_new_ok [OF toy_crypto_ok, of 0 0 "[1]" "cr_pub toy_crypto [2]" None None 5 False toy_stamper],
        of "toy_env (secs 600)" toy_crypto toy_limiter 200]
    by (simp add: toy_env_def secs_def)
qed

section \<open>The packet queue\<close>

text \<open>Queueing without a session.  A packet sent while no session exists goes to
  the back of the queue, after all packets queued before it, and none is lost,
  unless 256 packets wait already, in which case it is dropped.\<close>

lemma encapsulate_queues:
  assumes "t_sessions t ! (t_current t mod 8) = None" "encapsulate cr t src ev n = Some (r, t')"
  shows "t_packet_queue t' = (if length (t_packet_queue t) < 256 then t_packet_queue t @ [src] else t_packet_queue t) \<and>
    (r = Done \<or> (\<exists>e. r = TErr e) \<or> (\<exists>w. r = WriteToNetwork w))"
  using assms
  by (auto simp: encapsulate_def N_SESSIONS_def tunn_format_handshake_initiation_def queue_packet_def
      MAX_QUEUE_DEPTH_def Let_def bind_eq_Some_conv split: if_splits sum.splits)

text \<open>With a buffer too small for an initiation, a queued packet is duplicated:
  \<open>encapsulate\<close> puts it back into the queue before it fails, and
  \<open>send_queued_packet\<close> puts it back once more.\<close>

lemma send_queued_duplicates:
  assumes "t_sessions t ! (t_current t mod 8) = None" "t_packet_queue t = [p]"
    and "\<not> is_in_progress (t_handshake t)" "n < 148"
  shows "\<exists>t'. send_queued_packet cr t ev n = Some (Done, t') \<and> t_packet_queue t' = [p, p]"
  using assms
  by (auto simp: send_queued_packet_def dequeue_packet_def encapsulate_def queue_packet_def requeue_packet_def
      tunn_format_handshake_initiation_def format_handshake_initiation_def MAX_QUEUE_DEPTH_def N_SESSIONS_def
      HANDSHAKE_INIT_SZ_def Let_def)

text \<open>What leaves the tunnel.  A packet handed to the interface is the prefix of
  the decrypted packet whose length its header states, it has a full header of its
  version, and the address is the source address of its header; everything else is
  an empty keepalive or an invalid packet, and changes nothing.\<close>

lemma decapsulated_packet_bounds:
  "case fst (validate_decapsulated_packet t packet) of
     WriteToTunnelV4 out addr \<Rightarrow>
       prefix_of out packet \<and> 20 \<le> length packet \<and> drop_bit 4 (packet ! 0) = 4 \<and>
       length out = unat (from_be_bytes (slice 2 4 packet) :: u16) \<and> addr = slice 12 16 packet
   | WriteToTunnelV6 out addr \<Rightarrow>
       prefix_of out packet \<and> 40 \<le> length packet \<and> drop_bit 4 (packet ! 0) = 6 \<and>
       length out = unat (from_be_bytes (slice 4 6 packet) :: u16) + 40 \<and> addr = slice 8 24 packet
   | Done \<Rightarrow> packet = [] \<and> snd (validate_decapsulated_packet t packet) = t
   | TErr e \<Rightarrow> e = InvalidPacket \<and> packet \<noteq> [] \<and> snd (validate_decapsulated_packet t packet) = t
   | WriteToNetwork _ \<Rightarrow> False"
  by (auto simp: validate_decapsulated_packet_def IPV4_MIN_HEADER_SIZE_def IPV6_MIN_HEADER_SIZE_def
      prefix_of_def Let_def)

end
