(* ===== verification/Quota.thy ===== *)
theory Quota
  imports Prelude
begin

text \<open>
  The bandwidth quota of a peer (\<open>payment/quota.rs\<close>): bytes left, bytes used,
  a block flag and the payment nonces seen.  A theorem relates every run of a
  quota to a ledger of credits and charges.
\<close>

definition DEFAULT_QUOTA_BYTES :: u64 where "DEFAULT_QUOTA_BYTES = 10 * 1024 * 1024"

record quota =
  q_remaining_bytes :: u64
  q_blocked :: bool
  q_total_consumed :: u64
  q_payment_count :: u64
  q_used_nonces :: "bytes set"

definition quota_new :: "u64 \<Rightarrow> quota" where
  "quota_new initial_bytes = \<lparr>q_remaining_bytes = initial_bytes, q_blocked = False,
     q_total_consumed = 0, q_payment_count = 0, q_used_nonces = {}\<rparr>"

definition consume :: "quota \<Rightarrow> u64 \<Rightarrow> bool \<times> quota" where
  "consume q bytes =
     (let remaining = q_remaining_bytes q in
      if remaining = 0 then (False, q)
      else if bytes > remaining
      then (False, q\<lparr>q_remaining_bytes := 0, q_total_consumed := q_total_consumed q + remaining, q_blocked := True\<rparr>)
      else (True, q\<lparr>q_remaining_bytes := remaining - bytes, q_total_consumed := q_total_consumed q + bytes\<rparr>))"

definition credit :: "quota \<Rightarrow> u64 \<Rightarrow> quota" where
  "credit q bytes = q\<lparr>q_remaining_bytes := q_remaining_bytes q + bytes,
     q_payment_count := q_payment_count q + 1, q_blocked := False\<rparr>"

definition check_and_record_nonce :: "quota \<Rightarrow> bytes \<Rightarrow> bool \<times> quota" where
  "check_and_record_nonce q nonce =
     (nonce \<notin> q_used_nonces q, q\<lparr>q_used_nonces := insert nonce (q_used_nonces q)\<rparr>)"

definition is_blocked :: "quota \<Rightarrow> bool" where "is_blocked q = q_blocked q"
definition remaining :: "quota \<Rightarrow> u64" where "remaining q = q_remaining_bytes q"
definition total_consumed :: "quota \<Rightarrow> u64" where "total_consumed q = q_total_consumed q"
definition payment_count :: "quota \<Rightarrow> u64" where "payment_count q = q_payment_count q"

section \<open>Runs\<close>

datatype quota_op = Consume u64 | Credit u64 | Nonce bytes

fun quota_step :: "quota \<Rightarrow> quota_op \<Rightarrow> quota" where
  "quota_step q (Consume n) = snd (consume q n)"
| "quota_step q (Credit n) = credit q n"
| "quota_step q (Nonce n) = snd (check_and_record_nonce q n)"

text \<open>The ledger: the bytes allowed are those of the \<open>Consume\<close> calls that
  returned \<open>true\<close>, and of a refused call at most the rest of the quota.\<close>

fun allowed :: "quota \<Rightarrow> quota_op list \<Rightarrow> nat" where
  "allowed q [] = 0"
| "allowed q (Consume n # xs) = (if fst (consume q n) then unat n else 0) + allowed (snd (consume q n)) xs"
| "allowed q (x # xs) = allowed (quota_step q x) xs"

fun credits :: "quota_op list \<Rightarrow> nat" where
  "credits [] = 0"
| "credits (Credit n # xs) = unat n + credits xs"
| "credits (_ # xs) = credits xs"

lemma consume_cases:
  obtains (empty) "q_remaining_bytes q = 0" "consume q n = (False, q)"
  | (over) "q_remaining_bytes q \<noteq> 0" "unat (q_remaining_bytes q) < unat n"
      "consume q n = (False, q\<lparr>q_remaining_bytes := 0,
         q_total_consumed := q_total_consumed q + q_remaining_bytes q, q_blocked := True\<rparr>)"
  | (ok) "q_remaining_bytes q \<noteq> 0" "unat n \<le> unat (q_remaining_bytes q)"
      "consume q n = (True, q\<lparr>q_remaining_bytes := q_remaining_bytes q - n,
         q_total_consumed := q_total_consumed q + n\<rparr>)"
  by (cases "q_remaining_bytes q = 0"; cases "n > q_remaining_bytes q")
    (auto simp: consume_def Let_def word_less_nat_alt)

lemma quota_ledger:
  assumes "unat (q_remaining_bytes q) + unat (q_total_consumed q) + credits xs < 18446744073709551616"
  shows "unat (q_remaining_bytes (run_ops quota_step q xs)) + unat (q_total_consumed (run_ops quota_step q xs)) =
      unat (q_remaining_bytes q) + unat (q_total_consumed q) + credits xs \<and>
    unat (q_total_consumed q) + allowed q xs \<le> unat (q_total_consumed (run_ops quota_step q xs))"
  using assms
proof (induction xs arbitrary: q)
  case Nil
  then show ?case by simp
next
  case (Cons x xs)
  show ?case
  proof (cases x)
    case (Consume n)
    show ?thesis
    proof (rule consume_cases [where q = q and n = n])
      assume "q_remaining_bytes q = 0" "consume q n = (False, q)"
      then show ?thesis using Cons Consume by simp
    next
      assume over: "q_remaining_bytes q \<noteq> 0" "unat (q_remaining_bytes q) < unat n"
        "consume q n = (False, q\<lparr>q_remaining_bytes := 0,
           q_total_consumed := q_total_consumed q + q_remaining_bytes q, q_blocked := True\<rparr>)"
      have s: "unat (q_total_consumed q + q_remaining_bytes q) = unat (q_total_consumed q) + unat (q_remaining_bytes q)"
        using Cons.prems by (simp add: unat_add_u64)
      show ?thesis using Cons.IH [of "snd (consume q n)"] Cons.prems Consume over(3) s by simp
    next
      assume ok: "q_remaining_bytes q \<noteq> 0" "unat n \<le> unat (q_remaining_bytes q)"
        "consume q n = (True, q\<lparr>q_remaining_bytes := q_remaining_bytes q - n,
           q_total_consumed := q_total_consumed q + n\<rparr>)"
      have "unat (q_total_consumed q + n) = unat (q_total_consumed q) + unat n"
        using Cons.prems ok(2) by (simp add: unat_add_u64)
      moreover have "unat (q_remaining_bytes q - n) = unat (q_remaining_bytes q) - unat n"
        using ok(2) by (simp add: unat_sub_le word_le_nat_alt)
      ultimately show ?thesis using Cons.IH [of "snd (consume q n)"] Cons.prems Consume ok(2,3) by simp
    qed
  next
    case (Credit n)
    have "unat (q_remaining_bytes q + n) = unat (q_remaining_bytes q) + unat n"
      using Cons.prems Credit by (simp add: unat_add_u64)
    then show ?thesis using Cons.IH [of "credit q n"] Cons.prems Credit by (simp add: credit_def)
  next
    case (Nonce n)
    then show ?thesis using Cons.IH [of "snd (check_and_record_nonce q n)"] Cons.prems
      by (simp add: check_and_record_nonce_def)
  qed
qed

section \<open>Properties\<close>

text \<open>C36: the ledger balances.  As long as the sums stay in 64 bits, over every
  sequence of calls the bytes remaining and consumed are the initial bytes plus the
  credits, and the bytes of the calls that were allowed never exceed them.\<close>

theorem quota_conserved:
  assumes "unat initial + credits xs < 18446744073709551616"
  shows "unat (remaining (run_ops quota_step (quota_new initial) xs)) +
      unat (total_consumed (run_ops quota_step (quota_new initial) xs)) = unat initial + credits xs \<and>
    allowed (quota_new initial) xs \<le> unat initial + credits xs"
proof -
  from quota_ledger [of "quota_new initial" xs] assms
  have l: "unat (q_remaining_bytes (run_ops quota_step (quota_new initial) xs)) +
      unat (q_total_consumed (run_ops quota_step (quota_new initial) xs)) = unat initial + credits xs"
    and a: "allowed (quota_new initial) xs \<le> unat (q_total_consumed (run_ops quota_step (quota_new initial) xs))"
    by (simp_all add: quota_new_def)
  then show ?thesis unfolding remaining_def total_consumed_def by linarith
qed

theorem quota_conserved_witness:
  "allowed (quota_new 100) [Consume 60, Consume 60, Credit 50, Consume 30] \<le> 150"
  using quota_conserved [of 100 "[Consume 60, Consume 60, Credit 50, Consume 30]"] by simp

text \<open>The block flag.  A consumption that uses the quota up exactly is allowed and
  leaves the peer unblocked with nothing left; the next one is refused, and the
  flag still stays clear.\<close>

lemma exact_exhaustion_not_blocked:
  assumes "\<not> is_blocked q" "remaining q \<noteq> 0"
  shows "fst (consume q (remaining q)) \<and>
    (let q' = snd (consume q (remaining q)) in
       remaining q' = 0 \<and> \<not> is_blocked q' \<and> \<not> fst (consume q' n) \<and> \<not> is_blocked (snd (consume q' n)))"
  using assms by (simp add: consume_def remaining_def is_blocked_def Let_def)

end
