(* ===== verification/Peer.thy ===== *)
theory Peer
  imports Tunn_Invariant Quota
begin

text \<open>
  Peers of a device (\<open>device/peer.rs\<close>) and tables of allowed addresses
  (\<open>device/allowed_ips.rs\<close>).  The longest-prefix table and the network type come from
  third-party crates and are the parameters \<open>ip_table\<close> and \<open>ip_net\<close>;
  \<open>ip_table_ok\<close> states what they document: inserting replaces the entry of the same
  network, \<open>retain\<close> filters, a match is the most specific network that contains the
  address.  \<open>toy_table\<close> is an association list that satisfies it.
\<close>

section \<open>Tables of networks\<close>

type_synonym ip_network = "IpAddr \<times> u8"

record ip_net =
  in_truncate :: "IpAddr \<Rightarrow> u8 \<Rightarrow> ip_network option"
  in_contains :: "ip_network \<Rightarrow> IpAddr \<Rightarrow> bool"

record ('t, 'd) ip_table =
  it_new :: 't
  it_insert :: "'t \<Rightarrow> ip_network \<Rightarrow> 'd \<Rightarrow> 't"
  it_longest_match :: "'t \<Rightarrow> IpAddr \<Rightarrow> (ip_network \<times> 'd) option"
  it_retain :: "'t \<Rightarrow> ('d \<Rightarrow> bool) \<Rightarrow> 't"
  it_iter :: "'t \<Rightarrow> (ip_network \<times> 'd) list"

definition ip_table_ok :: "ip_net \<Rightarrow> ('t, 'd) ip_table \<Rightarrow> bool" where
  "ip_table_ok net it \<longleftrightarrow> it_iter it (it_new it) = [] \<and>
     (\<forall>t n d. set (it_iter it (it_insert it t n d)) = insert (n, d) {e \<in> set (it_iter it t). fst e \<noteq> n}) \<and>
     (\<forall>t P. set (it_iter it (it_retain it t P)) = {e \<in> set (it_iter it t). P (snd e)}) \<and>
     (\<forall>t a. case it_longest_match it t a of
         None \<Rightarrow> \<forall>e \<in> set (it_iter it t). \<not> in_contains net (fst e) a
       | Some m \<Rightarrow> m \<in> set (it_iter it t) \<and> in_contains net (fst m) a \<and>
           (\<forall>e \<in> set (it_iter it t). in_contains net (fst e) a \<longrightarrow> snd (fst e) \<le> snd (fst m)))"

section \<open>AllowedIps\<close>

record allowed_ip =
  ai_addr :: IpAddr
  ai_cidr :: u8

definition aips_new :: "('t, 'd) ip_table \<Rightarrow> 't" where "aips_new it = it_new it"
definition aips_clear :: "('t, 'd) ip_table \<Rightarrow> 't \<Rightarrow> 't" where "aips_clear it t = it_new it"

text \<open>The prefix length must be valid (\<open>expect\<close>).\<close>

definition aips_insert :: "ip_net \<Rightarrow> ('t, 'd) ip_table \<Rightarrow> 't \<Rightarrow> IpAddr \<Rightarrow> u8 \<Rightarrow> 'd \<Rightarrow> 't option" where
  "aips_insert net it t key cidr data = do {
     n \<leftarrow> in_truncate net key cidr;
     Some (it_insert it t n data) }"

definition aips_find :: "('t, 'd) ip_table \<Rightarrow> 't \<Rightarrow> IpAddr \<Rightarrow> 'd option" where
  "aips_find it t key = map_option snd (it_longest_match it t key)"

definition aips_remove :: "('t, 'd) ip_table \<Rightarrow> 't \<Rightarrow> ('d \<Rightarrow> bool) \<Rightarrow> 't" where
  "aips_remove it t predicate = it_retain it t (\<lambda>v. \<not> predicate v)"

definition aips_iter :: "('t, 'd) ip_table \<Rightarrow> 't \<Rightarrow> ('d \<times> IpAddr \<times> u8) list" where
  "aips_iter it t = map (\<lambda>(ipa, d). (d, fst ipa, snd ipa)) (it_iter it t)"

fun aips_insert_all ::
  "ip_net \<Rightarrow> ('t, 'd) ip_table \<Rightarrow> 't \<Rightarrow> (allowed_ip \<times> 'd) list \<Rightarrow> 't option" where
  "aips_insert_all net it t [] = Some t"
| "aips_insert_all net it t ((ip, data) # rest) = do {
     t \<leftarrow> aips_insert net it t (ai_addr ip) (ai_cidr ip) data;
     aips_insert_all net it t rest }"

definition aips_from_iter :: "ip_net \<Rightarrow> ('t, 'd) ip_table \<Rightarrow> (allowed_ip \<times> 'd) list \<Rightarrow> 't option" where
  "aips_from_iter net it ips = aips_insert_all net it (aips_new it) ips"

section \<open>Peers\<close>

type_synonym sock_addr = "IpAddr \<times> u16"

text \<open>The connected socket of the endpoint is present or not; the limiter is the shared
  object the tunnel holds, by its place in the device.\<close>

record 'u peer =
  pe_tunnel :: tunn
  pe_limiter :: nat
  pe_index :: u32
  pe_addr :: "sock_addr option"
  pe_conn :: bool
  pe_allowed_ips :: 'u
  pe_preshared_key :: "bytes option"
  pe_quota :: "quota option"

definition peer_new ::
  "ip_net \<Rightarrow> ('u, unit) ip_table \<Rightarrow> tunn \<Rightarrow> nat \<Rightarrow> u32 \<Rightarrow> sock_addr option \<Rightarrow> allowed_ip list \<Rightarrow> bytes option \<Rightarrow>
    'u peer option" where
  "peer_new net it tunnel limiter index endpoint allowed_ips preshared_key = do {
     ips \<leftarrow> aips_from_iter net it (map (\<lambda>ip. (ip, ())) allowed_ips);
     Some \<lparr>pe_tunnel = tunnel, pe_limiter = limiter, pe_index = index, pe_addr = endpoint, pe_conn = False,
       pe_allowed_ips = ips, pe_preshared_key = preshared_key, pe_quota = None\<rparr> }"

definition peer_update_timers ::
  "crypto \<Rightarrow> 'u peer \<Rightarrow> rate_limiter \<Rightarrow> env \<Rightarrow> nat \<Rightarrow> (TunnResult \<times> 'u peer \<times> rate_limiter) option" where
  "peer_update_timers cr p rl ev dst_len = do {
     (r, t, rl) \<leftarrow> update_timers cr (pe_tunnel p) rl ev dst_len;
     Some (r, p\<lparr>pe_tunnel := t\<rparr>, rl) }"

definition shutdown_endpoint :: "'u peer \<Rightarrow> 'u peer" where
  "shutdown_endpoint p = p\<lparr>pe_conn := False\<rparr>"

definition set_endpoint :: "'u peer \<Rightarrow> sock_addr \<Rightarrow> 'u peer" where
  "set_endpoint p addr = (if pe_addr p \<noteq> Some addr then p\<lparr>pe_conn := False, pe_addr := Some addr\<rparr> else p)"

text \<open>\<open>None\<close> is the panic on an undefined endpoint; \<open>Inl\<close> an error: already connected, or
  the operating system refused (\<open>os_ok\<close>).\<close>

definition connect_endpoint :: "'u peer \<Rightarrow> bool \<Rightarrow> ((unit + sock_addr) \<times> 'u peer) option" where
  "connect_endpoint p os_ok =
     (if pe_conn p then Some (Inl (), p)
      else case pe_addr p of
        None \<Rightarrow> None
      | Some addr \<Rightarrow> Some (if os_ok then (Inr addr, p\<lparr>pe_conn := True\<rparr>) else (Inl (), p)))"

definition is_allowed_ip :: "('u, unit) ip_table \<Rightarrow> 'u peer \<Rightarrow> IpAddr \<Rightarrow> bool" where
  "is_allowed_ip it p addr \<longleftrightarrow> aips_find it (pe_allowed_ips p) addr \<noteq> None"

definition peer_allowed_ips :: "('u, unit) ip_table \<Rightarrow> 'u peer \<Rightarrow> (IpAddr \<times> u8) list" where
  "peer_allowed_ips it p = map (\<lambda>(_, ip, cidr). (ip, cidr)) (aips_iter it (pe_allowed_ips p))"

definition peer_time_since_last_handshake :: "'u peer \<Rightarrow> nat \<Rightarrow> nat option option" where
  "peer_time_since_last_handshake p instant = time_since_last_handshake (pe_tunnel p) instant"

definition peer_persistent_keepalive :: "'u peer \<Rightarrow> u16 option" where
  "peer_persistent_keepalive p = persistent_keepalive (pe_tunnel p)"

section \<open>Lemmas\<close>

lemma table_match:
  assumes "ip_table_ok net it"
  shows "case it_longest_match it t a of
      None \<Rightarrow> \<forall>e \<in> set (it_iter it t). \<not> in_contains net (fst e) a
    | Some m \<Rightarrow> m \<in> set (it_iter it t) \<and> in_contains net (fst m) a \<and>
        (\<forall>e \<in> set (it_iter it t). in_contains net (fst e) a \<longrightarrow> snd (fst e) \<le> snd (fst m))"
  using assms unfolding ip_table_ok_def by blast

lemma table_retain:
  "ip_table_ok net it \<Longrightarrow> set (it_iter it (it_retain it t P)) = {e \<in> set (it_iter it t). P (snd e)}"
  unfolding ip_table_ok_def by blast

lemma table_new: "ip_table_ok net it \<Longrightarrow> it_iter it (it_new it) = []"
  by (simp add: ip_table_ok_def)

lemma longest_match_iff:
  assumes "ip_table_ok net it"
  shows "aips_find it t a \<noteq> None \<longleftrightarrow> (\<exists>e \<in> set (it_iter it t). in_contains net (fst e) a)"
  using table_match [OF assms, of t a] by (auto simp: aips_find_def split: option.splits)

lemma aips_find_entry:
  assumes "ip_table_ok net it" "aips_find it t a = Some d"
  shows "\<exists>n. (n, d) \<in> set (it_iter it t) \<and> in_contains net n a"
  using table_match [OF assms(1), of t a] assms(2)
  by (cases "it_longest_match it t a") (auto simp: aips_find_def, blast)

lemma aips_insert_entries:
  "ip_table_ok net it \<Longrightarrow> aips_insert net it t k c d = Some t' \<Longrightarrow>
    \<exists>n. in_truncate net k c = Some n \<and> set (it_iter it t') = insert (n, d) {e \<in> set (it_iter it t). fst e \<noteq> n}"
  by (auto simp: aips_insert_def ip_table_ok_def split: bind_splits)

text \<open>The networks in the table after a list of insertions.\<close>

lemma aips_insert_all_networks:
  assumes "ip_table_ok net it" "aips_insert_all net it t ips = Some t'"
  shows "fst ` set (it_iter it t') = fst ` set (it_iter it t) \<union>
    {n. \<exists>(ip, d) \<in> set ips. in_truncate net (ai_addr ip) (ai_cidr ip) = Some n}"
  using assms(2)
proof (induction ips arbitrary: t)
  case Nil
  then show ?case by simp
next
  case (Cons x ips)
  obtain ip d where x: "x = (ip, d)" by fastforce
  from Cons.prems obtain t1 where t1: "aips_insert net it t (ai_addr ip) (ai_cidr ip) d = Some t1"
      "aips_insert_all net it t1 ips = Some t'"
    by (auto simp: x split: bind_splits)
  obtain n where n: "in_truncate net (ai_addr ip) (ai_cidr ip) = Some n"
      "set (it_iter it t1) = insert (n, d) {e \<in> set (it_iter it t). fst e \<noteq> n}"
    using aips_insert_entries [OF assms(1) t1(1)] by blast
  have "fst ` set (it_iter it t1) = insert n (fst ` set (it_iter it t))"
    unfolding n(2) by (auto simp: image_iff)
  then show ?case using Cons.IH [OF t1(2)] n(1) by (auto simp: x)
qed

section \<open>A concrete table\<close>

text \<open>Networks whose address must be equal, for the witnesses.\<close>

definition toy_net :: ip_net where
  "toy_net = \<lparr>in_truncate = (\<lambda>a c. Some (a, c)), in_contains = (\<lambda>n a. fst n = a)\<rparr>"

fun toy_best :: "(ip_network \<times> 'd) list \<Rightarrow> IpAddr \<Rightarrow> (ip_network \<times> 'd) option" where
  "toy_best [] a = None"
| "toy_best (e # es) a = (let r = toy_best es a in
     if fst (fst e) \<noteq> a then r
     else case r of None \<Rightarrow> Some e | Some m \<Rightarrow> if snd (fst m) \<le> snd (fst e) then Some e else Some m)"

definition toy_table :: "((ip_network \<times> 'd) list, 'd) ip_table" where
  "toy_table = \<lparr>it_new = [], it_insert = (\<lambda>t n d. (n, d) # filter (\<lambda>e. fst e \<noteq> n) t), it_longest_match = toy_best,
     it_retain = (\<lambda>t P. filter (\<lambda>e. P (snd e)) t), it_iter = id\<rparr>"

lemma toy_best_spec:
  "case toy_best t a of
     None \<Rightarrow> \<forall>e \<in> set t. fst (fst e) \<noteq> a
   | Some m \<Rightarrow> m \<in> set t \<and> fst (fst m) = a \<and> (\<forall>e \<in> set t. fst (fst e) = a \<longrightarrow> snd (fst e) \<le> snd (fst m))"
  by (induction t) (auto simp: Let_def split: option.splits)

lemma toy_table_ok: "ip_table_ok toy_net (toy_table :: ((ip_network \<times> 'd) list, 'd) ip_table)"
proof -
  have "case toy_best t a of None \<Rightarrow> \<forall>e \<in> set t. \<not> fst (fst e) = a
      | Some m \<Rightarrow> m \<in> set t \<and> fst (fst m) = a \<and> (\<forall>e \<in> set t. fst (fst e) = a \<longrightarrow> snd (fst e) \<le> snd (fst m))"
    for t :: "(ip_network \<times> 'd) list" and a
    using toy_best_spec [of t a] by simp
  then show ?thesis
    unfolding ip_table_ok_def toy_table_def toy_net_def ip_table.select_convs ip_net.select_convs id_apply
    by auto
qed

section \<open>Properties\<close>

text \<open>A peer may use exactly its allowed addresses.  A new peer with a list of
  allowed networks accepts a source address if and only if one of these networks,
  truncated to its prefix, contains it.\<close>

lemma allowed_ips_exact:
  assumes "ip_table_ok net it"
    and "peer_new net it tun lim idx ep ips psk = Some p"
  shows "is_allowed_ip it p a \<longleftrightarrow>
    (\<exists>ip \<in> set ips. \<exists>n. in_truncate net (ai_addr ip) (ai_cidr ip) = Some n \<and> in_contains net n a)"
proof -
  have "aips_from_iter net it (map (\<lambda>ip. (ip, ())) ips) = Some (pe_allowed_ips p)"
    using assms(2) by (auto simp: peer_new_def split: bind_splits)
  note n = aips_insert_all_networks [OF assms(1) this [unfolded aips_from_iter_def]]
  have "it_iter it (aips_new it) = []" using assms(1) by (simp add: ip_table_ok_def aips_new_def)
  with n have "fst ` set (it_iter it (pe_allowed_ips p)) =
      {n. \<exists>ip \<in> set ips. in_truncate net (ai_addr ip) (ai_cidr ip) = Some n}"
    by auto
  moreover have "is_allowed_ip it p a \<longleftrightarrow> (\<exists>n \<in> fst ` set (it_iter it (pe_allowed_ips p)). in_contains net n a)"
    using longest_match_iff [OF assms(1)] by (auto simp: is_allowed_ip_def)
  ultimately show ?thesis by auto
qed

end
