(* ===== verification/Index_Lfsr.thy ===== *)
theory Index_Lfsr
  imports Prelude
begin

text \<open>
  The generator of peer indexes (\<open>IndexLfsr\<close> of \<open>device/mod.rs\<close>): a 24-bit
  shift register with feedback, xored with a mask.  The step is injective on 24
  bits, so the register can only come back to its seed first, where the code
  panics; hence all indexes handed out differ.
\<close>

record index_lfsr =
  lf_initial :: u32
  lf_lfsr :: u32
  lf_mask :: u32

definition LFSR_MAX :: u32 where "LFSR_MAX = 0xffffff"
definition LFSR_POLY :: u32 where "LFSR_POLY = 0xd80000"

text \<open>Draws of the operating system's generator, until one is nonzero in its lower 24
  bits; \<open>None\<close> when the given draws run out.\<close>

fun random_index :: "u32 list \<Rightarrow> (u32 \<times> u32 list) option" where
  "random_index [] = None"
| "random_index (r # rs) = (let i = r AND LFSR_MAX in if i > 0 then Some (i, rs) else random_index rs)"

definition lfsr_step :: "u32 \<Rightarrow> u32" where
  "lfsr_step lfsr = drop_bit 1 lfsr XOR ((0 - (lfsr AND 1)) AND LFSR_POLY)"

definition lfsr_next :: "index_lfsr \<Rightarrow> (u32 \<times> index_lfsr) option" where
  "lfsr_next l =
     (let val = lf_lfsr l - 1; l = l\<lparr>lf_lfsr := lfsr_step (lf_lfsr l)\<rparr>
      in if lf_lfsr l = lf_initial l then None else Some (val XOR lf_mask l, l))"

definition lfsr_default :: "u32 list \<Rightarrow> (index_lfsr \<times> u32 list) option" where
  "lfsr_default rs = do {
     (seed, rs) \<leftarrow> random_index rs;
     (mask, rs) \<leftarrow> random_index rs;
     Some (\<lparr>lf_initial = seed, lf_lfsr = seed, lf_mask = mask\<rparr>, rs) }"

text \<open>The indexes of \<open>n\<close> calls.\<close>

fun next_indexes :: "nat \<Rightarrow> index_lfsr \<Rightarrow> (u32 list \<times> index_lfsr) option" where
  "next_indexes 0 l = Some ([], l)"
| "next_indexes (Suc n) l = do {
     (i, l) \<leftarrow> lfsr_next l;
     (is, l) \<leftarrow> next_indexes n l;
     Some (i # is, l) }"

section \<open>The step\<close>

lemma lfsr_step_cases: "lfsr_step x = drop_bit 1 x XOR (if odd x then LFSR_POLY else 0)"
proof -
  have "x AND 1 = (if odd x then 1 else 0)" by (simp add: and_one_eq mod2_eq_if)
  moreover have "(0 - 1 :: u32) AND LFSR_POLY = LFSR_POLY" by (simp add: LFSR_POLY_def)
  ultimately show ?thesis by (simp add: lfsr_step_def)
qed

lemma mod_self_iff: "0 < m \<Longrightarrow> (a :: nat) mod m = a \<longleftrightarrow> a < m"
  by (metis mod_less mod_less_divisor)

lemma xor_cancel: "(a :: 'a::len word) XOR c = b XOR c \<longleftrightarrow> a = b"
  by (metis xor.assoc xor.right_neutral xor_self_eq)

lemma high_bits_24: "(x :: u32) < 0x1000000 \<longleftrightarrow> take_bit 24 x = x"
  by (simp add: word_unat_eq_iff unsigned_take_bit_eq take_bit_eq_mod [where 'a = nat] word_less_nat_alt mod_self_iff)

lemma bit_24: "(x :: u32) < 0x1000000 \<Longrightarrow> n \<ge> 24 \<Longrightarrow> \<not> bit x n"
  by (metis bit_take_bit_iff high_bits_24 not_le)

lemma lfsr_step_bit_23: "x < 0x1000000 \<Longrightarrow> bit (lfsr_step x) 23 \<longleftrightarrow> odd x"
  using bit_24 [of x 24] by (simp add: lfsr_step_cases bit_xor_iff bit_drop_bit_eq LFSR_POLY_def)

lemma lfsr_step_inj:
  assumes "x < 0x1000000" "y < 0x1000000" "lfsr_step x = lfsr_step y"
  shows "x = y"
proof -
  have o: "odd x \<longleftrightarrow> odd y" using lfsr_step_bit_23 assms by metis
  then have "drop_bit 1 x = drop_bit 1 y"
    using assms(3) by (auto simp: lfsr_step_cases xor_cancel split: if_splits)
  then have b: "bit x (Suc n) = bit y (Suc n)" for n
    by (metis add.commute bit_drop_bit_eq plus_1_eq_Suc comp_apply)
  show ?thesis
  proof (rule bit_word_eqI)
    fix n
    show "bit x n = bit y n" using b o by (cases n) (auto simp: bit_0)
  qed
qed

lemma drop_1_24:
  assumes "x < 0x1000000"
  shows "take_bit 24 (drop_bit 1 x) = drop_bit 1 (x :: u32)"
proof (rule bit_word_eqI)
  fix n
  show "bit (take_bit 24 (drop_bit 1 x)) n = bit (drop_bit 1 x) n"
    using bit_24 [OF assms, of "1 + n"] by (cases "23 \<le> n"; simp add: bit_take_bit_iff bit_drop_bit_eq)
qed

lemma lfsr_step_24:
  assumes "x < 0x1000000"
  shows "lfsr_step x < 0x1000000"
proof -
  have "take_bit 24 LFSR_POLY = LFSR_POLY" by (simp add: LFSR_POLY_def)
  then show ?thesis unfolding high_bits_24 lfsr_step_cases
    using drop_1_24 [OF assms] by (simp add: take_bit_xor)
qed

lemma lfsr_step_nonzero: "x < 0x1000000 \<Longrightarrow> x \<noteq> 0 \<Longrightarrow> lfsr_step x \<noteq> 0"
  using lfsr_step_inj [of x 0] by (auto simp: lfsr_step_def)

lemma xor_24: "a < 0x1000000 \<Longrightarrow> b < 0x1000000 \<Longrightarrow> (a XOR b :: u32) < 0x1000000"
  unfolding high_bits_24 by (simp add: take_bit_xor)

section \<open>Runs\<close>

definition lfsr_ok :: "index_lfsr \<Rightarrow> bool" where
  "lfsr_ok l \<longleftrightarrow> lf_initial l < 0x1000000 \<and> lf_lfsr l < 0x1000000 \<and> lf_mask l < 0x1000000 \<and> lf_lfsr l \<noteq> 0"

lemma lfsr_next_ok:
  assumes "lfsr_ok l" "lfsr_next l = Some (i, l')"
  shows "lfsr_ok l' \<and> i < 0x1000000 \<and> lf_lfsr l' = lfsr_step (lf_lfsr l) \<and> lf_initial l' = lf_initial l \<and>
    lf_mask l' = lf_mask l \<and> i = (lf_lfsr l - 1) XOR lf_mask l \<and> lf_lfsr l' \<noteq> lf_initial l"
proof -
  have "1 \<le> unat (lf_lfsr l)" using assms(1) by (simp add: lfsr_ok_def unat_gt_0 Suc_le_eq)
  then have "unat (lf_lfsr l - 1) < unat (lf_lfsr l)" by (simp add: unat_sub_le word_le_nat_alt)
  then have "lf_lfsr l - 1 < lf_lfsr l" by (simp add: word_less_nat_alt)
  then have "lf_lfsr l - 1 < 0x1000000" using assms(1) by (auto simp: lfsr_ok_def)
  then show ?thesis using assms
    by (auto simp: lfsr_next_def Let_def lfsr_ok_def lfsr_step_24 lfsr_step_nonzero xor_24 split: if_splits)
qed

lemma next_indexes_range:
  assumes "lfsr_ok l" "next_indexes n l = Some (is, l')"
  shows "lfsr_ok l' \<and> (\<forall>i \<in> set is. i < 0x1000000) \<and> length is = n"
  using assms
proof (induction n arbitrary: l "is")
  case 0
  then show ?case by simp
next
  case (Suc n)
  from Suc.prems(2) obtain i l1 is1 where s: "lfsr_next l = Some (i, l1)" "next_indexes n l1 = Some (is1, l')"
      "is = i # is1"
    by (auto split: bind_splits)
  then show ?case using Suc.IH [OF _ s(2)] lfsr_next_ok [OF Suc.prems(1) s(1)] by auto
qed

text \<open>The states behind the indexes: the \<open>k\<close>-th is the \<open>k\<close>-fold step, and none is the
  seed again.\<close>

lemma next_indexes_nth:
  assumes "lfsr_ok l" "next_indexes n l = Some (is, l')" "k < n"
  shows "is ! k = ((lfsr_step ^^ k) (lf_lfsr l) - 1) XOR lf_mask l \<and>
    (lfsr_step ^^ Suc k) (lf_lfsr l) \<noteq> lf_initial l"
  using assms
proof (induction n arbitrary: l "is" k)
  case 0
  then show ?case by simp
next
  case (Suc n)
  from Suc.prems(2) obtain i l1 is1 where s: "lfsr_next l = Some (i, l1)" "next_indexes n l1 = Some (is1, l')"
      "is = i # is1"
    by (auto split: bind_splits)
  note f = lfsr_next_ok [OF Suc.prems(1) s(1)]
  show ?case
  proof (cases k)
    case 0
    then show ?thesis using f s(3) by simp metis
  next
    case (Suc j)
    then have "j < n" using Suc.prems(3) by simp
    from Suc.IH [OF _ s(2) this] f show ?thesis
      by (simp add: s(3) Suc funpow_swap1 del: funpow.simps) (simp add: funpow_swap1)
  qed
qed

lemma lfsr_pow_24: "x < 0x1000000 \<Longrightarrow> (lfsr_step ^^ k) x < 0x1000000"
  by (induction k) (simp_all add: lfsr_step_24)

lemma lfsr_pow_back:
  assumes "x < 0x1000000" "(lfsr_step ^^ i) x = (lfsr_step ^^ (i + d)) x"
  shows "x = (lfsr_step ^^ d) x"
  using assms(2)
proof (induction i)
  case 0
  then show ?case by simp
next
  case (Suc i)
  then have "lfsr_step ((lfsr_step ^^ i) x) = lfsr_step ((lfsr_step ^^ (i + d)) x)" by simp
  then have "(lfsr_step ^^ i) x = (lfsr_step ^^ (i + d)) x"
    by (rule lfsr_step_inj [OF lfsr_pow_24 [OF assms(1)] lfsr_pow_24 [OF assms(1)]])
  then show ?case by (rule Suc.IH)
qed

lemma mask_24: "take_bit 24 (r AND LFSR_MAX) = r AND LFSR_MAX"
proof (rule bit_word_eqI)
  fix n
  have "bit LFSR_MAX n \<Longrightarrow> n < 24" for n
    using bit_24 [of LFSR_MAX n] by (cases "24 \<le> n"; simp add: LFSR_MAX_def)
  then show "bit (take_bit 24 (r AND LFSR_MAX)) n = bit (r AND LFSR_MAX) n"
    by (auto simp: bit_take_bit_iff bit_and_iff)
qed

lemma random_index_24: "random_index rs = Some (i, rs') \<Longrightarrow> i < 0x1000000 \<and> i \<noteq> 0"
proof (induction rs)
  case (Cons r rs)
  have "r AND LFSR_MAX < 0x1000000" by (simp only: high_bits_24 mask_24)
  then show ?case using Cons by (auto simp: Let_def split: if_splits)
qed simp

lemma lfsr_default_ok: "lfsr_default rs = Some (l, rs') \<Longrightarrow> lfsr_ok l \<and> lf_initial l = lf_lfsr l"
  by (auto simp: lfsr_default_def lfsr_ok_def split: bind_splits dest!: random_index_24)

lemma next_indexes_distinct:
  assumes "lfsr_ok l" "lf_initial l = lf_lfsr l" "next_indexes n l = Some (is, l')"
  shows "distinct is"
proof (rule ccontr)
  let ?x = "lf_lfsr l"
  have len: "length is = n" using next_indexes_range [OF assms(1,3)] by simp
  assume "\<not> distinct is"
  then obtain i j where ij: "i < j" "j < n" "is ! i = is ! j"
    using len by (metis distinct_conv_nth linorder_neqE_nat)
  have "((lfsr_step ^^ i) ?x - 1) XOR lf_mask l = ((lfsr_step ^^ j) ?x - 1) XOR lf_mask l"
    using next_indexes_nth [OF assms(1,3), of i] next_indexes_nth [OF assms(1,3), of j] ij by simp
  then have "(lfsr_step ^^ i) ?x - 1 = (lfsr_step ^^ j) ?x - 1" by (simp only: xor_cancel)
  then have "(lfsr_step ^^ i) ?x = (lfsr_step ^^ (i + (j - i))) ?x" using ij(1) by simp
  then have "?x = (lfsr_step ^^ (j - i)) ?x" using assms(1) by (intro lfsr_pow_back) (auto simp: lfsr_ok_def)
  moreover have "(lfsr_step ^^ Suc (j - i - 1)) ?x \<noteq> lf_initial l"
    using next_indexes_nth [OF assms(1,3), of "j - i - 1"] ij by simp
  ultimately show False using assms(2) ij(1) by (metis Suc_diff_1 zero_less_diff)
qed

lemma next_indexes_snoc:
  assumes "next_indexes n l = Some (is, l1)" "lfsr_next l1 = Some (i, l2)"
  shows "next_indexes (Suc n) l = Some (is @ [i], l2)"
  using assms(1)
proof (induction n arbitrary: l "is")
  case 0
  then show ?case using assms(2) by simp
next
  case (Suc n)
  from Suc.prems obtain j l3 js where s: "lfsr_next l = Some (j, l3)" "next_indexes n l3 = Some (js, l1)" "is = j # js"
    by (auto split: bind_splits)
  show ?case using s(1,3) Suc.IH [OF s(2)]
    by (subst next_indexes.simps) (simp del: next_indexes.simps)
qed

text \<open>A history of the generator: the indexes it gave out.\<close>

definition lfsr_history :: "index_lfsr \<Rightarrow> u32 set \<Rightarrow> bool" where
  "lfsr_history l I \<longleftrightarrow> (\<exists>l0 n is. lfsr_ok l0 \<and> lf_initial l0 = lf_lfsr l0 \<and> next_indexes n l0 = Some (is, l) \<and> set is = I)"

lemma lfsr_history_new: "lfsr_default draws = Some (l, draws') \<Longrightarrow> lfsr_history l {}"
  using lfsr_default_ok unfolding lfsr_history_def by (intro exI [of _ l] exI [of _ 0] exI [of _ "[]"]) auto

lemma lfsr_history_next:
  assumes "lfsr_history l I" "lfsr_next l = Some (i, l')"
  shows "i \<notin> I \<and> i < 0x1000000 \<and> lfsr_history l' (insert i I)"
proof -
  from assms(1) obtain l0 n "is" where h: "lfsr_ok l0" "lf_initial l0 = lf_lfsr l0" "next_indexes n l0 = Some (is, l)"
      "set is = I"
    unfolding lfsr_history_def by blast
  have n: "next_indexes (Suc n) l0 = Some (is @ [i], l')" by (rule next_indexes_snoc [OF h(3) assms(2)])
  have "distinct (is @ [i])" by (rule next_indexes_distinct [OF h(1,2) n])
  moreover have "i < 0x1000000" using next_indexes_range [OF h(1) n] by simp
  moreover have "lfsr_history l' (insert i I)"
    unfolding lfsr_history_def using h n by (intro exI [of _ l0] exI [of _ "Suc n"] exI [of _ "is @ [i]"]) auto
  ultimately show ?thesis using h(4) by simp
qed

section \<open>Properties\<close>

text \<open>Peer indexes are never handed out twice.  Whatever the random seed and
  mask, as long as the calls return (the generator panics instead of repeating), all
  indexes are different 24-bit numbers.\<close>

lemma peer_indexes_distinct:
  assumes "lfsr_default draws = Some (l, draws')" "next_indexes n l = Some (indexes, l')"
  shows "distinct indexes \<and> length indexes = n \<and> (\<forall>i \<in> set indexes. i < 0x1000000)"
  using next_indexes_distinct next_indexes_range lfsr_default_ok assms by blast

end
