(* ===== verification/Eip3009.thy ===== *)
theory Eip3009
  imports Prelude
begin

text \<open>
  Payment wallets and EIP-3009 authorizations (\<open>payment/wallet.rs\<close>,
  \<open>payment/eip3009.rs\<close>).  Keccak, HKDF and secp256k1 come from third-party crates
  and are the parameter \<open>eth\<close>; \<open>eth_ok\<close> states what they document.  Strings are
  their ASCII bytes.
\<close>

definition ascii :: "string \<Rightarrow> bytes" where "ascii s = map of_char s"

section \<open>The parameter\<close>

text \<open>A scalar may be invalid (\<open>et_scalar_ok\<close>); a public key is the 64 bytes
  \<open>x || y\<close>; a signature is \<open>r || s\<close> with a recovery id.\<close>

record eth =
  et_keccak :: "bytes \<Rightarrow> bytes"
  et_hkdf :: "bytes \<Rightarrow> bytes \<Rightarrow> bytes \<Rightarrow> bytes"
  et_scalar_ok :: "bytes \<Rightarrow> bool"
  et_pub :: "bytes \<Rightarrow> bytes"
  et_sign :: "bytes \<Rightarrow> bytes \<Rightarrow> bytes \<times> u8"
  et_sig_ok :: "bytes \<Rightarrow> bool"
  et_recover :: "bytes \<Rightarrow> bytes \<Rightarrow> u8 \<Rightarrow> bytes option"

definition eth_ok :: "eth \<Rightarrow> bool" where
  "eth_ok et \<longleftrightarrow> (\<forall>d. length (et_keccak et d) = 32) \<and>
     (\<forall>k d. et_scalar_ok et k \<longrightarrow>
        length (fst (et_sign et k d)) = 64 \<and> snd (et_sign et k d) < 4 \<and> et_sig_ok et (fst (et_sign et k d)) \<and>
        et_recover et d (fst (et_sign et k d)) (snd (et_sign et k d)) = Some (et_pub et k))"

section \<open>Wallets\<close>

definition HKDF_SALT :: bytes where "HKDF_SALT = ascii ''boringtun-payment-v1''"
definition HKDF_INFO :: bytes where "HKDF_INFO = ascii ''secp256k1-signing-key''"

record payment_wallet =
  pw_signing_key :: bytes
  pw_ethereum_address :: bytes

definition compute_address :: "eth \<Rightarrow> bytes \<Rightarrow> bytes" where
  "compute_address et signing_key = drop 12 (et_keccak et (et_pub et signing_key))"

definition from_wireguard_key :: "eth \<Rightarrow> bytes \<Rightarrow> payment_wallet option" where
  "from_wireguard_key et x25519_private_bytes =
     (let derived = et_hkdf et HKDF_SALT x25519_private_bytes HKDF_INFO in
      if \<not> et_scalar_ok et derived then None
      else Some \<lparr>pw_signing_key = derived, pw_ethereum_address = compute_address et derived\<rparr>)"

definition sign_digest :: "eth \<Rightarrow> payment_wallet \<Rightarrow> bytes \<Rightarrow> u8 \<times> bytes \<times> bytes" where
  "sign_digest et w digest =
     (let (sig_bytes, recovery_id) = et_sign et (pw_signing_key w) digest
      in (recovery_id + 27, take 32 sig_bytes, drop 32 sig_bytes))"

definition recover_address :: "eth \<Rightarrow> bytes \<Rightarrow> u8 \<Rightarrow> bytes \<Rightarrow> bytes \<Rightarrow> bytes option" where
  "recover_address et digest v r s =
     (if v < 27 then None
      else let recovery_id = v - 27; sig_bytes = r @ s in
        if \<not> recovery_id < 4 then None
        else if \<not> et_sig_ok et sig_bytes then None
        else map_option (\<lambda>pubkey_bytes. drop 12 (et_keccak et pubkey_bytes)) (et_recover et digest sig_bytes recovery_id))"

section \<open>Authorizations\<close>

record eip712_domain =
  ed_name :: bytes
  ed_version :: bytes
  ed_chain_id :: u64
  ed_verifying_contract :: bytes

record transfer_authorization =
  ta_from :: bytes
  ta_to :: bytes
  ta_value :: u64
  ta_valid_after :: u64
  ta_valid_before :: u64
  ta_nonce :: bytes

record signed_authorization =
  sa_auth :: transfer_authorization
  sa_v :: u8
  sa_r :: bytes
  sa_s :: bytes

definition abi_encode_address :: "bytes \<Rightarrow> bytes" where
  "abi_encode_address addr = replicate 12 0 @ addr"

definition abi_encode_u256 :: "u128 \<Rightarrow> bytes" where
  "abi_encode_u256 value = replicate 16 0 @ to_be_bytes value"

definition eip712_domain_type_hash :: "eth \<Rightarrow> bytes" where
  "eip712_domain_type_hash et = et_keccak et
     (ascii ''EIP712Domain(string name,string version,uint256 chainId,address verifyingContract)'')"

definition transfer_authorization_type_hash :: "eth \<Rightarrow> bytes" where
  "transfer_authorization_type_hash et = et_keccak et
     (ascii ''TransferWithAuthorization(address from,address to,uint256 value,uint256 validAfter,uint256 validBefore,bytes32 nonce)'')"

definition domain_data :: "eth \<Rightarrow> eip712_domain \<Rightarrow> bytes" where
  "domain_data et d = eip712_domain_type_hash et @ et_keccak et (ed_name d) @ et_keccak et (ed_version d) @
     abi_encode_u256 (ucast (ed_chain_id d)) @ abi_encode_address (ed_verifying_contract d)"

definition compute_domain_separator :: "eth \<Rightarrow> eip712_domain \<Rightarrow> bytes" where
  "compute_domain_separator et d = et_keccak et (domain_data et d)"

definition struct_data :: "eth \<Rightarrow> transfer_authorization \<Rightarrow> bytes" where
  "struct_data et a = transfer_authorization_type_hash et @ abi_encode_address (ta_from a) @
     abi_encode_address (ta_to a) @ abi_encode_u256 (ucast (ta_value a)) @
     abi_encode_u256 (ucast (ta_valid_after a)) @ abi_encode_u256 (ucast (ta_valid_before a)) @ ta_nonce a"

definition compute_struct_hash :: "eth \<Rightarrow> transfer_authorization \<Rightarrow> bytes" where
  "compute_struct_hash et a = et_keccak et (struct_data et a)"

definition compute_eip712_digest :: "eth \<Rightarrow> eip712_domain \<Rightarrow> transfer_authorization \<Rightarrow> bytes" where
  "compute_eip712_digest et d a =
     et_keccak et ([0x19, 0x01] @ compute_domain_separator et d @ compute_struct_hash et a)"

definition sign_authorization ::
  "eth \<Rightarrow> payment_wallet \<Rightarrow> eip712_domain \<Rightarrow> transfer_authorization \<Rightarrow> signed_authorization" where
  "sign_authorization et wallet d auth =
     (let (v, r, s) = sign_digest et wallet (compute_eip712_digest et d auth)
      in \<lparr>sa_auth = auth, sa_v = v, sa_r = r, sa_s = s\<rparr>)"

definition verify_authorization :: "eth \<Rightarrow> eip712_domain \<Rightarrow> signed_authorization \<Rightarrow> bytes option" where
  "verify_authorization et d sgd =
     recover_address et (compute_eip712_digest et d (sa_auth sgd)) (sa_v sgd) (sa_r sgd) (sa_s sgd)"

section \<open>Lemmas\<close>

lemma u8_small_add: "(k :: u8) < 4 \<Longrightarrow> \<not> k + 27 < 27 \<and> k + 27 - 27 = k"
proof -
  assume "k < 4"
  then have "unat k < 4" by (simp add: word_less_nat_alt)
  then have "unat (k + 27) = unat k + 27" by (subst unat_add_nowrap) simp_all
  then show ?thesis by (simp add: word_less_nat_alt)
qed

lemma recover_signed:
  assumes "eth_ok et" "from_wireguard_key et key = Some w"
    and "sign_digest et w digest = (v, r, s)"
  shows "recover_address et digest v r s = Some (pw_ethereum_address w)"
proof -
  let ?k = "et_hkdf et HKDF_SALT key HKDF_INFO"
  have k: "et_scalar_ok et ?k" "pw_signing_key w = ?k" "pw_ethereum_address w = compute_address et ?k"
    using assms(2) by (auto simp: from_wireguard_key_def Let_def split: if_splits)
  obtain b i where b: "et_sign et ?k digest = (b, i)" by fastforce
  have i: "i < 4" "length b = 64" "et_sig_ok et b" "et_recover et digest b i = Some (et_pub et ?k)"
    using assms(1) k(1) b unfolding eth_ok_def by (metis fst_conv snd_conv)+
  have "v = i + 27" "r @ s = b" using assms(3) b by (auto simp: sign_digest_def k(2))
  then show ?thesis using i u8_small_add [OF i(1)]
    by (simp add: recover_address_def Let_def k(3) compute_address_def)
qed

lemma from_wireguard_key_address:
  "eth_ok et \<Longrightarrow> from_wireguard_key et key = Some w \<Longrightarrow> length (pw_ethereum_address w) = 20"
  by (auto simp: from_wireguard_key_def compute_address_def eth_ok_def Let_def split: if_splits)

lemma ucast_u64_u128: "(ucast (a :: u64) :: u128) = ucast b \<longleftrightarrow> a = b"
proof -
  have "(ucast (ucast x :: u128) :: u64) = x" for x
    by (rule bit_word_eqI) (simp add: bit_ucast_iff)
  then show ?thesis by metis
qed

lemma abi_u256_inj: "abi_encode_u256 a = abi_encode_u256 b \<longleftrightarrow> a = b"
proof
  assume "abi_encode_u256 a = abi_encode_u256 b"
  then have "to_be_bytes a = to_be_bytes b" by (simp add: abi_encode_u256_def)
  then have "from_be_bytes (to_be_bytes a) = (from_be_bytes (to_be_bytes b) :: u128)" by simp
  then show "a = b" by simp
qed simp

lemma length_abi [simp]: "length (abi_encode_u256 a) = 32" "length (abi_encode_address x) = 12 + length x"
  by (simp_all add: abi_encode_u256_def abi_encode_address_def)

definition auth_shape :: "transfer_authorization \<Rightarrow> bool" where
  "auth_shape a \<longleftrightarrow> length (ta_from a) = 20 \<and> length (ta_to a) = 20 \<and> length (ta_nonce a) = 32"

section \<open>A concrete instance\<close>

definition toy_eth :: eth where
  "toy_eth = \<lparr>et_keccak = (\<lambda>d. take 32 (d @ replicate 32 0)), et_hkdf = (\<lambda>salt k info. k),
     et_scalar_ok = (\<lambda>k. length k = 32), et_pub = (\<lambda>k. k), et_sign = (\<lambda>k d. (k @ replicate 32 1, 0)),
     et_sig_ok = (\<lambda>b. length b = 64), et_recover = (\<lambda>d b i. Some (take 32 b))\<rparr>"

lemma toy_eth_ok: "eth_ok toy_eth"
  by (auto simp: eth_ok_def toy_eth_def min_def)

section \<open>Properties\<close>

text \<open>An authorization a wallet signs verifies to the wallet's own address, in
  the same domain.\<close>

lemma signed_authorization_verifies:
  assumes "eth_ok et" "from_wireguard_key et key = Some w"
  shows "verify_authorization et d (sign_authorization et w d auth) = Some (pw_ethereum_address w)"
proof -
  obtain v r s where s: "sign_digest et w (compute_eip712_digest et d auth) = (v, r, s)"
    by (metis prod_cases3)
  from recover_signed [OF assms s] s show ?thesis
    by (simp add: verify_authorization_def sign_authorization_def)
qed

text \<open>What is signed fixes the authorization: two authorizations with the same
  bytes under the hash agree in every field, so no field can be changed without
  changing the hashed bytes.\<close>

lemma authorization_encoding_injective:
  assumes "auth_shape a" "auth_shape b" "struct_data et a = struct_data et b"
  shows "a = b"
proof -
  have "abi_encode_address (ta_from a) = abi_encode_address (ta_from b)"
    "abi_encode_address (ta_to a) = abi_encode_address (ta_to b)"
    "ta_value a = ta_value b" "ta_valid_after a = ta_valid_after b" "ta_valid_before a = ta_valid_before b"
    "ta_nonce a = ta_nonce b"
    using assms by (auto simp: struct_data_def auth_shape_def abi_u256_inj ucast_u64_u128)
  then show ?thesis by (simp add: abi_encode_address_def)
qed

end
