(* ===== verification/Payment_Protocol.thy ===== *)
theory Payment_Protocol
  imports Prelude
begin

text \<open>
  The payment signalling protocol (\<open>payment/protocol.rs\<close>): three messages with a
  type byte and a 16-bit length, carried in IPv4/UDP packets inside the tunnel.
  The locale \<open>tlv_codec\<close> is the contract of an encoder and its decoder, with one
  interpretation per message; the header checksum is proved to verify.
\<close>

type_synonym ipv4 = bytes

definition PAYMENT_GATEWAY_IP :: ipv4 where "PAYMENT_GATEWAY_IP = [169, 254, 254, 1]"
definition PAYMENT_PORT :: u16 where "PAYMENT_PORT = 7078"
definition MSG_PAYMENT_REQUIRED :: u8 where "MSG_PAYMENT_REQUIRED = 0x01"
definition MSG_PAYMENT_ACCEPTED :: u8 where "MSG_PAYMENT_ACCEPTED = 0x02"
definition MSG_QUOTA_STATUS :: u8 where "MSG_QUOTA_STATUS = 0x03"
definition MSG_PAYMENT_SUBMIT :: u8 where "MSG_PAYMENT_SUBMIT = 0x81"
definition MSG_QUOTA_QUERY :: u8 where "MSG_QUOTA_QUERY = 0x82"

lemmas msg_types = MSG_PAYMENT_REQUIRED_def MSG_PAYMENT_ACCEPTED_def MSG_PAYMENT_SUBMIT_def

record payment_required =
  pr_amount_usdc :: u64
  pr_nonce :: bytes
  pr_recipient :: bytes
  pr_deadline :: u64
  pr_chain_id :: u64
  pr_usdc_contract :: bytes

record payment_submit =
  ps_from :: bytes
  ps_to :: bytes
  ps_value :: u64
  ps_valid_after :: u64
  ps_valid_before :: u64
  ps_nonce :: bytes
  ps_v :: u8
  ps_r :: bytes
  ps_s :: bytes

record payment_accepted =
  pa_new_quota_bytes :: u64

section \<open>Serialization\<close>

definition payment_required_encode :: "payment_required \<Rightarrow> bytes" where
  "payment_required_encode m =
     [MSG_PAYMENT_REQUIRED] @ to_be_bytes (96 :: u16) @ to_be_bytes (pr_amount_usdc m) @ pr_nonce m @
     pr_recipient m @ to_be_bytes (pr_deadline m) @ to_be_bytes (pr_chain_id m) @ pr_usdc_contract m"

definition payment_required_decode :: "bytes \<Rightarrow> payment_required option" where
  "payment_required_decode data =
     (if length data < 3 \<or> data ! 0 \<noteq> MSG_PAYMENT_REQUIRED then None
      else let len = unat (from_be_bytes [data ! 1, data ! 2] :: u16) in
        if length data < 3 + len \<or> len < 96 then None
        else let p = drop 3 data in
          Some \<lparr>pr_amount_usdc = from_be_bytes (slice 0 8 p), pr_nonce = slice 8 40 p,
            pr_recipient = slice 40 60 p, pr_deadline = from_be_bytes (slice 60 68 p),
            pr_chain_id = from_be_bytes (slice 68 76 p), pr_usdc_contract = slice 76 96 p\<rparr>)"

definition payment_submit_encode :: "payment_submit \<Rightarrow> bytes" where
  "payment_submit_encode m =
     [MSG_PAYMENT_SUBMIT] @ to_be_bytes (161 :: u16) @ ps_from m @ ps_to m @ to_be_bytes (ps_value m) @
     to_be_bytes (ps_valid_after m) @ to_be_bytes (ps_valid_before m) @ ps_nonce m @ [ps_v m] @ ps_r m @ ps_s m"

definition payment_submit_decode :: "bytes \<Rightarrow> payment_submit option" where
  "payment_submit_decode data =
     (if length data < 3 \<or> data ! 0 \<noteq> MSG_PAYMENT_SUBMIT then None
      else let len = unat (from_be_bytes [data ! 1, data ! 2] :: u16) in
        if length data < 3 + len \<or> len < 161 then None
        else let p = drop 3 data in
          Some \<lparr>ps_from = slice 0 20 p, ps_to = slice 20 40 p, ps_value = from_be_bytes (slice 40 48 p),
            ps_valid_after = from_be_bytes (slice 48 56 p), ps_valid_before = from_be_bytes (slice 56 64 p),
            ps_nonce = slice 64 96 p, ps_v = p ! 96, ps_r = slice 97 129 p, ps_s = slice 129 161 p\<rparr>)"

definition payment_accepted_encode :: "payment_accepted \<Rightarrow> bytes" where
  "payment_accepted_encode m =
     [MSG_PAYMENT_ACCEPTED] @ to_be_bytes (8 :: u16) @ to_be_bytes (pa_new_quota_bytes m)"

definition payment_accepted_decode :: "bytes \<Rightarrow> payment_accepted option" where
  "payment_accepted_decode data =
     (if length data < 3 \<or> data ! 0 \<noteq> MSG_PAYMENT_ACCEPTED then None
      else let len = unat (from_be_bytes [data ! 1, data ! 2] :: u16) in
        if length data < 3 + len \<or> len < 8 then None
        else Some \<lparr>pa_new_quota_bytes = from_be_bytes (slice 3 11 data)\<rparr>)"

section \<open>IP and UDP\<close>

text \<open>The words of the header, the last one padded, added into a \<open>u32\<close>.\<close>

fun sum_words :: "u32 \<Rightarrow> bytes \<Rightarrow> u32" where
  "sum_words acc (a # b # rest) = sum_words (acc + ucast (from_be_bytes [a, b] :: u16)) rest"
| "sum_words acc [a] = acc + ucast (from_be_bytes [a, 0] :: u16)"
| "sum_words acc [] = acc"

lemma fold_step_less:
  assumes "drop_bit 16 (acc :: u32) \<noteq> 0"
  shows "unat ((acc AND 0xFFFF) + drop_bit 16 acc) = unat acc mod 65536 + unat acc div 65536"
    and "unat acc mod 65536 + unat acc div 65536 < unat acc"
proof -
  have lo: "unat (acc AND 0xFFFF) = unat acc mod 65536"
  proof -
    have "(0xFFFF :: u32) = mask 16" by (simp add: mask_eq_exp_minus_1)
    then have "acc AND 0xFFFF = take_bit 16 acc" by (simp only: take_bit_eq_mask)
    then have "unat (acc AND 0xFFFF) = take_bit 16 (unat acc)" by (simp only: unsigned_take_bit_eq)
    then show ?thesis by (simp only: take_bit_eq_mod) simp
  qed
  have hi: "unat (drop_bit 16 acc) = unat acc div 65536"
    by (simp only: unat_drop_bit_eq) (simp add: drop_bit_eq_div)
  have "unat acc < 4294967296" using unsigned_less [of acc] by simp
  then have "unat acc div 65536 < 65536" by simp
  moreover have "unat acc mod 65536 < 65536" by simp
  ultimately show "unat ((acc AND 0xFFFF) + drop_bit 16 acc) = unat acc mod 65536 + unat acc div 65536"
    by (subst unat_add_nowrap) (simp_all add: lo hi)
  have "unat acc div 65536 \<noteq> 0" using assms hi by (metis unat_eq_0)
  moreover have "unat acc = 65536 * (unat acc div 65536) + unat acc mod 65536" by simp
  ultimately show "unat acc mod 65536 + unat acc div 65536 < unat acc" by linarith
qed

function fold_carry :: "u32 \<Rightarrow> u32" where
  "fold_carry acc = (if drop_bit 16 acc \<noteq> 0 then fold_carry ((acc AND 0xFFFF) + drop_bit 16 acc) else acc)"
  by pat_completeness auto
termination
proof (relation "measure unat", goal_cases)
  case (2 acc)
  then show ?case using fold_step_less [OF 2] by simp
qed simp

declare fold_carry.simps [simp del]

definition ip_checksum :: "bytes \<Rightarrow> u16" where
  "ip_checksum header = NOT (ucast (fold_carry (sum_words 0 header)))"


definition build_signal_packet :: "ipv4 \<Rightarrow> ipv4 \<Rightarrow> bytes \<Rightarrow> bytes option" where
  "build_signal_packet src_ip dst_ip payload =
     (let udp_len = 8 + length payload; total_len = 20 + udp_len in
      if total_len > 65535 then None
      else let head = [0x45, 0] @ to_be_bytes (of_nat total_len :: u16) @ [0, 0, 0x40, 0, 64, 17];
               cksum = ip_checksum (head @ [0, 0] @ src_ip @ dst_ip)
        in Some (head @ to_be_bytes cksum @ src_ip @ dst_ip @
             to_be_bytes PAYMENT_PORT @ to_be_bytes PAYMENT_PORT @ to_be_bytes (of_nat udp_len :: u16) @ [0, 0] @
             payload))"

definition is_payment_signal :: "bytes \<Rightarrow> bool" where
  "is_payment_signal packet =
     (if length packet < 20 \<or> drop_bit 4 (packet ! 0) \<noteq> 4 then False
      else slice 12 16 packet = PAYMENT_GATEWAY_IP \<or> slice 16 20 packet = PAYMENT_GATEWAY_IP)"

definition extract_signal_payload :: "bytes \<Rightarrow> bytes option" where
  "extract_signal_payload packet =
     (if length packet < 20 then None
      else let ihl = unat (packet ! 0 AND 0x0f) * 4; protocol = packet ! 9 in
        if protocol \<noteq> 17 then None
        else if length packet < ihl + 8 then None
        else let udp_len = unat (from_be_bytes [packet ! (ihl + 4), packet ! (ihl + 5)] :: u16) in
          if udp_len < 8 \<or> length packet < ihl + udp_len then None
          else Some (slice (ihl + 8) (ihl + udp_len) packet))"

definition src_ipv4 :: "bytes \<Rightarrow> ipv4 option" where
  "src_ipv4 packet = (if length packet < 20 then None else Some (slice 12 16 packet))"

definition dst_ipv4 :: "bytes \<Rightarrow> ipv4 option" where
  "dst_ipv4 packet = (if length packet < 20 then None else Some (slice 16 20 packet))"

section \<open>Codecs\<close>

text \<open>\<open>ok m\<close> is that the fields have their array lengths.\<close>

definition required_ok :: "payment_required \<Rightarrow> bool" where
  "required_ok m \<longleftrightarrow> length (pr_nonce m) = 32 \<and> length (pr_recipient m) = 20 \<and> length (pr_usdc_contract m) = 20"

definition submit_ok :: "payment_submit \<Rightarrow> bool" where
  "submit_ok m \<longleftrightarrow> length (ps_from m) = 20 \<and> length (ps_to m) = 20 \<and> length (ps_nonce m) = 32 \<and>
     length (ps_r m) = 32 \<and> length (ps_s m) = 32"

locale tlv_codec =
  fixes enc :: "'m \<Rightarrow> bytes" and dec :: "bytes \<Rightarrow> 'm option" and ok :: "'m \<Rightarrow> bool" and tag :: u8 and size :: nat
  assumes dec_enc: "ok m \<Longrightarrow> dec (enc m @ rest) = Some m"
    and enc_length: "ok m \<Longrightarrow> length (enc m) = size"
    and enc_tag: "ok m \<Longrightarrow> hd (enc m) = tag"
    and dec_tag: "dec data = Some m \<Longrightarrow> hd data = tag \<and> size \<le> length data"
begin

lemma roundtrip: "ok m \<Longrightarrow> dec (enc m) = Some m"
  using dec_enc [of m "[]"] by simp

text \<open>No encoding is a prefix of another, and encodings of different messages differ.\<close>

lemma prefix_free:
  assumes "ok m" "ok m'" "enc m @ xs = enc m' @ ys"
  shows "m = m' \<and> xs = ys"
proof -
  have "dec (enc m @ xs) = Some m" "dec (enc m @ xs) = Some m'"
    using dec_enc [OF assms(1), of xs] dec_enc [OF assms(2), of ys] assms(3) by simp_all
  then have "m = m'" by simp
  then show ?thesis using assms(3) by simp
qed

lemma foreign_tag: "hd data \<noteq> tag \<Longrightarrow> dec data = None"
  using dec_tag by (cases "dec data") auto

end

lemma be16_nth: "length (to_be_bytes (w :: u16)) = 2" by simp

lemma from_be_16 [simp]: "from_be_bytes [to_be_bytes w ! 0, to_be_bytes w ! Suc 0] = (w :: u16)"
proof -
  have "to_be_bytes w = [to_be_bytes w ! 0, to_be_bytes w ! Suc 0]"
    by (rule nth_equalityI) (auto simp: nth_Cons split: nat.split)
  then show ?thesis using from_to_be_bytes [where 'a = 16, of w] by simp
qed

lemma nth_be_append [simp]:
  "(to_be_bytes (w :: u16) @ xs) ! 0 = to_be_bytes w ! 0"
  "(to_be_bytes (w :: u16) @ xs) ! Suc 0 = to_be_bytes w ! Suc 0"
  by (simp_all add: nth_append)

interpretation required: tlv_codec payment_required_encode payment_required_decode required_ok MSG_PAYMENT_REQUIRED 99
proof (unfold_locales, goal_cases)
  case (1 m rest)
  then show ?case
    by (simp add: payment_required_encode_def payment_required_decode_def required_ok_def Let_def slice_simps)
next
  case (4 data m)
  then show ?case by (cases data) (auto simp: payment_required_decode_def Let_def split: if_splits)
qed (simp_all add: payment_required_encode_def required_ok_def)

interpretation submit: tlv_codec payment_submit_encode payment_submit_decode submit_ok MSG_PAYMENT_SUBMIT 164
proof (unfold_locales, goal_cases)
  case (1 m rest)
  then show ?case
    by (simp add: payment_submit_encode_def payment_submit_decode_def submit_ok_def Let_def slice_simps nth_append)
next
  case (4 data m)
  then show ?case by (cases data) (auto simp: payment_submit_decode_def Let_def split: if_splits)
qed (simp_all add: payment_submit_encode_def submit_ok_def)

interpretation accepted: tlv_codec payment_accepted_encode payment_accepted_decode "\<lambda>_. True" MSG_PAYMENT_ACCEPTED 11
proof (unfold_locales, goal_cases)
  case (1 m rest)
  then show ?case
    by (simp add: payment_accepted_encode_def payment_accepted_decode_def Let_def slice_simps)
next
  case (4 data m)
  then show ?case by (cases data) (auto simp: payment_accepted_decode_def Let_def split: if_splits)
qed (simp_all add: payment_accepted_encode_def)

section \<open>The header checksum\<close>

text \<open>The sum of the words as a natural number.\<close>

fun word_sum :: "bytes \<Rightarrow> nat" where
  "word_sum (a # b # rest) = unat (from_be_bytes [a, b] :: u16) + word_sum rest"
| "word_sum [a] = unat (from_be_bytes [a, 0] :: u16)"
| "word_sum [] = 0"

lemma unat_ucast_u16: "unat (ucast (w :: u16) :: u32) = unat w"
  by (simp add: unsigned_ucast_eq take_bit_nat_eq_self_iff) (use unat_u16_less [of w] in simp)

lemma sum_words_unat:
  "unat acc + 65536 * length h < 4294967296 \<Longrightarrow> unat (sum_words acc h) = unat acc + word_sum h"
proof (induction acc h rule: sum_words.induct)
  case (1 acc a b rest)
  let ?w = "from_be_bytes [a, b] :: u16"
  have w: "unat ?w < 65536" by (rule unat_u16_less)
  have "unat (acc + ucast ?w) = unat acc + unat ?w"
    using 1(2) w by (subst unat_add_nowrap) (simp_all add: unat_ucast_u16)
  then show ?case using 1 w by simp
next
  case (2 acc a)
  have "unat (from_be_bytes [a, 0] :: u16) < 65536" by (rule unat_u16_less)
  then show ?case using 2 by (simp add: unat_add_nowrap unat_ucast_u16)
qed simp

lemma fold_carry_unat:
  "unat (fold_carry acc) \<le> 65535 \<and> unat (fold_carry acc) mod 65535 = unat acc mod 65535 \<and>
    (0 < unat acc \<longrightarrow> 0 < unat (fold_carry acc))"
proof (induction acc rule: fold_carry.induct)
  case (1 acc)
  show ?case
  proof (cases "drop_bit 16 acc = 0")
    case True
    have "unat (drop_bit 16 acc) = unat acc div 65536"
      by (simp only: unat_drop_bit_eq) (simp add: drop_bit_eq_div)
    then have "unat acc < 65536" using True by simp
    then show ?thesis using True by (simp add: fold_carry.simps [of acc])
  next
    case False
    let ?n = "(acc AND 0xFFFF) + drop_bit 16 acc"
    have n: "unat ?n = unat acc mod 65536 + unat acc div 65536" by (rule fold_step_less [OF False])
    have "unat acc = unat ?n + 65535 * (unat acc div 65536)"
      using n div_mult_mod_eq [of "unat acc" 65536] by simp
    then have "unat ?n mod 65535 = unat acc mod 65535" by (metis mod_mult_self2)
    moreover have "0 < unat acc \<Longrightarrow> 0 < unat ?n"
      using n div_mult_mod_eq [of "unat acc" 65536] by (cases "unat acc div 65536 = 0") simp_all
    ultimately show ?thesis using 1 [OF False] False by (simp add: fold_carry.simps [of acc])
  qed
qed

lemma ip_checksum_unat:
  assumes "length h \<le> 1000"
  shows "unat (ip_checksum h) = 65535 - unat (fold_carry (sum_words 0 h))"
proof -
  let ?f = "fold_carry (sum_words 0 h)"
  have f: "unat ?f \<le> 65535" using fold_carry_unat by blast
  have "unat (NOT (ucast ?f :: u16)) = 65535 - unat (ucast ?f :: u16)"
  proof -
    have "NOT (ucast ?f :: u16) = - 1 - ucast ?f" by (simp add: not_eq_complement)
    moreover have "unat (- 1 - (ucast ?f :: u16)) = unat (- 1 :: u16) - unat (ucast ?f :: u16)"
      by (rule unat_sub) simp
    moreover have "unat (- 1 :: u16) = 65535"
      by (simp add: unsigned_minus_1_eq_mask mask_eq_exp_minus_1)
    ultimately show ?thesis by simp
  qed
  moreover have "unat (ucast ?f :: u16) = unat ?f"
    using f by (simp add: unsigned_ucast_eq take_bit_nat_eq_self_iff)
  ultimately show ?thesis by (simp add: ip_checksum_def)
qed

lemma word_sum_append:
  "even (length xs) \<Longrightarrow> word_sum (xs @ ys) = word_sum xs + word_sum ys"
  by (induction xs rule: word_sum.induct) simp_all

text \<open>Ones-complement arithmetic: the checksum of a header with its own checksum in
  place is zero.\<close>

lemma checksum_verifies:
  assumes "even (length xs)" "length xs + length ys \<le> 100"
    and "0 < word_sum (xs @ [0, 0] @ ys)"
  shows "ip_checksum (xs @ to_be_bytes (ip_checksum (xs @ [0, 0] @ ys)) @ ys) = 0"
proof -
  let ?s = "word_sum xs + word_sum ys" and ?c = "ip_checksum (xs @ [0, 0] @ ys)"
  have z: "word_sum (xs @ [0, 0] @ ys) = ?s"
    using assms(1) by (simp add: word_sum_append from_be_bytes_def from_le_bytes_def)
  have cb: "to_be_bytes ?c = [to_be_bytes ?c ! 0, to_be_bytes ?c ! Suc 0]"
    by (rule nth_equalityI) (auto simp: nth_Cons split: nat.split)
  have "word_sum (to_be_bytes ?c @ ys) = unat ?c + word_sum ys"
    by (subst cb) simp
  then have v: "word_sum (xs @ to_be_bytes ?c @ ys) = ?s + unat ?c"
    using assms(1) by (simp add: word_sum_append)
  have len: "length (xs @ [0, 0] @ ys) \<le> 102" "length (xs @ to_be_bytes ?c @ ys) \<le> 102"
    using assms(2) by simp_all
  have u0: "unat (sum_words 0 (xs @ [0, 0] @ ys)) = ?s"
    using len z by (subst sum_words_unat) simp_all
  have u1: "unat (sum_words 0 (xs @ to_be_bytes ?c @ ys)) = ?s + unat ?c"
    using len v by (subst sum_words_unat) simp_all
  let ?f0 = "unat (fold_carry (sum_words 0 (xs @ [0, 0] @ ys)))"
  let ?f1 = "unat (fold_carry (sum_words 0 (xs @ to_be_bytes ?c @ ys)))"
  have c: "unat ?c = 65535 - ?f0" using len by (intro ip_checksum_unat) simp
  have f0: "?f0 \<le> 65535" "?f0 mod 65535 = ?s mod 65535" using fold_carry_unat u0 by metis+
  have f1: "?f1 \<le> 65535" "?f1 mod 65535 = (?s + unat ?c) mod 65535" "?f1 > 0"
    using fold_carry_unat [of "sum_words 0 (xs @ to_be_bytes ?c @ ys)"] assms(3) z
    by (auto simp only: u1)
  have "(?s + unat ?c) mod 65535 = (?f0 + unat ?c) mod 65535" using f0(2) by (metis mod_add_left_eq)
  also have "?f0 + unat ?c = 65535" using c f0(1) by simp
  finally have "?f1 mod 65535 = 0" using f1(2) by simp
  then have "?f1 = 65535" using f1(1,3) by (auto elim!: dvdE simp: mod_eq_0_iff_dvd)
  then have "unat (ip_checksum (xs @ to_be_bytes ?c @ ys)) = 0" using len by (subst ip_checksum_unat) simp_all
  then show ?thesis by (metis unat_eq_0)
qed

section \<open>Signal packets\<close>

lemma signal_packet:
  assumes "length src = 4" "length dst = 4" "length payload \<le> 65507"
  shows "\<exists>pkt. build_signal_packet src dst payload = Some pkt \<and>
    length pkt = 28 + length payload \<and> ip_checksum (take 20 pkt) = 0 \<and>
    src_ipv4 pkt = Some src \<and> dst_ipv4 pkt = Some dst \<and>
    (is_payment_signal pkt \<longleftrightarrow> src = PAYMENT_GATEWAY_IP \<or> dst = PAYMENT_GATEWAY_IP) \<and>
    extract_signal_payload pkt = Some payload"
proof -
  define head where "head = [0x45, 0] @ to_be_bytes (of_nat (28 + length payload) :: u16) @ [0, 0, 0x40, 0, 64, 17 :: u8]"
  define ck where "ck = to_be_bytes (ip_checksum (head @ [0, 0] @ src @ dst))"
  define ulen where "ulen = to_be_bytes (of_nat (8 + length payload) :: u16)"
  define ports where "ports = to_be_bytes PAYMENT_PORT @ to_be_bytes PAYMENT_PORT"
  define pkt where "pkt = head @ ck @ src @ dst @ ports @ ulen @ [0, 0] @ payload"
  have len: "length head = 10" "length ck = 2" "length ulen = 2" "length ports = 4"
    by (simp_all add: head_def ck_def ulen_def ports_def)
  have b: "build_signal_packet src dst payload = Some pkt"
    using assms(3) by (simp add: build_signal_packet_def Let_def pkt_def head_def ck_def ulen_def ports_def add.commute)
  have t20: "take 20 pkt = head @ ck @ src @ dst" using len assms by (simp add: pkt_def)
  have h0: "head ! 0 = 0x45" "head ! 9 = 17" by (simp_all add: head_def nth_append nth_Cons')
  then have p0: "pkt ! 0 = 0x45" "pkt ! 9 = 17" using len by (simp_all add: pkt_def nth_append)
  have "word_sum (head @ [0, 0] @ src @ dst) > 0"
  proof -
    have e: "head @ [0, 0] @ src @ dst = [0x45, 0] @ (drop 2 head @ [0, 0] @ src @ dst)"
      by (simp add: head_def)
    have "word_sum [0x45, 0] > 0" by (simp add: from_be_bytes_def from_le_bytes_def)
    then show ?thesis unfolding e by (subst word_sum_append) simp_all
  qed
  then have c: "ip_checksum (take 20 pkt) = 0"
    unfolding t20 ck_def using len assms by (intro checksum_verifies) simp_all
  have ad: "slice 12 16 pkt = src" "slice 16 20 pkt = dst"
    using len assms by (simp_all add: pkt_def slice_simps)
  have ul: "from_be_bytes [pkt ! 24, pkt ! 25] = (of_nat (8 + length payload) :: u16)"
  proof -
    have "pkt ! 24 = ulen ! 0" "pkt ! 25 = ulen ! Suc 0" using len assms by (simp_all add: pkt_def nth_append)
    then show ?thesis by (simp only: ulen_def from_be_16)
  qed
  have small: "unat (of_nat n :: u16) = n" if "n < 65536" for n using that by (simp add: unat_of_nat)
  have un: "unat (of_nat (8 + length payload) :: u16) = 8 + length payload"
    by (rule small) (use assms(3) in simp)
  have ul': "unat (from_be_bytes [pkt ! 24, pkt ! 25] :: u16) = 8 + length payload"
    by (simp only: ul un)
  have lp: "length pkt = 28 + length payload" using len assms by (simp add: pkt_def)
  have "unat ((0x45 :: u8) AND 0x0f) = 5" by code_simp
  then have ex: "extract_signal_payload pkt = Some payload"
    using lp len assms by (simp add: extract_signal_payload_def p0 Let_def ul') (simp add: pkt_def slice_simps)
  have "drop_bit 4 (0x45 :: u8) = 4" by code_simp
  then have "is_payment_signal pkt \<longleftrightarrow> src = PAYMENT_GATEWAY_IP \<or> dst = PAYMENT_GATEWAY_IP"
    using lp by (simp add: is_payment_signal_def p0 ad)
  then show ?thesis using b c ad lp ex by (simp add: src_ipv4_def dst_ipv4_def)
qed

section \<open>Properties\<close>

text \<open>Payment messages round trip.  Each of the three messages decodes to itself
  from its encoding, whatever follows it in the datagram, and no message is taken
  for one of another type.\<close>

lemma payment_messages_roundtrip:
  assumes "required_ok r" "submit_ok s"
  shows "payment_required_decode (payment_required_encode r @ rest) = Some r \<and>
    payment_submit_decode (payment_submit_encode s @ rest) = Some s \<and>
    payment_accepted_decode (payment_accepted_encode a @ rest) = Some a \<and>
    payment_submit_decode (payment_required_encode r @ rest) = None \<and>
    payment_required_decode (payment_submit_encode s @ rest) = None \<and>
    payment_submit_decode (payment_accepted_encode a @ rest) = None"
proof -
  have "hd (payment_required_encode r @ rest) = MSG_PAYMENT_REQUIRED"
    "hd (payment_submit_encode s @ rest) = MSG_PAYMENT_SUBMIT"
    "hd (payment_accepted_encode a @ rest) = MSG_PAYMENT_ACCEPTED"
    by (simp_all add: payment_required_encode_def payment_submit_encode_def payment_accepted_encode_def)
  then show ?thesis
    using required.dec_enc [OF assms(1)] submit.dec_enc [OF assms(2)] accepted.dec_enc
      submit.foreign_tag required.foreign_tag
    by (simp add: msg_types)
qed

text \<open>Signal packets.  A payload of at most 65507 bytes is carried by a
  well-formed IPv4/UDP packet: its header checksum verifies, its addresses are the
  given ones, it is recognised as a signal exactly when one of them is the payment
  gateway, and the receiver extracts the payload unchanged.\<close>

lemma signal_packet_roundtrip:
  assumes "length src = 4" "length dst = 4" "length payload \<le> 65507"
  shows "\<exists>pkt. build_signal_packet src dst payload = Some pkt \<and>
    length pkt = 28 + length payload \<and> ip_checksum (take 20 pkt) = 0 \<and>
    src_ipv4 pkt = Some src \<and> dst_ipv4 pkt = Some dst \<and>
    (is_payment_signal pkt \<longleftrightarrow> src = PAYMENT_GATEWAY_IP \<or> dst = PAYMENT_GATEWAY_IP) \<and>
    extract_signal_payload pkt = Some payload"
  by (rule signal_packet [OF assms])

end
