(* ===== verification/Payment_Config.thy ===== *)
theory Payment_Config
  imports Eip3009 Payment_Protocol
begin

text \<open>
  The payment configuration (\<open>payment/mod.rs\<close>) and the requests sent to the
  settlement service (\<open>payment/settlement.rs\<close>).  The hexadecimal coding of the
  \<open>hex\<close> crate is a parameter; the environment is a function from variable names.
  Strings are their ASCII bytes.  The HTTP exchange of the settlement client is a
  parameter of the device.
\<close>

section \<open>Configuration\<close>

record payment_config =
  pc_chain_id :: u64
  pc_usdc_contract :: bytes
  pc_amount_per_quota :: u64
  pc_quota_bytes :: u64
  pc_usdc_name :: bytes
  pc_usdc_version :: bytes
  pc_gateway_wallet :: bytes
  pc_gateway_name :: bytes
  pc_gateway_version :: bytes
  pc_gateway_api_url :: bytes
  pc_rpc_url :: bytes
  pc_is_server :: bool

definition usdc_domain :: "payment_config \<Rightarrow> eip712_domain" where
  "usdc_domain c = \<lparr>ed_name = pc_usdc_name c, ed_version = pc_usdc_version c, ed_chain_id = pc_chain_id c,
     ed_verifying_contract = pc_usdc_contract c\<rparr>"

definition gateway_domain :: "payment_config \<Rightarrow> eip712_domain" where
  "gateway_domain c = \<lparr>ed_name = pc_gateway_name c, ed_version = pc_gateway_version c, ed_chain_id = pc_chain_id c,
     ed_verifying_contract = pc_gateway_wallet c\<rparr>"

type_synonym environ = "string \<Rightarrow> bytes option"

definition env_or :: "environ \<Rightarrow> string \<Rightarrow> bytes \<Rightarrow> bytes" where
  "env_or env key dflt = (case env key of Some v \<Rightarrow> v | None \<Rightarrow> dflt)"

text \<open>\<open>str::parse::<u64>\<close>: a plus sign is accepted, no digits and overflow are errors.\<close>

fun dec_digits :: "nat \<Rightarrow> bytes \<Rightarrow> nat option" where
  "dec_digits acc [] = Some acc"
| "dec_digits acc (c # cs) =
     (if 48 \<le> unat c \<and> unat c \<le> 57 \<and> 10 * acc + (unat c - 48) < 18446744073709551616
      then dec_digits (10 * acc + (unat c - 48)) cs else None)"

definition parse_u64 :: "bytes \<Rightarrow> u64 option" where
  "parse_u64 s = (let ds = (if take 1 s = [43] then drop 1 s else s) in
     if ds = [] then None else map_option of_nat (dec_digits 0 ds))"

definition parse_u64_or :: "bytes \<Rightarrow> u64 \<Rightarrow> u64" where
  "parse_u64_or s dflt = (case parse_u64 s of Some n \<Rightarrow> n | None \<Rightarrow> dflt)"

text \<open>\<open>expect\<close> and \<open>copy_from_slice\<close> panic on anything but 20 bytes of hexadecimal.\<close>

definition hex_to_address :: "(bytes \<Rightarrow> bytes option) \<Rightarrow> bytes \<Rightarrow> bytes option" where
  "hex_to_address hex_decode s = do {
     addr \<leftarrow> hex_decode (if take 2 s = ascii ''0x'' then drop 2 s else s);
     if length addr = 20 then Some addr else None }"

definition ascii_lower :: "bytes \<Rightarrow> bytes" where
  "ascii_lower = map (\<lambda>c. if 65 \<le> c \<and> c \<le> 90 then c + 32 else c)"

definition payment_config_default :: "(bytes \<Rightarrow> bytes option) \<Rightarrow> environ \<Rightarrow> payment_config option" where
  "payment_config_default hex_decode env = do {
     let is_server = (case env ''BT_PAYMENT_SERVER'' of
         Some v \<Rightarrow> v = ascii ''1'' \<or> ascii_lower v = ascii ''true'' | None \<Rightarrow> False);
     let chain_id = parse_u64_or (env_or env ''BT_CHAIN_ID'' (ascii ''5042002'')) 5042002;
     usdc_contract \<leftarrow> hex_to_address hex_decode
         (env_or env ''BT_USDC_CONTRACT'' (ascii ''3600000000000000000000000000000000000000''));
     gateway_wallet \<leftarrow> hex_to_address hex_decode
         (env_or env ''BT_GATEWAY_WALLET'' (ascii ''0077777d7EBA4688BDeF3E311b846F25870A19B9''));
     let quota_mb = parse_u64_or (env_or env ''BT_QUOTA_MB'' (ascii ''10'')) 10;
     let amount = parse_u64_or (env_or env ''BT_PAYMENT_AMOUNT'' (ascii ''10000'')) 10000;
     Some \<lparr>pc_chain_id = chain_id, pc_usdc_contract = usdc_contract, pc_amount_per_quota = amount,
       pc_quota_bytes = quota_mb * 1024 * 1024, pc_usdc_name = ascii ''USDC'', pc_usdc_version = ascii ''2'',
       pc_gateway_wallet = gateway_wallet, pc_gateway_name = ascii ''GatewayWalletBatched'',
       pc_gateway_version = ascii ''1'',
       pc_gateway_api_url = env_or env ''BT_GATEWAY_API'' (ascii ''https://gateway-api-testnet.circle.com''),
       pc_rpc_url = env_or env ''BT_RPC_URL'' (ascii ''https://rpc.testnet.arc.network''),
       pc_is_server = is_server\<rparr> }"

section \<open>Settlement requests\<close>

record gateway_extra =
  ge_name :: bytes
  ge_version :: bytes
  ge_verifying_contract :: bytes

record payment_requirements =
  pr_scheme :: bytes
  pr_network :: bytes
  pr_asset :: bytes
  pr_amount :: bytes
  pr_pay_to :: bytes
  pr_max_timeout_seconds :: u32
  pr_extra :: gateway_extra

record authorization_data =
  ad_from :: bytes
  ad_to :: bytes
  ad_value :: bytes
  ad_valid_after :: bytes
  ad_valid_before :: bytes
  ad_nonce :: bytes

record payload_data =
  pl_signature :: bytes
  pl_authorization :: authorization_data

record resource_info =
  ri_url :: bytes
  ri_description :: bytes
  ri_mime_type :: bytes

record payment_payload =
  pp_x402_version :: u32
  pp_resource :: "resource_info option"
  pp_accepted :: payment_requirements
  pp_payload :: payload_data

record settle_request =
  sr_x402_version :: u32
  sr_payment_payload :: payment_payload
  sr_payment_requirements :: payment_requirements

record settle_response =
  sp_success :: bool
  sp_payer :: "bytes option"
  sp_transaction :: "bytes option"
  sp_network :: "bytes option"
  sp_error_reason :: "bytes option"
  sp_error_message :: "bytes option"
  sp_message :: "bytes option"
  sp_error :: "bytes option"

datatype settlement_error = SettleHttp bytes | SettleJson bytes | SettleApi bytes bytes

text \<open>\<open>to_string\<close> of an unsigned integer.\<close>

fun dec_of_nat :: "nat \<Rightarrow> bytes" where
  "dec_of_nat n = (if n < 10 then [of_nat (48 + n)] else dec_of_nat (n div 10) @ [of_nat (48 + n mod 10)])"

declare dec_of_nat.simps [simp del]

definition dec_of_u64 :: "u64 \<Rightarrow> bytes" where "dec_of_u64 w = dec_of_nat (unat w)"

definition build_settle_request ::
  "(bytes \<Rightarrow> bytes) \<Rightarrow> payment_config \<Rightarrow> payment_submit \<Rightarrow> bytes \<Rightarrow> settle_request" where
  "build_settle_request hex_encode config submit server_address =
     (let hex0x = (\<lambda>b. ascii ''0x'' @ hex_encode b);
          network = ascii ''eip155:'' @ dec_of_u64 (pc_chain_id config);
          asset = hex0x (pc_usdc_contract config);
          pay_to = hex0x server_address;
          extra = \<lparr>ge_name = pc_gateway_name config, ge_version = pc_gateway_version config,
            ge_verifying_contract = hex0x (pc_gateway_wallet config)\<rparr>;
          requirements = \<lparr>pr_scheme = ascii ''exact'', pr_network = network, pr_asset = asset,
            pr_amount = dec_of_u64 (ps_value submit), pr_pay_to = pay_to, pr_max_timeout_seconds = 345600,
            pr_extra = extra\<rparr>;
          signature = hex0x (ps_r submit @ ps_s submit @ [ps_v submit]);
          authorization = \<lparr>ad_from = hex0x (ps_from submit), ad_to = hex0x (ps_to submit),
            ad_value = dec_of_u64 (ps_value submit), ad_valid_after = dec_of_u64 (ps_valid_after submit),
            ad_valid_before = dec_of_u64 (ps_valid_before submit), ad_nonce = hex0x (ps_nonce submit)\<rparr>
      in \<lparr>sr_x402_version = 2,
          sr_payment_payload = \<lparr>pp_x402_version = 2,
            pp_resource = Some \<lparr>ri_url = ascii ''boringtun-vpn://bandwidth'',
              ri_description = ascii ''VPN bandwidth quota'', ri_mime_type = ascii ''application/octet-stream''\<rparr>,
            pp_accepted = requirements,
            pp_payload = \<lparr>pl_signature = signature, pl_authorization = authorization\<rparr>\<rparr>,
          sr_payment_requirements = requirements\<rparr>)"

section \<open>Decimal text\<close>

lemma dec_digits_snoc:
  "dec_digits acc (xs @ [c]) = Option.bind (dec_digits acc xs) (\<lambda>n. dec_digits n [c])"
  by (induction xs arbitrary: acc) auto

lemma unat_digit: "d < 10 \<Longrightarrow> unat (of_nat (48 + d) :: u8) = 48 + d"
  by (simp only: unat_of_nat_u8, simp)

lemma dec_of_nat_nonempty [simp]: "dec_of_nat n \<noteq> []"
  by (subst dec_of_nat.simps) simp

lemma dec_of_nat_digits: "n < 18446744073709551616 \<Longrightarrow> dec_digits 0 (dec_of_nat n) = Some n"
proof (induction n rule: dec_of_nat.induct)
  case (1 n)
  show ?case
  proof (cases "n < 10")
    case True
    then show ?thesis using unat_digit [OF True] by (subst dec_of_nat.simps) simp
  next
    case False
    have "n div 10 < 18446744073709551616" using 1(2) by (meson div_le_dividend le_less_trans)
    then have "dec_digits 0 (dec_of_nat (n div 10)) = Some (n div 10)" using 1(1) False by simp
    moreover have "unat (of_nat (48 + n mod 10) :: u8) = 48 + n mod 10" by (rule unat_digit) simp
    moreover have "10 * (n div 10) + n mod 10 = n" by simp
    ultimately show ?thesis using 1(2) False by (subst dec_of_nat.simps) (simp add: dec_digits_snoc)
  qed
qed

lemma hd_dec_of_nat: "hd (dec_of_nat n) \<noteq> 43"
proof (induction n rule: dec_of_nat.induct)
  case (1 n)
  show ?case
  proof (cases "n < 10")
    case True
    then have "unat (of_nat (48 + n) :: u8) \<noteq> 43" using unat_digit [OF True] by simp
    moreover have "unat (43 :: u8) = 43" by simp
    ultimately have "(of_nat (48 + n) :: u8) \<noteq> 43" by metis
    then show ?thesis using True by (subst dec_of_nat.simps) simp
  next
    case False
    then show ?thesis using 1 by (subst dec_of_nat.simps) simp
  qed
qed

lemma parse_dec_of_u64: "parse_u64 (dec_of_u64 w) = Some w"
proof -
  have "take 1 (dec_of_nat (unat w)) \<noteq> [43]"
    using hd_dec_of_nat [of "unat w"] by (cases "dec_of_nat (unat w)") auto
  then show ?thesis
    by (simp add: parse_u64_def dec_of_u64_def Let_def dec_of_nat_digits [OF unat_u64_less])
qed

lemma dec_of_u64_inj: "dec_of_u64 a = dec_of_u64 b \<longleftrightarrow> a = b"
  by (metis option.inject parse_dec_of_u64)

section \<open>Properties\<close>

text \<open>The settlement request carries the verified authorization and nothing else.
  When the hexadecimal coding is injective, the request determines every field of the
  submission (the amount asked for included), the recipient, and the domain it was
  signed for: two different submissions are never settled by the same request.\<close>

lemma settle_request_determines_submit:
  assumes "inj hex_encode"
    and "build_settle_request hex_encode c p addr = build_settle_request hex_encode c' p' addr'"
    and "length (ps_r p) = 32" "length (ps_r p') = 32" "length (ps_s p) = 32" "length (ps_s p') = 32"
  shows "p = p' \<and> addr = addr' \<and> gateway_domain c = gateway_domain c' \<and>
    pr_amount (sr_payment_requirements (build_settle_request hex_encode c p addr)) = dec_of_u64 (ps_value p)"
proof -
  have h: "hex_encode x = hex_encode y \<longleftrightarrow> x = y" for x y using assms(1) by (simp add: inj_eq)
  have "ps_r p @ ps_s p @ [ps_v p] = ps_r p' @ ps_s p' @ [ps_v p']"
    using assms(2) by (simp add: build_settle_request_def Let_def h)
  then have s: "ps_r p = ps_r p'" "ps_s p = ps_s p'" "ps_v p = ps_v p'" using assms(3-6) by auto
  show ?thesis using assms(2) s
    by (simp add: build_settle_request_def Let_def h dec_of_u64_inj gateway_domain_def)
qed

definition toy_config :: payment_config where
  "toy_config = \<lparr>pc_chain_id = 5042002, pc_usdc_contract = replicate 20 0x36, pc_amount_per_quota = 10000,
     pc_quota_bytes = 10485760, pc_usdc_name = ascii ''USDC'', pc_usdc_version = ascii ''2'',
     pc_gateway_wallet = replicate 20 0x77, pc_gateway_name = ascii ''GatewayWalletBatched'',
     pc_gateway_version = ascii ''1'', pc_gateway_api_url = [], pc_rpc_url = [], pc_is_server = True\<rparr>"

definition toy_submit :: payment_submit where
  "toy_submit = \<lparr>ps_from = replicate 20 1, ps_to = replicate 20 2, ps_value = 10000, ps_valid_after = 0,
     ps_valid_before = 1000, ps_nonce = replicate 32 7, ps_v = 27, ps_r = replicate 32 1, ps_s = replicate 32 2\<rparr>"

text \<open>The default configuration.  With a hexadecimal decoder that gives 20 bytes for
  the two built-in addresses and no environment variables set, the configuration
  exists; its quota is 10 MiB for 10000 units, it is a client, and the two domains
  differ.  A number that does not parse falls back to the default.\<close>

lemma payment_config_defaults:
  assumes "hex_decode (ascii ''3600000000000000000000000000000000000000'') = Some u" "length u = 20"
    and "hex_decode (ascii ''0077777d7EBA4688BDeF3E311b846F25870A19B9'') = Some g" "length g = 20"
  shows "\<exists>c. payment_config_default hex_decode (\<lambda>_. None) = Some c \<and> pc_quota_bytes c = 10 * 1024 * 1024 \<and>
    pc_amount_per_quota c = 10000 \<and> pc_chain_id c = 5042002 \<and> \<not> pc_is_server c \<and>
    usdc_domain c \<noteq> gateway_domain c \<and>
    (\<forall>q. payment_config_default hex_decode ((\<lambda>_. None)(''BT_QUOTA_MB'' := Some (ascii q))) =
      Some (c\<lparr>pc_quota_bytes := parse_u64_or (ascii q) 10 * 1024 * 1024\<rparr>))"
proof -
  have a: "take 2 (ascii ''3600000000000000000000000000000000000000'') \<noteq> ascii ''0x''"
      "take 2 (ascii ''0077777d7EBA4688BDeF3E311b846F25870A19B9'') \<noteq> ascii ''0x''"
    by (simp_all add: ascii_def)
  have n: "parse_u64_or (ascii ''5042002'') 5042002 = 5042002" "parse_u64_or (ascii ''10'') 10 = 10"
      "parse_u64_or (ascii ''10000'') 10000 = 10000" "ascii ''USDC'' \<noteq> ascii ''GatewayWalletBatched''"
    by (simp_all add: ascii_def parse_u64_or_def parse_u64_def)
  show ?thesis
    unfolding payment_config_default_def env_or_def hex_to_address_def
    using a n assms by (simp add: usdc_domain_def gateway_domain_def)
qed

end
