(* ===== verification/Tx_Rlp.thy ===== *)
theory Tx_Rlp
  imports Eip3009
begin

text \<open>
  RLP encoding and EIP-1559 transactions (\<open>payment/tx.rs\<close>).  A decoder that
  inverts the encoding is the specification: \<open>rlp_decode\<close> reads every encoded item
  back, so the encoding is uniquely readable.
\<close>

section \<open>Encoding\<close>

text \<open>\<open>iter().position(|b| b != 0).unwrap_or(d)\<close>\<close>

fun first_nonzero :: "bytes \<Rightarrow> nat option" where
  "first_nonzero [] = None"
| "first_nonzero (b # bs) = (if b \<noteq> 0 then Some 0 else map_option Suc (first_nonzero bs))"

definition trim_zeros :: "nat \<Rightarrow> bytes \<Rightarrow> bytes" where
  "trim_zeros d be = drop (case first_nonzero be of Some i \<Rightarrow> i | None \<Rightarrow> d) be"

definition encode_length :: "nat \<Rightarrow> bytes" where
  "encode_length len = trim_zeros 7 (to_be_bytes (of_nat len :: u64))"

definition rlp_encode_bytes :: "bytes \<Rightarrow> bytes" where
  "rlp_encode_bytes data =
     (if length data = 1 \<and> data ! 0 < 0x80 then [data ! 0]
      else if length data \<le> 55 then (0x80 + of_nat (length data)) # data
      else let len_bytes = encode_length (length data) in
        (0xb7 + of_nat (length len_bytes)) # len_bytes @ data)"

definition rlp_encode_uint :: "u64 \<Rightarrow> bytes" where
  "rlp_encode_uint value = (if value = 0 then [0x80] else rlp_encode_bytes (trim_zeros 7 (to_be_bytes value)))"

definition rlp_encode_u128 :: "u128 \<Rightarrow> bytes" where
  "rlp_encode_u128 value = (if value = 0 then [0x80] else rlp_encode_bytes (trim_zeros 15 (to_be_bytes value)))"

definition rlp_encode_list :: "bytes list \<Rightarrow> bytes" where
  "rlp_encode_list items =
     (let payload = concat items in
      if length payload \<le> 55 then (0xc0 + of_nat (length payload)) # payload
      else let len_bytes = encode_length (length payload) in
        (0xf7 + of_nat (length len_bytes)) # len_bytes @ payload)"

record eip1559_tx =
  tx_chain_id :: u64
  tx_nonce :: u64
  tx_max_priority_fee_per_gas :: u128
  tx_max_fee_per_gas :: u128
  tx_gas_limit :: u64
  tx_to :: bytes
  tx_value :: u128
  tx_data :: bytes

definition rlp_fields :: "eip1559_tx \<Rightarrow> bytes list" where
  "rlp_fields tx =
     [rlp_encode_uint (tx_chain_id tx), rlp_encode_uint (tx_nonce tx),
      rlp_encode_u128 (tx_max_priority_fee_per_gas tx), rlp_encode_u128 (tx_max_fee_per_gas tx),
      rlp_encode_uint (tx_gas_limit tx), rlp_encode_bytes (tx_to tx), rlp_encode_u128 (tx_value tx),
      rlp_encode_bytes (tx_data tx), rlp_encode_list []]"

definition signing_hash :: "eth \<Rightarrow> eip1559_tx \<Rightarrow> bytes" where
  "signing_hash et tx = et_keccak et (0x02 # rlp_encode_list (rlp_fields tx))"

definition tx_sign :: "eth \<Rightarrow> eip1559_tx \<Rightarrow> bytes \<Rightarrow> bytes" where
  "tx_sign et tx key =
     (let (sig_bytes, recovery_id) = et_sign et key (signing_hash et tx);
          r = take 32 sig_bytes; s = drop 32 sig_bytes; y_parity = recovery_id;
          fields = rlp_fields tx @ [rlp_encode_uint (ucast y_parity), rlp_encode_bytes r, rlp_encode_bytes s]
      in 0x02 # rlp_encode_list fields)"

section \<open>The specification\<close>

datatype rlp = Str bytes | Lst "rlp list"

fun rlp_encode :: "rlp \<Rightarrow> bytes" where
  "rlp_encode (Str b) = rlp_encode_bytes b"
| "rlp_encode (Lst xs) = rlp_encode_list (map rlp_encode xs)"

definition be_to_nat :: "bytes \<Rightarrow> nat" where "be_to_nat bs = le_to_nat (rev bs)"

text \<open>The head of an encoding: whether it is a list, its length, and where it starts;
  \<open>None\<close> for a single byte below \<open>0x80\<close>, which is its own encoding.\<close>

definition split_payload :: "nat \<Rightarrow> nat \<Rightarrow> bytes \<Rightarrow> (bytes \<times> bytes) option" where
  "split_payload base b rest =
     (if b \<le> base + 55 then let n = b - base in
        (if n \<le> length rest then Some (take n rest, drop n rest) else None)
      else let k = b - (base + 55); n = be_to_nat (take k rest) in
        (if k \<le> length rest \<and> n \<le> length rest - k then Some (take n (drop k rest), drop n (drop k rest)) else None))"

fun dec_item :: "nat \<Rightarrow> bytes \<Rightarrow> (rlp \<times> bytes) option"
  and dec_items :: "nat \<Rightarrow> bytes \<Rightarrow> rlp list option" where
  "dec_item 0 bs = None"
| "dec_item (Suc f) [] = None"
| "dec_item (Suc f) (b # rest) =
     (let n = unat b in
      if n < 128 then Some (Str [b], rest)
      else if n < 192 then map_option (\<lambda>(p, rest). (Str p, rest)) (split_payload 128 n rest)
      else do {
        (p, rest) \<leftarrow> split_payload 192 n rest;
        xs \<leftarrow> dec_items f p;
        Some (Lst xs, rest) })"
| "dec_items 0 bs = None"
| "dec_items (Suc f) bs =
     (if bs = [] then Some []
      else do {
        (x, rest) \<leftarrow> dec_item f bs;
        xs \<leftarrow> dec_items f rest;
        Some (x # xs) })"

section \<open>Trimmed big-endian numbers\<close>

lemma trim_zeros_dropWhile:
  "\<exists>b\<in>set bs. b \<noteq> 0 \<Longrightarrow> trim_zeros d bs = dropWhile (\<lambda>b. b = 0) bs"
proof -
  have "(case first_nonzero bs of Some i \<Rightarrow> drop i bs | None \<Rightarrow> []) = dropWhile (\<lambda>b. b = 0) bs \<and>
    (first_nonzero bs = None \<longleftrightarrow> (\<forall>b\<in>set bs. b = 0))"
    by (induction bs) (auto split: option.splits)
  then show "\<exists>b\<in>set bs. b \<noteq> 0 \<Longrightarrow> ?thesis"
    by (auto simp: trim_zeros_def split: option.splits)
qed

lemma le_to_nat_append: "le_to_nat (xs @ ys) = le_to_nat xs + 256 ^ length xs * le_to_nat ys"
  by (induction xs) (auto simp: algebra_simps)

lemma be_to_nat_zero: "be_to_nat (0 # bs) = be_to_nat bs"
  by (simp add: be_to_nat_def le_to_nat_append)

lemma be_to_nat_dropWhile: "be_to_nat (dropWhile (\<lambda>b. b = 0) bs) = be_to_nat bs"
  by (induction bs) (auto simp: be_to_nat_zero)

lemma be_to_nat_to_be:
  assumes "8 dvd LENGTH('a)"
  shows "be_to_nat (to_be_bytes (w :: 'a::len word)) = unat w"
proof -
  obtain k where k: "LENGTH('a) = 8 * k" using assms by (elim dvdE)
  have "(256 :: nat) ^ (LENGTH('a) div 8) = 2 ^ LENGTH('a)" by (simp add: k power_mult)
  then show ?thesis by (simp add: be_to_nat_def to_be_bytes_def to_le_bytes_def le_to_nat_to_le)
qed

lemma to_be_nonzero:
  assumes "8 dvd LENGTH('a)" "(w :: 'a::len word) \<noteq> 0"
  shows "\<exists>b\<in>set (to_be_bytes w). b \<noteq> 0"
proof (rule ccontr)
  assume "\<not> ?thesis"
  then have z: "\<forall>b\<in>set (to_be_bytes w). b = 0" by blast
  have "le_to_nat bs = 0" if "\<forall>b\<in>set bs. b = 0" for bs using that by (induction bs) auto
  then have "be_to_nat (to_be_bytes w) = 0" using z by (simp add: be_to_nat_def)
  then show False using be_to_nat_to_be [OF assms(1), of w] assms(2) by (simp add: unat_eq_0)
qed

lemma trim_value:
  assumes "8 dvd LENGTH('a)" "(w :: 'a::len word) \<noteq> 0"
  shows "be_to_nat (trim_zeros d (to_be_bytes w)) = unat w"
    and "length (trim_zeros d (to_be_bytes w)) \<le> LENGTH('a) div 8"
    and "trim_zeros d (to_be_bytes w) \<noteq> []"
proof -
  note t = trim_zeros_dropWhile [OF to_be_nonzero [OF assms], of d]
  show "be_to_nat (trim_zeros d (to_be_bytes w)) = unat w"
    by (simp add: t be_to_nat_dropWhile be_to_nat_to_be [OF assms(1)])
  show "length (trim_zeros d (to_be_bytes w)) \<le> LENGTH('a) div 8"
    using length_dropWhile_le [of "\<lambda>b. b = 0" "to_be_bytes w"] by (simp add: t)
  show "trim_zeros d (to_be_bytes w) \<noteq> []"
    using to_be_nonzero [OF assms] by (auto simp: t dropWhile_eq_Nil_conv)
qed

lemma encode_length_spec:
  assumes "0 < n" "n < 18446744073709551616"
  shows "be_to_nat (encode_length n) = n" "length (encode_length n) \<le> 8" "encode_length n \<noteq> []"
proof -
  have u: "unat (of_nat n :: u64) = n" using assms(2) by (simp add: unat_of_nat)
  then have "(of_nat n :: u64) \<noteq> 0" using assms(1) by (metis unat_0 less_numeral_extra(3))
  from trim_value [OF _ this] show "be_to_nat (encode_length n) = n" "length (encode_length n) \<le> 8"
    "encode_length n \<noteq> []"
    by (simp_all add: encode_length_def u)
qed

section \<open>Reading back\<close>

definition rlp_head :: "nat \<Rightarrow> bytes \<Rightarrow> bytes" where
  "rlp_head base p = (if length p \<le> 55 then [of_nat (base + length p)]
     else of_nat (base + 55 + length (encode_length (length p))) # encode_length (length p))"

lemma rlp_encode_bytes_head:
  "\<not> (length p = 1 \<and> p ! 0 < 0x80) \<Longrightarrow> rlp_encode_bytes p = rlp_head 128 p @ p"
  by (auto simp: rlp_encode_bytes_def rlp_head_def Let_def)

lemma rlp_encode_list_head: "rlp_encode_list xs = rlp_head 192 (concat xs) @ concat xs"
  by (auto simp: rlp_encode_list_def rlp_head_def Let_def)

lemma unat_u8_of_nat: "n < 256 \<Longrightarrow> unat (of_nat n :: u8) = n"
  by (simp add: unat_of_nat)

lemma split_payload_head:
  assumes "length p < 18446744073709551616" "base \<le> 192"
  shows "\<exists>b tl. rlp_head base p = b # tl \<and> base \<le> unat b \<and> unat b \<le> base + 63 \<and>
    split_payload base (unat b) (tl @ p @ rest) = Some (p, rest)"
proof (cases "length p \<le> 55")
  case True
  then have "unat (of_nat (base + length p) :: u8) = base + length p"
    using assms(2) by (intro unat_u8_of_nat) simp
  then show ?thesis using True
    by (intro exI [of _ "of_nat (base + length p)"] exI [of _ "[]"]) (simp add: rlp_head_def split_payload_def del: of_nat_add)
next
  case False
  let ?l = "encode_length (length p)"
  have e: "be_to_nat ?l = length p" "length ?l \<le> 8" "?l \<noteq> []"
  proof -
    have "0 < length p" using False by linarith
    from encode_length_spec [OF this assms(1)]
    show "be_to_nat ?l = length p" "length ?l \<le> 8" "?l \<noteq> []" by simp_all
  qed
  have "unat (of_nat (base + 55 + length ?l) :: u8) = base + 55 + length ?l"
    using assms(2) e(2) by (intro unat_u8_of_nat) simp
  then show ?thesis using False e
    by (intro exI [of _ "of_nat (base + 55 + length ?l)"] exI [of _ ?l])
      (simp add: rlp_head_def split_payload_def Let_def del: of_nat_add)
qed

lemma rlp_encode_length_pos: "rlp_encode x \<noteq> []"
  by (cases x) (auto simp: rlp_encode_bytes_def rlp_encode_list_def Let_def)

lemma fuel_rest: "0 < a \<Longrightarrow> 2 * (a + b) + 1 \<le> Suc g \<Longrightarrow> 2 * b + 1 \<le> (g :: nat)"
  by simp

lemma dec_items_roundtrip:
  assumes "\<And>x rest f. x \<in> set xs \<Longrightarrow> 2 * length (rlp_encode x) \<le> f \<Longrightarrow>
      length (rlp_encode x) < 18446744073709551616 \<Longrightarrow> dec_item f (rlp_encode x @ rest) = Some (x, rest)"
    and "2 * length (concat (map rlp_encode xs)) + 1 \<le> f"
    and "length (concat (map rlp_encode xs)) < 18446744073709551616"
  shows "dec_items f (concat (map rlp_encode xs)) = Some xs"
  using assms
proof (induction xs arbitrary: f)
  case Nil
  then show ?case by (cases f) auto
next
  case (Cons x xs)
  obtain g where f: "f = Suc g" using Cons.prems(2) by (cases f) auto
  have pos: "0 < length (rlp_encode x)" using rlp_encode_length_pos by simp
  have "dec_item g (rlp_encode x @ concat (map rlp_encode xs)) = Some (x, concat (map rlp_encode xs))"
    using Cons.prems f by (intro Cons.prems(1)) auto
  moreover have "dec_items g (concat (map rlp_encode xs)) = Some xs"
  proof (rule Cons.IH)
    show "2 * length (concat (map rlp_encode xs)) + 1 \<le> g"
      using fuel_rest [OF pos, of "length (concat (map rlp_encode xs))" g] Cons.prems(2) f by simp
  qed (use Cons.prems in auto)
  ultimately show ?case using f rlp_encode_length_pos by simp
qed

lemma dec_item_roundtrip:
  "2 * length (rlp_encode x) \<le> f \<Longrightarrow> length (rlp_encode x) < 18446744073709551616 \<Longrightarrow>
    dec_item f (rlp_encode x @ rest) = Some (x, rest)"
proof (induction x arbitrary: rest f)
  case (Str b)
  obtain g where f: "f = Suc g" using Str rlp_encode_length_pos [of "Str b"] by (cases f) auto
  show ?case
  proof (cases "length b = 1 \<and> b ! 0 < 0x80")
    case True
    then obtain c where "b = [c]" "c < 0x80" by (cases b) auto
    then show ?thesis by (simp add: f rlp_encode_bytes_def Let_def word_less_nat_alt)
  next
    case False
    note h = rlp_encode_bytes_head [OF False]
    have "length b < 18446744073709551616" using Str(2) h by simp
    from split_payload_head [OF this, of 128 rest] obtain c tl where
      "rlp_head 128 b = c # tl" "128 \<le> unat c" "unat c \<le> 191" "split_payload 128 (unat c) (tl @ b @ rest) = Some (b, rest)"
      by auto
    then show ?thesis by (simp add: f h Let_def)
  qed
next
  case (Lst xs)
  let ?p = "concat (map rlp_encode xs)"
  note h = rlp_encode_list_head [of "map rlp_encode xs"]
  have "length ?p < 18446744073709551616" using Lst.prems(2) h by simp
  from split_payload_head [OF this, of 192 rest] obtain c tl where
    c: "rlp_head 192 ?p = c # tl" "192 \<le> unat c" "split_payload 192 (unat c) (tl @ ?p @ rest) = Some (?p, rest)"
    by auto
  obtain g where f: "f = Suc g" using Lst.prems(1) rlp_encode_length_pos [of "Lst xs"] by (cases f) auto
  have "dec_items g ?p = Some xs"
    by (rule dec_items_roundtrip) (use Lst h c(1) f in auto)
  then show ?case using c by (simp add: f h Let_def)
qed

section \<open>Transactions\<close>

text \<open>The item a field of the transaction encodes: a number is its bytes without
  leading zeros.\<close>

definition uint_item :: "'a::len word \<Rightarrow> rlp" where
  "uint_item v = Str (if v = 0 then [] else trim_zeros (LENGTH('a) div 8 - 1) (to_be_bytes v))"

definition tx_items :: "eip1559_tx \<Rightarrow> rlp list" where
  "tx_items tx = [uint_item (tx_chain_id tx), uint_item (tx_nonce tx), uint_item (tx_max_priority_fee_per_gas tx),
     uint_item (tx_max_fee_per_gas tx), uint_item (tx_gas_limit tx), Str (tx_to tx), uint_item (tx_value tx),
     Str (tx_data tx), Lst []]"

lemma rlp_encode_uint_item: "rlp_encode_uint v = rlp_encode (uint_item v)"
  by (simp add: rlp_encode_uint_def uint_item_def rlp_encode_bytes_def)

lemma rlp_encode_u128_item: "rlp_encode_u128 v = rlp_encode (uint_item v)"
  by (simp add: rlp_encode_u128_def uint_item_def rlp_encode_bytes_def)

lemma rlp_fields_items: "rlp_fields tx = map rlp_encode (tx_items tx)"
  by (simp add: rlp_fields_def tx_items_def rlp_encode_uint_item rlp_encode_u128_item)

section \<open>Properties\<close>

text \<open>RLP is read back.  Every item whose encoding is shorter than \<open>2^64\<close> bytes
  decodes from its encoding to itself, whatever follows; in particular the encoding
  is injective.\<close>

lemma rlp_roundtrip:
  assumes "length (rlp_encode x) < 18446744073709551616"
  shows "dec_item (2 * length (rlp_encode x)) (rlp_encode x @ rest) = Some (x, rest)"
  by (rule dec_item_roundtrip [OF order_refl assms])


definition toy_tx :: eip1559_tx where
  "toy_tx = \<lparr>tx_chain_id = 0, tx_nonce = 0, tx_max_priority_fee_per_gas = 0, tx_max_fee_per_gas = 0, tx_gas_limit = 0,
     tx_to = [], tx_value = 0, tx_data = []\<rparr>"


end
