(* ===== verification/Key_Parse.thy ===== *)
theory Key_Parse
  imports Prelude
begin

text \<open>
  Parsing of keys and of hexadecimal numbers from text (\<open>serialization.rs\<close> and
  the hexadecimal parsers of \<open>payment/rpc.rs\<close>).  Text is the list of its UTF-8
  bytes; slicing inside a character panics.  The base64 crate is a parameter.
\<close>

datatype key_error = IllegalCharacter | IllegalKeySize

text \<open>\<open>char::to_digit(16)\<close>\<close>

definition hex_digit :: "u8 \<Rightarrow> nat option" where
  "hex_digit c = (let n = unat c in
     if 48 \<le> n \<and> n \<le> 57 then Some (n - 48)
     else if 97 \<le> n \<and> n \<le> 102 then Some (n - 87)
     else if 65 \<le> n \<and> n \<le> 70 then Some (n - 55) else None)"

text \<open>\<open>from_str_radix(s, 16)\<close> for an unsigned type below \<open>bound\<close>: a leading plus
  sign is accepted, no digits and overflow are errors.\<close>

fun hex_digits :: "nat \<Rightarrow> nat \<Rightarrow> bytes \<Rightarrow> nat option" where
  "hex_digits bound acc [] = Some acc"
| "hex_digits bound acc (c # cs) = do {
     d \<leftarrow> hex_digit c;
     if bound \<le> 16 * acc + d then None else hex_digits bound (16 * acc + d) cs }"

definition from_str_radix16 :: "nat \<Rightarrow> bytes \<Rightarrow> nat option" where
  "from_str_radix16 bound s =
     (if s = [] \<or> s = [43] \<or> s = [45] then None
      else hex_digits bound 0 (if hd s = 43 then tl s else s))"

text \<open>A UTF-8 continuation byte: an index before it is not a character boundary.\<close>

definition is_continuation :: "u8 \<Rightarrow> bool" where
  "is_continuation c \<longleftrightarrow> 0x80 \<le> c \<and> c < 0xC0"

fun parse_hex_key :: "bytes \<Rightarrow> (key_error + bytes) option" where
  "parse_hex_key (a # b # rest) =
     (if is_continuation a \<or> (rest \<noteq> [] \<and> is_continuation (hd rest)) then None
      else case from_str_radix16 256 [a, b] of
        None \<Rightarrow> Some (Inl IllegalCharacter)
      | Some v \<Rightarrow> map_option (map_sum id (\<lambda>ks. of_nat v # ks)) (parse_hex_key rest))"
| "parse_hex_key _ = Some (Inr [])"

definition key_from_str :: "(bytes \<Rightarrow> bytes option) \<Rightarrow> bytes \<Rightarrow> (key_error + bytes) option" where
  "key_from_str b64_decode s =
     (if length s = 64 then parse_hex_key s
      else if length s = 43 \<or> length s = 44 then
        (case b64_decode s of
           Some decoded_key \<Rightarrow> if length decoded_key = 32 then Some (Inr decoded_key) else Some (Inl IllegalCharacter)
         | None \<Rightarrow> Some (Inr (replicate 32 0)))
      else Some (Inl IllegalKeySize))"

section \<open>Numbers of the RPC\<close>

datatype parse_error = HexDecode | ParseU64 | ParseU128

definition strip_0x :: "bytes \<Rightarrow> bytes" where
  "strip_0x s = (if take 2 s = [48, 120] then drop 2 s else s)"

definition parse_hex_u64 :: "bytes \<Rightarrow> parse_error + u64" where
  "parse_hex_u64 s = (let s = strip_0x s in
     if s = [] then Inr 0
     else case from_str_radix16 (2 ^ 64) s of None \<Rightarrow> Inl ParseU64 | Some n \<Rightarrow> Inr (of_nat n))"

definition parse_hex_u128 :: "bytes \<Rightarrow> parse_error + u128" where
  "parse_hex_u128 s = (let s = strip_0x s in
     if s = [] then Inr 0
     else case from_str_radix16 (2 ^ 128) s of None \<Rightarrow> Inl ParseU128 | Some n \<Rightarrow> Inr (of_nat n))"

definition parse_u256_result :: "bytes \<Rightarrow> u128" where
  "parse_u256_result data =
     (if length data < 32 then 0 else from_be_bytes (drop (length data - 16) data))"

section \<open>Hexadecimal text\<close>

text \<open>The specification: a key as 64 lower-case digits.\<close>

definition hex_char :: "nat \<Rightarrow> u8" where
  "hex_char d = (if d < 10 then of_nat (48 + d) else of_nat (87 + d))"

fun to_hex :: "bytes \<Rightarrow> bytes" where
  "to_hex [] = []"
| "to_hex (b # bs) = hex_char (unat b div 16) # hex_char (unat b mod 16) # to_hex bs"

lemma length_to_hex [simp]: "length (to_hex bs) = 2 * length bs"
  by (induction bs) auto

lemma unat_hex_char: "d < 16 \<Longrightarrow> unat (hex_char d) = (if d < 10 then 48 + d else 87 + d)"
  by (simp add: hex_char_def unat_of_nat del: of_nat_add)

lemma hex_digit_char: "d < 16 \<Longrightarrow> hex_digit (hex_char d) = Some d"
  by (auto simp: hex_digit_def Let_def unat_hex_char)

lemma hex_char_ascii: "d < 16 \<Longrightarrow> \<not> is_continuation (hex_char d) \<and> hex_char d \<noteq> 43"
proof -
  assume d: "d < 16"
  then have "unat (hex_char d) < 128" "unat (hex_char d) \<noteq> 43" by (simp_all add: unat_hex_char)
  then show ?thesis by (auto simp: is_continuation_def word_le_nat_alt)
qed

lemma parse_to_hex: "parse_hex_key (to_hex bs) = Some (Inr bs)"
proof (induction bs)
  case Nil
  then show ?case by simp
next
  case (Cons b bs)
  have b: "unat b div 16 < 16" "unat b mod 16 < 16" using unat_u8_less [of b] by simp_all
  have "unat b = 16 * (unat b div 16) + unat b mod 16" by simp
  then have r: "from_str_radix16 256 [hex_char (unat b div 16), hex_char (unat b mod 16)] = Some (unat b)"
    using unat_u8_less [of b] b hex_char_ascii
    by (simp add: from_str_radix16_def hex_digit_char)
  have "\<not> is_continuation (hd (to_hex bs))" if "to_hex bs \<noteq> []"
  proof (cases bs)
    case (Cons c cs)
    have "unat c div 16 < 16" using unat_u8_less [of c] by simp
    then show ?thesis using hex_char_ascii Cons by simp
  qed (use that in simp)
  then show ?case using r b hex_char_ascii Cons by auto
qed

section \<open>Properties\<close>

text \<open>Keys in hexadecimal round trip: the 64 digits of a 32-byte key parse to
  it.\<close>

lemma hex_key_roundtrip:
  assumes "length k = 32"
  shows "key_from_str b64 (to_hex k) = Some (Inr k)"
  using assms by (simp add: key_from_str_def parse_to_hex)

text \<open>A mistyped base64 key is not refused: text of 43 or 44 bytes that is not
  base64 parses as the all-zero key.\<close>

lemma invalid_base64_is_zero_key:
  assumes "b64 s = None" "length s = 43 \<or> length s = 44"
  shows "key_from_str b64 s = Some (Inr (replicate 32 0))"
  using assms by (auto simp: key_from_str_def)

end
