(* ===== verification/Deposit.thy ===== *)
theory Deposit
  imports Payment_Config Tx_Rlp Key_Parse
begin

text \<open>
  The automatic deposit of a client into the gateway wallet (\<open>payment/deposit.rs\<close>,
  with the calls of \<open>payment/rpc.rs\<close>).  The node behind the RPC is a parameter: a
  function from the log of the requests made so far and the request to its answer, so
  that its answers may change over time.  Every call appends its request to the log.
  Hexadecimal coding is a parameter as well; addresses and data of a request are kept
  as bytes, before that coding.
\<close>

section \<open>RPC calls\<close>

text \<open>What the code observes of a JSON value: \<open>null\<close>, a string, a receipt object with its
  \<open>status\<close> member, or anything else.\<close>

datatype json = JNull | JStr bytes | JReceipt json | JOther

fun as_str :: "json \<Rightarrow> bytes option" where
  "as_str (JStr s) = Some s"
| "as_str _ = None"

datatype rpc_request =
    EthCall bytes bytes
  | GetTransactionCount bytes
  | GasPrice
  | MaxPriorityFeePerGas
  | EstimateGas bytes bytes bytes
  | SendRawTransaction bytes
  | GetTransactionReceipt bytes

datatype deposit_error =
    RpcFailed bytes
  | NotAString
  | BadHex
  | BadNumber
  | NoTxHash
  | ReceiptTimeout
  | NoUsdc bytes
  | BalanceTooLow
  | Reverted bytes

type_synonym rpc_log = "rpc_request list"
type_synonym rpc = "rpc_log \<Rightarrow> rpc_request \<Rightarrow> bytes + json"
type_synonym 'a io = "rpc_log \<Rightarrow> (deposit_error + 'a) \<times> rpc_log"

definition io_return :: "'a \<Rightarrow> 'a io" where "io_return x log = (Inr x, log)"
definition io_fail :: "deposit_error \<Rightarrow> 'a io" where "io_fail e log = (Inl e, log)"

definition io_bind :: "'a io \<Rightarrow> ('a \<Rightarrow> 'b io) \<Rightarrow> 'b io" where
  "io_bind m k log = (case m log of (Inl e, log) \<Rightarrow> (Inl e, log) | (Inr x, log) \<Rightarrow> k x log)"

text \<open>\<open>unwrap_or\<close> on the result of a call.\<close>

definition io_or :: "'a io \<Rightarrow> 'a \<Rightarrow> 'a io" where
  "io_or m dflt log = (case m log of (Inl e, log) \<Rightarrow> (Inr dflt, log) | (Inr x, log) \<Rightarrow> (Inr x, log))"

definition io_lift :: "deposit_error + 'a \<Rightarrow> 'a io" where "io_lift r log = (r, log)"

definition rpc_call :: "rpc \<Rightarrow> rpc_request \<Rightarrow> json io" where
  "rpc_call rpc req log = (map_sum RpcFailed id (rpc log req), log @ [req])"

definition decode_hex :: "(bytes \<Rightarrow> bytes option) \<Rightarrow> bytes \<Rightarrow> deposit_error + bytes" where
  "decode_hex hex_decode s = (let s = strip_0x s in
     if s = [] then Inr [] else case hex_decode s of Some b \<Rightarrow> Inr b | None \<Rightarrow> Inl BadHex)"

definition eth_call :: "(bytes \<Rightarrow> bytes option) \<Rightarrow> rpc \<Rightarrow> bytes \<Rightarrow> bytes \<Rightarrow> bytes io" where
  "eth_call hex_decode rpc to data = io_bind (rpc_call rpc (EthCall to data)) (\<lambda>result.
     case as_str result of None \<Rightarrow> io_fail NotAString | Some hex_str \<Rightarrow> io_lift (decode_hex hex_decode hex_str))"

definition str_or_0x0 :: "json \<Rightarrow> bytes" where
  "str_or_0x0 j = (case as_str j of Some s \<Rightarrow> s | None \<Rightarrow> ascii ''0x0'')"

definition get_nonce :: "rpc \<Rightarrow> bytes \<Rightarrow> u64 io" where
  "get_nonce rpc addr = io_bind (rpc_call rpc (GetTransactionCount addr)) (\<lambda>result.
     io_lift (map_sum (\<lambda>_. BadNumber) id (parse_hex_u64 (str_or_0x0 result))))"

definition gas_price :: "rpc \<Rightarrow> u128 io" where
  "gas_price rpc = io_bind (rpc_call rpc GasPrice) (\<lambda>result.
     io_lift (map_sum (\<lambda>_. BadNumber) id (parse_hex_u128 (str_or_0x0 result))))"

definition max_priority_fee :: "rpc \<Rightarrow> u128 io" where
  "max_priority_fee rpc = io_bind (rpc_call rpc MaxPriorityFeePerGas) (\<lambda>result.
     io_lift (map_sum (\<lambda>_. BadNumber) id (parse_hex_u128 (str_or_0x0 result))))"

definition estimate_gas :: "rpc \<Rightarrow> bytes \<Rightarrow> bytes \<Rightarrow> bytes \<Rightarrow> u64 io" where
  "estimate_gas rpc from_addr to data = io_bind (rpc_call rpc (EstimateGas from_addr to data)) (\<lambda>result.
     io_lift (map_sum (\<lambda>_. BadNumber) id (parse_hex_u64 (str_or_0x0 result))))"

definition send_raw_tx :: "rpc \<Rightarrow> bytes \<Rightarrow> bytes io" where
  "send_raw_tx rpc raw_tx = io_bind (rpc_call rpc (SendRawTransaction raw_tx)) (\<lambda>result.
     case as_str result of Some s \<Rightarrow> io_return s | None \<Rightarrow> io_fail NoTxHash)"

definition get_receipt :: "rpc \<Rightarrow> bytes \<Rightarrow> json option io" where
  "get_receipt rpc tx_hash = io_bind (rpc_call rpc (GetTransactionReceipt tx_hash)) (\<lambda>result.
     io_return (if result = JNull then None else Some result))"

definition receipt_status :: "json \<Rightarrow> bytes" where
  "receipt_status receipt = str_or_0x0 (case receipt of JReceipt status \<Rightarrow> status | _ \<Rightarrow> JNull)"

fun wait_for_receipt :: "rpc \<Rightarrow> bytes \<Rightarrow> nat \<Rightarrow> bool io" where
  "wait_for_receipt rpc tx_hash 0 = io_fail ReceiptTimeout"
| "wait_for_receipt rpc tx_hash (Suc n) = io_bind (get_receipt rpc tx_hash) (\<lambda>r.
     case r of Some receipt \<Rightarrow> io_return (receipt_status receipt = ascii ''0x1'')
     | None \<Rightarrow> wait_for_receipt rpc tx_hash n)"

section \<open>The deposit\<close>

definition SEL_BALANCE_OF :: bytes where "SEL_BALANCE_OF = [0x70, 0xa0, 0x82, 0x31]"
definition SEL_AVAILABLE_BALANCE :: bytes where "SEL_AVAILABLE_BALANCE = [0x3c, 0xcb, 0x64, 0xae]"
definition SEL_DEPOSIT_WITH_AUTH :: bytes where "SEL_DEPOSIT_WITH_AUTH = [0x8a, 0x94, 0xd4, 0xfc]"
definition GAS_RESERVE :: u128 where "GAS_RESERVE = 100000"

definition query_balance :: "(bytes \<Rightarrow> bytes option) \<Rightarrow> rpc \<Rightarrow> bytes \<Rightarrow> bytes \<Rightarrow> u128 io" where
  "query_balance hex_decode rpc token addr =
     io_bind (eth_call hex_decode rpc token (SEL_BALANCE_OF @ abi_encode_address addr))
       (\<lambda>result. io_return (parse_u256_result result))"

definition query_gateway_balance ::
  "(bytes \<Rightarrow> bytes option) \<Rightarrow> rpc \<Rightarrow> bytes \<Rightarrow> bytes \<Rightarrow> bytes \<Rightarrow> u128 io" where
  "query_gateway_balance hex_decode rpc gateway token addr =
     io_bind (eth_call hex_decode rpc gateway
         (SEL_AVAILABLE_BALANCE @ abi_encode_address token @ abi_encode_address addr))
       (\<lambda>result. io_return (parse_u256_result result))"

definition receive_struct_data ::
  "eth \<Rightarrow> bytes \<Rightarrow> bytes \<Rightarrow> u128 \<Rightarrow> u64 \<Rightarrow> u64 \<Rightarrow> bytes \<Rightarrow> bytes" where
  "receive_struct_data et addr gateway amount valid_after valid_before nonce =
     et_keccak et (ascii ''ReceiveWithAuthorization(address from,address to,uint256 value,uint256 validAfter,uint256 validBefore,bytes32 nonce)'') @
     abi_encode_address addr @ abi_encode_address gateway @ abi_encode_u256 amount @
     abi_encode_u256 (ucast valid_after) @ abi_encode_u256 (ucast valid_before) @ nonce"

definition deposit_digest :: "eth \<Rightarrow> payment_config \<Rightarrow> bytes \<Rightarrow> u128 \<Rightarrow> u64 \<Rightarrow> u64 \<Rightarrow> bytes \<Rightarrow> bytes" where
  "deposit_digest et config addr amount valid_after valid_before nonce =
     et_keccak et ([0x19, 0x01] @ compute_domain_separator et (usdc_domain config) @
       et_keccak et (receive_struct_data et addr (pc_gateway_wallet config) amount valid_after valid_before nonce))"

definition deposit_calldata ::
  "payment_config \<Rightarrow> bytes \<Rightarrow> u128 \<Rightarrow> u64 \<Rightarrow> u64 \<Rightarrow> bytes \<Rightarrow> u8 \<Rightarrow> bytes \<Rightarrow> bytes \<Rightarrow> bytes" where
  "deposit_calldata config addr amount valid_after valid_before nonce v r s =
     SEL_DEPOSIT_WITH_AUTH @ abi_encode_address (pc_usdc_contract config) @ abi_encode_address addr @
     abi_encode_u256 amount @ abi_encode_u256 (ucast valid_after) @ abi_encode_u256 (ucast valid_before) @
     nonce @ abi_encode_u256 (ucast v) @ r @ s"

definition saturating_add :: "u128 \<Rightarrow> u128 \<Rightarrow> u128" where
  "saturating_add a b = (if a + b < a then - 1 else a + b)"

definition saturating_sub :: "u128 \<Rightarrow> u128 \<Rightarrow> u128" where
  "saturating_sub a b = (if a < b then 0 else a - b)"

text \<open>The random nonce and the clock are arguments.\<close>

definition deposit_with_authorization ::
  "eth \<Rightarrow> payment_wallet \<Rightarrow> payment_config \<Rightarrow> rpc \<Rightarrow> u128 \<Rightarrow> bytes \<Rightarrow> u64 \<Rightarrow> bytes io" where
  "deposit_with_authorization et wallet config rpc amount nonce now =
     (let addr = pw_ethereum_address wallet; valid_after = 0; valid_before = now + 600;
          (v, r, s) = sign_digest et wallet (deposit_digest et config addr amount valid_after valid_before nonce);
          calldata = deposit_calldata config addr amount valid_after valid_before nonce v r s
      in io_bind (get_nonce rpc addr) (\<lambda>txn_nonce.
         io_bind (io_or (max_priority_fee rpc) 1000000) (\<lambda>priority_fee.
         io_bind (gas_price rpc) (\<lambda>base_fee.
         io_bind (io_or (io_bind (estimate_gas rpc addr (pc_gateway_wallet config) calldata)
             (\<lambda>g. io_return (g * 130 div 100))) 200000) (\<lambda>gas_limit.
         let tx = \<lparr>tx_chain_id = pc_chain_id config, tx_nonce = txn_nonce,
               tx_max_priority_fee_per_gas = priority_fee, tx_max_fee_per_gas = saturating_add base_fee priority_fee,
               tx_gas_limit = gas_limit, tx_to = pc_gateway_wallet config, tx_value = 0, tx_data = calldata\<rparr>
         in send_raw_tx rpc (tx_sign et tx (pw_signing_key wallet)))))))"

definition already_deposited :: bytes where "already_deposited = ascii ''already_deposited''"

definition auto_deposit ::
  "(bytes \<Rightarrow> bytes option) \<Rightarrow> eth \<Rightarrow> payment_wallet \<Rightarrow> payment_config \<Rightarrow> rpc \<Rightarrow> bytes \<Rightarrow> u64 \<Rightarrow> bytes io" where
  "auto_deposit hex_decode et wallet config rpc nonce now =
     (let addr = pw_ethereum_address wallet in
      io_bind (query_balance hex_decode rpc (pc_usdc_contract config) addr) (\<lambda>usdc_balance.
      io_bind (query_gateway_balance hex_decode rpc (pc_gateway_wallet config) (pc_usdc_contract config) addr) (\<lambda>gw_balance.
      if usdc_balance = 0 \<and> gw_balance = 0 then io_fail (NoUsdc addr)
      else if usdc_balance = 0 then io_return already_deposited
      else let deposit_amount = saturating_sub usdc_balance GAS_RESERVE in
        if deposit_amount = 0 then io_fail BalanceTooLow
        else io_bind (deposit_with_authorization et wallet config rpc deposit_amount nonce now) (\<lambda>tx_hash.
          io_bind (wait_for_receipt rpc tx_hash 30) (\<lambda>success.
            if success then io_return tx_hash else io_fail (Reverted tx_hash))))))"

section \<open>Logs of calls\<close>

text \<open>The transactions of a log.  A call that adds no transaction is \<open>quiet\<close>.\<close>

fun sent :: "rpc_log \<Rightarrow> bytes list" where
  "sent [] = []"
| "sent (SendRawTransaction raw # log) = raw # sent log"
| "sent (_ # log) = sent log"

lemma sent_append [simp]: "sent (xs @ ys) = sent xs @ sent ys"
  by (induction xs rule: sent.induct) auto

definition quiet :: "'a io \<Rightarrow> bool" where
  "quiet m \<longleftrightarrow> (\<forall>log r log'. m log = (r, log') \<longrightarrow> sent log' = sent log)"

named_theorems quiet_rules "calls that send no transaction"

lemma quiet_return [quiet_rules]: "quiet (io_return x)"
  and quiet_fail [quiet_rules]: "quiet (io_fail e)"
  and quiet_lift [quiet_rules]: "quiet (io_lift r)"
  by (simp_all add: quiet_def io_return_def io_fail_def io_lift_def)

lemma quiet_bind [quiet_rules]: "quiet m \<Longrightarrow> (\<And>x. quiet (k x)) \<Longrightarrow> quiet (io_bind m k)"
  unfolding quiet_def io_bind_def by (auto split: prod.splits sum.splits)

lemma quiet_or [quiet_rules]: "quiet m \<Longrightarrow> quiet (io_or m d)"
  unfolding quiet_def io_or_def by (auto split: prod.splits sum.splits)

lemma quiet_call [quiet_rules]: "sent [req] = [] \<Longrightarrow> quiet (rpc_call rpc req)"
  by (auto simp: quiet_def rpc_call_def)

lemma quiet_calls [quiet_rules]:
  "quiet (eth_call hxd rpc to data)" "quiet (get_nonce rpc addr)" "quiet (gas_price rpc)"
  "quiet (max_priority_fee rpc)" "quiet (estimate_gas rpc fr to data)" "quiet (get_receipt rpc h)"
  unfolding eth_call_def get_nonce_def gas_price_def max_priority_fee_def estimate_gas_def get_receipt_def
  by (intro quiet_rules; simp split: option.split add: quiet_rules)+

lemma quiet_wait [quiet_rules]: "quiet (wait_for_receipt rpc h n)"
  by (induction n) (auto intro!: quiet_rules split: option.split)

lemma quiet_queries [quiet_rules]:
  "quiet (query_balance hxd rpc token addr)" "quiet (query_gateway_balance hxd rpc gw token addr)"
  unfolding query_balance_def query_gateway_balance_def by (intro quiet_rules)+

lemma io_bind_Inr: "m log = (Inr x, log1) \<Longrightarrow> io_bind m k log = k x log1"
  by (simp add: io_bind_def)

lemma io_bind_cases:
  assumes "io_bind m k log = (r, log')" "quiet m"
  obtains (err) e where "m log = (Inl e, log')" "r = Inl e" "sent log' = sent log"
    | (ok) x log1 where "m log = (Inr x, log1)" "k x log1 = (r, log')" "sent log1 = sent log"
  using assms unfolding quiet_def io_bind_def by (auto split: prod.splits sum.splits)

text \<open>The transactions a deposit may send.\<close>

definition deposit_tx :: "eth \<Rightarrow> payment_wallet \<Rightarrow> payment_config \<Rightarrow> u128 \<Rightarrow> bytes \<Rightarrow> u64 \<Rightarrow> bytes \<Rightarrow> bool" where
  "deposit_tx et wallet config amount nonce now raw \<longleftrightarrow> (\<exists>tx v r s.
     raw = tx_sign et tx (pw_signing_key wallet) \<and> tx_to tx = pc_gateway_wallet config \<and> tx_value tx = 0 \<and>
     tx_chain_id tx = pc_chain_id config \<and>
     sign_digest et wallet (deposit_digest et config (pw_ethereum_address wallet) amount 0 (now + 600) nonce) = (v, r, s) \<and>
     tx_data tx = deposit_calldata config (pw_ethereum_address wallet) amount 0 (now + 600) nonce v r s)"

lemma send_raw_tx_log: "send_raw_tx rpc raw log = (r, log') \<Longrightarrow> log' = log @ [SendRawTransaction raw]"
  by (auto simp: send_raw_tx_def io_bind_def rpc_call_def io_return_def io_fail_def
      split: sum.splits option.splits prod.splits)

lemma deposit_txI:
  assumes "sign_digest et wallet (deposit_digest et config (pw_ethereum_address wallet) amount 0 (now + 600) nonce) = (v, r, s)"
  shows "deposit_tx et wallet config amount nonce now (tx_sign et \<lparr>tx_chain_id = pc_chain_id config, tx_nonce = n,
      tx_max_priority_fee_per_gas = f, tx_max_fee_per_gas = g, tx_gas_limit = l, tx_to = pc_gateway_wallet config,
      tx_value = 0, tx_data = deposit_calldata config (pw_ethereum_address wallet) amount 0 (now + 600) nonce v r s\<rparr>
    (pw_signing_key wallet))"
  unfolding deposit_tx_def
  by (rule exI, rule exI [of _ v], rule exI [of _ r], rule exI [of _ s], rule conjI, rule refl) (simp add: assms)

lemma deposit_with_authorization_sends:
  assumes "deposit_with_authorization et wallet config rpc amount nonce now log = (res, log')"
  shows "sent log' = sent log \<or> (\<exists>raw. sent log' = sent log @ [raw] \<and> deposit_tx et wallet config amount nonce now raw)"
proof -
  let ?addr = "pw_ethereum_address wallet"
  obtain v r s where sg: "sign_digest et wallet (deposit_digest et config ?addr amount 0 (now + 600) nonce) = (v, r, s)"
    by (metis prod_cases3)
  let ?cd = "deposit_calldata config ?addr amount 0 (now + 600) nonce v r s"
  have q: "quiet (io_or (max_priority_fee rpc) 1000000)"
    "quiet (io_or (io_bind (estimate_gas rpc ?addr (pc_gateway_wallet config) ?cd)
       (\<lambda>g. io_return (g * 130 div 100))) 200000)"
    by (intro quiet_rules)+
  show ?thesis using assms unfolding deposit_with_authorization_def Let_def sg prod.case
    by (elim io_bind_cases [OF _ quiet_calls(2)] io_bind_cases [OF _ q(1)] io_bind_cases [OF _ quiet_calls(3)]
        io_bind_cases [OF _ q(2)]) (auto dest!: send_raw_tx_log intro: deposit_txI [OF sg])
qed

section \<open>Properties\<close>


lemma wait_for_receipt_ok:
  assumes "wait_for_receipt rpc h n log = (Inr b, log')"
  shows "\<exists>k j. k \<le> n \<and> rpc (log @ replicate k (GetTransactionReceipt h)) (GetTransactionReceipt h) = Inr j \<and>
    j \<noteq> JNull \<and> b = (receipt_status j = ascii ''0x1'') \<and> log' = log @ replicate (Suc k) (GetTransactionReceipt h)"
  using assms
proof (induction n arbitrary: log)
  case 0
  then show ?case by (simp add: io_fail_def)
next
  case (Suc n)
  let ?q = "GetTransactionReceipt h"
  obtain j where j: "rpc log ?q = Inr j"
    using Suc.prems
    by (cases "rpc log ?q") (auto simp: io_bind_def get_receipt_def rpc_call_def)
  show ?case
  proof (cases "j = JNull")
    case True
    then have "wait_for_receipt rpc h n (log @ [?q]) = (Inr b, log')"
      using Suc.prems j by (simp add: io_bind_def get_receipt_def rpc_call_def io_return_def)
    from Suc.IH [OF this] obtain k j' where "k \<le> n" "rpc ((log @ [?q]) @ replicate k ?q) ?q = Inr j'" "j' \<noteq> JNull"
        "b = (receipt_status j' = ascii ''0x1'')" "log' = (log @ [?q]) @ replicate (Suc k) ?q"
      by blast
    then show ?thesis by (intro exI [of _ "Suc k"] exI [of _ j']) simp
  next
    case False
    then show ?thesis using Suc.prems j
      by (intro exI [of _ 0] exI [of _ j]) (simp add: io_bind_def get_receipt_def rpc_call_def io_return_def)
  qed
qed

text \<open>The outcome is honest.  \<open>auto_deposit\<close> returns a hash only for a transaction
  whose receipt had status \<open>0x1\<close>, after at most 30 polls; otherwise it returns
  \<open>already_deposited\<close> (then nothing was sent) or an error.\<close>

lemma auto_deposit_outcome:
  assumes "auto_deposit hex_decode et wallet config rpc nonce now [] = (Inr h, log)"
  shows "(h = already_deposited \<and> sent log = []) \<or>
    (\<exists>log1 k j. k \<le> 30 \<and> rpc (log1 @ replicate k (GetTransactionReceipt h)) (GetTransactionReceipt h) = Inr j \<and>
       receipt_status j = ascii ''0x1'' \<and> log = log1 @ replicate (Suc k) (GetTransactionReceipt h))"
proof (rule io_bind_cases [OF assms [unfolded auto_deposit_def Let_def] quiet_queries(1)], goal_cases)
  case (1 e)
  then show ?case by simp
next
  case (2 balance log1)
  note s1 = 2(3)
  show ?case
  proof (rule io_bind_cases [OF 2(2) quiet_queries(2)], goal_cases)
    case (1 e)
    then show ?case by simp
  next
    case (2 gw log2)
    show ?case
    proof (cases "balance = 0 \<or> saturating_sub balance GAS_RESERVE = 0")
      case True
      then show ?thesis using 2(2,3) s1 by (auto simp: io_fail_def io_return_def split: if_splits)
    next
      case False
      from 2(2) False obtain h' log3 log4 where
        w: "wait_for_receipt rpc h' 30 log3 = (Inr True, log4)" "h = h'" "log = log4"
        by (auto simp: io_bind_def io_return_def io_fail_def split: sum.splits prod.splits if_splits)
      from wait_for_receipt_ok [OF w(1)] w(2,3) show ?thesis by metis
    qed
  qed
qed

section \<open>Witnesses\<close>

text \<open>A node that reports a balance of 300000 and confirms the transaction.\<close>

definition toy_rpc :: rpc where
  "toy_rpc log req = Inr (case req of
     EthCall to data \<Rightarrow> JStr (ascii ''0x1'')
   | SendRawTransaction raw \<Rightarrow> JStr [1]
   | GetTransactionReceipt h \<Rightarrow> JReceipt (JStr (ascii ''0x1''))
   | _ \<Rightarrow> JStr (ascii ''0x1''))"

definition toy_wallet :: payment_wallet where
  "toy_wallet = \<lparr>pw_signing_key = replicate 32 1, pw_ethereum_address = replicate 20 2\<rparr>"

abbreviation "toy_hex \<equiv> (\<lambda>_. Some (replicate 16 0 @ to_be_bytes (300000 :: u128)))"

lemma toy_query: "query_balance toy_hex toy_rpc token addr log =
    (Inr 300000, log @ [EthCall token (SEL_BALANCE_OF @ abi_encode_address addr)])"
  and toy_query_gateway: "query_gateway_balance toy_hex toy_rpc gw token addr log =
    (Inr 300000, log @ [EthCall gw (SEL_AVAILABLE_BALANCE @ abi_encode_address token @ abi_encode_address addr)])"
  by (simp_all add: query_balance_def query_gateway_balance_def eth_call_def io_bind_def rpc_call_def toy_rpc_def
      io_lift_def decode_hex_def strip_0x_def ascii_def io_return_def parse_u256_result_def)

lemma toy_calls:
  "get_nonce toy_rpc addr log = (Inr 1, log @ [GetTransactionCount addr])"
  "gas_price toy_rpc log = (Inr 1, log @ [GasPrice])"
  "max_priority_fee toy_rpc log = (Inr 1, log @ [MaxPriorityFeePerGas])"
  "estimate_gas toy_rpc fr to data log = (Inr 1, log @ [EstimateGas fr to data])"
  "send_raw_tx toy_rpc raw log = (Inr [1], log @ [SendRawTransaction raw])"
  "wait_for_receipt toy_rpc h (Suc n) log = (Inr True, log @ [GetTransactionReceipt h])"
  by (simp_all add: get_nonce_def gas_price_def max_priority_fee_def estimate_gas_def send_raw_tx_def get_receipt_def
      io_bind_def rpc_call_def toy_rpc_def io_lift_def io_return_def str_or_0x0_def parse_hex_u64_def parse_hex_u128_def
      strip_0x_def ascii_def from_str_radix16_def hex_digit_def receipt_status_def)

lemma toy_wait: "wait_for_receipt toy_rpc h 30 log = (Inr True, log @ [GetTransactionReceipt h])"
  using toy_calls(6) [of h 29 log] by simp

lemma toy_deposit:
  "\<exists>raw log. auto_deposit toy_hex toy_eth toy_wallet toy_config toy_rpc (replicate 32 7) 1000 [] = (Inr [1], log) \<and>
    sent log = [raw]"
  by (simp add: auto_deposit_def toy_query toy_query_gateway io_bind_def Let_def saturating_sub_def GAS_RESERVE_def
      deposit_with_authorization_def toy_calls(1-5) toy_wait io_or_def io_return_def split_beta)


end
