(* ===== verification/Device.thy ===== *)
theory Device
  imports Peer Index_Lfsr Deposit "HOL-Library.AList"
begin

text \<open>
  The device (\<open>device/mod.rs\<close>): its key, its peers and the three tables that lead to
  them, and the configuration operations.  A peer is a shared object
  (\<open>Arc<Mutex<Peer>>\<close>): \<open>dv_heap\<close> holds the peers by address and the tables hold
  addresses, so that a change through one table is seen through the others.  Rate
  limiters are shared in the same way (\<open>dv_limiters\<close>).  A hash map is an association
  list in its iteration order.  Sockets and the event queue belong to the operating
  system; the model keeps whether they are open.
\<close>

section \<open>State\<close>

definition HANDSHAKE_RATE_LIMIT :: u64 where "HANDSHAKE_RATE_LIMIT = 100"
definition PEER_HANDSHAKE_RATE_LIMIT :: u64 where "PEER_HANDSHAKE_RATE_LIMIT = 10"
definition MAX_UDP_SIZE :: nat where "MAX_UDP_SIZE = 65535"
definition MAX_ITR :: nat where "MAX_ITR = 100"
definition MAX_PAYMENT_PACKET_SIZE :: nat where "MAX_PAYMENT_PACKET_SIZE = 512"

record ('u, 't) device =
  dv_key_pair :: "(bytes \<times> bytes) option"
  dv_listen_port :: u16
  dv_fwmark :: "u32 option"
  dv_udp4 :: bool
  dv_udp6 :: bool
  dv_heap :: "'u peer list"
  dv_limiters :: "rate_limiter list"
  dv_peers :: "(bytes \<times> nat) list"
  dv_peers_by_ip :: 't
  dv_peers_by_idx :: "(u32 \<times> nat) list"
  dv_next_index :: index_lfsr
  dv_use_connected_socket :: bool
  dv_mtu :: nat
  dv_rate_limiter :: "nat option"
  dv_payment_wallet :: "payment_wallet option"
  dv_payment_config :: payment_config
  dv_settlement_client :: "bytes option"
  dv_rpc_log :: rpc_log

text \<open>The code the device calls that is not part of the sources.\<close>

record ('u, 't) ext =
  ex_cr :: crypto
  ex_et :: eth
  ex_net :: ip_net
  ex_ptab :: "('u, unit) ip_table"
  ex_dtab :: "('t, nat) ip_table"
  ex_hex_encode :: "bytes \<Rightarrow> bytes"
  ex_hex_decode :: "bytes \<Rightarrow> bytes option"
  ex_rpc :: rpc

text \<open>What a configuration call reads from outside: random draws and clocks.\<close>

record dev_env =
  de_stamper :: time_stamper
  de_now :: nat
  de_secret_key :: bytes
  de_nonce_key :: bytes
  de_nonce :: bytes
  de_unix_secs :: u64

definition device_new :: "('u, 't) ext \<Rightarrow> index_lfsr \<Rightarrow> nat \<Rightarrow> bool \<Rightarrow> payment_config \<Rightarrow> ('u, 't) device" where
  "device_new ex lfsr mtu use_connected config =
     \<lparr>dv_key_pair = None, dv_listen_port = 0, dv_fwmark = None, dv_udp4 = False, dv_udp6 = False,
      dv_heap = [], dv_limiters = [], dv_peers = [], dv_peers_by_ip = aips_new (ex_dtab ex), dv_peers_by_idx = [],
      dv_next_index = lfsr, dv_use_connected_socket = use_connected, dv_mtu = mtu, dv_rate_limiter = None,
      dv_payment_wallet = None, dv_payment_config = config, dv_settlement_client = None, dv_rpc_log = []\<rparr>"

section \<open>Configuration\<close>

definition remove_peer :: "('u, 't) ext \<Rightarrow> ('u, 't) device \<Rightarrow> bytes \<Rightarrow> ('u, 't) device" where
  "remove_peer ex d pub_key = (case map_of (dv_peers d) pub_key of
     None \<Rightarrow> d
   | Some peer \<Rightarrow>
     let d = d\<lparr>dv_peers := AList.delete pub_key (dv_peers d)\<rparr>;
         p = shutdown_endpoint (dv_heap d ! peer)
     in d\<lparr>dv_heap := (dv_heap d)[peer := p],
          dv_peers_by_idx := AList.delete (pe_index p) (dv_peers_by_idx d),
          dv_peers_by_ip := aips_remove (ex_dtab ex) (dv_peers_by_ip d) (\<lambda>q. q = peer)\<rparr>)"

text \<open>A new peer has a limiter of its own.\<close>

definition update_peer ::
  "('u, 't) ext \<Rightarrow> ('u, 't) device \<Rightarrow> bytes \<Rightarrow> bool \<Rightarrow> bool \<Rightarrow> sock_addr option \<Rightarrow> allowed_ip list \<Rightarrow> u16 option \<Rightarrow>
    bytes option \<Rightarrow> dev_env \<Rightarrow> ('u, 't) device option" where
  "update_peer ex d pub_key remove replace_ips endpoint allowed_ips keepalive preshared_key ev =
     (if remove then Some (remove_peer ex d pub_key)
      else if map_of (dv_peers d) pub_key \<noteq> None then None
      else do {
        (next_index, lfsr) \<leftarrow> lfsr_next (dv_next_index d);
        device_key_pair \<leftarrow> dv_key_pair d;
        let private = fst device_key_pair;
        let limiter = rate_limiter_new (ex_cr ex) (cr_pub (ex_cr ex) private) PEER_HANDSHAKE_RATE_LIMIT
              (de_secret_key ev) (de_nonce_key ev) (de_now ev);
        let t = tunn_new (ex_cr ex) private pub_key preshared_key keepalive next_index True
              (de_stamper ev) (de_now ev);
        p \<leftarrow> peer_new (ex_net ex) (ex_ptab ex) t (length (dv_limiters d)) next_index endpoint allowed_ips preshared_key;
        let p = p\<lparr>pe_quota := Some (quota_new DEFAULT_QUOTA_BYTES)\<rparr>;
        let peer = length (dv_heap d);
        by_ip \<leftarrow> aips_insert_all (ex_net ex) (ex_dtab ex) (dv_peers_by_ip d) (map (\<lambda>ip. (ip, peer)) allowed_ips);
        Some (d\<lparr>dv_next_index := lfsr, dv_limiters := dv_limiters d @ [limiter], dv_heap := dv_heap d @ [p],
          dv_peers := AList.update pub_key peer (dv_peers d),
          dv_peers_by_idx := AList.update next_index peer (dv_peers_by_idx d), dv_peers_by_ip := by_ip\<rparr>) })"

definition clear_peers :: "('u, 't) ext \<Rightarrow> ('u, 't) device \<Rightarrow> ('u, 't) device" where
  "clear_peers ex d = d\<lparr>dv_peers := [], dv_peers_by_idx := [],
     dv_peers_by_ip := aips_clear (ex_dtab ex) (dv_peers_by_ip d)\<rparr>"

fun rekey_all :: "crypto \<Rightarrow> bytes \<Rightarrow> bytes \<Rightarrow> nat \<Rightarrow> 'u peer list \<Rightarrow> nat list \<Rightarrow> 'u peer list option" where
  "rekey_all cr private_key public_key limiter heap [] = Some heap"
| "rekey_all cr private_key public_key limiter heap (peer # rest) = do {
     t \<leftarrow> tunn_set_static_private cr (pe_tunnel (heap ! peer)) private_key public_key False;
     rekey_all cr private_key public_key limiter
       (heap[peer := (heap ! peer)\<lparr>pe_tunnel := t, pe_limiter := limiter\<rparr>]) rest }"

text \<open>\<open>trim_end_matches('/')\<close>\<close>

definition settlement_client_new :: "bytes \<Rightarrow> bytes" where
  "settlement_client_new base_url = rev (dropWhile (\<lambda>c. c = 47) (rev base_url))"

definition set_key ::
  "('u, 't) ext \<Rightarrow> ('u, 't) device \<Rightarrow> bytes \<Rightarrow> dev_env \<Rightarrow> ('u, 't) device option" where
  "set_key ex d private_key ev =
     (let cr = ex_cr ex; public_key = cr_pub cr private_key in
      if Some public_key = map_option snd (dv_key_pair d) then Some d
      else do {
        let limiter = rate_limiter_new cr public_key HANDSHAKE_RATE_LIMIT (de_secret_key ev) (de_nonce_key ev) (de_now ev);
        let rl = length (dv_limiters d);
        heap \<leftarrow> rekey_all cr private_key public_key rl (dv_heap d) (map snd (dv_peers d));
        let d = d\<lparr>dv_limiters := dv_limiters d @ [limiter], dv_heap := heap,
              dv_key_pair := Some (private_key, public_key), dv_rate_limiter := Some rl\<rparr>;
        wallet \<leftarrow> from_wireguard_key (ex_et ex) private_key;
        let config = dv_payment_config d;
        let d = (if \<not> pc_is_server config
              then d\<lparr>dv_rpc_log := snd (auto_deposit (ex_hex_decode ex) (ex_et ex) wallet config (ex_rpc ex)
                (de_nonce ev) (de_unix_secs ev) (dv_rpc_log d))\<rparr> else d);
        let d = d\<lparr>dv_payment_wallet := Some wallet\<rparr>;
        Some (if pc_is_server config
          then d\<lparr>dv_settlement_client := Some (settlement_client_new (pc_gateway_api_url config))\<rparr> else d) })"

text \<open>The port the system binds, or \<open>None\<close> when opening the sockets failed.\<close>

definition shutdown_all :: "'u peer list \<Rightarrow> nat list \<Rightarrow> 'u peer list" where
  "shutdown_all heap peers = foldl (\<lambda>h a. h[a := shutdown_endpoint (h ! a)]) heap peers"

definition open_listen_socket :: "('u, 't) device \<Rightarrow> u16 option \<Rightarrow> bool \<times> ('u, 't) device" where
  "open_listen_socket d bound =
     (let d = d\<lparr>dv_udp4 := False, dv_udp6 := False, dv_heap := shutdown_all (dv_heap d) (map snd (dv_peers d))\<rparr> in
      case bound of None \<Rightarrow> (False, d)
      | Some port \<Rightarrow> (True, d\<lparr>dv_udp4 := True, dv_udp6 := True, dv_listen_port := port\<rparr>))"

text \<open>The marks of the sockets belong to the operating system.\<close>

definition set_fwmark :: "('u, 't) device \<Rightarrow> u32 \<Rightarrow> ('u, 't) device" where
  "set_fwmark d mark = d\<lparr>dv_fwmark := Some mark\<rparr>"

section \<open>Configuration calls as steps\<close>

datatype dev_op =
    SetKey bytes dev_env
  | UpdatePeer bytes bool bool "sock_addr option" "allowed_ip list" "u16 option" "bytes option" dev_env
  | ClearPeers
  | OpenListenSocket "u16 option"
  | SetFwmark u32

fun dev_step :: "('u, 't) ext \<Rightarrow> ('u, 't) device \<Rightarrow> dev_op \<Rightarrow> ('u, 't) device option" where
  "dev_step ex d (SetKey k ev) = set_key ex d k ev"
| "dev_step ex d (UpdatePeer k rem rep ep ips ka psk ev) = update_peer ex d k rem rep ep ips ka psk ev"
| "dev_step ex d ClearPeers = Some (clear_peers ex d)"
| "dev_step ex d (OpenListenSocket b) = Some (snd (open_listen_socket d b))"
| "dev_step ex d (SetFwmark m) = Some (set_fwmark d m)"

end
