(* ===== verification/Tunn_Index.thy ===== *)
theory Tunn_Index
  imports Tunn_Invariant
begin

text \<open>
  Session indexes of a tunnel.  A tunnel created with peer index \<open>k\<close> only ever gives
  out session indexes whose upper 24 bits are \<open>k\<close>; the invariant \<open>tunn_idx k\<close> is kept
  by every operation of the tunnel.  The device relies on it to route datagrams.
\<close>

definition sessions_idx :: "u32 \<Rightarrow> session option list \<Rightarrow> bool" where
  "sessions_idx k ss \<longleftrightarrow> (\<forall>s. Some s \<in> set ss \<longrightarrow> drop_bit 8 (s_receiving_index s) = k)"

definition tunn_idx :: "u32 \<Rightarrow> tunn \<Rightarrow> bool" where
  "tunn_idx k t \<longleftrightarrow> length (t_sessions t) = 8 \<and> hs_inv k (t_handshake t) \<and> sessions_idx k (t_sessions t)"

lemma sessions_idx_update:
  "sessions_idx k ss \<Longrightarrow> drop_bit 8 (s_receiving_index s) = k \<Longrightarrow> sessions_idx k (ss[i := Some s])"
  by (auto simp: sessions_idx_def dest!: set_update_subset_insert [THEN subsetD])

lemma sessions_idx_nth:
  "tunn_idx k t \<Longrightarrow> t_sessions t ! (i mod 8) = Some s \<Longrightarrow> drop_bit 8 (s_receiving_index s) = k"
  unfolding tunn_idx_def sessions_idx_def by (metis mod_less_divisor nth_mem zero_less_numeral)

lemma sessions_idx_none: "sessions_idx k (map (\<lambda>_. None) ss)"
  by (auto simp: sessions_idx_def)

lemma established_fields [simp]:
  "t_handshake (timer_tick_session_established t b i) = t_handshake t"
  "t_sessions (timer_tick_session_established t b i) = t_sessions t"
  by (simp_all add: timer_tick_session_established_def Let_def)

lemma set_current_fields [simp]:
  "t_handshake (set_current_session t i) = t_handshake t" "t_sessions (set_current_session t i) = t_sessions t"
  by (simp_all add: set_current_session_def Let_def)

lemma queue_fields [simp]:
  "t_handshake (queue_packet t p) = t_handshake t" "t_sessions (queue_packet t p) = t_sessions t"
  "t_handshake (requeue_packet t p) = t_handshake t" "t_sessions (requeue_packet t p) = t_sessions t"
  by (simp_all add: queue_packet_def requeue_packet_def)

lemma tunn_idx_cong:
  "t_handshake t' = t_handshake t \<Longrightarrow> t_sessions t' = t_sessions t \<Longrightarrow> tunn_idx k t' = tunn_idx k t"
  by (simp add: tunn_idx_def)

lemma tunn_idx_simps [simp]:
  "tunn_idx k (timer_tick t n) = tunn_idx k t" "tunn_idx k (set_current_session t i) = tunn_idx k t"
  "tunn_idx k (timer_tick_session_established t b i) = tunn_idx k t"
  "tunn_idx k (queue_packet t p) = tunn_idx k t" "tunn_idx k (requeue_packet t p) = tunn_idx k t"
  "tunn_idx k (t\<lparr>t_timers := tm\<rparr>) = tunn_idx k t" "tunn_idx k (t\<lparr>t_packet_queue := q\<rparr>) = tunn_idx k t"
  "tunn_idx k (t\<lparr>t_tx_bytes := n'\<rparr>) = tunn_idx k t" "tunn_idx k (t\<lparr>t_rx_bytes := n'\<rparr>) = tunn_idx k t"
  "tunn_idx k (t\<lparr>t_current := c\<rparr>) = tunn_idx k t"
  by (rule tunn_idx_cong; simp)+

lemma tunn_idx_handshake: "tunn_idx k t \<Longrightarrow> hs_inv k h \<Longrightarrow> tunn_idx k (t\<lparr>t_handshake := h\<rparr>)"
  by (simp add: tunn_idx_def)

lemma tunn_idx_session:
  "tunn_idx k t \<Longrightarrow> drop_bit 8 (s_receiving_index s) = k \<Longrightarrow> tunn_idx k (t\<lparr>t_sessions := (t_sessions t)[i := Some s]\<rparr>)"
  by (simp add: tunn_idx_def sessions_idx_update)

lemma tunn_idx_inv: "tunn_idx k t \<Longrightarrow> hs_inv k (t_handshake t)"
  by (simp add: tunn_idx_def)

lemma format_packet_index:
  "format_packet_data cr s src n = Some (w, s') \<Longrightarrow> s_receiving_index s' = s_receiving_index s"
  by (auto simp: format_packet_data_def Let_def split: if_splits)

lemma receive_packet_index:
  "receive_packet_data cr s p n = Some (r, s') \<Longrightarrow> s_receiving_index s' = s_receiving_index s"
  by (auto simp: receive_packet_data_def receiving_counter_mark_def split: if_splits sum.splits option.splits bind_splits)

lemma format_initiation_idx:
  assumes "tunn_idx k t" "tunn_format_handshake_initiation cr t ev n force = Some (r, t')"
  shows "tunn_idx k t'"
proof -
  have "t_sessions t' = t_sessions t \<and> hs_inv k (t_handshake t')"
    using assms(2) tunn_idx_inv [OF assms(1)]
    by (auto simp: tunn_format_handshake_initiation_def Let_def split: if_splits bind_splits sum.splits
        dest!: hs_inv_format_initiation [OF tunn_idx_inv [OF assms(1)]])
  then show ?thesis using assms(1) by (simp add: tunn_idx_def)
qed

lemma encapsulate_idx:
  assumes "tunn_idx k t" "encapsulate cr t src ev n = Some (r, t')"
  shows "tunn_idx k t'"
proof (cases "t_sessions t ! (t_current t mod 8)")
  case None
  then show ?thesis using assms format_initiation_idx [of k "queue_packet t src"]
    by (simp add: encapsulate_def N_SESSIONS_def)
next
  case (Some s)
  then obtain w s' where f: "format_packet_data cr s src n = Some (w, s')"
    using assms(2) by (auto simp: encapsulate_def N_SESSIONS_def split: bind_splits)
  have "drop_bit 8 (s_receiving_index s') = k"
    using sessions_idx_nth [OF assms(1) Some] format_packet_index [OF f] by simp
  from tunn_idx_session [OF assms(1) this] show ?thesis
    using assms(2) Some f by (auto simp: encapsulate_def N_SESSIONS_def Let_def)
qed

lemma send_queued_idx:
  assumes "tunn_idx k t" "send_queued_packet cr t ev n = Some (r, t')"
  shows "tunn_idx k t'"
proof (cases "t_packet_queue t")
  case Nil
  then show ?thesis using assms by (simp add: send_queued_packet_def dequeue_packet_def)
next
  case (Cons p ps)
  then obtain r1 t1 where e: "encapsulate cr (t\<lparr>t_packet_queue := ps\<rparr>) p ev n = Some (r1, t1)"
    using assms(2) by (auto simp: send_queued_packet_def dequeue_packet_def split: bind_splits)
  have "tunn_idx k t1" using encapsulate_idx [OF _ e] assms(1) by simp
  then show ?thesis using assms(2) Cons e
    by (auto simp: send_queued_packet_def dequeue_packet_def split: TunnResult.splits)
qed

lemma handle_init_idx:
  assumes "tunn_idx k t" "handle_handshake_init cr t p ev n = Some (r, t')"
  shows "tunn_idx k t'"
proof -
  obtain x h where h: "receive_handshake_initialization cr (t_handshake t) p (ev_ephemeral ev) n = Some (x, h)"
    using assms(2) by (auto simp: handle_handshake_init_def split: bind_splits)
  have i: "tunn_idx k (t\<lparr>t_handshake := h\<rparr>)"
    by (rule tunn_idx_handshake [OF assms(1) hs_inv_receive_initialization [OF tunn_idx_inv [OF assms(1)] h]])
  show ?thesis
  proof (cases x)
    case (Inl e)
    then show ?thesis using assms(2) h i by (simp add: handle_handshake_init_def)
  next
    case (Inr ps)
    obtain w s where ps: "ps = (w, s)" by fastforce
    have "drop_bit 8 (s_receiving_index s) = k"
      using receive_initialization_frame [OF h] tunn_idx_inv [OF assms(1)]
      by (simp add: Inr ps hs_inv_def next_session_index_high)
    from tunn_idx_session [OF i this] show ?thesis
      using assms(2) h by (auto simp: handle_handshake_init_def Inr ps Let_def)
  qed
qed

lemma handle_response_idx:
  assumes "tunn_idx k t" "handle_handshake_response cr t p ev n = Some (r, t')"
  shows "tunn_idx k t'"
proof -
  obtain x h where h: "receive_handshake_response cr (t_handshake t) p (ev_time ev) = Some (x, h)"
    using assms(2) by (auto simp: handle_handshake_response_def split: bind_splits)
  have i: "tunn_idx k (t\<lparr>t_handshake := h\<rparr>)"
    by (rule tunn_idx_handshake [OF assms(1) hs_inv_receive_response [OF tunn_idx_inv [OF assms(1)] h]])
  show ?thesis
  proof (cases x)
    case (Inl e)
    then show ?thesis using assms(2) h i by (simp add: handle_handshake_response_def)
  next
    case (Inr s)
    obtain w s' where f: "format_packet_data cr s [] n = Some (w, s')"
      using assms(2) h by (auto simp: handle_handshake_response_def Inr split: bind_splits)
    have "drop_bit 8 (s_receiving_index s') = k"
      using response_session_index [OF tunn_idx_inv [OF assms(1)] h [unfolded Inr]] format_packet_index [OF f] by simp
    from tunn_idx_session [OF i this] show ?thesis
      using assms(2) h f by (auto simp: handle_handshake_response_def Inr Let_def)
  qed
qed

lemma handle_cookie_idx:
  assumes "tunn_idx k t" "handle_cookie_reply cr t p = Some (r, t')"
  shows "tunn_idx k t'"
proof -
  obtain x h where h: "receive_cookie_reply cr (t_handshake t) p = Some (x, h)"
    using assms(2) by (auto simp: handle_cookie_reply_def split: bind_splits)
  have "hs_inv k (hs_step cr (t_handshake t) (ReceiveCookie p))"
    by (rule hs_inv_step [OF tunn_idx_inv [OF assms(1)]])
  then have "tunn_idx k (t\<lparr>t_handshake := h\<rparr>)"
    using assms(1) h by (intro tunn_idx_handshake) (simp_all add: kept_def)
  then show ?thesis using assms(2) h by (cases x) (auto simp: handle_cookie_reply_def Let_def)
qed

lemma validate_fields:
  "validate_decapsulated_packet t p = (r, t') \<Longrightarrow> t_handshake t' = t_handshake t \<and> t_sessions t' = t_sessions t"
  by (auto simp: validate_decapsulated_packet_def Let_def split: if_splits option.splits)

lemma handle_data_idx:
  assumes "tunn_idx k t" "handle_data cr t p n = Some (r, t')"
  shows "tunn_idx k t'"
proof (cases "t_sessions t ! (unat (pd_receiver_idx p) mod 8)")
  case None
  then show ?thesis using assms by (simp add: handle_data_def N_SESSIONS_def)
next
  case (Some s)
  then obtain x s' where f: "receive_packet_data cr s p n = Some (x, s')"
    using assms(2) by (auto simp: handle_data_def N_SESSIONS_def Let_def split: bind_splits)
  have "drop_bit 8 (s_receiving_index s') = k"
    using sessions_idx_nth [OF assms(1) Some] receive_packet_index [OF f] by simp
  note i = tunn_idx_session [OF assms(1) this, of "unat (pd_receiver_idx p) mod 8"]
  show ?thesis
  proof (cases x)
    case (Inl e)
    then show ?thesis using assms(2) Some f i by (simp add: handle_data_def N_SESSIONS_def)
  next
    case (Inr pkt)
    let ?t = "timer_tick (set_current_session (t\<lparr>t_sessions := (t_sessions t)
        [unat (pd_receiver_idx p) mod 8 := Some s']\<rparr>) (unat (pd_receiver_idx p))) TimeLastPacketReceived"
    obtain res t2 where v: "validate_decapsulated_packet ?t pkt = (res, t2)" by fastforce
    have "t' = t2" using assms(2) Some f v by (simp add: handle_data_def N_SESSIONS_def Inr Let_def)
    then show ?thesis using i validate_fields [OF v] by (simp add: tunn_idx_def)
  qed
qed

lemma handle_verified_idx:
  assumes "tunn_idx k t" "handle_verified_packet cr t p ev n = Some (r, t')"
  shows "tunn_idx k t'"
  using assms(2)
  by (cases p) (auto simp: handle_verified_packet_def dest: handle_init_idx [OF assms(1)]
      handle_response_idx [OF assms(1)] handle_cookie_idx [OF assms(1)] handle_data_idx [OF assms(1)])

lemma decapsulate_idx:
  assumes "tunn_idx k t" "decapsulate cr t rl a d ev n = Some (r, t', rl')"
  shows "tunn_idx k t'"
proof (cases "d = []")
  case True
  then show ?thesis using assms(2) by (auto simp: decapsulate_def dest: send_queued_idx [OF assms(1)])
next
  case False
  obtain x rl1 where v: "verify_packet cr rl a d (ev_time ev) COOKIE_REPLY_SZ = (x, rl1)" by fastforce
  show ?thesis
  proof (cases x)
    case (Inl e)
    then show ?thesis using assms False v by (cases e) (auto simp: decapsulate_def split: if_splits)
  next
    case (Inr p)
    then show ?thesis using assms(2) False v by (auto simp: decapsulate_def dest: handle_verified_idx [OF assms(1)])
  qed
qed

lemma expire_sessions_subset:
  "expire_sessions now xs ss = Some (xs', ss') \<Longrightarrow> length ss' = length ss \<and> set ss' \<subseteq> insert None (set ss)"
proof (induction now xs ss arbitrary: xs' ss' rule: expire_sessions.induct)
  case (1 now x xs s ss)
  from 1(2) obtain age xs1 ss1 where s: "dur_sub now x = Some age" "expire_sessions now xs ss = Some (xs1, ss1)"
      "ss' = (if age > REJECT_AFTER_TIME then None # ss1 else s # ss1)"
    by (auto split: bind_splits if_splits)
  from 1(1) [OF s(1,2)] show ?case using s(3) by auto
qed auto

lemma update_session_timers_idx:
  assumes "tunn_idx k t" "update_session_timers t now = Some t'"
  shows "tunn_idx k t'"
proof -
  obtain xs ss where e: "expire_sessions now (tm_session_timers (t_timers t)) (t_sessions t) = Some (xs, ss)"
    using assms(2) by (auto simp: update_session_timers_def split: bind_splits)
  then have "t_handshake t' = t_handshake t" "t_sessions t' = ss"
    using assms(2) by (auto simp: update_session_timers_def)
  then show ?thesis using assms(1) expire_sessions_subset [OF e] by (auto simp: tunn_idx_def sessions_idx_def)
qed

lemma clear_cookie_idx: "tunn_idx k t \<Longrightarrow> tunn_idx k (t\<lparr>t_handshake := clear_cookie (t_handshake t)\<rparr>)"
  by (simp add: tunn_idx_def hs_inv_def clear_cookie_def)

lemma expire_idx: "tunn_idx k t \<Longrightarrow> tunn_idx k (expire t c)"
  by (simp add: tunn_idx_def expire_def clear_all_def hs_inv_def set_expired_def sessions_idx_none)

lemma idle_idx:
  "tunn_idx k t \<Longrightarrow> idle_handshake_required t now = Some (b, t') \<Longrightarrow> tunn_idx k t'"
  "tunn_idx k t \<Longrightarrow> idle_keepalive_required t now = Some (b, t') \<Longrightarrow> tunn_idx k t'"
  by (auto simp: idle_handshake_required_def idle_keepalive_required_def Let_def split: bind_splits if_splits)

lemma timers_due_idx:
  assumes "tunn_idx k t" "timers_due t ev now = Some (d, t')"
  shows "tunn_idx k t'"
proof (cases "hs_is_expired (t_handshake t)")
  case True
  then show ?thesis using assms by (simp add: timers_due_def)
next
  case False
  then obtain co where co: "and_elapsed (has_cookie (t_handshake t)) now (timer t TimeCookieReceived) COOKIE_EXPIRATION_TIME = Some co"
    using assms(2) by (auto simp: timers_due_def split: bind_splits)
  have c: "tunn_idx k (t\<lparr>t_handshake := clear_cookie (t_handshake t)\<rparr>)" using assms(1) by (rule clear_cookie_idx)
  show ?thesis using assms False co c
    by (auto simp: timers_due_def Let_def split: bind_splits if_splits option.splits
        intro: expire_idx dest!: idle_idx [rotated])
qed

lemma update_timers_idx:
  assumes "tunn_idx k t" "update_timers cr t rl ev n = Some (r, t', rl')"
  shows "tunn_idx k t'"
proof -
  define now where "now = ev_time ev - tm_time_started (t_timers t)"
  define t0 where "t0 = t\<lparr>t_timers := (t_timers t)\<lparr>tm_timers := (tm_timers (t_timers t))(TimeCurrent := now)\<rparr>\<rparr>"
  obtain t1 d t2 where s: "update_session_timers t0 now = Some t1" "timers_due t1 ev now = Some (d, t2)"
    using assms(2) by (auto simp: update_timers_def Let_def t0_def now_def split: bind_splits)
  have t0: "tunn_idx k t0" using assms(1) by (simp add: t0_def)
  have "tunn_idx k t2" by (rule timers_due_idx [OF update_session_timers_idx [OF t0 s(1)] s(2)])
  moreover have "(case d of DueExpired \<Rightarrow> Some (TErr ConnectionExpired, t2)
      | DueHandshake \<Rightarrow> tunn_format_handshake_initiation cr t2 ev n True
      | DueKeepalive \<Rightarrow> encapsulate cr t2 [] ev n
      | DueNothing \<Rightarrow> Some (Done, t2)) = Some (r, t')"
    using assms(2) s by (auto simp: update_timers_def Let_def t0_def [symmetric] now_def [symmetric] split: bind_splits)
  ultimately show ?thesis by (cases d) (auto dest: format_initiation_idx encapsulate_idx)
qed

lemma set_static_private_idx:
  assumes "tunn_idx k t" "tunn_set_static_private cr t sk pk own = Some t'"
  shows "tunn_idx k t'"
proof -
  obtain h where h: "hs_set_static_private cr (t_handshake t) sk pk = Some h"
    using assms(2) by (auto simp: tunn_set_static_private_def split: bind_splits)
  have "hs_inv k (hs_step cr (t_handshake t) (SetStaticPrivate sk pk))"
    by (rule hs_inv_step [OF tunn_idx_inv [OF assms(1)]])
  then have "hs_inv k h" using h by simp
  then show ?thesis using assms h by (auto simp: tunn_set_static_private_def tunn_idx_def sessions_idx_none)
qed

text \<open>A peer index fits 24 bits, so shifting it left and back gives it again.\<close>

lemma shift_index_back:
  assumes "idx < 0x1000000"
  shows "drop_bit 8 (push_bit 8 idx) = (idx :: u32)"
proof (rule bit_word_eqI)
  fix n assume n: "n < LENGTH(32)"
  have "\<not> bit idx n" if "24 \<le> n"
  proof -
    have "unat idx < 2 ^ 24" using assms by (simp add: word_less_nat_alt)
    then have "take_bit 24 (unat idx) = unat idx" by (simp add: take_bit_nat_eq_self_iff)
    then have "\<not> bit (unat idx) n" using that by (metis bit_take_bit_iff not_le)
    then show ?thesis by (simp add: bit_unsigned_iff)
  qed
  then show "bit (drop_bit 8 (push_bit 8 idx)) n = bit idx n"
    by (cases "24 \<le> n") (auto simp: bit_drop_bit_eq bit_push_bit_iff)
qed

lemma tunn_new_idx:
  "idx < 0x1000000 \<Longrightarrow> tunn_idx idx (tunn_new cr k peer psk ka idx own stamper now)"
  using hs_inv_new [of "push_bit 8 idx"]
  by (simp add: tunn_idx_def tunn_new_def N_SESSIONS_def sessions_idx_def shift_index_back Let_def)

end
