(* ===== verification/Device_Tables.thy ===== *)
theory Device_Tables
  imports Device Tunn_Index
begin

text \<open>
  The tables of a device agree: \<open>dev_ok\<close> says that the table by index leads to exactly
  the peers of the device, each by its own index, that the table by address leads to
  peers of the device only, and that the indexes the tunnels give out are the peer's.
  Every configuration call keeps it.
\<close>

definition live :: "('u, 't) device \<Rightarrow> nat \<Rightarrow> bool" where
  "live d a \<longleftrightarrow> a \<in> snd ` set (dv_peers d)"

definition peers_ok :: "'u peer list \<Rightarrow> (bytes \<times> nat) list \<Rightarrow> bool" where
  "peers_ok heap ps \<longleftrightarrow> distinct (map fst ps) \<and> distinct (map snd ps) \<and>
     (\<forall>a \<in> snd ` set ps. a < length heap \<and> tunn_idx (pe_index (heap ! a)) (pe_tunnel (heap ! a)))"

definition idx_ok :: "'u peer list \<Rightarrow> nat set \<Rightarrow> (u32 \<times> nat) list \<Rightarrow> bool" where
  "idx_ok heap L by_idx \<longleftrightarrow> distinct (map fst by_idx) \<and>
     (\<forall>i a. map_of by_idx i = Some a \<longleftrightarrow> a \<in> L \<and> pe_index (heap ! a) = i)"

definition dev_ok :: "('u, 't) ext \<Rightarrow> ('u, 't) device \<Rightarrow> bool" where
  "dev_ok ex d \<longleftrightarrow> peers_ok (dv_heap d) (dv_peers d) \<and>
     idx_ok (dv_heap d) (snd ` set (dv_peers d)) (dv_peers_by_idx d) \<and>
     (\<forall>e \<in> set (it_iter (ex_dtab ex) (dv_peers_by_ip d)). live d (snd e)) \<and>
     (\<exists>I. lfsr_history (dv_next_index d) I \<and> (\<forall>a. live d a \<longrightarrow> pe_index (dv_heap d ! a) \<in> I))"

section \<open>Changes that keep the indexes\<close>

text \<open>Two heaps in which the same places hold peers with the same indexes.\<close>

definition heap_kept :: "'u peer list \<Rightarrow> 'u peer list \<Rightarrow> bool" where
  "heap_kept h h' \<longleftrightarrow> length h' = length h \<and> (\<forall>a < length h. pe_index (h' ! a) = pe_index (h ! a) \<and>
     (tunn_idx (pe_index (h ! a)) (pe_tunnel (h ! a)) \<longrightarrow> tunn_idx (pe_index (h ! a)) (pe_tunnel (h' ! a))))"

lemma heap_kept_refl [simp]: "heap_kept h h"
  by (simp add: heap_kept_def)

lemma heap_kept_trans: "heap_kept h h1 \<Longrightarrow> heap_kept h1 h2 \<Longrightarrow> heap_kept h h2"
  unfolding heap_kept_def by metis

lemma heap_kept_update:
  assumes "pe_index p = pe_index (h ! a)"
    and "tunn_idx (pe_index (h ! a)) (pe_tunnel (h ! a)) \<Longrightarrow> tunn_idx (pe_index (h ! a)) (pe_tunnel p)"
  shows "heap_kept h (h[a := p])"
  unfolding heap_kept_def
proof (intro conjI allI impI)
  fix b assume "b < length h"
  then show "pe_index (h[a := p] ! b) = pe_index (h ! b)"
    "tunn_idx (pe_index (h ! b)) (pe_tunnel (h ! b)) \<Longrightarrow> tunn_idx (pe_index (h ! b)) (pe_tunnel (h[a := p] ! b))"
    using assms by (cases "b = a"; simp)+
qed simp

lemma dev_ok_heap:
  assumes "dev_ok ex d" "heap_kept (dv_heap d) (dv_heap d')"
    and "dv_peers d' = dv_peers d" "dv_peers_by_idx d' = dv_peers_by_idx d" "dv_peers_by_ip d' = dv_peers_by_ip d"
      "dv_next_index d' = dv_next_index d"
  shows "dev_ok ex d'"
proof -
  have i: "pe_index (dv_heap d' ! a) = pe_index (dv_heap d ! a)" if "a \<in> snd ` set (dv_peers d)" for a
    using assms(1,2) that unfolding dev_ok_def peers_ok_def heap_kept_def by metis
  have "peers_ok (dv_heap d') (dv_peers d)"
    using assms(1,2) unfolding dev_ok_def peers_ok_def heap_kept_def by metis
  moreover have "idx_ok (dv_heap d') (snd ` set (dv_peers d)) (dv_peers_by_idx d)"
    using assms(1) i unfolding dev_ok_def idx_ok_def by metis
  ultimately show ?thesis using assms i unfolding dev_ok_def live_def by metis
qed

lemma rekey_all_kept: "rekey_all cr sk pk rl h as = Some h' \<Longrightarrow> heap_kept h h'"
proof (induction as arbitrary: h)
  case Nil
  then show ?case by simp
next
  case (Cons a as)
  then obtain t where t: "tunn_set_static_private cr (pe_tunnel (h ! a)) sk pk False = Some t"
      "rekey_all cr sk pk rl (h[a := (h ! a)\<lparr>pe_tunnel := t, pe_limiter := rl\<rparr>]) as = Some h'"
    by (auto split: bind_splits)
  have "heap_kept h (h[a := (h ! a)\<lparr>pe_tunnel := t, pe_limiter := rl\<rparr>])"
    by (rule heap_kept_update) (auto intro: set_static_private_idx [OF _ t(1)])
  then show ?case using Cons.IH [OF t(2)] heap_kept_trans by blast
qed

lemma shutdown_all_kept: "heap_kept h (shutdown_all h as)"
proof (induction as arbitrary: h)
  case Nil
  then show ?case by (simp add: shutdown_all_def)
next
  case (Cons a as)
  have "heap_kept h (h[a := shutdown_endpoint (h ! a)])"
    by (rule heap_kept_update) (simp_all add: shutdown_endpoint_def)
  then show ?case using Cons.IH [of "h[a := shutdown_endpoint (h ! a)]"] heap_kept_trans
    by (simp add: shutdown_all_def) blast
qed

section \<open>Adding and removing peers\<close>

lemma aips_insert_all_values:
  assumes "ip_table_ok net it" "aips_insert_all net it t ips = Some t'"
  shows "snd ` set (it_iter it t') \<subseteq> snd ` set (it_iter it t) \<union> snd ` set ips"
  using assms(2)
proof (induction ips arbitrary: t)
  case Nil
  then show ?case by simp
next
  case (Cons x ips)
  obtain ip d where x: "x = (ip, d)" by fastforce
  from Cons.prems obtain t1 where t1: "aips_insert net it t (ai_addr ip) (ai_cidr ip) d = Some t1"
      "aips_insert_all net it t1 ips = Some t'"
    by (auto simp: x split: bind_splits)
  have "snd ` set (it_iter it t1) \<subseteq> insert d (snd ` set (it_iter it t))"
    using aips_insert_entries [OF assms(1) t1(1)] by auto
  then show ?case using Cons.IH [OF t1(2)] by (simp add: x) blast
qed

lemma remove_peer_ok:
  assumes tab: "ip_table_ok (ex_net ex) (ex_dtab ex)" and ok: "dev_ok ex d"
  shows "dev_ok ex (remove_peer ex d k)"
proof (cases "map_of (dv_peers d) k")
  case None
  then show ?thesis using ok by (simp add: remove_peer_def)
next
  case (Some a)
  let ?d = "remove_peer ex d k" and ?p = "shutdown_endpoint (dv_heap d ! a)"
  have P: "distinct (map fst (dv_peers d))" "distinct (map snd (dv_peers d))"
    using ok by (simp_all add: dev_ok_def peers_ok_def)
  have ka: "(k, a) \<in> set (dv_peers d)" using Some by (rule map_of_SomeD)
  have L: "snd ` set (AList.delete k (dv_peers d)) = snd ` set (dv_peers d) - {a}"
  proof -
    have "b \<noteq> a" if "(j, b) \<in> set (dv_peers d)" "j \<noteq> k" for j b
      using P(2) that ka unfolding distinct_map by (metis fst_conv inj_onD snd_conv)
    moreover have "j = k \<Longrightarrow> b = a" if "(j, b) \<in> set (dv_peers d)" for j b
      using that Some P(1) by (metis map_of_is_SomeI option.inject)
    ultimately show ?thesis by (auto simp: AList.delete_eq image_iff) (metis snd_conv)+
  qed
  have D: "dv_heap ?d = (dv_heap d)[a := ?p]" "dv_peers ?d = AList.delete k (dv_peers d)"
      "dv_peers_by_idx ?d = AList.delete (pe_index ?p) (dv_peers_by_idx d)"
      "dv_peers_by_ip ?d = aips_remove (ex_dtab ex) (dv_peers_by_ip d) (\<lambda>q. q = a)" "dv_next_index ?d = dv_next_index d"
    by (simp_all add: remove_peer_def Some Let_def)
  have H: "heap_kept (dv_heap d) (dv_heap ?d)"
    unfolding D by (rule heap_kept_update) (simp_all add: shutdown_endpoint_def)
  have bound: "b < length (dv_heap d)" if "b \<in> snd ` set (dv_peers d)" for b
    using ok that by (auto simp: dev_ok_def peers_ok_def)
  have I: "pe_index (dv_heap ?d ! b) = pe_index (dv_heap d ! b)" if "b \<in> snd ` set (dv_peers d)" for b
    using H bound [OF that] by (simp add: heap_kept_def)
  have "peers_ok (dv_heap ?d) (dv_peers ?d)"
    unfolding D(2) peers_ok_def
  proof (intro conjI)
    show "distinct (map fst (AList.delete k (dv_peers d)))" using P(1) by (rule AList.distinct_delete)
    show "distinct (map snd (AList.delete k (dv_peers d)))"
      using P(2) unfolding AList.delete_eq by (rule distinct_map_filter)
    show "\<forall>b \<in> snd ` set (AList.delete k (dv_peers d)). b < length (dv_heap ?d) \<and>
        tunn_idx (pe_index (dv_heap ?d ! b)) (pe_tunnel (dv_heap ?d ! b))"
      using ok H unfolding L dev_ok_def peers_ok_def heap_kept_def by (metis Diff_iff)
  qed
  moreover have "idx_ok (dv_heap ?d) (snd ` set (dv_peers ?d)) (dv_peers_by_idx ?d)"
  proof -
    have dist: "distinct (map fst (dv_peers_by_idx d))" using ok by (simp add: dev_ok_def idx_ok_def)
    have x: "map_of (dv_peers_by_idx d) i = Some b \<longleftrightarrow> b \<in> snd ` set (dv_peers d) \<and> pe_index (dv_heap d ! b) = i" for i b
      using ok by (simp add: dev_ok_def idx_ok_def)
    have pi: "pe_index ?p = pe_index (dv_heap d ! a)" by (simp add: shutdown_endpoint_def)
    have a: "map_of (dv_peers_by_idx d) (pe_index (dv_heap d ! a)) = Some a" using x ka by force
    have uniq: "b = a" if "b \<in> snd ` set (dv_peers d)" "pe_index (dv_heap d ! b) = pe_index (dv_heap d ! a)" for b
      using x a that by (metis option.inject)
    have "map_of (AList.delete (pe_index ?p) (dv_peers_by_idx d)) i = Some b \<longleftrightarrow>
        b \<in> snd ` set (dv_peers d) - {a} \<and> pe_index (dv_heap ?d ! b) = i" for i b
    proof (cases "b \<in> snd ` set (dv_peers d)")
      case True
      then show ?thesis using x [of i b] a uniq [OF True] I [OF True]
        by (cases "pe_index (dv_heap d ! a) = i") (auto simp: AList.delete_conv pi)
    next
      case False
      then show ?thesis using x [of i b] by (simp add: AList.delete_conv)
    qed
    then show ?thesis
      unfolding idx_ok_def D(2,3) L using AList.distinct_delete [OF dist] by (intro conjI allI)
  qed
  moreover have "live ?d (snd e)" if "e \<in> set (it_iter (ex_dtab ex) (dv_peers_by_ip ?d))" for e
    using that ok unfolding D(4) aips_remove_def table_retain [OF tab] live_def D(2) L dev_ok_def by auto
  moreover have "\<exists>I. lfsr_history (dv_next_index ?d) I \<and> (\<forall>b. live ?d b \<longrightarrow> pe_index (dv_heap ?d ! b) \<in> I)"
    using ok I unfolding D(5) live_def D(2) L dev_ok_def by (metis Diff_iff)
  ultimately show ?thesis by (simp add: dev_ok_def)
qed

lemma alist_update_new: "map_of xs k = None \<Longrightarrow> AList.update k v xs = xs @ [(k, v)]"
  by (induction xs) (auto split: if_splits)

lemma update_peer_ok:
  assumes tab: "ip_table_ok (ex_net ex) (ex_dtab ex)" and ok: "dev_ok ex d"
    and u: "update_peer ex d k rem rep ep ips ka psk ev = Some d'"
  shows "dev_ok ex d'"
proof (cases rem)
  case True
  then have "d' = remove_peer ex d k" using u by (simp add: update_peer_def)
  then show ?thesis using remove_peer_ok [OF tab ok] by simp
next
  case False
  let ?a = "length (dv_heap d)"
  have none: "map_of (dv_peers d) k = None"
    using u False by (cases "map_of (dv_peers d) k") (auto simp: update_peer_def)
  then have k: "k \<notin> fst ` set (dv_peers d)" by (simp add: map_of_eq_None_iff)
  from u False none obtain i l p0 t by_ip kp where s: "lfsr_next (dv_next_index d) = Some (i, l)"
      "peer_new (ex_net ex) (ex_ptab ex) t (length (dv_limiters d)) i ep ips psk = Some p0"
      "t = tunn_new (ex_cr ex) (fst kp) k psk ka i True (de_stamper ev) (de_now ev)"
      "aips_insert_all (ex_net ex) (ex_dtab ex) (dv_peers_by_ip d) (map (\<lambda>ip. (ip, ?a)) ips) = Some by_ip"
      "dv_heap d' = dv_heap d @ [p0\<lparr>pe_quota := Some (quota_new DEFAULT_QUOTA_BYTES)\<rparr>]"
      "dv_peers d' = AList.update k ?a (dv_peers d)" "dv_peers_by_idx d' = AList.update i ?a (dv_peers_by_idx d)"
      "dv_peers_by_ip d' = by_ip" "dv_next_index d' = l"
    by (auto simp: update_peer_def Let_def split: bind_splits)
  obtain I where I: "lfsr_history (dv_next_index d) I" "\<forall>a. live d a \<longrightarrow> pe_index (dv_heap d ! a) \<in> I"
    using ok by (auto simp: dev_ok_def)
  from lfsr_history_next [OF I(1) s(1)] have i: "i \<notin> I" "i < 0x1000000" "lfsr_history l (insert i I)" by auto
  have p0: "pe_index p0 = i" "pe_tunnel p0 = t" using s(2) by (auto simp: peer_new_def split: bind_splits)
  have upd: "AList.update k ?a (dv_peers d) = dv_peers d @ [(k, ?a)]"
    by (rule alist_update_new [OF none])
  have bound: "a < ?a" if "a \<in> snd ` set (dv_peers d)" for a
    using ok that by (auto simp: dev_ok_def peers_ok_def)
  have "(j, ?a) \<notin> set (dv_peers d)" for j
    using bound [of ?a] by force
  moreover have "b < ?a" if "(j, b) \<in> set (dv_peers d)" for j b
    using bound [of b] that by force
  ultimately have "peers_ok (dv_heap d') (dv_peers d')"
    using ok k bound unfolding s(5,6) upd
    by (auto simp: dev_ok_def peers_ok_def nth_append p0 s(3) tunn_new_idx [OF i(2)] less_Suc_eq)
  moreover have "idx_ok (dv_heap d') (snd ` set (dv_peers d')) (dv_peers_by_idx d')"
  proof -
    have dist: "distinct (map fst (dv_peers_by_idx d))" using ok by (simp add: dev_ok_def idx_ok_def)
    have x: "map_of (dv_peers_by_idx d) j = Some b \<longleftrightarrow> b \<in> snd ` set (dv_peers d) \<and> pe_index (dv_heap d ! b) = j" for j b
      using ok by (simp add: dev_ok_def idx_ok_def)
    have ni: "pe_index (dv_heap d ! b) \<noteq> i" if "b \<in> snd ` set (dv_peers d)" for b
      using I(2) i(1) that by (auto simp: live_def)
    have "map_of (AList.update i ?a (dv_peers_by_idx d)) j = Some b \<longleftrightarrow>
        b \<in> insert ?a (snd ` set (dv_peers d)) \<and> pe_index (dv_heap d' ! b) = j" for j b
      using x [of j b] ni bound unfolding s(5) by (auto simp: AList.update_conv nth_append p0)
    then show ?thesis using AList.distinct_update [OF dist] unfolding idx_ok_def s(6,7) upd by auto
  qed
  moreover have "live d' (snd e)" if e: "e \<in> set (it_iter (ex_dtab ex) (dv_peers_by_ip d'))" for e
  proof -
    have "snd e \<in> snd ` set (it_iter (ex_dtab ex) (dv_peers_by_ip d)) \<union> {?a}"
      using aips_insert_all_values [OF tab s(4)] e unfolding s(8) by auto
    moreover have "snd ` set (it_iter (ex_dtab ex) (dv_peers_by_ip d)) \<subseteq> snd ` set (dv_peers d)"
      using ok unfolding dev_ok_def live_def by blast
    ultimately show ?thesis unfolding live_def s(6) upd by auto
  qed
  moreover have "\<forall>a. live d' a \<longrightarrow> pe_index (dv_heap d' ! a) \<in> insert i I"
    using I(2) bound unfolding live_def s(5,6) upd by (auto simp: nth_append p0)
  ultimately show ?thesis using i(3) s(9) unfolding dev_ok_def by blast
qed

lemma set_key_ok:
  assumes "dev_ok ex d" "set_key ex d k ev = Some d'"
  shows "dev_ok ex d'"
proof (cases "Some (cr_pub (ex_cr ex) k) = map_option snd (dv_key_pair d)")
  case True
  then show ?thesis using assms by (simp add: set_key_def)
next
  case False
  then obtain heap where h: "rekey_all (ex_cr ex) k (cr_pub (ex_cr ex) k) (length (dv_limiters d)) (dv_heap d)
      (map snd (dv_peers d)) = Some heap" "dv_heap d' = heap" "dv_peers d' = dv_peers d"
      "dv_peers_by_idx d' = dv_peers_by_idx d" "dv_peers_by_ip d' = dv_peers_by_ip d" "dv_next_index d' = dv_next_index d"
    using assms(2) by (auto simp: set_key_def Let_def split: bind_splits if_splits)
  show ?thesis by (rule dev_ok_heap [OF assms(1) _ h(3-6)]) (simp add: h(2) rekey_all_kept [OF h(1)])
qed

lemma clear_peers_ok:
  assumes "ip_table_ok (ex_net ex) (ex_dtab ex)" "dev_ok ex d"
  shows "dev_ok ex (clear_peers ex d)"
  using assms(2) by (auto simp: clear_peers_def dev_ok_def peers_ok_def idx_ok_def live_def aips_clear_def
      table_new [OF assms(1)])

lemma open_listen_socket_ok: "dev_ok ex d \<Longrightarrow> dev_ok ex (snd (open_listen_socket d b))"
  by (rule dev_ok_heap [where d = d]) (auto simp: open_listen_socket_def Let_def shutdown_all_kept split: option.splits)

lemma dev_step_ok:
  "ip_table_ok (ex_net ex) (ex_dtab ex) \<Longrightarrow> dev_ok ex d \<Longrightarrow> dev_step ex d x = Some d' \<Longrightarrow> dev_ok ex d'"
  by (cases x) (auto simp: set_fwmark_def intro: set_key_ok update_peer_ok clear_peers_ok open_listen_socket_ok
      dev_ok_heap [where d = d])

lemma device_new_ok:
  "ip_table_ok (ex_net ex) (ex_dtab ex) \<Longrightarrow> lfsr_default draws = Some (l, draws') \<Longrightarrow> dev_ok ex (device_new ex l mtu uc cfg)"
  using lfsr_history_new
  by (auto simp: device_new_def dev_ok_def peers_ok_def idx_ok_def live_def aips_new_def table_new)

end
