(* ===== verification/Device_Payment.thy ===== *)
theory Device_Payment
  imports Device_Tables
begin

text \<open>
  Payments inside the tunnel (\<open>device/mod.rs\<close>): the server's request for payment, its
  handling of a submission (checks, settlement, credit) and the client's automatic
  answer.  A handler works on the peer it holds locked and gives back the peer and
  the datagrams it sends; \<open>None\<close> is a panic.  What a handler reads from outside (the
  clock, random bytes, the answer of the settlement service) is in \<open>hev\<close>.
\<close>

datatype dev_out =
    SendTo sock_addr bytes
  | SendConn bytes
  | Write4 bytes
  | Write6 bytes

record hev =
  he_ev :: env
  he_pay_ev :: env
  he_flush :: "nat \<Rightarrow> env"
  he_connect_ok :: bool
  he_unix_secs :: u64
  he_nonce :: bytes
  he_settle :: "bytes \<Rightarrow> settle_request \<Rightarrow> settlement_error + settle_response"

text \<open>\<open>p.allowed_ips().next()\<close>, when it is an IPv4 network.\<close>

definition first_ipv4 :: "('u, unit) ip_table \<Rightarrow> 'u peer \<Rightarrow> ipv4 option" where
  "first_ipv4 it p = (case peer_allowed_ips it p of (V4 ip, _) # _ \<Rightarrow> Some ip | _ \<Rightarrow> None)"

text \<open>Encapsulating a signal packet into the 512-byte buffer and sending the result.\<close>

definition send_signal ::
  "crypto \<Rightarrow> 'u peer \<Rightarrow> bytes option \<Rightarrow> env \<Rightarrow> sock_addr \<Rightarrow> ('u peer \<times> dev_out list) option" where
  "send_signal cr p ip_packet ev addr = do {
     packet \<leftarrow> ip_packet;
     (r, t) \<leftarrow> encapsulate cr (pe_tunnel p) packet ev MAX_PAYMENT_PACKET_SIZE;
     Some (p\<lparr>pe_tunnel := t\<rparr>, case r of WriteToNetwork enc \<Rightarrow> [SendTo addr enc] | _ \<Rightarrow> []) }"

definition send_payment_required ::
  "('u, 't) ext \<Rightarrow> ('u, 't) device \<Rightarrow> 'u peer \<Rightarrow> sock_addr \<Rightarrow> hev \<Rightarrow> ('u peer \<times> dev_out list) option" where
  "send_payment_required ex d p addr he =
     (case dv_payment_wallet d of None \<Rightarrow> Some (p, [])
      | Some wallet \<Rightarrow>
        (case first_ipv4 (ex_ptab ex) p of None \<Rightarrow> Some (p, [])
         | Some peer_ip \<Rightarrow>
           let c = dv_payment_config d;
               msg = \<lparr>pr_amount_usdc = pc_amount_per_quota c, pr_nonce = he_nonce he,
                 pr_recipient = pw_ethereum_address wallet, pr_deadline = he_unix_secs he + 300,
                 pr_chain_id = pc_chain_id c, pr_usdc_contract = pc_usdc_contract c\<rparr>
           in send_signal (ex_cr ex) p
                (build_signal_packet PAYMENT_GATEWAY_IP peer_ip (payment_required_encode msg)) (he_pay_ev he) addr))"

definition credit_peer :: "'u peer \<Rightarrow> u64 \<Rightarrow> 'u peer" where
  "credit_peer p bytes = p\<lparr>pe_quota := map_option (\<lambda>q. credit q bytes) (pe_quota p)\<rparr>"

text \<open>The end of both successful branches: the answer to the client.\<close>

definition send_payment_accepted ::
  "('u, 't) ext \<Rightarrow> ('u, 't) device \<Rightarrow> 'u peer \<Rightarrow> sock_addr \<Rightarrow> hev \<Rightarrow> ('u peer \<times> dev_out list) option" where
  "send_payment_accepted ex d p addr he =
     (case first_ipv4 (ex_ptab ex) p of None \<Rightarrow> Some (p, [])
      | Some peer_ip \<Rightarrow>
        send_signal (ex_cr ex) p (build_signal_packet PAYMENT_GATEWAY_IP peer_ip
          (payment_accepted_encode \<lparr>pa_new_quota_bytes = pc_quota_bytes (dv_payment_config d)\<rparr>)) (he_pay_ev he) addr)"

text \<open>The signed authorization a submission carries.\<close>

definition submit_authorization :: "payment_submit \<Rightarrow> signed_authorization" where
  "submit_authorization s = \<lparr>sa_auth = \<lparr>ta_from = ps_from s, ta_to = ps_to s, ta_value = ps_value s,
      ta_valid_after = ps_valid_after s, ta_valid_before = ps_valid_before s, ta_nonce = ps_nonce s\<rparr>,
     sa_v = ps_v s, sa_r = ps_r s, sa_s = ps_s s\<rparr>"

text \<open>Recording the nonce: false for a nonce seen before.\<close>

definition record_nonce :: "'u peer \<Rightarrow> bytes \<Rightarrow> bool \<times> 'u peer" where
  "record_nonce p nonce = (case pe_quota p of None \<Rightarrow> (True, p)
     | Some q \<Rightarrow> let (fresh, q) = check_and_record_nonce q nonce in (fresh, p\<lparr>pe_quota := Some q\<rparr>))"

definition handle_payment_submit ::
  "('u, 't) ext \<Rightarrow> ('u, 't) device \<Rightarrow> 'u peer \<Rightarrow> bytes \<Rightarrow> sock_addr \<Rightarrow> hev \<Rightarrow> ('u peer \<times> dev_out list) option" where
  "handle_payment_submit ex d p payload addr he =
     (case dv_payment_wallet d of None \<Rightarrow> Some (p, [])
      | Some wallet \<Rightarrow>
     (case payment_submit_decode payload of None \<Rightarrow> Some (p, [])
      | Some submit \<Rightarrow>
        let config = dv_payment_config d in
        if ps_to submit \<noteq> pw_ethereum_address wallet then Some (p, [])
        else if ps_value submit < pc_amount_per_quota config then Some (p, [])
        else let (fresh, p) = record_nonce p (ps_nonce submit) in
          if \<not> fresh then Some (p, [])
          else
     (case verify_authorization (ex_et ex) (gateway_domain config) (submit_authorization submit) of
        None \<Rightarrow> Some (p, [])
      | Some recovered \<Rightarrow>
        if recovered \<noteq> ps_from submit then Some (p, [])
        else
     (case dv_settlement_client d of
        None \<Rightarrow> send_payment_accepted ex d (credit_peer p (pc_quota_bytes config)) addr he
      | Some base_url \<Rightarrow>
        let settle_req = build_settle_request (ex_hex_encode ex) config submit (pw_ethereum_address wallet) in
        (case he_settle he base_url settle_req of
           Inl _ \<Rightarrow> Some (p, [])
         | Inr resp \<Rightarrow>
           if \<not> sp_success resp then Some (p, [])
           else send_payment_accepted ex d (credit_peer p (pc_quota_bytes config)) addr he)))))"

definition handle_payment_signal_client ::
  "('u, 't) ext \<Rightarrow> ('u, 't) device \<Rightarrow> 'u peer \<Rightarrow> bytes \<Rightarrow> sock_addr \<Rightarrow> hev \<Rightarrow> ('u peer \<times> dev_out list) option" where
  "handle_payment_signal_client ex d p payload addr he =
     (if payload = [] then Some (p, [])
      else if payload ! 0 = MSG_PAYMENT_REQUIRED then
        (case payment_required_decode payload of None \<Rightarrow> Some (p, [])
         | Some req \<Rightarrow>
        (case dv_payment_wallet d of None \<Rightarrow> Some (p, [])
         | Some wallet \<Rightarrow>
           let from_addr = pw_ethereum_address wallet;
               auth = \<lparr>ta_from = from_addr, ta_to = pr_recipient req, ta_value = pr_amount_usdc req,
                 ta_valid_after = 0, ta_valid_before = he_unix_secs he + 345600, ta_nonce = pr_nonce req\<rparr>;
               digest = compute_eip712_digest (ex_et ex) (gateway_domain (dv_payment_config d)) auth;
               (v, r, s) = sign_digest (ex_et ex) wallet digest;
               submit = \<lparr>ps_from = from_addr, ps_to = pr_recipient req, ps_value = pr_amount_usdc req,
                 ps_valid_after = ta_valid_after auth, ps_valid_before = ta_valid_before auth,
                 ps_nonce = pr_nonce req, ps_v = v, ps_r = r, ps_s = s\<rparr>
           in (case first_ipv4 (ex_ptab ex) p of None \<Rightarrow> Some (p, [])
               | Some client_ip \<Rightarrow>
                 send_signal (ex_cr ex) p (build_signal_packet client_ip PAYMENT_GATEWAY_IP (payment_submit_encode submit))
                   (he_pay_ev he) addr)))
      else Some (p, []))"

section \<open>What a handler keeps\<close>

text \<open>The index stays, and the tunnel changes only through its own operations.\<close>

definition peer_kept :: "'u peer \<Rightarrow> 'u peer \<Rightarrow> bool" where
  "peer_kept p p' \<longleftrightarrow> pe_index p' = pe_index p \<and> pe_allowed_ips p' = pe_allowed_ips p \<and>
     pe_limiter p' = pe_limiter p \<and>
     (tunn_idx (pe_index p) (pe_tunnel p) \<longrightarrow> tunn_idx (pe_index p) (pe_tunnel p'))"

lemma peer_kept_refl [simp]: "peer_kept p p"
  by (simp add: peer_kept_def)

lemma peer_kept_trans: "peer_kept p p1 \<Longrightarrow> peer_kept p1 p2 \<Longrightarrow> peer_kept p p2"
  unfolding peer_kept_def by metis

lemma peer_kept_quota [simp]: "peer_kept p (p\<lparr>pe_quota := q\<rparr>)"
  by (simp add: peer_kept_def)

lemma send_signal_kept:
  "send_signal cr p pk ev addr = Some (p', outs) \<Longrightarrow> peer_kept p p' \<and> pe_quota p' = pe_quota p \<and>
    set outs \<subseteq> {SendTo addr w |w. True}"
  by (auto simp: send_signal_def peer_kept_def split: bind_splits TunnResult.splits dest: encapsulate_idx [rotated])

lemma record_nonce_kept: "record_nonce p n = (b, p') \<Longrightarrow> peer_kept p p'"
  by (auto simp: record_nonce_def split: option.splits prod.splits)

lemma credit_peer_kept [simp]: "peer_kept p (credit_peer p n)"
  by (simp add: credit_peer_def)

lemma send_payment_required_kept:
  "send_payment_required ex d p addr he = Some (p', outs) \<Longrightarrow> peer_kept p p' \<and> pe_quota p' = pe_quota p"
  by (auto simp: send_payment_required_def Let_def split: option.splits dest: send_signal_kept)

lemma send_payment_accepted_kept:
  "send_payment_accepted ex d p addr he = Some (p', outs) \<Longrightarrow> peer_kept p p' \<and> pe_quota p' = pe_quota p"
  by (auto simp: send_payment_accepted_def split: option.splits dest: send_signal_kept)

lemma client_kept:
  "handle_payment_signal_client ex d p payload addr he = Some (p', outs) \<Longrightarrow> peer_kept p p' \<and> pe_quota p' = pe_quota p"
  by (auto simp: handle_payment_signal_client_def Let_def split: option.splits prod.splits if_splits dest: send_signal_kept)

section \<open>Submissions\<close>

text \<open>The specification: when a submission is good for a device and a peer.\<close>

definition good_submit :: "('u, 't) ext \<Rightarrow> ('u, 't) device \<Rightarrow> 'u peer \<Rightarrow> hev \<Rightarrow> payment_submit \<Rightarrow> bool" where
  "good_submit ex d p he s \<longleftrightarrow> (\<exists>wallet. dv_payment_wallet d = Some wallet \<and> ps_to s = pw_ethereum_address wallet \<and>
     pc_amount_per_quota (dv_payment_config d) \<le> ps_value s \<and>
     (\<forall>q. pe_quota p = Some q \<longrightarrow> ps_nonce s \<notin> q_used_nonces q) \<and>
     verify_authorization (ex_et ex) (gateway_domain (dv_payment_config d)) (submit_authorization s) = Some (ps_from s) \<and>
     (\<forall>url. dv_settlement_client d = Some url \<longrightarrow>
        (\<exists>resp. he_settle he url (build_settle_request (ex_hex_encode ex) (dv_payment_config d) s
           (pw_ethereum_address wallet)) = Inr resp \<and> sp_success resp)))"

text \<open>Its nonce is recorded as soon as recipient and amount are right.\<close>

definition nonce_recorded :: "('u, 't) device \<Rightarrow> payment_submit \<Rightarrow> bool" where
  "nonce_recorded d s \<longleftrightarrow> (\<exists>wallet. dv_payment_wallet d = Some wallet \<and> ps_to s = pw_ethereum_address wallet \<and>
     pc_amount_per_quota (dv_payment_config d) \<le> ps_value s)"

lemma record_nonce_some:
  "pe_quota p = Some q \<Longrightarrow> record_nonce p n =
    (n \<notin> q_used_nonces q, p\<lparr>pe_quota := Some (q\<lparr>q_used_nonces := insert n (q_used_nonces q)\<rparr>)\<rparr>)"
  by (simp add: record_nonce_def check_and_record_nonce_def)

lemma handle_payment_submit_undecoded:
  "payment_submit_decode payload = None \<Longrightarrow> handle_payment_submit ex d p payload addr he = Some (p, [])"
  by (simp add: handle_payment_submit_def split: option.split)

lemma handle_payment_submit_quota:
  assumes s: "payment_submit_decode payload = Some s" and q: "pe_quota p = Some q"
    and h: "handle_payment_submit ex d p payload addr he = Some (p', outs)"
  shows "pe_quota p' = Some (let q = (if nonce_recorded d s then q\<lparr>q_used_nonces := insert (ps_nonce s) (q_used_nonces q)\<rparr> else q)
    in if good_submit ex d p he s then credit q (pc_quota_bytes (dv_payment_config d)) else q)"
proof (cases "nonce_recorded d s")
  case False
  then have "\<not> good_submit ex d p he s" by (auto simp: good_submit_def nonce_recorded_def)
  moreover have "p' = p" using h s False
    by (auto simp: handle_payment_submit_def nonce_recorded_def Let_def split: option.splits if_splits)
  ultimately show ?thesis using False q by simp
next
  case True
  then obtain w where w: "dv_payment_wallet d = Some w" "ps_to s = pw_ethereum_address w"
      "pc_amount_per_quota (dv_payment_config d) \<le> ps_value s"
    by (auto simp: nonce_recorded_def)
  let ?q = "q\<lparr>q_used_nonces := insert (ps_nonce s) (q_used_nonces q)\<rparr>"
  let ?p = "p\<lparr>pe_quota := Some ?q\<rparr>"
  have nl: "\<not> ps_value s < pc_amount_per_quota (dv_payment_config d)" using w(3) by simp
  note h' = h [unfolded handle_payment_submit_def w(1) s option.case Let_def record_nonce_some [OF q] prod.case]
  show ?thesis
  proof (cases "good_submit ex d p he s")
    case True
    then have g: "ps_nonce s \<notin> q_used_nonces q"
        "verify_authorization (ex_et ex) (gateway_domain (dv_payment_config d)) (submit_authorization s) = Some (ps_from s)"
        "\<And>url. dv_settlement_client d = Some url \<Longrightarrow> \<exists>resp. he_settle he url
           (build_settle_request (ex_hex_encode ex) (dv_payment_config d) s (pw_ethereum_address w)) = Inr resp \<and> sp_success resp"
      using w(1) q by (auto simp: good_submit_def)
    have "send_payment_accepted ex d (credit_peer ?p (pc_quota_bytes (dv_payment_config d))) addr he = Some (p', outs)"
      using h' w(2) nl g by (cases "dv_settlement_client d") fastforce+
    from send_payment_accepted_kept [OF this] show ?thesis
      using True \<open>nonce_recorded d s\<close> by (simp add: credit_peer_def)
  next
    case False
    have "p' = ?p" using h' w nl False q
      by (auto simp: good_submit_def split: option.splits sum.splits if_splits)
    then show ?thesis using False \<open>nonce_recorded d s\<close> by simp
  qed
qed

lemma handle_payment_submit_kept:
  assumes "handle_payment_submit ex d p payload addr he = Some (p', outs)"
  shows "peer_kept p p'"
proof -
  have a: "peer_kept p p1" if "record_nonce p n = (b, p1)" for n b p1
    using that by (rule record_nonce_kept)
  have c: "peer_kept p p'" if "record_nonce p n = (b, p1)"
      "send_payment_accepted ex d (credit_peer p1 m) addr he = Some (p', outs)" for n b p1 m
    using a [OF that(1)] send_payment_accepted_kept [OF that(2)] peer_kept_trans credit_peer_kept by blast
  show ?thesis using assms
    by (auto simp: handle_payment_submit_def Let_def split: option.splits prod.splits if_splits sum.splits
        dest: a c)
qed

end
