(* ===== verification/Payment_Flow.thy ===== *)
theory Payment_Flow
  imports Device_Payment
begin

text \<open>
  Properties of the payment handlers together: who is credited and how often, and the
  exchange between a client and a server.
\<close>

section \<open>Sequences of submissions\<close>

definition submit_step ::
  "('u, 't) ext \<Rightarrow> ('u, 't) device \<Rightarrow> 'u peer \<Rightarrow> bytes \<times> sock_addr \<times> hev \<Rightarrow> 'u peer option" where
  "submit_step ex d p x = (case x of (payload, addr, he) \<Rightarrow> map_option fst (handle_payment_submit ex d p payload addr he))"

text \<open>Nonces are never forgotten.\<close>

definition nonce_used :: "bytes \<Rightarrow> 'u peer \<Rightarrow> bool" where
  "nonce_used n p \<longleftrightarrow> (\<exists>q. pe_quota p = Some q \<and> n \<in> q_used_nonces q)"

lemma submit_quota_grows:
  assumes "pe_quota p = Some q" "handle_payment_submit ex d p payload addr he = Some (p', outs)"
  shows "\<exists>q'. pe_quota p' = Some q' \<and> q_used_nonces q \<subseteq> q_used_nonces q'"
proof (cases "payment_submit_decode payload")
  case None
  then show ?thesis using assms by (auto simp: handle_payment_submit_undecoded)
next
  case (Some s)
  then show ?thesis using handle_payment_submit_quota [OF Some assms]
    by (auto simp: Let_def credit_def)
qed

interpretation nonces: fallible_machine "submit_step ex d" "nonce_used n"
proof unfold_locales
  fix p x p' assume p: "nonce_used n p" "submit_step ex d p x = Some p'"
  obtain payload addr he where x: "x = (payload, addr, he)" by (cases x) auto
  then obtain outs where "handle_payment_submit ex d p payload addr he = Some (p', outs)"
    using p(2) by (auto simp: submit_step_def)
  then show "nonce_used n p'" using p(1) by (auto simp: nonce_used_def dest: submit_quota_grows)
qed

lemma used_not_good: "nonce_used (ps_nonce s) p \<Longrightarrow> \<not> good_submit ex d p he s"
  by (auto simp: nonce_used_def good_submit_def)

section \<open>The client's answer\<close>

lemma sign_digest_lengths:
  assumes "eth_ok et" "from_wireguard_key et key = Some w" "sign_digest et w digest = (v, r, s)"
  shows "length r = 32 \<and> length s = 32"
proof -
  let ?k = "et_hkdf et HKDF_SALT key HKDF_INFO"
  have k: "et_scalar_ok et ?k" "pw_signing_key w = ?k"
    using assms(2) by (auto simp: from_wireguard_key_def Let_def split: if_splits)
  obtain b i where b: "et_sign et ?k digest = (b, i)" by fastforce
  have "length b = 64" using assms(1) k(1) b unfolding eth_ok_def by (metis fst_conv)
  then show ?thesis using assms(3) b by (auto simp: sign_digest_def k(2))
qed

lemma client_answer:
  assumes "eth_ok (ex_et ex)" "from_wireguard_key (ex_et ex) kc = Some wc" "dv_payment_wallet dc = Some wc"
    and "required_ok req" "first_ipv4 (ex_ptab ex) pc = Some ip" "length ip = 4"
    and h: "handle_payment_signal_client ex dc pc (payment_required_encode req) addr he = Some (pc', outs)"
  shows "\<exists>s pkt r. submit_ok s \<and> ps_to s = pr_recipient req \<and> ps_value s = pr_amount_usdc req \<and> ps_nonce s = pr_nonce req \<and>
    ps_from s = pw_ethereum_address wc \<and>
    verify_authorization (ex_et ex) (gateway_domain (dv_payment_config dc)) (submit_authorization s) = Some (ps_from s) \<and>
    is_payment_signal pkt \<and> dst_ipv4 pkt = Some PAYMENT_GATEWAY_IP \<and>
    extract_signal_payload pkt = Some (payment_submit_encode s) \<and>
    encapsulate (ex_cr ex) (pe_tunnel pc) pkt (he_pay_ev he) MAX_PAYMENT_PACKET_SIZE = Some (r, pe_tunnel pc') \<and>
    outs = (case r of WriteToNetwork enc \<Rightarrow> [SendTo addr enc] | _ \<Rightarrow> [])"
proof -
  let ?et = "ex_et ex"
  let ?auth = "\<lparr>ta_from = pw_ethereum_address wc, ta_to = pr_recipient req, ta_value = pr_amount_usdc req,
      ta_valid_after = 0, ta_valid_before = he_unix_secs he + 345600, ta_nonce = pr_nonce req\<rparr>"
  let ?dg = "compute_eip712_digest ?et (gateway_domain (dv_payment_config dc)) ?auth"
  obtain v r s where sg: "sign_digest ?et wc ?dg = (v, r, s)" by (metis prod_cases3)
  define sub where "sub = \<lparr>ps_from = pw_ethereum_address wc, ps_to = pr_recipient req, ps_value = pr_amount_usdc req,
      ps_valid_after = 0, ps_valid_before = he_unix_secs he + 345600, ps_nonce = pr_nonce req, ps_v = v, ps_r = r, ps_s = s\<rparr>"
  have ok: "submit_ok sub"
    using assms(4) sign_digest_lengths [OF assms(1,2) sg] from_wireguard_key_address [OF assms(1,2)]
    by (simp add: submit_ok_def sub_def required_ok_def)
  have ver: "verify_authorization ?et (gateway_domain (dv_payment_config dc)) (submit_authorization sub) = Some (ps_from sub)"
    using recover_signed [OF assms(1,2) sg] by (simp add: verify_authorization_def submit_authorization_def sub_def)
  have len: "length (payment_submit_encode sub) \<le> 65507" using submit.enc_length [OF ok] by simp
  obtain pkt where pkt: "build_signal_packet ip PAYMENT_GATEWAY_IP (payment_submit_encode sub) = Some pkt"
      "is_payment_signal pkt" "dst_ipv4 pkt = Some PAYMENT_GATEWAY_IP"
      "extract_signal_payload pkt = Some (payment_submit_encode sub)"
    using signal_packet [OF assms(6) _ len, of PAYMENT_GATEWAY_IP] by (auto simp: PAYMENT_GATEWAY_IP_def)
  have tag: "payment_required_encode req \<noteq> []" "payment_required_encode req ! 0 = MSG_PAYMENT_REQUIRED"
    by (simp_all add: payment_required_encode_def)
  have "send_signal (ex_cr ex) pc (Some pkt) (he_pay_ev he) addr = Some (pc', outs)"
    using h tag required.roundtrip [OF assms(4)] assms(3,5) sg pkt(1)
    by (simp add: handle_payment_signal_client_def Let_def sub_def)
  then obtain res where "encapsulate (ex_cr ex) (pe_tunnel pc) pkt (he_pay_ev he) MAX_PAYMENT_PACKET_SIZE =
      Some (res, pe_tunnel pc')" "outs = (case res of WriteToNetwork enc \<Rightarrow> [SendTo addr enc] | _ \<Rightarrow> [])"
    by (auto simp: send_signal_def split: bind_splits)
  then show ?thesis using ok ver pkt
    by (intro exI [of _ sub] exI [of _ pkt] exI [of _ res]) (simp add: sub_def)
qed

section \<open>Concrete devices\<close>

type_synonym toy_t = "(ip_network \<times> unit) list"
type_synonym toy_d = "(ip_network \<times> nat) list"

definition toy_ext :: "(toy_t, toy_d) ext" where
  "toy_ext = \<lparr>ex_cr = toy_crypto, ex_et = toy_eth, ex_net = toy_net, ex_ptab = toy_table, ex_dtab = toy_table,
     ex_hex_encode = id, ex_hex_decode = Some, ex_rpc = toy_rpc\<rparr>"

definition toy_key_wallet :: "bytes \<Rightarrow> payment_wallet" where
  "toy_key_wallet k = \<lparr>pw_signing_key = k, pw_ethereum_address = compute_address toy_eth k\<rparr>"

lemma toy_key_wallet: "length k = 32 \<Longrightarrow> from_wireguard_key toy_eth k = Some (toy_key_wallet k)"
  by (simp add: from_wireguard_key_def toy_eth_def toy_key_wallet_def)

definition toy_device :: "bytes \<Rightarrow> (toy_t, toy_d) device" where
  "toy_device k = (device_new toy_ext \<lparr>lf_initial = 5, lf_lfsr = 5, lf_mask = 9\<rparr> 1420 True toy_config)
     \<lparr>dv_payment_wallet := Some (toy_key_wallet k)\<rparr>"

definition toy_peer :: "toy_t peer" where
  "toy_peer = \<lparr>pe_tunnel = tunn_new toy_crypto [1] (cr_pub toy_crypto [2]) None None 5 False toy_stamper 0,
     pe_limiter = 0, pe_index = 5, pe_addr = None, pe_conn = False,
     pe_allowed_ips = [((V4 [10, 0, 0, 2], 32), ())], pe_preshared_key = None, pe_quota = Some (quota_new 100)\<rparr>"

definition toy_hev :: hev where
  "toy_hev = \<lparr>he_ev = toy_env 1, he_pay_ev = toy_env 1, he_flush = (\<lambda>_. toy_env 1), he_connect_ok = True,
     he_unix_secs = 1000, he_nonce = replicate 32 7, he_settle = (\<lambda>_ _. Inl (SettleHttp []))\<rparr>"

definition toy_req :: payment_required where
  "toy_req = \<lparr>pr_amount_usdc = 10000, pr_nonce = replicate 32 7,
     pr_recipient = pw_ethereum_address (toy_key_wallet (replicate 32 2)), pr_deadline = 1300, pr_chain_id = 5042002,
     pr_usdc_contract = replicate 20 0x36\<rparr>"

lemma toy_first_ipv4: "first_ipv4 (ex_ptab toy_ext) toy_peer = Some [10, 0, 0, 2]"
  by (simp add: first_ipv4_def peer_allowed_ips_def aips_iter_def toy_peer_def toy_ext_def toy_table_def)

lemma toy_encapsulate:
  assumes "length src \<le> 400"
  shows "encapsulate toy_crypto (pe_tunnel toy_peer) src (toy_env 1) 512 \<noteq> None"
proof -
  have "\<exists>r t'. encapsulate toy_crypto (pe_tunnel toy_peer) src (toy_env 1) 512 = Some (r, t') \<and> tunn_ok 400 1 t'"
    unfolding toy_peer_def peer.select_convs
    by (rule encapsulate_ok [OF toy_crypto_ok tunn_new_ok [OF toy_crypto_ok]]) (use assms in \<open>simp_all add: toy_env_def\<close>)
  then show ?thesis by auto
qed

lemma toy_required_ok: "required_ok toy_req"
  by (simp add: toy_req_def required_ok_def toy_key_wallet_def compute_address_def toy_eth_def)

section \<open>Properties\<close>


text \<open>A submission that is not good credits nothing, but it burns the nonce: with the
  right recipient and amount and a wrong signature, the nonce is recorded, and the
  payer's own correct submission of the same nonce is refused afterwards.\<close>

lemma bad_signature_burns_nonce:
  assumes "pe_quota p = Some q" "payment_submit_decode payload = Some s" "nonce_recorded d s"
    and "verify_authorization (ex_et ex) (gateway_domain (dv_payment_config d)) (submit_authorization s) \<noteq> Some (ps_from s)"
    and "handle_payment_submit ex d p payload addr he = Some (p1, outs)" "ps_nonce s' = ps_nonce s"
  shows "(\<exists>q1. pe_quota p1 = Some q1 \<and> remaining q1 = remaining q \<and> payment_count q1 = payment_count q) \<and>
    \<not> good_submit ex d p1 he' s'"
proof -
  have "\<not> good_submit ex d p he s" using assms(4) by (auto simp: good_submit_def)
  with handle_payment_submit_quota [OF assms(2,1,5)] assms(3)
  have q1: "pe_quota p1 = Some (q\<lparr>q_used_nonces := insert (ps_nonce s) (q_used_nonces q)\<rparr>)"
    by simp
  then have "nonce_used (ps_nonce s') p1" by (simp add: nonce_used_def assms(6))
  then show ?thesis using q1 by (auto simp: remaining_def payment_count_def dest: used_not_good)
qed


section \<open>Witnesses\<close>

lemma toy_device_fields:
  "dv_payment_wallet (toy_device k) = Some (toy_key_wallet k)" "dv_payment_config (toy_device k) = toy_config"
  "dv_settlement_client (toy_device k) = None"
  by (simp_all add: toy_device_def device_new_def)

text \<open>The client of the first key answers the request of the server of the second.\<close>

lemma toy_client_runs:
  "\<exists>p outs. handle_payment_signal_client toy_ext (toy_device (replicate 32 1)) toy_peer (payment_required_encode toy_req)
    (V4 [1, 1, 1, 1], 5) toy_hev = Some (p, outs)"
proof -
  have e: "payment_required_encode toy_req \<noteq> []" "payment_required_encode toy_req ! 0 = MSG_PAYMENT_REQUIRED"
    by (simp_all add: payment_required_encode_def)
  have run: "\<exists>p outs. send_signal toy_crypto toy_peer (build_signal_packet [10, 0, 0, 2] PAYMENT_GATEWAY_IP
      (payment_submit_encode s)) (toy_env 1) (V4 [1, 1, 1, 1], 5) = Some (p, outs)" if so: "submit_ok s" for s
  proof -
    obtain pkt where pkt: "build_signal_packet [10, 0, 0, 2] PAYMENT_GATEWAY_IP (payment_submit_encode s) = Some pkt"
        "length pkt = 28 + 164"
      using signal_packet [of "[10, 0, 0, 2]" PAYMENT_GATEWAY_IP "payment_submit_encode s"] submit.enc_length [OF so]
      by (auto simp: PAYMENT_GATEWAY_IP_def)
    have "encapsulate toy_crypto (pe_tunnel toy_peer) pkt (toy_env 1) 512 \<noteq> None"
      by (rule toy_encapsulate) (simp add: pkt(2))
    then show ?thesis using pkt(1) by (auto simp: send_signal_def MAX_PAYMENT_PACKET_SIZE_def)
  qed
  show ?thesis
    using e required.roundtrip [OF toy_required_ok] toy_first_ipv4
    by (auto simp: handle_payment_signal_client_def toy_device_fields Let_def sign_digest_def toy_ext_def toy_eth_def
        toy_hev_def submit_ok_def toy_key_wallet_def compute_address_def toy_req_def intro!: run [unfolded One_nat_def])
qed

text \<open>The server handles every payload.\<close>

lemma toy_accepted_runs:
  "\<exists>p' outs. send_payment_accepted toy_ext (toy_device k) (credit_peer (toy_peer\<lparr>pe_quota := q\<rparr>) n)
    (V4 [1, 1, 1, 1], 5) toy_hev = Some (p', outs)"
proof -
  let ?m = "payment_accepted_encode \<lparr>pa_new_quota_bytes = pc_quota_bytes toy_config\<rparr>"
  obtain pkt where pkt: "build_signal_packet PAYMENT_GATEWAY_IP [10, 0, 0, 2] ?m = Some pkt" "length pkt = 28 + 11"
    using signal_packet [of PAYMENT_GATEWAY_IP "[10, 0, 0, 2]" ?m] accepted.enc_length
    by (auto simp: PAYMENT_GATEWAY_IP_def)
  have "encapsulate toy_crypto (pe_tunnel toy_peer) pkt (toy_env 1) 512 \<noteq> None"
    by (rule toy_encapsulate) (simp add: pkt(2))
  moreover have "first_ipv4 (ex_ptab toy_ext) (credit_peer (toy_peer\<lparr>pe_quota := q\<rparr>) n) = Some [10, 0, 0, 2]"
    using toy_first_ipv4 by (simp add: first_ipv4_def peer_allowed_ips_def credit_peer_def)
  ultimately show ?thesis using pkt(1)
    by (auto simp: send_payment_accepted_def send_signal_def MAX_PAYMENT_PACKET_SIZE_def toy_device_fields
        toy_ext_def toy_hev_def credit_peer_def)
qed

lemma toy_server_runs:
  "\<exists>p outs. handle_payment_submit toy_ext (toy_device k) toy_peer payload (V4 [1, 1, 1, 1], 5) toy_hev = Some (p, outs)"
proof -
  have q: "pe_quota toy_peer = Some (quota_new 100)" by (simp add: toy_peer_def)
  show ?thesis unfolding handle_payment_submit_def toy_device_fields
    using toy_accepted_runs [of k "Some q" for q]
    by (auto simp: Let_def record_nonce_some [OF q] split: option.split)
qed

lemma toy_answer:
  "\<exists>s. submit_ok s \<and> ps_nonce s = replicate 32 7 \<and> good_submit toy_ext (toy_device (replicate 32 2)) toy_peer toy_hev s"
proof -
  obtain p outs where r: "handle_payment_signal_client toy_ext (toy_device (replicate 32 1)) toy_peer
      (payment_required_encode toy_req) (V4 [1, 1, 1, 1], 5) toy_hev = Some (p, outs)"
    using toy_client_runs by blast
  have "eth_ok (ex_et toy_ext)" "from_wireguard_key (ex_et toy_ext) (replicate 32 1) = Some (toy_key_wallet (replicate 32 1))"
    by (simp_all add: toy_ext_def toy_eth_ok toy_key_wallet)
  from client_answer [OF this toy_device_fields(1) toy_required_ok toy_first_ipv4 _ r]
  obtain s where "submit_ok s" "ps_to s = pr_recipient toy_req" "ps_value s = pr_amount_usdc toy_req"
      "ps_nonce s = pr_nonce toy_req" "verify_authorization (ex_et toy_ext) (gateway_domain toy_config)
        (submit_authorization s) = Some (ps_from s)"
    by (auto simp: toy_device_fields)
  then show ?thesis
    by (intro exI [of _ s]) (simp add: good_submit_def toy_device_fields toy_req_def toy_config_def toy_peer_def quota_new_def)
qed



end
