(* ===== verification/Device_Io.thy ===== *)
theory Device_Io
  imports Payment_Flow
begin

text \<open>
  The event handlers of the device (\<open>device/mod.rs\<close>, \<open>register_timers\<close>,
  \<open>register_udp_handler\<close>, \<open>register_conn_handler\<close>, \<open>register_iface_handler\<close>).  The
  system calls become arguments and results: a handler takes the datagrams it would
  receive and gives back the datagrams and packets it writes.  \<open>None\<close> is a panic of the
  thread, or a loop that does not end.
\<close>

section \<open>Access to peers and limiters\<close>

definition put_peer :: "('u, 't) device \<Rightarrow> nat \<Rightarrow> 'u peer \<Rightarrow> ('u, 't) device" where
  "put_peer d a p = d\<lparr>dv_heap := (dv_heap d)[a := p]\<rparr>"

definition put_limiter :: "('u, 't) device \<Rightarrow> nat \<Rightarrow> rate_limiter \<Rightarrow> ('u, 't) device" where
  "put_limiter d l rl = d\<lparr>dv_limiters := (dv_limiters d)[l := rl]\<rparr>"

section \<open>Quota enforcement\<close>

text \<open>The server's check before a packet of a peer passes, in either direction.\<close>

datatype gate = Pass | Blocked | Exhausted

definition quota_gate :: "('u, 't) device \<Rightarrow> 'u peer \<Rightarrow> bytes \<Rightarrow> gate \<times> 'u peer" where
  "quota_gate d p packet =
     (if \<not> pc_is_server (dv_payment_config d) then (Pass, p)
      else case pe_quota p of None \<Rightarrow> (Pass, p)
      | Some quota \<Rightarrow>
        if is_blocked quota then (Blocked, p)
        else let (ok, quota) = consume quota (of_nat (length packet)) in
          (if ok then Pass else Exhausted, p\<lparr>pe_quota := Some quota\<rparr>))"

section \<open>Packets out of the tunnel\<close>

text \<open>What follows the match on the result of the tunnel: leave the iteration
  (\<open>continue\<close>), or go on to its end.\<close>

datatype flow = Continue | GoOn

text \<open>A payment signal.  The return address is read only where it is needed.\<close>

definition payment_signal ::
  "('u, 't) ext \<Rightarrow> ('u, 't) device \<Rightarrow> 'u peer \<Rightarrow> bytes \<Rightarrow> sock_addr option \<Rightarrow> hev \<Rightarrow> ('u peer \<times> dev_out list) option" where
  "payment_signal ex d p packet addr he =
     (case extract_signal_payload packet of None \<Rightarrow> Some (p, [])
      | Some payload \<Rightarrow>
     (case dst_ipv4 packet of None \<Rightarrow> Some (p, [])
      | Some dst \<Rightarrow>
        if dst = PAYMENT_GATEWAY_IP then do {
          addr \<leftarrow> addr;
          handle_payment_submit ex d p payload addr he }
        else (case src_ipv4 packet of None \<Rightarrow> Some (p, [])
          | Some src \<Rightarrow>
            if src = PAYMENT_GATEWAY_IP then do {
              addr \<leftarrow> addr;
              handle_payment_signal_client ex d p payload addr he }
            else Some (p, []))))"

definition deliver_v4 ::
  "('u, 't) ext \<Rightarrow> ('u, 't) device \<Rightarrow> 'u peer \<Rightarrow> bytes \<Rightarrow> bytes \<Rightarrow> sock_addr option \<Rightarrow> hev \<Rightarrow>
    (flow \<times> 'u peer \<times> dev_out list) option" where
  "deliver_v4 ex d p packet src_ip addr he =
     (if is_payment_signal packet then do {
        (p, outs) \<leftarrow> payment_signal ex d p packet addr he;
        Some (Continue, p, outs) }
      else if is_allowed_ip (ex_ptab ex) p (V4 src_ip) then
        (case quota_gate d p packet of
           (Pass, p) \<Rightarrow> Some (GoOn, p, [Write4 packet])
         | (Blocked, p) \<Rightarrow> Some (Continue, p, [])
         | (Exhausted, p) \<Rightarrow> do {
             addr \<leftarrow> addr;
             (p, outs) \<leftarrow> send_payment_required ex d p addr he;
             Some (Continue, p, outs) })
      else Some (GoOn, p, []))"

definition deliver_v6 ::
  "('u, 't) ext \<Rightarrow> ('u, 't) device \<Rightarrow> 'u peer \<Rightarrow> bytes \<Rightarrow> bytes \<Rightarrow> flow \<times> 'u peer \<times> dev_out list" where
  "deliver_v6 ex d p packet src_ip =
     (if is_allowed_ip (ex_ptab ex) p (V6 src_ip) then
        (case quota_gate d p packet of
           (Pass, p) \<Rightarrow> (GoOn, p, [Write6 packet])
         | (_, p) \<Rightarrow> (Continue, p, []))
      else (GoOn, p, []))"

text \<open>Flushing the queue: \<open>decapsulate\<close> with an empty datagram until it has nothing to
  send.  The limiter is not used on this path.\<close>

partial_function (option) flush_queue ::
  "crypto \<Rightarrow> tunn \<Rightarrow> rate_limiter \<Rightarrow> (nat \<Rightarrow> env) \<Rightarrow> nat \<Rightarrow> (bytes list \<times> tunn \<times> rate_limiter) option" where
  "flush_queue cr t rl evs k =
     Option.bind (decapsulate cr t rl None [] (evs k) MAX_UDP_SIZE) (\<lambda>(r, t, rl).
       case r of
         WriteToNetwork packet \<Rightarrow>
           Option.bind (flush_queue cr t rl evs (Suc k)) (\<lambda>(ps, t, rl). Some (packet # ps, t, rl))
       | _ \<Rightarrow> Some ([], t, rl))"

section \<open>Datagrams on the listening socket\<close>

definition find_peer ::
  "('u, 't) ext \<Rightarrow> ('u, 't) device \<Rightarrow> bytes \<Rightarrow> bytes \<Rightarrow> packet \<Rightarrow> nat option option" where
  "find_peer ex d private_key public_key packet =
     (case packet of
        HandshakeInit p \<Rightarrow> do {
          r \<leftarrow> parse_handshake_anon (ex_cr ex) private_key public_key p;
          Some (case r of Inl _ \<Rightarrow> None | Inr hh \<Rightarrow> map_of (dv_peers d) (hh_peer_static_public hh)) }
      | HandshakeResponse p \<Rightarrow> Some (map_of (dv_peers_by_idx d) (drop_bit 8 (hr_receiver_idx p)))
      | PacketCookieReply p \<Rightarrow> Some (map_of (dv_peers_by_idx d) (drop_bit 8 (cp_receiver_idx p)))
      | PacketData p \<Rightarrow> Some (map_of (dv_peers_by_idx d) (drop_bit 8 (pd_receiver_idx p))))"

text \<open>The end of an iteration: flush, then remember the endpoint and connect to it.\<close>

definition udp_finish ::
  "('u, 't) ext \<Rightarrow> ('u, 't) device \<Rightarrow> 'u peer \<Rightarrow> bool \<Rightarrow> sock_addr \<Rightarrow> hev \<Rightarrow>
    ('u peer \<times> rate_limiter \<times> dev_out list) option" where
  "udp_finish ex d p flush addr he = do {
     let rl = dv_limiters d ! pe_limiter p;
     (packets, t, rl) \<leftarrow> (if flush then flush_queue (ex_cr ex) (pe_tunnel p) rl (he_flush he) 0
                          else Some ([], pe_tunnel p, rl));
     let p = set_endpoint (p\<lparr>pe_tunnel := t\<rparr>) addr;
     p \<leftarrow> (if dv_use_connected_socket d then map_option snd (connect_endpoint p (he_connect_ok he)) else Some p);
     Some (p, rl, map (SendTo addr) packets) }"

text \<open>The match on the result of the tunnel: how to go on, and whether to flush.\<close>

definition udp_result ::
  "('u, 't) ext \<Rightarrow> ('u, 't) device \<Rightarrow> 'u peer \<Rightarrow> TunnResult \<Rightarrow> sock_addr \<Rightarrow> hev \<Rightarrow>
    (flow \<times> bool \<times> 'u peer \<times> dev_out list) option" where
  "udp_result ex d p r addr he = (case r of
       Done \<Rightarrow> Some (GoOn, False, p, [])
     | TErr _ \<Rightarrow> Some (Continue, False, p, [])
     | WriteToNetwork packet \<Rightarrow> Some (GoOn, True, p, [SendTo addr packet])
     | WriteToTunnelV4 packet src_ip \<Rightarrow>
         map_option (\<lambda>(fl, p, outs). (fl, False, p, outs)) (deliver_v4 ex d p packet src_ip (Some addr) he)
     | WriteToTunnelV6 packet src_ip \<Rightarrow>
         (case deliver_v6 ex d p packet src_ip of (fl, p, outs) \<Rightarrow> Some (fl, False, p, outs)))"

text \<open>One datagram; the flag says whether the iteration reached its end, where the count
  of packets per call goes down.\<close>

definition udp_datagram ::
  "('u, 't) ext \<Rightarrow> ('u, 't) device \<Rightarrow> sock_addr \<Rightarrow> bytes \<Rightarrow> hev \<Rightarrow> (bool \<times> ('u, 't) device \<times> dev_out list) option" where
  "udp_datagram ex d addr datagram he = do {
     (private_key, public_key) \<leftarrow> dv_key_pair d;
     l \<leftarrow> dv_rate_limiter d;
     let cr = ex_cr ex;
     let (v, rl) = verify_packet cr (dv_limiters d ! l) (Some (fst addr)) datagram (ev_time (he_ev he)) MAX_UDP_SIZE;
     let d = put_limiter d l rl;
     case v of
       Inl (WriteToNetwork cookie) \<Rightarrow> Some (False, d, [SendTo addr cookie])
     | Inl _ \<Rightarrow> Some (False, d, [])
     | Inr parsed_packet \<Rightarrow> do {
         found \<leftarrow> find_peer ex d private_key public_key parsed_packet;
         case found of None \<Rightarrow> Some (False, d, [])
         | Some a \<Rightarrow> do {
             let p = dv_heap d ! a;
             (r, t) \<leftarrow> handle_verified_packet cr (pe_tunnel p) parsed_packet (he_ev he) MAX_UDP_SIZE;
             (flow, flush, p, outs) \<leftarrow> udp_result ex d (p\<lparr>pe_tunnel := t\<rparr>) r addr he;
             (case flow of
                Continue \<Rightarrow> Some (False, put_peer d a p, outs)
              | GoOn \<Rightarrow> do {
                  (p, rl, flushed) \<leftarrow> udp_finish ex d p flush addr he;
                  Some (True, put_peer (put_limiter d (pe_limiter p) rl) a p, outs @ flushed) }) } } }"

text \<open>The loop over the datagrams that are waiting, at most \<open>MAX_ITR\<close> complete iterations.\<close>

fun udp_loop ::
  "('u, 't) ext \<Rightarrow> nat \<Rightarrow> ('u, 't) device \<Rightarrow> (sock_addr \<times> bytes \<times> hev) list \<Rightarrow> (('u, 't) device \<times> dev_out list) option" where
  "udp_loop ex iter d [] = Some (d, [])"
| "udp_loop ex iter d ((addr, datagram, he) # rest) = do {
     (counted, d, outs) \<leftarrow> udp_datagram ex d addr datagram he;
     let iter = (if counted then iter - 1 else iter);
     if counted \<and> iter = 0 then Some (d, outs)
     else do {
       (d, outs') \<leftarrow> udp_loop ex iter d rest;
       Some (d, outs @ outs') } }"

definition udp_handler ::
  "('u, 't) ext \<Rightarrow> ('u, 't) device \<Rightarrow> (sock_addr \<times> bytes \<times> hev) list \<Rightarrow> (('u, 't) device \<times> dev_out list) option" where
  "udp_handler ex d received =
     (if dv_key_pair d = None \<or> dv_rate_limiter d = None then None else udp_loop ex MAX_ITR d received)"

section \<open>Datagrams on a connected socket\<close>

definition conn_result ::
  "('u, 't) ext \<Rightarrow> ('u, 't) device \<Rightarrow> 'u peer \<Rightarrow> TunnResult \<Rightarrow> hev \<Rightarrow>
    (flow \<times> bool \<times> 'u peer \<times> dev_out list) option" where
  "conn_result ex d p r he = (case r of
       Done \<Rightarrow> Some (GoOn, False, p, [])
     | TErr _ \<Rightarrow> Some (GoOn, False, p, [])
     | WriteToNetwork packet \<Rightarrow> Some (GoOn, True, p, [SendConn packet])
     | WriteToTunnelV4 packet src_ip \<Rightarrow>
         map_option (\<lambda>(fl, p, outs). (fl, False, p, outs)) (deliver_v4 ex d p packet src_ip (pe_addr p) he)
     | WriteToTunnelV6 packet src_ip \<Rightarrow>
         (case deliver_v6 ex d p packet src_ip of (fl, p, outs) \<Rightarrow> Some (fl, False, p, outs)))"

definition conn_datagram ::
  "('u, 't) ext \<Rightarrow> nat \<Rightarrow> IpAddr \<Rightarrow> ('u, 't) device \<Rightarrow> bytes \<Rightarrow> hev \<Rightarrow> (bool \<times> ('u, 't) device \<times> dev_out list) option" where
  "conn_datagram ex a peer_addr d datagram he = do {
     let cr = ex_cr ex;
     let p = dv_heap d ! a;
     let l = pe_limiter p;
     (r, t, rl) \<leftarrow> decapsulate cr (pe_tunnel p) (dv_limiters d ! l) (Some peer_addr) datagram (he_ev he) MAX_UDP_SIZE;
     let d = put_limiter d l rl;
     (flow, flush, p, outs) \<leftarrow> conn_result ex d (p\<lparr>pe_tunnel := t\<rparr>) r he;
     (case flow of
        Continue \<Rightarrow> Some (False, put_peer d a p, outs)
      | GoOn \<Rightarrow> do {
          (packets, t, rl) \<leftarrow> (if flush then flush_queue cr (pe_tunnel p) (dv_limiters d ! l) (he_flush he) 0
                               else Some ([], pe_tunnel p, dv_limiters d ! l));
          Some (True, put_peer (put_limiter d l rl) a (p\<lparr>pe_tunnel := t\<rparr>), outs @ map SendConn packets) }) }"

fun conn_loop ::
  "('u, 't) ext \<Rightarrow> nat \<Rightarrow> IpAddr \<Rightarrow> nat \<Rightarrow> ('u, 't) device \<Rightarrow> (bytes \<times> hev) list \<Rightarrow>
    (('u, 't) device \<times> dev_out list) option" where
  "conn_loop ex a peer_addr iter d [] = Some (d, [])"
| "conn_loop ex a peer_addr iter d ((datagram, he) # rest) = do {
     (counted, d, outs) \<leftarrow> conn_datagram ex a peer_addr d datagram he;
     let iter = (if counted then iter - 1 else iter);
     if counted \<and> iter = 0 then Some (d, outs)
     else do {
       (d, outs') \<leftarrow> conn_loop ex a peer_addr iter d rest;
       Some (d, outs @ outs') } }"

definition conn_handler ::
  "('u, 't) ext \<Rightarrow> nat \<Rightarrow> IpAddr \<Rightarrow> ('u, 't) device \<Rightarrow> (bytes \<times> hev) list \<Rightarrow> (('u, 't) device \<times> dev_out list) option" where
  "conn_handler ex a peer_addr d received = conn_loop ex a peer_addr MAX_ITR d received"

section \<open>Packets from the interface\<close>

definition iface_packet ::
  "('u, 't) ext \<Rightarrow> ('u, 't) device \<Rightarrow> bytes \<Rightarrow> hev \<Rightarrow> (('u, 't) device \<times> dev_out list) option" where
  "iface_packet ex d src he =
     (case dst_address src of None \<Rightarrow> Some (d, [])
      | Some dst_addr \<Rightarrow>
     (case aips_find (ex_dtab ex) (dv_peers_by_ip d) dst_addr of None \<Rightarrow> Some (d, [])
      | Some a \<Rightarrow>
        (case quota_gate d (dv_heap d ! a) src of
           (Blocked, p) \<Rightarrow> Some (put_peer d a p, [])
         | (Exhausted, p) \<Rightarrow>
             (case pe_addr p of None \<Rightarrow> Some (put_peer d a p, [])
              | Some addr \<Rightarrow> do {
                  (p, outs) \<leftarrow> send_payment_required ex d p addr he;
                  Some (put_peer d a p, outs) })
         | (Pass, p) \<Rightarrow> do {
             (r, t) \<leftarrow> encapsulate (ex_cr ex) (pe_tunnel p) src (he_ev he) MAX_UDP_SIZE;
             let d = put_peer d a (p\<lparr>pe_tunnel := t\<rparr>);
             (case r of
                Done \<Rightarrow> Some (d, [])
              | TErr _ \<Rightarrow> Some (d, [])
              | WriteToNetwork packet \<Rightarrow> Some (d, if pe_conn p then [SendConn packet]
                  else case pe_addr p of Some addr \<Rightarrow> [SendTo addr packet] | None \<Rightarrow> [])
              | _ \<Rightarrow> None) })))"

text \<open>At most \<open>MAX_ITR\<close> reads; the flag says whether a read failed for good
  (\<open>Action::Exit\<close>).\<close>

datatype iface_read = Packet bytes | WouldBlock | ReadError

fun iface_loop ::
  "('u, 't) ext \<Rightarrow> nat \<Rightarrow> ('u, 't) device \<Rightarrow> (iface_read \<times> hev) list \<Rightarrow> (bool \<times> ('u, 't) device \<times> dev_out list) option" where
  "iface_loop ex (Suc n) d ((Packet src, he) # rest) = do {
     (d, outs) \<leftarrow> iface_packet ex d (take (dv_mtu d) src) he;
     (ex', d, outs') \<leftarrow> iface_loop ex n d rest;
     Some (ex', d, outs @ outs') }"
| "iface_loop ex (Suc n) d ((ReadError, he) # rest) = Some (True, d, [])"
| "iface_loop ex n d reads = Some (False, d, [])"

definition iface_handler ::
  "('u, 't) ext \<Rightarrow> ('u, 't) device \<Rightarrow> (iface_read \<times> hev) list \<Rightarrow> (bool \<times> ('u, 't) device \<times> dev_out list) option" where
  "iface_handler ex d reads =
     (if dv_udp4 d \<and> dv_udp6 d then iface_loop ex MAX_ITR d reads else None)"

section \<open>Timers\<close>

definition reset_timer :: "('u, 't) device \<Rightarrow> nat \<Rightarrow> ('u, 't) device" where
  "reset_timer d now = (case dv_rate_limiter d of None \<Rightarrow> d
     | Some l \<Rightarrow> put_limiter d l (reset_count (dv_limiters d ! l) now))"

definition timer_peer ::
  "('u, 't) ext \<Rightarrow> ('u, 't) device \<Rightarrow> nat \<Rightarrow> env \<Rightarrow> (('u, 't) device \<times> dev_out list) option" where
  "timer_peer ex d a ev =
     (let p = dv_heap d ! a in
      case pe_addr p of None \<Rightarrow> Some (d, [])
      | Some endpoint_addr \<Rightarrow> do {
          (r, p, rl) \<leftarrow> peer_update_timers (ex_cr ex) p (dv_limiters d ! pe_limiter p) ev MAX_UDP_SIZE;
          let d = put_limiter d (pe_limiter p) rl;
          (case r of
             Done \<Rightarrow> Some (put_peer d a p, [])
           | TErr e \<Rightarrow> Some (put_peer d a (if e = ConnectionExpired then shutdown_endpoint p else p), [])
           | WriteToNetwork packet \<Rightarrow> Some (put_peer d a p, [SendTo endpoint_addr packet])
           | _ \<Rightarrow> None) })"

fun timer_loop ::
  "('u, 't) ext \<Rightarrow> ('u, 't) device \<Rightarrow> (nat \<times> env) list \<Rightarrow> (('u, 't) device \<times> dev_out list) option" where
  "timer_loop ex d [] = Some (d, [])"
| "timer_loop ex d ((a, ev) # rest) = do {
     (d, outs) \<leftarrow> timer_peer ex d a ev;
     (d, outs') \<leftarrow> timer_loop ex d rest;
     Some (d, outs @ outs') }"

text \<open>The clock readings come in the order of the peers.\<close>

definition timer_handler ::
  "('u, 't) ext \<Rightarrow> ('u, 't) device \<Rightarrow> (nat \<Rightarrow> env) \<Rightarrow> (('u, 't) device \<times> dev_out list) option" where
  "timer_handler ex d evs =
     (if dv_udp4 d \<and> dv_udp6 d then timer_loop ex d (map (\<lambda>(i, k, a). (a, evs i)) (enumerate 0 (dv_peers d)))
      else Some (d, []))"

end
