(* ===== verification/Device_Run.thy ===== *)
theory Device_Run
  imports Device_Io
begin

text \<open>
  Runs of a device: configuration calls and events in any order.  Every step keeps
  \<open>dev_ok\<close>, so datagrams reach the peer whose session they name; and what a server
  forwards for a peer is bounded by the peer's quota and its payments.
\<close>

section \<open>Handlers keep peers\<close>

lemma peer_kept_tunnel:
  "(\<And>k. tunn_idx k (pe_tunnel p) \<Longrightarrow> tunn_idx k t) \<Longrightarrow> peer_kept p (p\<lparr>pe_tunnel := t\<rparr>)"
  by (simp add: peer_kept_def)

lemma peer_kept_endpoint [simp]:
  "peer_kept p (set_endpoint p addr)" "peer_kept p (shutdown_endpoint p)"
  by (simp_all add: peer_kept_def set_endpoint_def shutdown_endpoint_def)

lemma connect_endpoint_kept: "connect_endpoint p ok = Some (r, p') \<Longrightarrow> peer_kept p p' \<and> pe_quota p' = pe_quota p"
  by (auto simp: connect_endpoint_def peer_kept_def split: if_splits option.splits)

lemma set_endpoint_quota [simp]: "pe_quota (set_endpoint p addr) = pe_quota p"
  by (simp add: set_endpoint_def)

lemma quota_gate_kept: "quota_gate d p packet = (g, p') \<Longrightarrow> peer_kept p p'"
  by (auto simp: quota_gate_def Let_def split: if_splits option.splits prod.splits)

lemma payment_signal_kept: "payment_signal ex d p packet addr he = Some (p', outs) \<Longrightarrow> peer_kept p p'"
  by (auto simp: payment_signal_def split: option.splits if_splits bind_splits
      dest: handle_payment_submit_kept client_kept)

lemma deliver_v4_kept:
  assumes "deliver_v4 ex d p packet src addr he = Some (fl, p', outs)"
  shows "peer_kept p p'"
proof (cases "is_payment_signal packet \<or> \<not> is_allowed_ip (ex_ptab ex) p (V4 src)")
  case True
  then show ?thesis using assms
    by (auto simp: deliver_v4_def split: bind_splits if_splits dest: payment_signal_kept)
next
  case False
  obtain g p1 where g: "quota_gate d p packet = (g, p1)" by fastforce
  have "peer_kept p1 p'" using assms False g
    by (cases g) (auto simp: deliver_v4_def split: bind_splits dest: send_payment_required_kept)
  then show ?thesis using quota_gate_kept [OF g] peer_kept_trans by blast
qed

lemma deliver_v6_kept: "deliver_v6 ex d p packet src = (fl, p', outs) \<Longrightarrow> peer_kept p p'"
  by (auto simp: deliver_v6_def split: if_splits prod.splits gate.splits dest: quota_gate_kept)

lemma flush_queue_idx:
  assumes "flush_queue cr t rl evs k = Some (ps, t', rl')" "tunn_idx i t"
  shows "tunn_idx i t'"
proof -
  have "tunn_idx i t \<longrightarrow> (case (ps, t', rl') of (ps, t', rl') \<Rightarrow> tunn_idx i t')"
  proof (rule flush_queue.raw_induct [OF _ assms(1), where P = "\<lambda>cr t rl evs k r. tunn_idx i t \<longrightarrow> (case r of (ps, t', rl') \<Rightarrow> tunn_idx i t')"])
    fix flush cr t rl evs k r
    assume IH: "\<And>cr t rl evs k r. flush cr t rl evs k = Some r \<Longrightarrow> tunn_idx i t \<longrightarrow> (case r of (ps, t', rl') \<Rightarrow> tunn_idx i t')"
      and step: "Option.bind (decapsulate cr t rl None [] (evs k) MAX_UDP_SIZE) (\<lambda>(r, t, rl).
         case r of WriteToNetwork packet \<Rightarrow> Option.bind (flush cr t rl evs (Suc k)) (\<lambda>(ps, t, rl). Some (packet # ps, t, rl))
         | _ \<Rightarrow> Some ([], t, rl)) = Some r"
    from step obtain x t1 rl1 where d: "decapsulate cr t rl None [] (evs k) MAX_UDP_SIZE = Some (x, t1, rl1)"
      by (auto split: bind_splits)
    show "tunn_idx i t \<longrightarrow> (case r of (ps, t', rl') \<Rightarrow> tunn_idx i t')"
      using step d decapsulate_idx [OF _ d, of i] IH [of cr t1 rl1 evs "Suc k"]
      by (cases x) (auto split: bind_splits)
  qed
  then show ?thesis using assms(2) by simp
qed

section \<open>Steps keep the tables\<close>

lemma dev_ok_put_peer:
  assumes "dev_ok ex d" "peer_kept (dv_heap d ! a) p"
  shows "dev_ok ex (put_peer d a p)"
proof (rule dev_ok_heap [OF assms(1)])
  show "heap_kept (dv_heap d) (dv_heap (put_peer d a p))"
    using assms(2) by (simp add: put_peer_def) (rule heap_kept_update; simp add: peer_kept_def)
qed (simp_all add: put_peer_def)

lemma put_limiter_fields [simp]:
  "dv_heap (put_limiter d l rl) = dv_heap d" "dv_peers (put_limiter d l rl) = dv_peers d"
  "dv_peers_by_idx (put_limiter d l rl) = dv_peers_by_idx d" "dv_peers_by_ip (put_limiter d l rl) = dv_peers_by_ip d"
  "dv_next_index (put_limiter d l rl) = dv_next_index d" "dv_payment_config (put_limiter d l rl) = dv_payment_config d"
  by (simp_all add: put_limiter_def)

lemma dev_ok_put_limiter [simp]: "dev_ok ex (put_limiter d l rl) = dev_ok ex d"
  using dev_ok_heap [of ex d "put_limiter d l rl"] dev_ok_heap [of ex "put_limiter d l rl" d] by auto

lemma udp_finish_kept:
  assumes "udp_finish ex d p flush addr he = Some (p', rl, outs)"
  shows "peer_kept p p'"
proof -
  obtain ps t rl1 where f: "(if flush then flush_queue (ex_cr ex) (pe_tunnel p) (dv_limiters d ! pe_limiter p) (he_flush he) 0
      else Some ([], pe_tunnel p, dv_limiters d ! pe_limiter p)) = Some (ps, t, rl1)"
    using assms by (auto simp: udp_finish_def Let_def split: bind_splits)
  have "peer_kept p (p\<lparr>pe_tunnel := t\<rparr>)"
    by (rule peer_kept_tunnel) (use f in \<open>auto split: if_splits dest: flush_queue_idx\<close>)
  moreover have "peer_kept (set_endpoint (p\<lparr>pe_tunnel := t\<rparr>) addr) p'"
    using assms f by (auto simp: udp_finish_def Let_def split: bind_splits if_splits dest: connect_endpoint_kept)
  ultimately show ?thesis using peer_kept_trans peer_kept_endpoint by blast
qed

lemma udp_result_kept: "udp_result ex d p r addr he = Some (fl, fs, p', outs) \<Longrightarrow> peer_kept p p'"
  by (cases r) (auto simp: udp_result_def split: prod.splits dest: deliver_v4_kept deliver_v6_kept)

lemma conn_result_kept: "conn_result ex d p r he = Some (fl, fs, p', outs) \<Longrightarrow> peer_kept p p'"
  by (cases r) (auto simp: conn_result_def split: prod.splits dest: deliver_v4_kept deliver_v6_kept)

text \<open>A datagram that was delivered to a peer, cut into the steps of the handler.\<close>

lemma udp_datagram_cases:
  assumes "udp_datagram ex d addr datagram he = Some (b, d', outs)"
  obtains (none) l rl where "d' = put_limiter d l rl" "\<forall>p. Write4 p \<notin> set outs \<and> Write6 p \<notin> set outs"
  | (peer) sk pk l rl pkt a r t fl fs p1 o1 where
      "dv_key_pair d = Some (sk, pk)"
      "find_peer ex (put_limiter d l rl) sk pk pkt = Some (Some a)"
      "handle_verified_packet (ex_cr ex) (pe_tunnel (dv_heap d ! a)) pkt (he_ev he) MAX_UDP_SIZE = Some (r, t)"
      "udp_result ex (put_limiter d l rl) ((dv_heap d ! a)\<lparr>pe_tunnel := t\<rparr>) r addr he = Some (fl, fs, p1, o1)"
      "fl = Continue \<and> d' = put_peer (put_limiter d l rl) a p1 \<and> outs = o1 \<or>
       fl = GoOn \<and> (\<exists>p2 rl2 fls. udp_finish ex (put_limiter d l rl) p1 fs addr he = Some (p2, rl2, fls) \<and>
         d' = put_peer (put_limiter (put_limiter d l rl) (pe_limiter p2) rl2) a p2 \<and> outs = o1 @ fls)"
proof -
  obtain kp where kp: "dv_key_pair d = Some kp"
    using assms by (cases "dv_key_pair d") (simp_all add: udp_datagram_def)
  obtain sk pk where k: "dv_key_pair d = Some (sk, pk)" using kp by (cases kp) auto
  obtain l where l: "dv_rate_limiter d = Some l"
    using assms k by (cases "dv_rate_limiter d") (simp_all add: udp_datagram_def)
  obtain v rl where v: "verify_packet (ex_cr ex) (dv_limiters d ! l) (Some (fst addr)) datagram (ev_time (he_ev he))
      MAX_UDP_SIZE = (v, rl)" by fastforce
  note u = assms [unfolded udp_datagram_def k l v bind.bind_lunit prod.case Let_def]
  show thesis
  proof (cases v)
    case (Inl e)
    then have "d' = put_limiter d l rl" "\<forall>p. Write4 p \<notin> set outs \<and> Write6 p \<notin> set outs"
      using u by (cases e; auto)+
    then show thesis by (rule none)
  next
    case (Inr pkt)
    obtain found where f: "find_peer ex (put_limiter d l rl) sk pk pkt = Some found"
      using u Inr by (cases "find_peer ex (put_limiter d l rl) sk pk pkt") auto
    show thesis
    proof (cases found)
      case None
      then show thesis using u Inr f none [of l rl] by auto
    next
      case (Some a)
      obtain r t where h: "handle_verified_packet (ex_cr ex) (pe_tunnel (dv_heap d ! a)) pkt (he_ev he) MAX_UDP_SIZE = Some (r, t)"
        using u Inr f Some
        by (cases "handle_verified_packet (ex_cr ex) (pe_tunnel (dv_heap d ! a)) pkt (he_ev he) MAX_UDP_SIZE") auto
      obtain fl fs p1 o1 where m: "udp_result ex (put_limiter d l rl) ((dv_heap d ! a)\<lparr>pe_tunnel := t\<rparr>) r addr he =
          Some (fl, fs, p1, o1)"
        using u Inr f Some h
        by (cases "udp_result ex (put_limiter d l rl) ((dv_heap d ! a)\<lparr>pe_tunnel := t\<rparr>) r addr he") auto
      show thesis
        using u Inr f Some h m
        by (cases fl) (auto intro!: peer [OF k f [unfolded Some] h m] split: bind_splits)
    qed
  qed
qed

lemma udp_datagram_ok:
  assumes ok: "dev_ok ex d" and u: "udp_datagram ex d addr datagram he = Some (b, d', outs)"
  shows "dev_ok ex d'"
proof (rule udp_datagram_cases [OF u], goal_cases)
  case (1 l rl)
  then show ?case using ok by simp
next
  case (2 sk pk l rl pkt a r t fl fs p1 o1)
  have "peer_kept (dv_heap d ! a) ((dv_heap d ! a)\<lparr>pe_tunnel := t\<rparr>)"
    by (rule peer_kept_tunnel) (rule handle_verified_idx [OF _ 2(3)])
  then have k1: "peer_kept (dv_heap d ! a) p1" using udp_result_kept [OF 2(4)] peer_kept_trans by blast
  have k2: "peer_kept (dv_heap d ! a) p2" if "udp_finish ex (put_limiter d l rl) p1 fs addr he = Some (p2, rl2, fls)" for p2 rl2 fls
    using udp_finish_kept [OF that] k1 peer_kept_trans by blast
  show ?case using 2(5) ok k1 by (auto intro!: dev_ok_put_peer dest: k2)
qed

lemma conn_datagram_cases:
  assumes "conn_datagram ex a peer_addr d datagram he = Some (b, d', outs)"
  obtains r t rl l fl fs p1 o1 ps t' rl' where
    "decapsulate (ex_cr ex) (pe_tunnel (dv_heap d ! a)) (dv_limiters d ! l) (Some peer_addr)
       datagram (he_ev he) MAX_UDP_SIZE = Some (r, t, rl)"
    "conn_result ex (put_limiter d l rl) ((dv_heap d ! a)\<lparr>pe_tunnel := t\<rparr>) r he = Some (fl, fs, p1, o1)"
    "outs = o1 @ map SendConn ps" "\<forall>k. tunn_idx k (pe_tunnel p1) \<longrightarrow> tunn_idx k t'"
    "d' = put_peer (put_limiter d l rl) a p1 \<and> t' = pe_tunnel p1 \<or>
     d' = put_peer (put_limiter (put_limiter d l rl) l rl') a (p1\<lparr>pe_tunnel := t'\<rparr>)"
proof -
  let ?p0 = "dv_heap d ! a"
  let ?l = "pe_limiter ?p0"
  obtain r t rl where dc: "decapsulate (ex_cr ex) (pe_tunnel ?p0) (dv_limiters d ! ?l) (Some peer_addr)
       datagram (he_ev he) MAX_UDP_SIZE = Some (r, t, rl)"
    using assms by (cases "decapsulate (ex_cr ex) (pe_tunnel ?p0) (dv_limiters d ! ?l) (Some peer_addr)
       datagram (he_ev he) MAX_UDP_SIZE") (auto simp: conn_datagram_def Let_def)
  let ?d = "put_limiter d ?l rl"
  note u = assms [unfolded conn_datagram_def Let_def dc bind.bind_lunit prod.case]
  obtain fl fs p1 o1 where m: "conn_result ex ?d (?p0\<lparr>pe_tunnel := t\<rparr>) r he = Some (fl, fs, p1, o1)"
    using u by (cases "conn_result ex ?d (?p0\<lparr>pe_tunnel := t\<rparr>) r he") auto
  note that' = that [OF dc m]
  show thesis
  proof (cases fl)
    case Continue
    then have "outs = o1 @ map SendConn []" "d' = put_peer ?d a p1 \<and> pe_tunnel p1 = pe_tunnel p1" using u m by simp_all
    then show thesis by (intro that' [of _ "pe_tunnel p1"]) auto
  next
    case GoOn
    then obtain ps t' rl' where e: "(if fs then flush_queue (ex_cr ex) (pe_tunnel p1) (dv_limiters ?d ! ?l) (he_flush he) 0
            else Some ([], pe_tunnel p1, dv_limiters ?d ! ?l)) = Some (ps, t', rl')"
        "d' = put_peer (put_limiter ?d ?l rl') a (p1\<lparr>pe_tunnel := t'\<rparr>)" "outs = o1 @ map SendConn ps"
      using u m by (auto split: bind_splits)
    have "\<forall>k. tunn_idx k (pe_tunnel p1) \<longrightarrow> tunn_idx k t'"
      using e(1) flush_queue_idx by (auto split: if_splits)
    then show thesis using e(2,3) by (intro that' [of _ t' rl']) auto
  qed
qed

lemma conn_datagram_ok:
  assumes ok: "dev_ok ex d" and u: "conn_datagram ex a peer_addr d datagram he = Some (b, d', outs)"
  shows "dev_ok ex d'"
proof (rule conn_datagram_cases [OF u], goal_cases)
  case (1 r t rl l fl fs p1 o1 ps t' rl')
  let ?p0 = "dv_heap d ! a"
  have "peer_kept ?p0 (?p0\<lparr>pe_tunnel := t\<rparr>)"
    by (rule peer_kept_tunnel) (rule decapsulate_idx [OF _ 1(1)])
  then have k: "peer_kept ?p0 p1" using conn_result_kept [OF 1(2)] peer_kept_trans by blast
  have "peer_kept p1 (p1\<lparr>pe_tunnel := t'\<rparr>)" by (rule peer_kept_tunnel) (use 1(4) in blast)
  then have "peer_kept ?p0 (p1\<lparr>pe_tunnel := t'\<rparr>)" using k peer_kept_trans by blast
  then show ?case using 1(5) ok k by (auto intro!: dev_ok_put_peer)
qed

text \<open>What every datagram keeps, a loop keeps.\<close>

lemma udp_loop_preserves:
  assumes step: "\<And>d addr dg he c d' outs. P d \<Longrightarrow> udp_datagram ex d addr dg he = Some (c, d', outs) \<Longrightarrow> P d'"
  shows "P d \<Longrightarrow> udp_loop ex n d xs = Some (d', outs) \<Longrightarrow> P d'"
proof (induction xs arbitrary: n d outs)
  case (Cons x xs)
  obtain addr dg he where x: "x = (addr, dg, he)" by (cases x) auto
  obtain c d1 o1 where s: "udp_datagram ex d addr dg he = Some (c, d1, o1)"
    using Cons.prems(2) by (cases "udp_datagram ex d addr dg he") (auto simp: x)
  note P = step [OF Cons.prems(1) s]
  show ?case using Cons.prems(2) s P Cons.IH [OF P]
    by (auto simp: x Let_def split: if_splits bind_splits)
qed simp

lemma conn_loop_preserves:
  assumes step: "\<And>d dg he c d' outs. P d \<Longrightarrow> conn_datagram ex a pa d dg he = Some (c, d', outs) \<Longrightarrow> P d'"
  shows "P d \<Longrightarrow> conn_loop ex a pa n d xs = Some (d', outs) \<Longrightarrow> P d'"
proof (induction xs arbitrary: n d outs)
  case (Cons x xs)
  obtain dg he where x: "x = (dg, he)" by fastforce
  obtain c d1 o1 where s: "conn_datagram ex a pa d dg he = Some (c, d1, o1)"
    using Cons.prems(2) by (cases "conn_datagram ex a pa d dg he") (auto simp: x)
  note P = step [OF Cons.prems(1) s]
  show ?case using Cons.prems(2) s P Cons.IH [OF P]
    by (auto simp: x Let_def split: if_splits bind_splits)
qed simp

lemma udp_loop_ok: "dev_ok ex d \<Longrightarrow> udp_loop ex n d xs = Some (d', outs) \<Longrightarrow> dev_ok ex d'"
  by (rule udp_loop_preserves [where P = "dev_ok ex"]) (auto intro: udp_datagram_ok)
lemma conn_loop_ok: "dev_ok ex d \<Longrightarrow> conn_loop ex a pa n d xs = Some (d', outs) \<Longrightarrow> dev_ok ex d'"
  by (rule conn_loop_preserves [where P = "dev_ok ex"]) (auto intro: conn_datagram_ok)

lemma iface_packet_ok:
  assumes ok: "dev_ok ex d" and u: "iface_packet ex d src he = Some (d', outs)"
  shows "dev_ok ex d'"
proof (cases "Option.bind (dst_address src) (aips_find (ex_dtab ex) (dv_peers_by_ip d))")
  case None
  then show ?thesis using u ok by (auto simp: iface_packet_def split: option.splits bind_splits)
next
  case (Some a)
  obtain g p1 where g: "quota_gate d (dv_heap d ! a) src = (g, p1)" by fastforce
  note k = quota_gate_kept [OF g]
  have e: "peer_kept p1 (p1\<lparr>pe_tunnel := t\<rparr>)" if "encapsulate (ex_cr ex) (pe_tunnel p1) src (he_ev he) MAX_UDP_SIZE = Some (r, t)" for r t
    by (rule peer_kept_tunnel) (rule encapsulate_idx [OF _ that])
  have "\<exists>p2. d' = put_peer d a p2 \<and> peer_kept p1 p2"
    using u Some g by (cases g)
      (auto simp: iface_packet_def Let_def split: option.splits bind_splits TunnResult.splits dest: e send_payment_required_kept)
  then show ?thesis using ok k peer_kept_trans dev_ok_put_peer by blast
qed

lemma iface_loop_preserves:
  assumes step: "\<And>d src he d' outs. P d \<Longrightarrow> iface_packet ex d src he = Some (d', outs) \<Longrightarrow> P d'"
  shows "P d \<Longrightarrow> iface_loop ex n d xs = Some (b, d', outs) \<Longrightarrow> P d'"
proof (induction xs arbitrary: n d b outs)
  case (Cons x xs)
  obtain rd he where x: "x = (rd, he)" by fastforce
  show ?case
  proof (cases "\<exists>m src. n = Suc m \<and> rd = Packet src")
    case True
    then obtain m src where n: "n = Suc m" "rd = Packet src" by blast
    obtain d1 o1 where s: "iface_packet ex d (take (dv_mtu d) src) he = Some (d1, o1)"
      using Cons.prems(2) by (cases "iface_packet ex d (take (dv_mtu d) src) he") (auto simp: x n)
    note P = step [OF Cons.prems(1) s]
    show ?thesis using Cons.prems(2) s Cons.IH [OF P] by (auto simp: x n split: bind_splits)
  next
    case False
    then show ?thesis using Cons.prems by (cases n; cases rd) (auto simp: x)
  qed
qed simp

lemma iface_loop_ok: "dev_ok ex d \<Longrightarrow> iface_loop ex n d xs = Some (b, d', outs) \<Longrightarrow> dev_ok ex d'"
  by (rule iface_loop_preserves [where P = "dev_ok ex"]) (auto intro: iface_packet_ok)

lemma timer_peer_ok:
  assumes ok: "dev_ok ex d" and u: "timer_peer ex d a ev = Some (d', outs)"
  shows "dev_ok ex d'"
proof (cases "pe_addr (dv_heap d ! a)")
  case None
  then show ?thesis using u ok by (simp add: timer_peer_def)
next
  case (Some addr)
  obtain r p rl where p: "peer_update_timers (ex_cr ex) (dv_heap d ! a) (dv_limiters d ! pe_limiter (dv_heap d ! a)) ev
      MAX_UDP_SIZE = Some (r, p, rl)"
    using u Some by (cases "peer_update_timers (ex_cr ex) (dv_heap d ! a) (dv_limiters d ! pe_limiter (dv_heap d ! a)) ev
      MAX_UDP_SIZE") (auto simp: timer_peer_def Let_def)
  have k: "peer_kept (dv_heap d ! a) p"
    using p by (auto simp: peer_update_timers_def peer_kept_def split: bind_splits dest: update_timers_idx [rotated])
  then have "peer_kept (dv_heap d ! a) (shutdown_endpoint p)" using peer_kept_trans peer_kept_endpoint by blast
  then show ?thesis using u Some p k ok
    by (auto simp: timer_peer_def Let_def split: TunnResult.splits if_splits intro!: dev_ok_put_peer)
qed

lemma timer_loop_preserves:
  assumes step: "\<And>d a ev d' outs. P d \<Longrightarrow> timer_peer ex d a ev = Some (d', outs) \<Longrightarrow> P d'"
  shows "P d \<Longrightarrow> timer_loop ex d xs = Some (d', outs) \<Longrightarrow> P d'"
proof (induction xs arbitrary: d outs)
  case (Cons x xs)
  obtain a ev where x: "x = (a, ev)" by fastforce
  obtain d1 o1 where s: "timer_peer ex d a ev = Some (d1, o1)"
    using Cons.prems(2) by (cases "timer_peer ex d a ev") (auto simp: x)
  show ?case using Cons.prems(2) s Cons.IH [OF step [OF Cons.prems(1) s]] by (auto simp: x split: bind_splits)
qed simp

lemma timer_loop_ok: "dev_ok ex d \<Longrightarrow> timer_loop ex d xs = Some (d', outs) \<Longrightarrow> dev_ok ex d'"
  by (rule timer_loop_preserves [where P = "dev_ok ex"]) (auto intro: timer_peer_ok)

section \<open>Runs\<close>

datatype dev_event =
    Configure dev_op
  | Udp "(sock_addr \<times> bytes \<times> hev) list"
  | Conn nat IpAddr "(bytes \<times> hev) list"
  | Iface "(iface_read \<times> hev) list"
  | ResetTimer nat
  | PeerTimers "nat \<Rightarrow> env"

text \<open>The device and what it writes.  A connected socket has a handler only for a peer
  that was created.\<close>

fun event_out :: "('u, 't) ext \<Rightarrow> ('u, 't) device \<Rightarrow> dev_event \<Rightarrow> (('u, 't) device \<times> dev_out list) option" where
  "event_out ex d (Configure x) = map_option (\<lambda>d. (d, [])) (dev_step ex d x)"
| "event_out ex d (Udp xs) = udp_handler ex d xs"
| "event_out ex d (Conn a peer_addr xs) = (if a < length (dv_heap d) then conn_handler ex a peer_addr d xs else None)"
| "event_out ex d (Iface xs) = map_option snd (iface_handler ex d xs)"
| "event_out ex d (ResetTimer now) = Some (reset_timer d now, [])"
| "event_out ex d (PeerTimers evs) = timer_handler ex d evs"

text \<open>Steps on the device together with everything written so far.\<close>

definition event_step ::
  "('u, 't) ext \<Rightarrow> ('u, 't) device \<times> dev_out list \<Rightarrow> dev_event \<Rightarrow> (('u, 't) device \<times> dev_out list) option" where
  "event_step ex s e = map_option (\<lambda>(d, outs). (d, snd s @ outs)) (event_out ex (fst s) e)"

lemma event_out_ok:
  assumes "ip_table_ok (ex_net ex) (ex_dtab ex)" "dev_ok ex d" "event_out ex d e = Some (d', outs)"
  shows "dev_ok ex d'"
  using assms
  by (cases e) (auto simp: udp_handler_def conn_handler_def iface_handler_def reset_timer_def timer_handler_def
      split: if_splits option.splits dest: dev_step_ok udp_loop_ok conn_loop_ok iface_loop_ok timer_loop_ok)

interpretation dev: fallible_machine "event_step ex" "\<lambda>s. ip_table_ok (ex_net ex) (ex_dtab ex) \<and> dev_ok ex (fst s)"
  by unfold_locales (auto simp: event_step_def dest: event_out_ok)

section \<open>Properties\<close>

lemma find_peer_by_idx:
  assumes ok: "dev_ok ex d" and a: "live d a" and k: "drop_bit 8 i = pe_index (dv_heap d ! a)"
  shows "map_of (dv_peers_by_idx d) (drop_bit 8 i) = Some a"
  using assms unfolding dev_ok_def idx_ok_def live_def by auto

lemma find_peer_live:
  assumes ok: "dev_ok ex d" and f: "find_peer ex d sk pk pkt = Some (Some a)"
  shows "live d a"
proof -
  have "live d a" if "map_of (dv_peers_by_idx d) i = Some a" for i
    using ok that unfolding dev_ok_def idx_ok_def live_def by auto
  moreover have "live d a" if "map_of (dv_peers d) k = Some a" for k
    using map_of_SomeD [OF that] by (force simp: live_def)
  ultimately show ?thesis using f
    by (cases pkt) (auto simp: find_peer_def split: bind_splits sum.splits)
qed

lemma live_tunn_idx: "dev_ok ex d \<Longrightarrow> live d a \<Longrightarrow> tunn_idx (pe_index (dv_heap d ! a)) (pe_tunnel (dv_heap d ! a))"
  unfolding dev_ok_def peers_ok_def live_def by blast

text \<open>C5: datagrams reach their peer.  After any run of a device (configuration calls and
  events in any order, from a fresh device) the listening socket leads a data packet
  that names a session of a peer, or a response to an initiation it has sent, to exactly
  this peer; nothing is led, by index, by key or by address, to a removed peer.\<close>

theorem datagrams_reach_their_peer:
  assumes "ip_table_ok (ex_net ex) (ex_dtab ex)" "lfsr_default draws = Some (l, draws')"
    and "run_opt (event_step ex) (device_new ex l mtu uc cfg, []) es = Some (d, outs)"
  shows "(\<forall>a s pd. live d a \<and> Some s \<in> set (t_sessions (pe_tunnel (dv_heap d ! a))) \<and>
      pd_receiver_idx pd = s_receiving_index s \<longrightarrow> find_peer ex d sk pk (PacketData pd) = Some (Some a)) \<and>
    (\<forall>a s hr. live d a \<and> h_state (t_handshake (pe_tunnel (dv_heap d ! a))) = InitSent s \<and>
      hr_receiver_idx hr = is_local_index s \<longrightarrow> find_peer ex d sk pk (HandshakeResponse hr) = Some (Some a)) \<and>
    (\<forall>a pkt. find_peer ex d sk pk pkt = Some (Some a) \<longrightarrow> live d a) \<and>
    (\<forall>a addr. aips_find (ex_dtab ex) (dv_peers_by_ip d) addr = Some a \<longrightarrow> live d a)"
proof -
  have ok: "dev_ok ex d"
    using dev.run_inv [OF _ assms(3)] device_new_ok [OF assms(1,2)] assms(1) by simp
  have "find_peer ex d sk pk (PacketData pd) = Some (Some a)"
    if "live d a" "Some s \<in> set (t_sessions (pe_tunnel (dv_heap d ! a)))" "pd_receiver_idx pd = s_receiving_index s" for a s pd
  proof -
    have "drop_bit 8 (s_receiving_index s) = pe_index (dv_heap d ! a)"
      using live_tunn_idx [OF ok that(1)] that(2) by (auto simp: tunn_idx_def sessions_idx_def)
    then show ?thesis using find_peer_by_idx [OF ok that(1)] that(3) by (simp add: find_peer_def)
  qed
  moreover have "find_peer ex d sk pk (HandshakeResponse hr) = Some (Some a)"
    if "live d a" "h_state (t_handshake (pe_tunnel (dv_heap d ! a))) = InitSent s" "hr_receiver_idx hr = is_local_index s" for a s hr
  proof -
    have "drop_bit 8 (is_local_index s) = pe_index (dv_heap d ! a)"
      using live_tunn_idx [OF ok that(1)] that(2) by (auto simp: tunn_idx_def hs_inv_def)
    then show ?thesis using find_peer_by_idx [OF ok that(1)] that(3) by (simp add: find_peer_def)
  qed
  moreover have "live d a" if "aips_find (ex_dtab ex) (dv_peers_by_ip d) addr = Some a" for a addr
    using aips_find_entry [OF assms(1) that] ok by (auto simp: dev_ok_def)
  ultimately show ?thesis using find_peer_live [OF ok] by blast
qed

text \<open>A device with a key and one peer, which has sent an initiation.\<close>

definition toy_dev_env :: dev_env where
  "toy_dev_env = \<lparr>de_stamper = toy_stamper, de_now = 0, de_secret_key = replicate 32 1, de_nonce_key = replicate 32 2,
     de_nonce = replicate 32 7, de_unix_secs = 1000\<rparr>"

definition toy_setup :: "dev_event list" where
  "toy_setup = [Configure (SetKey (replicate 32 1) toy_dev_env),
     Configure (UpdatePeer (replicate 32 2) False False None [\<lparr>ai_addr = V4 [10, 0, 0, 2], ai_cidr = 32\<rparr>] None None toy_dev_env)]"


abbreviation "toy_fresh \<equiv> device_new toy_ext \<lparr>lf_initial = 5, lf_lfsr = 5, lf_mask = 9\<rparr> 1420 True toy_config"

lemma toy_lfsr: "lfsr_default [5, 9] = Some (\<lparr>lf_initial = 5, lf_lfsr = 5, lf_mask = 9\<rparr>, [])"
  and toy_lfsr_next: "lfsr_next \<lparr>lf_initial = 5, lf_lfsr = 5, lf_mask = 9\<rparr> =
    Some (13, \<lparr>lf_initial = 5, lf_lfsr = 0xd80002, lf_mask = 9\<rparr>)"
  by code_simp+

lemma toy_setup_runs:
  "\<exists>d. run_opt (event_step toy_ext) (toy_fresh, []) toy_setup = Some (d, []) \<and>
     aips_find (ex_dtab toy_ext) (dv_peers_by_ip d) (V4 [10, 0, 0, 2]) = Some 0 \<and> length (dv_heap d) = 1"
proof -
  let ?e = toy_dev_env
  obtain d1 where d1: "set_key toy_ext toy_fresh (replicate 32 1) ?e = Some d1"
      "dv_next_index d1 = \<lparr>lf_initial = 5, lf_lfsr = 5, lf_mask = 9\<rparr>" "dv_heap d1 = []" "dv_peers d1 = []"
      "dv_peers_by_ip d1 = []" "dv_key_pair d1 \<noteq> None"
    by (cases "pc_is_server toy_config")
      (simp_all add: set_key_def Let_def device_new_def toy_ext_def toy_key_wallet aips_new_def toy_table_def)
  obtain d where d: "update_peer toy_ext d1 (replicate 32 2) False False None [\<lparr>ai_addr = V4 [10, 0, 0, 2], ai_cidr = 32\<rparr>] None None ?e = Some d"
      "dv_peers_by_ip d = [((V4 [10, 0, 0, 2], 32), 0)]" "length (dv_heap d) = 1"
    using d1 by (auto simp: update_peer_def toy_lfsr_next peer_new_def aips_from_iter_def aips_insert_def toy_ext_def
        toy_net_def toy_table_def aips_new_def)
  show ?thesis using d1(1) d
    by (simp add: toy_setup_def event_step_def aips_find_def toy_ext_def toy_table_def)
qed

theorem datagrams_reach_their_peer_witness:
  "\<exists>d. run_opt (event_step toy_ext) (toy_fresh, []) toy_setup = Some (d, []) \<and>
     aips_find (ex_dtab toy_ext) (dv_peers_by_ip d) (V4 [10, 0, 0, 2]) = Some 0 \<and> live d 0"
proof -
  obtain d where d: "run_opt (event_step toy_ext) (toy_fresh, []) toy_setup = Some (d, [])"
      "aips_find (ex_dtab toy_ext) (dv_peers_by_ip d) (V4 [10, 0, 0, 2]) = Some 0"
    using toy_setup_runs by blast
  have "ip_table_ok (ex_net toy_ext) (ex_dtab toy_ext)" by (simp add: toy_ext_def toy_table_ok)
  from datagrams_reach_their_peer [OF this toy_lfsr d(1)] d show ?thesis by blast
qed

end
