(* ===== verification/Device_Ledger.thy ===== *)
theory Device_Ledger
  imports Device_Run
begin

text \<open>
  What a server forwards is paid for.  A ledger relates the bytes written to the
  interface to the quotas of the peers, for one peer over a step, for a device over an
  event, and so for every run of a server.
\<close>

section \<open>The ledger of a peer\<close>

fun forwarded :: "dev_out list \<Rightarrow> nat" where
  "forwarded [] = 0"
| "forwarded (Write4 packet # outs) = length packet + forwarded outs"
| "forwarded (Write6 packet # outs) = length packet + forwarded outs"
| "forwarded (_ # outs) = forwarded outs"

lemma forwarded_append [simp]: "forwarded (xs @ ys) = forwarded xs + forwarded ys"
  by (induction xs rule: forwarded.induct) auto

lemma forwarded_send [simp]: "forwarded (map (SendTo addr) ps) = 0" "forwarded (map SendConn ps) = 0"
  by (induction ps) auto

text \<open>Some \<open>c\<close> payments came in, and what was written and what is left is at most what was
  there and what \<open>c\<close> payments bring.\<close>

definition quota_ledger_ok :: "u64 \<Rightarrow> quota \<Rightarrow> dev_out list \<Rightarrow> quota \<Rightarrow> bool" where
  "quota_ledger_ok Q q outs q' \<longleftrightarrow> (\<exists>c. q_payment_count q' = q_payment_count q + of_nat c \<and>
     forwarded outs + unat (q_remaining_bytes q') \<le> unat (q_remaining_bytes q) + c * unat Q)"

definition peer_ledger :: "u64 \<Rightarrow> 'u peer \<Rightarrow> dev_out list \<Rightarrow> 'u peer \<Rightarrow> bool" where
  "peer_ledger Q p outs p' \<longleftrightarrow>
     (\<forall>q. pe_quota p = Some q \<longrightarrow> (\<exists>q'. pe_quota p' = Some q' \<and> quota_ledger_ok Q q outs q'))"

lemma quota_ledger_refl: "forwarded outs = 0 \<Longrightarrow> quota_ledger_ok Q q outs q"
  unfolding quota_ledger_ok_def by (rule exI [of _ 0]) simp

lemma quota_ledger_trans:
  assumes "quota_ledger_ok Q q o1 q1" "quota_ledger_ok Q q1 o2 q2"
  shows "quota_ledger_ok Q q (o1 @ o2) q2"
proof -
  obtain c1 c2 where "q_payment_count q1 = q_payment_count q + of_nat c1"
      "q_payment_count q2 = q_payment_count q1 + of_nat c2"
      "forwarded o1 + unat (q_remaining_bytes q1) \<le> unat (q_remaining_bytes q) + c1 * unat Q"
      "forwarded o2 + unat (q_remaining_bytes q2) \<le> unat (q_remaining_bytes q1) + c2 * unat Q"
    using assms by (auto simp: quota_ledger_ok_def)
  then show ?thesis unfolding quota_ledger_ok_def
    by (intro exI [of _ "c1 + c2"]) (simp add: algebra_simps)
qed

lemma peer_ledger_same: "pe_quota p' = pe_quota p \<Longrightarrow> forwarded outs = 0 \<Longrightarrow> peer_ledger Q p outs p'"
  by (simp add: peer_ledger_def quota_ledger_refl)

lemma peer_ledger_trans: "peer_ledger Q p o1 p1 \<Longrightarrow> peer_ledger Q p1 o2 p2 \<Longrightarrow> peer_ledger Q p (o1 @ o2) p2"
  unfolding peer_ledger_def by (meson quota_ledger_trans)

lemma peer_ledger_cong: "pe_quota p1 = pe_quota p \<Longrightarrow> peer_ledger Q p1 outs p' \<Longrightarrow> peer_ledger Q p outs p'"
  by (simp add: peer_ledger_def)

lemma peer_ledger_quiet: "peer_ledger Q p o1 p1 \<Longrightarrow> pe_quota p2 = pe_quota p1 \<Longrightarrow> forwarded o2 = 0 \<Longrightarrow>
    peer_ledger Q p (o1 @ o2) p2"
  by (rule peer_ledger_trans, assumption, rule peer_ledger_same)

text \<open>Consuming pays for the packet; crediting is one payment.\<close>

lemma consume_ledger:
  assumes "consume q n = (ok, q')" "ok \<Longrightarrow> forwarded outs = unat n" "\<not> ok \<Longrightarrow> forwarded outs = 0"
  shows "quota_ledger_ok Q q outs q'"
  unfolding quota_ledger_ok_def
  by (rule exI [of _ 0], rule consume_cases [where q = q and n = n])
    (use assms in \<open>auto simp: unat_sub_le word_le_nat_alt\<close>)

lemma credit_ledger: "quota_ledger_ok Q q [] (credit (q\<lparr>q_used_nonces := N\<rparr>) Q)"
proof -
  have "unat (q_remaining_bytes q + Q) \<le> unat (q_remaining_bytes q) + unat Q"
    by (simp add: unat_word_ariths)
  then show ?thesis unfolding quota_ledger_ok_def by (intro exI [of _ 1]) (simp add: credit_def)
qed

lemma send_signal_quiet: "send_signal cr p pk ev addr = Some (p', outs) \<Longrightarrow> forwarded outs = 0"
  by (auto simp: send_signal_def split: bind_splits TunnResult.splits)

lemma required_quiet: "send_payment_required ex d p addr he = Some (p', outs) \<Longrightarrow> forwarded outs = 0"
  by (auto simp: send_payment_required_def Let_def split: option.splits dest: send_signal_quiet)

lemma accepted_quiet: "send_payment_accepted ex d p addr he = Some (p', outs) \<Longrightarrow> forwarded outs = 0"
  by (auto simp: send_payment_accepted_def split: option.splits dest: send_signal_quiet)

lemma client_quiet: "handle_payment_signal_client ex d p payload addr he = Some (p', outs) \<Longrightarrow> forwarded outs = 0"
  by (auto simp: handle_payment_signal_client_def Let_def split: option.splits prod.splits if_splits dest: send_signal_quiet)

lemma submit_quiet: "handle_payment_submit ex d p payload addr he = Some (p', outs) \<Longrightarrow> forwarded outs = 0"
  by (auto simp: handle_payment_submit_def Let_def split: option.splits prod.splits if_splits sum.splits dest: accepted_quiet)

lemma submit_ledger:
  assumes h: "handle_payment_submit ex d p payload addr he = Some (p', outs)"
  shows "peer_ledger (pc_quota_bytes (dv_payment_config d)) p outs p'"
proof (cases "payment_submit_decode payload")
  case None
  then show ?thesis using h by (simp add: handle_payment_submit_undecoded peer_ledger_same)
next
  case (Some s)
  let ?Q = "pc_quota_bytes (dv_payment_config d)"
  have quiet: "forwarded outs = 0" using h by (rule submit_quiet)
  show ?thesis unfolding peer_ledger_def
  proof (intro allI impI)
    fix q assume q: "pe_quota p = Some q"
    let ?q = "if nonce_recorded d s then q\<lparr>q_used_nonces := insert (ps_nonce s) (q_used_nonces q)\<rparr> else q"
    have k: "quota_ledger_ok ?Q q [] ?q"
      unfolding quota_ledger_ok_def by (rule exI [of _ 0]) simp
    have c: "quota_ledger_ok ?Q r [] (credit r ?Q)" for r
      using credit_ledger [of ?Q r "q_used_nonces r"] by simp
    have "quota_ledger_ok ?Q q [] (if good_submit ex d p he s then credit ?q ?Q else ?q)"
      using k quota_ledger_trans [OF k c] by simp
    then have "quota_ledger_ok ?Q q outs (if good_submit ex d p he s then credit ?q ?Q else ?q)"
      using quiet by (simp add: quota_ledger_ok_def)
    then show "\<exists>q'. pe_quota p' = Some q' \<and> quota_ledger_ok ?Q q outs q'"
      using handle_payment_submit_quota [OF Some q h] by (simp add: Let_def)
  qed
qed

lemma signal_ledger:
  assumes "payment_signal ex d p packet addr he = Some (p', outs)"
  shows "peer_ledger (pc_quota_bytes (dv_payment_config d)) p outs p'"
  using assms by (auto simp: payment_signal_def split: option.splits if_splits bind_splits
      dest: submit_ledger client_quiet client_kept intro: peer_ledger_same)

section \<open>Delivery\<close>

lemma gate_ledger:
  assumes "pc_is_server (dv_payment_config d)" "quota_gate d p packet = (g, p')"
    and "g = Pass \<Longrightarrow> forwarded outs = 0 \<or> forwarded outs \<le> length packet \<and> length packet < 2 ^ 64"
      "g \<noteq> Pass \<Longrightarrow> forwarded outs = 0"
  shows "peer_ledger Q p outs p'"
  unfolding peer_ledger_def
proof (intro allI impI)
  fix q assume q: "pe_quota p = Some q"
  obtain ok q' where c: "consume q (of_nat (length packet)) = (ok, q')" by fastforce
  let ?full = "if ok then [Write4 (replicate (unat (of_nat (length packet) :: u64)) 0)] else []"
  have "quota_ledger_ok Q q ?full q'" by (rule consume_ledger [OF c]) simp_all
  moreover have "quota_ledger_ok Q q outs q'" if "quota_ledger_ok Q q o1 q'" "forwarded outs \<le> forwarded o1" for o1
    using that unfolding quota_ledger_ok_def by (meson add_le_mono1 order_trans)
  moreover have "forwarded outs \<le> forwarded ?full" if "ok \<longrightarrow> g = Pass" "\<not> ok \<longrightarrow> g \<noteq> Pass"
    using assms(3,4) that by (auto simp: unat_of_nat)
  moreover have "quota_ledger_ok Q q outs q" if "g = Blocked"
    using assms(4) that by (simp add: quota_ledger_refl)
  ultimately show "\<exists>q'. pe_quota p' = Some q' \<and> quota_ledger_ok Q q outs q'"
    using assms(1,2) q c by (auto simp: quota_gate_def split: if_splits)
qed

definition result_bounded :: "TunnResult \<Rightarrow> bool" where
  "result_bounded r \<longleftrightarrow> (case r of WriteToTunnelV4 packet _ \<Rightarrow> length packet < 2 ^ 64
     | WriteToTunnelV6 packet _ \<Rightarrow> length packet < 2 ^ 64 | _ \<Rightarrow> True)"

lemma validate_bounded:
  assumes "validate_decapsulated_packet t packet = (r, t')"
  shows "result_bounded r"
proof -
  have w: "unat (w :: u16) < 18446744073709551616" "unat (w :: u16) < 18446744073709551576" for w
    using unat_u16_less [of w] by simp_all
  show ?thesis
    using assms by (auto simp: validate_decapsulated_packet_def result_bounded_def IPV6_MIN_HEADER_SIZE_def Let_def w
        split: if_splits)
qed

lemma handle_verified_bounded:
  assumes "handle_verified_packet cr t pkt ev n = Some (r, t')"
  shows "result_bounded r"
proof (cases pkt)
  case (PacketData p)
  then show ?thesis using assms
    by (auto simp: handle_verified_packet_def handle_data_def Let_def split: bind_splits sum.splits option.splits prod.splits
        dest: validate_bounded) (simp_all add: result_bounded_def)
qed (use assms in \<open>auto simp: handle_verified_packet_def handle_handshake_init_def handle_handshake_response_def
      handle_cookie_reply_def Let_def result_bounded_def split: bind_splits sum.splits option.splits prod.splits\<close>)

lemma decapsulate_bounded:
  assumes "decapsulate cr t rl src dg ev n = Some (r, t', rl')"
  shows "result_bounded r"
proof (cases "dg = []")
  case True
  have "result_bounded x" if "encapsulate cr u pk ev n = Some (x, u')" for x u u' pk
    using that by (auto simp: encapsulate_def tunn_format_handshake_initiation_def result_bounded_def Let_def split: bind_splits option.splits sum.splits prod.splits if_splits)
  then show ?thesis using assms True
    by (auto simp: decapsulate_def send_queued_packet_def split: option.splits bind_splits prod.splits TunnResult.splits)
      (auto simp: result_bounded_def)
next
  case False
  obtain v rl1 where v: "verify_packet cr rl src dg (ev_time ev) COOKIE_REPLY_SZ = (v, rl1)" by fastforce
  show ?thesis using assms False v
    by (cases v) (auto simp: decapsulate_def result_bounded_def split: TunnResult.splits if_splits
        dest: handle_verified_bounded)
qed

lemma deliver_v4_ledger:
  assumes s: "pc_is_server (dv_payment_config d)" and b: "length packet < 2 ^ 64"
    and u: "deliver_v4 ex d p packet src addr he = Some (fl, p', outs)"
  shows "peer_ledger (pc_quota_bytes (dv_payment_config d)) p outs p'"
proof (cases "is_payment_signal packet \<or> \<not> is_allowed_ip (ex_ptab ex) p (V4 src)")
  case True
  then show ?thesis using u
    by (auto simp: deliver_v4_def split: bind_splits if_splits dest: signal_ledger intro: peer_ledger_same)
next
  case False
  obtain g p1 where g: "quota_gate d p packet = (g, p1)" by fastforce
  show ?thesis
  proof (cases g)
    case Exhausted
    then obtain a where "send_payment_required ex d p1 a he = Some (p', outs)"
      using u False g by (auto simp: deliver_v4_def split: bind_splits)
    with required_quiet send_payment_required_kept have "forwarded outs = 0" "pe_quota p' = pe_quota p1" by blast+
    then show ?thesis using peer_ledger_quiet [OF gate_ledger [OF s g, of "[]"]] Exhausted by fastforce
  next
    case Pass
    then show ?thesis using u False g gate_ledger [OF s g, of outs] b by (auto simp: deliver_v4_def)
  next
    case Blocked
    then show ?thesis using u False g gate_ledger [OF s g, of outs] b by (auto simp: deliver_v4_def)
  qed
qed

lemma deliver_v6_ledger:
  assumes s: "pc_is_server (dv_payment_config d)" and b: "length packet < 2 ^ 64"
    and u: "deliver_v6 ex d p packet src = (fl, p', outs)"
  shows "peer_ledger Q p outs p'"
proof (cases "is_allowed_ip (ex_ptab ex) p (V6 src)")
  case True
  obtain g p1 where g: "quota_gate d p packet = (g, p1)" by fastforce
  show ?thesis using u True g gate_ledger [OF s g, of outs] b by (cases g) (auto simp: deliver_v6_def)
next
  case False
  then show ?thesis using u by (auto simp: deliver_v6_def intro: peer_ledger_same)
qed

lemma udp_result_ledger:
  assumes "pc_is_server (dv_payment_config d)" "result_bounded r" "udp_result ex d p r addr he = Some (fl, fs, p', outs)"
  shows "peer_ledger (pc_quota_bytes (dv_payment_config d)) p outs p'"
  using assms by (cases r) (auto simp: udp_result_def result_bounded_def split: prod.splits
      intro: peer_ledger_same dest: deliver_v4_ledger [rotated 2] deliver_v6_ledger [rotated 2])

lemma conn_result_ledger:
  assumes "pc_is_server (dv_payment_config d)" "result_bounded r" "conn_result ex d p r he = Some (fl, fs, p', outs)"
  shows "peer_ledger (pc_quota_bytes (dv_payment_config d)) p outs p'"
  using assms by (cases r) (auto simp: conn_result_def result_bounded_def split: prod.splits
      intro: peer_ledger_same dest: deliver_v4_ledger [rotated 2] deliver_v6_ledger [rotated 2])

section \<open>The ledger of a device\<close>

definition funds :: "'u peer list \<Rightarrow> nat" where
  "funds heap = sum_list (map (\<lambda>p. case pe_quota p of None \<Rightarrow> 0 | Some q \<Rightarrow> unat (q_remaining_bytes q)) heap)"

definition payments :: "'u peer list \<Rightarrow> u64" where
  "payments heap = sum_list (map (\<lambda>p. case pe_quota p of None \<Rightarrow> 0 | Some q \<Rightarrow> q_payment_count q) heap)"

definition all_metered :: "'u peer list \<Rightarrow> bool" where
  "all_metered heap \<longleftrightarrow> (\<forall>p \<in> set heap. pe_quota p \<noteq> None)"

text \<open>\<open>c\<close> payments and \<open>n\<close> new peers, each with the quota a peer starts with.\<close>

definition heap_ledger :: "u64 \<Rightarrow> 'u peer list \<Rightarrow> dev_out list \<Rightarrow> 'u peer list \<Rightarrow> bool" where
  "heap_ledger Q h outs h' \<longleftrightarrow> (all_metered h \<longrightarrow> all_metered h' \<and>
     (\<exists>c n. payments h' = payments h + of_nat c \<and> length h' = length h + n \<and>
        forwarded outs + funds h' \<le> funds h + c * unat Q + n * unat DEFAULT_QUOTA_BYTES))"

lemma heap_ledger_refl [simp]: "heap_ledger Q h [] h"
  unfolding heap_ledger_def by (intro impI conjI, assumption, intro exI [of _ 0]) simp

lemma heap_ledger_trans:
  assumes "heap_ledger Q h o1 h1" "heap_ledger Q h1 o2 h2"
  shows "heap_ledger Q h (o1 @ o2) h2"
  unfolding heap_ledger_def
proof (intro impI conjI)
  assume m: "all_metered h"
  then have m1: "all_metered h1" using assms(1) by (simp add: heap_ledger_def)
  then show "all_metered h2" using assms(2) by (simp add: heap_ledger_def)
  obtain c1 n1 where 1: "payments h1 = payments h + of_nat c1" "length h1 = length h + n1"
      "forwarded o1 + funds h1 \<le> funds h + c1 * unat Q + n1 * unat DEFAULT_QUOTA_BYTES"
    using assms(1) m by (auto simp: heap_ledger_def)
  obtain c2 n2 where 2: "payments h2 = payments h1 + of_nat c2" "length h2 = length h1 + n2"
      "forwarded o2 + funds h2 \<le> funds h1 + c2 * unat Q + n2 * unat DEFAULT_QUOTA_BYTES"
    using assms(2) m1 by (auto simp: heap_ledger_def)
  show "\<exists>c n. payments h2 = payments h + of_nat c \<and> length h2 = length h + n \<and>
      forwarded (o1 @ o2) + funds h2 \<le> funds h + c * unat Q + n * unat DEFAULT_QUOTA_BYTES"
    using 1 2 by (intro exI [of _ "c1 + c2"] exI [of _ "n1 + n2"]) (simp add: algebra_simps)
qed

lemma heap_ledger_same:
  assumes "map pe_quota h' = map pe_quota h" "forwarded outs = 0"
  shows "heap_ledger Q h outs h'"
proof -
  have q: "map (f \<circ> pe_quota) h' = map (f \<circ> pe_quota) h" for f :: "quota option \<Rightarrow> 'x"
    by (metis assms(1) map_map)
  have "funds h' = funds h" "payments h' = payments h"
    using q [of "\<lambda>q. case q of None \<Rightarrow> 0 | Some q \<Rightarrow> unat (q_remaining_bytes q)"]
      q [of "\<lambda>q. case q of None \<Rightarrow> 0 | Some q \<Rightarrow> q_payment_count q"]
    by (simp_all add: funds_def payments_def comp_def)
  moreover have "all_metered h \<Longrightarrow> all_metered h'"
    using assms(1) unfolding all_metered_def by (metis (no_types, lifting) image_iff list.set_map)
  moreover have "length h' = length h" using assms(1) by (metis length_map)
  ultimately show ?thesis unfolding heap_ledger_def
    by (intro impI conjI exI [of _ 0]) (simp_all add: assms(2))
qed

lemma sum_list_split:
  assumes "a < length h"
  shows "\<exists>r. sum_list (map f h) = f (h ! a) + (r :: 'a::comm_monoid_add) \<and> (\<forall>p. sum_list (map f (h[a := p])) = f p + r)"
  using assms
  by (intro exI [of _ "sum_list (map f (take a h)) + sum_list (map f (drop (Suc a) h))"] conjI allI)
    (subst id_take_nth_drop [OF assms], simp_all add: upd_conv_take_nth_drop ac_simps)

lemma heap_ledger_peer:
  assumes a: "a < length h" and l: "peer_ledger Q (h ! a) outs p"
  shows "heap_ledger Q h outs (h[a := p])"
  unfolding heap_ledger_def
proof (intro impI conjI)
  assume m: "all_metered h"
  then obtain q where q: "pe_quota (h ! a) = Some q" using nth_mem [OF a] by (fastforce simp: all_metered_def)
  then obtain q' where q': "pe_quota p = Some q'" "quota_ledger_ok Q q outs q'" using l by (auto simp: peer_ledger_def)
  show "all_metered (h[a := p])"
    using m q'(1) set_update_subset_insert [of h a p] by (auto simp: all_metered_def)
  obtain c where c: "q_payment_count q' = q_payment_count q + of_nat c"
      "forwarded outs + unat (q_remaining_bytes q') \<le> unat (q_remaining_bytes q) + c * unat Q"
    using q'(2) by (auto simp: quota_ledger_ok_def)
  obtain r1 where r1: "funds h = unat (q_remaining_bytes q) + r1" "funds (h[a := p]) = unat (q_remaining_bytes q') + r1"
    using sum_list_split [OF a, of "\<lambda>p. case pe_quota p of None \<Rightarrow> 0 | Some q \<Rightarrow> unat (q_remaining_bytes q)"] q q'(1)
    by (auto simp: funds_def)
  obtain r2 where r2: "payments h = q_payment_count q + r2" "payments (h[a := p]) = q_payment_count q' + r2"
    using sum_list_split [OF a, of "\<lambda>p. case pe_quota p of None \<Rightarrow> 0 | Some q \<Rightarrow> q_payment_count q"] q q'(1)
    by (auto simp: payments_def)
  show "\<exists>c n. payments (h[a := p]) = payments h + of_nat c \<and> length (h[a := p]) = length h + n \<and>
      forwarded outs + funds (h[a := p]) \<le> funds h + c * unat Q + n * unat DEFAULT_QUOTA_BYTES"
    using c r1 r2 by (intro exI [of _ c] exI [of _ 0]) simp
qed

lemma heap_ledger_new:
  "pe_quota p = Some (quota_new DEFAULT_QUOTA_BYTES) \<Longrightarrow> heap_ledger Q h [] (h @ [p])"
  unfolding heap_ledger_def
  by (intro impI conjI exI [of _ 0] exI [of _ 1])
    (auto simp: all_metered_def funds_def payments_def quota_new_def)

section \<open>Events\<close>

text \<open>The configuration stays, and the heap keeps its ledger.\<close>

definition dev_ledger :: "('u, 't) device \<Rightarrow> dev_out list \<Rightarrow> ('u, 't) device \<Rightarrow> bool" where
  "dev_ledger d outs d' \<longleftrightarrow> dv_payment_config d' = dv_payment_config d \<and>
     heap_ledger (pc_quota_bytes (dv_payment_config d)) (dv_heap d) outs (dv_heap d')"

lemma dev_ledger_refl [simp]: "dev_ledger d [] d"
  by (simp add: dev_ledger_def)

lemma dev_ledger_trans: "dev_ledger d o1 d1 \<Longrightarrow> dev_ledger d1 o2 d2 \<Longrightarrow> dev_ledger d (o1 @ o2) d2"
  unfolding dev_ledger_def by (metis heap_ledger_trans)

lemma dev_ledger_same:
  "map pe_quota (dv_heap d') = map pe_quota (dv_heap d) \<Longrightarrow> dv_payment_config d' = dv_payment_config d \<Longrightarrow>
    forwarded outs = 0 \<Longrightarrow> dev_ledger d outs d'"
  by (simp add: dev_ledger_def heap_ledger_same)

lemma put_peer_fields [simp]:
  "dv_heap (put_peer d a p) = (dv_heap d)[a := p]" "dv_payment_config (put_peer d a p) = dv_payment_config d"
  by (simp_all add: put_peer_def)

lemma map_quota_update: "pe_quota p = pe_quota (h ! a) \<Longrightarrow> map pe_quota (h[a := p]) = map pe_quota h"
  by (metis list_update_id map_update)

lemma live_bound: "dev_ok ex d \<Longrightarrow> live d a \<Longrightarrow> a < length (dv_heap d)"
  unfolding dev_ok_def peers_ok_def live_def by blast

lemma not_written: "\<forall>p. Write4 p \<notin> set outs \<and> Write6 p \<notin> set outs \<Longrightarrow> forwarded outs = 0"
  by (induction outs rule: forwarded.induct) auto

lemma udp_datagram_ledger:
  assumes ok: "dev_ok ex d" and s: "pc_is_server (dv_payment_config d)"
    and u: "udp_datagram ex d addr datagram he = Some (b, d', outs)"
  shows "dev_ledger d outs d'"
proof (rule udp_datagram_cases [OF u], goal_cases)
  case (1 l rl)
  then show ?case by (simp add: dev_ledger_same not_written)
next
  case (2 sk pk l rl pkt a r t fl fs p1 o1)
  have ok': "dev_ok ex (put_limiter d l rl)" using ok by simp
  have a: "a < length (dv_heap d)" using live_bound [OF ok' find_peer_live [OF ok' 2(2)]] by simp
  let ?Q = "pc_quota_bytes (dv_payment_config d)"
  have "peer_ledger ?Q ((dv_heap d ! a)\<lparr>pe_tunnel := t\<rparr>) o1 p1"
    using udp_result_ledger [OF _ handle_verified_bounded [OF 2(3)] 2(4)] s by simp
  then have l1: "peer_ledger ?Q (dv_heap d ! a) o1 p1" by (rule peer_ledger_cong [rotated]) simp
  have l2: "peer_ledger ?Q (dv_heap d ! a) (o1 @ fls) p2"
    if f: "udp_finish ex (put_limiter d l rl) p1 fs addr he = Some (p2, rl2, fls)" for p2 rl2 fls
  proof (rule peer_ledger_quiet [OF l1])
    show "pe_quota p2 = pe_quota p1" "forwarded fls = 0"
      using f by (auto simp: udp_finish_def Let_def split: bind_splits if_splits) (drule connect_endpoint_kept, simp)+
  qed
  show ?case using 2(5) l1 heap_ledger_peer [OF a] by (auto simp: dev_ledger_def dest: l2)
qed

lemma conn_datagram_ledger:
  assumes a: "a < length (dv_heap d)" and s: "pc_is_server (dv_payment_config d)"
    and u: "conn_datagram ex a peer_addr d datagram he = Some (b, d', outs)"
  shows "dev_ledger d outs d'"
proof (rule conn_datagram_cases [OF u], goal_cases)
  case (1 r t rl l fl fs p1 o1 ps t' rl')
  let ?Q = "pc_quota_bytes (dv_payment_config d)"
  have "peer_ledger ?Q ((dv_heap d ! a)\<lparr>pe_tunnel := t\<rparr>) o1 p1"
    using conn_result_ledger [OF _ decapsulate_bounded [OF 1(1)] 1(2)] s by simp
  then have l1: "peer_ledger ?Q (dv_heap d ! a) o1 p1" by (rule peer_ledger_cong [rotated]) simp
  have l2: "peer_ledger ?Q (dv_heap d ! a) (o1 @ map SendConn ps) p2" if "pe_quota p2 = pe_quota p1" for p2
    by (rule peer_ledger_quiet [OF l1 that]) simp
  show ?case using 1(3,5) heap_ledger_peer [OF a l2] by (auto simp: dev_ledger_def)
qed

lemma iface_packet_ledger:
  assumes ok: "ip_table_ok (ex_net ex) (ex_dtab ex)" "dev_ok ex d" and s: "pc_is_server (dv_payment_config d)"
    and u: "iface_packet ex d src he = Some (d', outs)"
  shows "dev_ledger d outs d'"
proof (cases "Option.bind (dst_address src) (aips_find (ex_dtab ex) (dv_peers_by_ip d))")
  case None
  then show ?thesis using u by (auto simp: iface_packet_def split: option.splits bind_splits)
next
  case (Some a)
  then obtain addr where "aips_find (ex_dtab ex) (dv_peers_by_ip d) addr = Some a" by (auto split: bind_splits)
  then obtain n where "(n, a) \<in> set (it_iter (ex_dtab ex) (dv_peers_by_ip d))"
    using aips_find_entry [OF ok(1)] by blast
  then have a: "a < length (dv_heap d)" using ok(2) live_bound [OF ok(2)] by (auto simp: dev_ok_def)
  let ?Q = "pc_quota_bytes (dv_payment_config d)"
  obtain g p1 where g: "quota_gate d (dv_heap d ! a) src = (g, p1)" by fastforce
  have l: "peer_ledger ?Q (dv_heap d ! a) [] p1" by (rule gate_ledger [OF s g]) simp_all
  have e: "\<exists>p2. put_peer d a (p1\<lparr>pe_tunnel := t\<rparr>) = put_peer d a p2 \<and> pe_quota p2 = pe_quota p1" for t
    by (rule exI [of _ "p1\<lparr>pe_tunnel := t\<rparr>"]) simp
  have "\<exists>p2. d' = put_peer d a p2 \<and> pe_quota p2 = pe_quota p1 \<and> forwarded outs = 0"
    using u Some g by (cases g) (auto simp: iface_packet_def Let_def split: option.splits bind_splits TunnResult.splits
        dest: send_payment_required_kept required_quiet intro!: e)
  then obtain p2 where p2: "d' = put_peer d a p2" "pe_quota p2 = pe_quota p1" "forwarded outs = 0" by blast
  show ?thesis using heap_ledger_peer [OF a peer_ledger_quiet [OF l p2(2,3)]] p2(1) by (simp add: dev_ledger_def)
qed

lemma timer_peer_ledger: "timer_peer ex d a ev = Some (d', outs) \<Longrightarrow> dev_ledger d outs d'"
  by (rule dev_ledger_same)
    (auto simp: timer_peer_def Let_def peer_update_timers_def shutdown_endpoint_def
      intro!: map_quota_update split: option.splits bind_splits TunnResult.splits if_splits)

lemma rekey_all_quota: "rekey_all cr sk pk rl h as = Some h' \<Longrightarrow> map pe_quota h' = map pe_quota h"
  by (induction as arbitrary: h) (auto simp: map_quota_update split: bind_splits)

lemma shutdown_all_quota: "map pe_quota (shutdown_all h as) = map pe_quota h"
  unfolding shutdown_all_def
  by (induction as arbitrary: h) (simp_all add: map_quota_update shutdown_endpoint_def)

lemma remove_peer_ledger: "dev_ledger d [] (remove_peer ex d k)"
  by (rule dev_ledger_same)
    (auto simp: remove_peer_def Let_def shutdown_endpoint_def intro!: map_quota_update split: option.splits)

lemma dev_step_ledger:
  assumes "dev_step ex d x = Some d'"
  shows "dev_ledger d [] d'"
proof (cases x)
  case (SetKey k ev)
  show ?thesis
  proof (rule dev_ledger_same)
    show "map pe_quota (dv_heap d') = map pe_quota (dv_heap d)" "dv_payment_config d' = dv_payment_config d"
      using assms SetKey by (auto simp: set_key_def Let_def rekey_all_quota split: if_splits bind_splits)
  qed simp
next
  case (UpdatePeer k rem rep ep ips ka psk ev)
  show ?thesis
  proof (cases rem)
    case True
    then show ?thesis using assms UpdatePeer remove_peer_ledger by (auto simp: update_peer_def)
  next
    case False
    then show ?thesis using assms UpdatePeer
      by (auto simp: update_peer_def Let_def dev_ledger_def intro!: heap_ledger_new split: if_splits bind_splits)
  qed
next
  case (OpenListenSocket b)
  show ?thesis
    by (rule dev_ledger_same) (use assms OpenListenSocket in
      \<open>auto simp: open_listen_socket_def Let_def shutdown_all_quota split: option.splits\<close>)
qed (use assms in \<open>auto intro!: dev_ledger_same simp: clear_peers_def set_fwmark_def\<close>)

lemma udp_loop_ledger:
  "dev_ok ex d \<Longrightarrow> pc_is_server (dv_payment_config d) \<Longrightarrow> udp_loop ex n d xs = Some (d', outs) \<Longrightarrow> dev_ledger d outs d'"
proof (induction xs arbitrary: n d outs)
  case Nil
  then show ?case by simp
next
  case (Cons x xs)
  obtain addr dg he where x: "x = (addr, dg, he)" by (cases x) auto
  obtain c d1 o1 where s: "udp_datagram ex d addr dg he = Some (c, d1, o1)"
    using Cons.prems(3) by (cases "udp_datagram ex d addr dg he") (auto simp: x)
  note l = udp_datagram_ledger [OF Cons.prems(1,2) s] and ok = udp_datagram_ok [OF Cons.prems(1) s]
  have "pc_is_server (dv_payment_config d1)" using l Cons.prems(2) by (simp add: dev_ledger_def)
  note IH = Cons.IH [OF ok this]
  show ?case using Cons.prems(3) s l dev_ledger_trans [OF l IH]
    by (auto simp: x Let_def split: if_splits bind_splits)
qed

lemma conn_loop_ledger:
  "a < length (dv_heap d) \<Longrightarrow> pc_is_server (dv_payment_config d) \<Longrightarrow> conn_loop ex a pa n d xs = Some (d', outs) \<Longrightarrow>
    dev_ledger d outs d'"
proof (induction xs arbitrary: n d outs)
  case Nil
  then show ?case by simp
next
  case (Cons x xs)
  obtain dg he where x: "x = (dg, he)" by fastforce
  obtain c d1 o1 where s: "conn_datagram ex a pa d dg he = Some (c, d1, o1)"
    using Cons.prems(3) by (cases "conn_datagram ex a pa d dg he") (auto simp: x)
  note l = conn_datagram_ledger [OF Cons.prems(1,2) s]
  have "length (dv_heap d1) = length (dv_heap d)"
    by (rule conn_datagram_cases [OF s]) auto
  then have "a < length (dv_heap d1)" "pc_is_server (dv_payment_config d1)"
    using l Cons.prems(1,2) by (simp_all add: dev_ledger_def)
  note IH = Cons.IH [OF this]
  show ?case using Cons.prems(3) s l dev_ledger_trans [OF l IH]
    by (auto simp: x Let_def split: if_splits bind_splits)
qed

lemma iface_loop_ledger:
  "ip_table_ok (ex_net ex) (ex_dtab ex) \<Longrightarrow> dev_ok ex d \<Longrightarrow> pc_is_server (dv_payment_config d) \<Longrightarrow>
    iface_loop ex n d xs = Some (b, d', outs) \<Longrightarrow> dev_ledger d outs d'"
proof (induction xs arbitrary: n d b outs)
  case Nil
  then show ?case by simp
next
  case (Cons x xs)
  obtain rd he where x: "x = (rd, he)" by fastforce
  show ?case
  proof (cases "\<exists>m src. n = Suc m \<and> rd = Packet src")
    case True
    then obtain m src where n: "n = Suc m" "rd = Packet src" by blast
    obtain d1 o1 where s: "iface_packet ex d (take (dv_mtu d) src) he = Some (d1, o1)"
      using Cons.prems(4) by (cases "iface_packet ex d (take (dv_mtu d) src) he") (auto simp: x n)
    note l = iface_packet_ledger [OF Cons.prems(1-3) s] and ok = iface_packet_ok [OF Cons.prems(2) s]
    have "pc_is_server (dv_payment_config d1)" using l Cons.prems(3) by (simp add: dev_ledger_def)
    note IH = Cons.IH [OF Cons.prems(1) ok this]
    show ?thesis using Cons.prems(4) s dev_ledger_trans [OF l IH] by (auto simp: x n split: bind_splits)
  next
    case False
    then show ?thesis using Cons.prems by (cases n; cases rd) (auto simp: x)
  qed
qed

lemma timer_loop_ledger: "timer_loop ex d xs = Some (d', outs) \<Longrightarrow> dev_ledger d outs d'"
proof (induction xs arbitrary: d outs)
  case Nil
  then show ?case by simp
next
  case (Cons x xs)
  obtain a ev where x: "x = (a, ev)" by fastforce
  obtain d1 o1 where s: "timer_peer ex d a ev = Some (d1, o1)"
    using Cons.prems by (cases "timer_peer ex d a ev") (auto simp: x)
  show ?case using Cons.prems s dev_ledger_trans [OF timer_peer_ledger [OF s] Cons.IH] by (auto simp: x split: bind_splits)
qed

lemma event_out_ledger:
  assumes "ip_table_ok (ex_net ex) (ex_dtab ex)" "dev_ok ex d" "pc_is_server (dv_payment_config d)"
    and u: "event_out ex d e = Some (d', outs)"
  shows "dev_ledger d outs d'"
proof (cases e)
  case (ResetTimer now)
  then show ?thesis using u by (auto simp: reset_timer_def intro!: dev_ledger_same split: option.splits)
qed (use u in \<open>auto simp: udp_handler_def conn_handler_def iface_handler_def timer_handler_def split: if_splits
      dest: dev_step_ledger udp_loop_ledger [OF assms(2,3)] conn_loop_ledger [OF _ assms(3)]
        iface_loop_ledger [OF assms(1-3)] timer_loop_ledger\<close>)

text \<open>The ledger of a whole run, from a device without peers.\<close>

definition run_ledger :: "payment_config \<Rightarrow> ('u, 't) device \<times> dev_out list \<Rightarrow> bool" where
  "run_ledger cfg s \<longleftrightarrow> dv_payment_config (fst s) = cfg \<and> all_metered (dv_heap (fst s)) \<and>
     heap_ledger (pc_quota_bytes cfg) ([] :: 'u peer list) (snd s) (dv_heap (fst s))"

interpretation server: fallible_machine "event_step ex" "\<lambda>s. pc_is_server cfg \<and> ip_table_ok (ex_net ex) (ex_dtab ex) \<and>
    dev_ok ex (fst s) \<and> run_ledger cfg s"
proof (unfold_locales, goal_cases)
  case (1 s x s')
  obtain d' outs where e: "event_out ex (fst s) x = Some (d', outs)" "s' = (d', snd s @ outs)"
    using 1(2) by (auto simp: event_step_def)
  have l: "dev_ledger (fst s) outs d'"
    using event_out_ledger [OF _ _ _ e(1)] 1(1) by (auto simp: run_ledger_def)
  have r: "dv_payment_config (fst s) = cfg" "all_metered (dv_heap (fst s))"
      "heap_ledger (pc_quota_bytes cfg) [] (snd s) (dv_heap (fst s))"
    using 1(1) by (simp_all add: run_ledger_def)
  have h: "heap_ledger (pc_quota_bytes cfg) (dv_heap (fst s)) outs (dv_heap d')"
    using l r(1) by (simp add: dev_ledger_def)
  have "all_metered (dv_heap d')" using h r(2) by (simp add: heap_ledger_def)
  then have "run_ledger cfg s'"
    using heap_ledger_trans [OF r(3) h] l r(1) by (simp add: run_ledger_def dev_ledger_def e(2))
  then show ?case using 1(1) e event_out_ok by auto
qed

section \<open>Properties\<close>



end
