(* ===== verification/Flush.thy ===== *)
theory Flush
  imports Device_Io
begin

text \<open>
  Flushing the packet queue of a tunnel (the \<open>while let\<close> loops of
  \<open>register_udp_handler\<close> and \<open>register_conn_handler\<close>): the loop ends, what it sends,
  and what it does to the queue when there is no session.
\<close>

abbreviation has_session :: "tunn \<Rightarrow> bool" where
  "has_session t \<equiv> t_sessions t ! (t_current t mod 8) \<noteq> None"

lemma send_with_session:
  assumes "tunn_ok M L t" "M + 32 \<le> n" "has_session t" "t_packet_queue t = p # ps"
  shows "\<exists>w t'. send_queued_packet cr t ev n = Some (WriteToNetwork w, t') \<and> t_packet_queue t' = ps \<and> has_session t'"
proof -
  obtain s where s: "t_sessions t ! (t_current t mod 8) = Some s" using assms(3) by blast
  have "length p \<le> M" using assms(1,4) by (simp add: tunn_ok_def queue_ok_def)
  then obtain w s' where "format_packet_data cr s p n = Some (w, s')"
    using format_packet_data_some [of p n] assms(2) by fastforce
  moreover have "t_current t mod 8 < length (t_sessions t)"
    using assms(1) by (simp add: tunn_ok_def ring_ok_def)
  ultimately show ?thesis using s assms(4)
    by (simp add: send_queued_packet_def dequeue_packet_def encapsulate_def N_SESSIONS_def Let_def)
qed

text \<open>Without a session the packet goes to the end of the queue.\<close>

lemma send_without_session:
  assumes "crypto_ok cr" "tunn_ok M L t" "L \<le> ev_clear ev" "148 \<le> n" "\<not> has_session t" "t_packet_queue t = p # ps"
  shows "\<exists>r t'. send_queued_packet cr t ev n = Some (r, t') \<and>
    (if is_in_progress (t_handshake t) then r = Done else \<exists>w. r = WriteToNetwork w) \<and>
    t_packet_queue t' = ps @ [p] \<and> is_in_progress (t_handshake t') \<and> \<not> has_session t'"
proof -
  have len: "length ps < 256" using assms(2,6) by (simp add: tunn_ok_def queue_ok_def)
  let ?t = "t\<lparr>t_packet_queue := ps @ [p]\<rparr>"
  have e: "encapsulate cr (t\<lparr>t_packet_queue := ps\<rparr>) p ev n = tunn_format_handshake_initiation cr ?t ev n False"
    using assms(5) len by (simp add: encapsulate_def N_SESSIONS_def queue_packet_def MAX_QUEUE_DEPTH_def Let_def)
  show ?thesis
  proof (cases "is_in_progress (t_handshake t)")
    case True
    then show ?thesis using e assms(5,6)
      by (simp add: send_queued_packet_def dequeue_packet_def tunn_format_handshake_initiation_def)
  next
    case False
    let ?t1 = "if hs_is_expired (t_handshake t) then ?t\<lparr>t_timers := timers_clear (t_timers t) (ev_clear ev)\<rparr> else ?t"
    have h1: "t_handshake ?t1 = t_handshake t" by simp
    have "length (np_static_public (h_params (t_handshake t))) = 32" using assms(2) by (simp add: tunn_ok_def)
    let ?h = "t_handshake t" and ?e = "ev_ephemeral ev"
    obtain es et hash ck where tr: "init_transcript cr (np_peer_static_public (h_params ?h)) (cr_pub cr ?e)
        (cr_dh cr ?e (np_peer_static_public (h_params ?h))) (np_static_shared (h_params ?h))
        (np_static_public (h_params ?h)) (stamp (h_stamper ?h) (ev_stamp ev)) = (es, et, hash, ck)"
      by (metis prod_cases4)
    obtain w h' where f: "format_handshake_initiation cr ?h ?e (ev_stamp ev) (ev_sent ev) n = Some (Inr w, h')"
      using format_initiation_result [OF assms(1,4) \<open>length _ = 32\<close> tr refl, of "ev_sent ev"] by blast
    have "is_in_progress h'" using format_initiation_frame [OF f] by (auto simp: is_in_progress_def)
    then show ?thesis using e assms(5,6) False f
      by (auto simp: send_queued_packet_def dequeue_packet_def tunn_format_handshake_initiation_def Let_def timer_tick_def)
  qed
qed

lemma tunn_ok_with_queue: "tunn_ok M L t \<Longrightarrow> queue_ok M q \<Longrightarrow> tunn_ok M L (t\<lparr>t_packet_queue := q\<rparr>)"
  by (simp add: tunn_ok_def)

text \<open>The whole loop.\<close>

lemma flush_step:
  "flush_queue cr t rl evs k = (case send_queued_packet cr t (evs k) MAX_UDP_SIZE of None \<Rightarrow> None
     | Some (WriteToNetwork w, t') \<Rightarrow> map_option (\<lambda>(ps, t, rl). (w # ps, t, rl)) (flush_queue cr t' rl evs (Suc k))
     | Some (_, t') \<Rightarrow> Some ([], t', rl))"
  by (subst flush_queue.simps)
    (auto simp: decapsulate_def map_option_case split: option.splits TunnResult.splits)

lemma flush_empty: "t_packet_queue t = [] \<Longrightarrow> flush_queue cr t rl evs k = Some ([], t, rl)"
  by (simp add: flush_step [of cr t] send_queued_packet_def dequeue_packet_def)

lemma flush_with_session:
  assumes "crypto_ok cr" "M + 32 \<le> MAX_UDP_SIZE" "mono (\<lambda>k. ev_clear (evs k))"
  shows "tunn_ok M L t \<Longrightarrow> L \<le> ev_clear (evs k) \<Longrightarrow> has_session t \<Longrightarrow>
    \<exists>ps t'. flush_queue cr t rl evs k = Some (ps, t', rl) \<and> length ps = length (t_packet_queue t) \<and> t_packet_queue t' = []"
proof (induction "t_packet_queue t" arbitrary: t k L)
  case Nil
  then show ?case using flush_empty by auto
next
  case (Cons p ps)
  obtain w t1 where s: "send_queued_packet cr t (evs k) MAX_UDP_SIZE = Some (WriteToNetwork w, t1)"
      "t_packet_queue t1 = ps" "has_session t1"
    using send_with_session [OF Cons.prems(1) assms(2) Cons.prems(3) Cons.hyps(2) [symmetric]] by blast
  have le: "ev_clear (evs k) \<le> ev_clear (evs (Suc k))" using assms(3) by (simp add: mono_def)
  have ok: "tunn_ok M (ev_clear (evs k)) t1"
    using send_queued_ok [OF assms(1) Cons.prems(1,2) order_refl assms(2)] s(1) by auto
  from Cons.hyps(1) [OF s(2) [symmetric] ok le s(3)] obtain qs t' where
    "flush_queue cr t1 rl evs (Suc k) = Some (qs, t', rl)" "length qs = length ps" "t_packet_queue t' = []"
    using s(2) by auto
  then show ?case using s(1) Cons.hyps(2) by (simp add: flush_step [of cr t] flip: Cons.hyps(2))
qed

lemma flush_in_progress:
  assumes "crypto_ok cr" "tunn_ok M L t" "L \<le> ev_clear (evs k)" "\<not> has_session t" "is_in_progress (t_handshake t)"
  shows "\<exists>t'. flush_queue cr t rl evs k = Some ([], t', rl) \<and> t_packet_queue t' = rotate1 (t_packet_queue t)"
proof (cases "t_packet_queue t")
  case Nil
  then show ?thesis using flush_empty by auto
next
  case (Cons p ps)
  from send_without_session [OF assms(1-3) _ assms(4) Cons, of MAX_UDP_SIZE] assms(5) obtain t'
    where "send_queued_packet cr t (evs k) MAX_UDP_SIZE = Some (Done, t')" "t_packet_queue t' = ps @ [p]"
    by (auto simp: MAX_UDP_SIZE_def)
  then show ?thesis using Cons by (simp add: flush_step [of cr t])
qed

lemma flush_without_session:
  assumes "crypto_ok cr" "M + 32 \<le> MAX_UDP_SIZE" "mono (\<lambda>k. ev_clear (evs k))"
    and t: "tunn_ok M L t" "L \<le> ev_clear (evs k)" "\<not> has_session t"
  shows "\<exists>ps t'. flush_queue cr t rl evs k = Some (ps, t', rl) \<and> length ps \<le> 1 \<and>
    t_packet_queue t' = rotate (Suc (length ps)) (t_packet_queue t)"
proof (cases "is_in_progress (t_handshake t)")
  case True
  then show ?thesis using flush_in_progress [where evs = evs and k = k, OF assms(1) t True, of rl] by fastforce
next
  case False
  show ?thesis
  proof (cases "t_packet_queue t")
    case Nil
    then show ?thesis using flush_empty by auto
  next
    case (Cons p ps)
    from send_without_session [OF assms(1) t(1,2) _ t(3) Cons, of MAX_UDP_SIZE] False obtain w t1
      where s: "send_queued_packet cr t (evs k) MAX_UDP_SIZE = Some (WriteToNetwork w, t1)"
        "t_packet_queue t1 = ps @ [p]" "is_in_progress (t_handshake t1)" "\<not> has_session t1"
      by (auto simp: MAX_UDP_SIZE_def)
    have le: "ev_clear (evs k) \<le> ev_clear (evs (Suc k))" using assms(3) by (simp add: mono_def)
    have ok: "tunn_ok M (ev_clear (evs k)) t1"
      using send_queued_ok [OF assms(1) t(1,2) order_refl assms(2)] s(1) by auto
    from flush_in_progress [where evs = evs and k = "Suc k", OF assms(1) ok le s(4,3)] obtain t' where
      "flush_queue cr t1 rl evs (Suc k) = Some ([], t', rl)" "t_packet_queue t' = rotate1 (ps @ [p])"
      using s(2) by auto
    then show ?thesis using s(1) Cons by (simp add: flush_step [of cr t] numeral_2_eq_2)
  qed
qed

section \<open>Properties\<close>

text \<open>C34: flushing ends.  For a tunnel in a state that its operations reach, the loop
  that flushes the queue returns.  With a session it sends one packet per queued
  packet and leaves the queue empty; without one it sends at most one packet (an
  initiation) and has moved the head of the queue to its end, once or twice.\<close>

theorem flush_queue_returns:
  assumes "crypto_ok cr" "M + 32 \<le> MAX_UDP_SIZE" "mono (\<lambda>k. ev_clear (evs k))"
    and "tunn_ok M L t" "L \<le> ev_clear (evs 0)"
  shows "\<exists>ps t'. flush_queue cr t rl evs 0 = Some (ps, t', rl) \<and>
    (if t_sessions t ! (t_current t mod 8) \<noteq> None
     then length ps = length (t_packet_queue t) \<and> t_packet_queue t' = []
     else length ps \<le> 1 \<and> t_packet_queue t' = rotate (Suc (length ps)) (t_packet_queue t))"
  using flush_with_session [OF assms] flush_without_session [OF assms] by (cases "has_session t") auto

theorem flush_queue_returns_witness:
  "\<exists>ps t'. flush_queue toy_crypto ((tunn_new toy_crypto [1] (cr_pub toy_crypto [2]) None None 5 False toy_stamper 0)
      \<lparr>t_packet_queue := [[9], [8], [7]]\<rparr>) (rate_limiter_new toy_crypto [1] 10 [2] [3] 0) (\<lambda>_. toy_env 1) 0 =
      Some (ps, t', rate_limiter_new toy_crypto [1] 10 [2] [3] 0) \<and> t_packet_queue t' \<noteq> [] \<and> length ps \<le> 1"
proof -
  let ?new = "tunn_new toy_crypto [1] (cr_pub toy_crypto [2]) None None 5 False toy_stamper 0"
  let ?t = "?new\<lparr>t_packet_queue := [[9], [8], [7]]\<rparr>"
  have t0: "tunn_ok 1 0 ?new" by (rule tunn_new_ok [OF toy_crypto_ok])
  have q: "queue_ok 1 [[9], [8], [7]]" by (simp add: queue_ok_def)
  have ok: "tunn_ok 1 0 ?t" by (rule tunn_ok_with_queue [OF t0 q])
  have "t_sessions ?t ! (t_current ?t mod 8) = None" by (simp add: tunn_new_def N_SESSIONS_def Let_def)
  with flush_queue_returns [OF toy_crypto_ok _ _ ok, of "\<lambda>_. toy_env 1" "rate_limiter_new toy_crypto [1] 10 [2] [3] 0"]
  show ?thesis by (fastforce simp: MAX_UDP_SIZE_def mono_def toy_env_def)
qed

end
