(* ===== verification/Tunn_Clock.thy ===== *)
theory Tunn_Clock
  imports Tunn_Index
begin

text \<open>
  The clock of a tunnel (\<open>noise/timers.rs\<close>): no session timer is ahead of
  \<open>TimeCurrent\<close>, the reading of the last call of \<open>update_timers\<close>.  Every operation
  keeps it while the machine's clock does not go back; it is what makes a session that
  has just been established win over the current one in \<open>set_current_session\<close>.
\<close>

definition clk :: "nat \<Rightarrow> tunn \<Rightarrow> bool" where
  "clk C t \<longleftrightarrow> (\<forall>x\<in>set (tm_session_timers (t_timers t)). x \<le> timer t TimeCurrent) \<and>
     timer t TimeCurrent \<le> C - tm_time_started (t_timers t)"

lemma clk_mono: "clk C t \<Longrightarrow> C \<le> C' \<Longrightarrow> clk C' t"
  by (auto simp: clk_def)

lemma clk_cong: "t_timers t' = t_timers t \<Longrightarrow> clk C t' = clk C t"
  by (simp add: clk_def timer_def)

lemma timers_fields [simp]:
  "t_timers (set_current_session t i) = t_timers t" "t_timers (queue_packet t p) = t_timers t"
  "t_timers (requeue_packet t p) = t_timers t"
  by (simp_all add: set_current_session_def queue_packet_def requeue_packet_def Let_def)

lemma timer_tick_clock [simp]:
  "tm_session_timers (t_timers (timer_tick t n)) = tm_session_timers (t_timers t)"
  "tm_time_started (t_timers (timer_tick t n)) = tm_time_started (t_timers t)"
  "timer (timer_tick t n) TimeCurrent = timer t TimeCurrent"
  by (cases n; simp add: timer_tick_def timer_def Let_def)+

lemma established_clock [simp]:
  "tm_session_timers (t_timers (timer_tick_session_established t b i)) =
     (tm_session_timers (t_timers t))[i mod 8 := timer t TimeCurrent]"
  "tm_time_started (t_timers (timer_tick_session_established t b i)) = tm_time_started (t_timers t)"
  "timer (timer_tick_session_established t b i) TimeCurrent = timer t TimeCurrent"
  "t_current (timer_tick_session_established t b i) = t_current t"
  using timer_tick_clock(3) [of t TimeSessionEstablished]
  by (simp_all add: timer_tick_session_established_def N_SESSIONS_def Let_def timer_def)

lemma clk_tick [simp]: "clk C (timer_tick t n) = clk C t"
  by (simp add: clk_def)

lemma clk_fields [simp]:
  "clk C (set_current_session t i) = clk C t" "clk C (queue_packet t p) = clk C t"
  "clk C (requeue_packet t p) = clk C t" "clk C (t\<lparr>t_handshake := h\<rparr>) = clk C t"
  "clk C (t\<lparr>t_sessions := ss\<rparr>) = clk C t" "clk C (t\<lparr>t_packet_queue := q\<rparr>) = clk C t"
  "clk C (t\<lparr>t_tx_bytes := x\<rparr>) = clk C t" "clk C (t\<lparr>t_rx_bytes := x\<rparr>) = clk C t" "clk C (t\<lparr>t_current := c\<rparr>) = clk C t"
  "clk C (t\<lparr>t_timers := (t_timers t)\<lparr>tm_want_handshake := b\<rparr>\<rparr>) = clk C t"
  "clk C (t\<lparr>t_timers := (t_timers t)\<lparr>tm_want_keepalive := b\<rparr>\<rparr>) = clk C t"
  by (simp_all add: clk_def timer_def set_current_session_def queue_packet_def requeue_packet_def Let_def)

lemma clk_established: "clk C t \<Longrightarrow> clk C (timer_tick_session_established t b i)"
  by (auto simp: clk_def dest!: set_update_subset_insert [THEN subsetD])

lemma clk_clear:
  "clk C t \<Longrightarrow> C \<le> c \<Longrightarrow> clk c (t\<lparr>t_timers := timers_clear (t_timers t) c\<rparr>)"
  by (fastforce simp: clk_def timer_def timers_clear_def Let_def)

lemma clk_new: "clk now (tunn_new cr k peer psk ka idx own stamper now)"
  by (simp add: clk_def timer_def tunn_new_def timers_new_def Let_def)

section \<open>Every operation keeps it\<close>

lemma format_initiation_clk:
  assumes "clk C t" "C \<le> ev_clear ev" "tunn_format_handshake_initiation cr t ev n force = Some (r, t')"
  shows "clk (ev_clear ev) t'"
proof -
  have "clk (ev_clear ev) t" using clk_mono assms(1,2) by blast
  moreover have "clk (ev_clear ev) (t\<lparr>t_timers := timers_clear (t_timers t) (ev_clear ev), t_handshake := h\<rparr>)" for h
    using clk_clear [OF assms(1,2)] by simp
  ultimately show ?thesis using assms(3)
    by (auto simp: tunn_format_handshake_initiation_def Let_def split: if_splits bind_splits sum.splits)
qed

lemma encapsulate_clk:
  assumes "clk C t" "C \<le> ev_clear ev" "encapsulate cr t src ev n = Some (r, t')"
  shows "clk (ev_clear ev) t'"
proof (cases "t_sessions t ! (t_current t mod 8)")
  case None
  then show ?thesis using assms format_initiation_clk [of C "queue_packet t src" ev]
    by (simp add: encapsulate_def N_SESSIONS_def)
next
  case (Some s)
  then show ?thesis using assms clk_mono [OF assms(1,2)]
    by (auto simp: encapsulate_def N_SESSIONS_def Let_def split: bind_splits)
qed

lemma send_queued_clk:
  assumes "clk C t" "C \<le> ev_clear ev" "send_queued_packet cr t ev n = Some (r, t')"
  shows "clk (ev_clear ev) t'"
proof (cases "t_packet_queue t")
  case Nil
  then show ?thesis using assms clk_mono by (simp add: send_queued_packet_def dequeue_packet_def)
next
  case (Cons p ps)
  then obtain r1 t1 where e: "encapsulate cr (t\<lparr>t_packet_queue := ps\<rparr>) p ev n = Some (r1, t1)"
    using assms(3) by (auto simp: send_queued_packet_def dequeue_packet_def split: bind_splits)
  have "clk (ev_clear ev) t1" using encapsulate_clk [OF _ _ e] assms(1,2) by simp
  then show ?thesis using assms(3) Cons e
    by (auto simp: send_queued_packet_def dequeue_packet_def split: TunnResult.splits)
qed

lemma validate_clk: "validate_decapsulated_packet t p = (r, t') \<Longrightarrow> clk C t' = clk C t"
  by (auto simp: validate_decapsulated_packet_def Let_def split: if_splits option.splits)

lemma handle_verified_clk:
  assumes "clk C t" "handle_verified_packet cr t p ev n = Some (r, t')"
  shows "clk C t'"
proof (cases p)
  case (PacketData d)
  then obtain x where "handle_data cr t d n = Some (x, t')" using assms(2) by (auto simp: handle_verified_packet_def)
  then show ?thesis using assms(1)
    by (auto simp: handle_data_def Let_def split: option.splits bind_splits sum.splits prod.splits dest!: validate_clk)
qed (use assms in \<open>auto simp: handle_verified_packet_def handle_handshake_init_def handle_handshake_response_def
    handle_cookie_reply_def Let_def split: bind_splits sum.splits intro!: clk_established\<close>)

lemma decapsulate_clk:
  assumes "clk C t" "C \<le> ev_clear ev" "decapsulate cr t rl a d ev n = Some (r, t', rl')"
  shows "clk (ev_clear ev) t'"
proof (cases "d = []")
  case True
  then show ?thesis using assms(3) by (auto simp: decapsulate_def dest: send_queued_clk [OF assms(1,2)])
next
  case False
  obtain x rl1 where v: "verify_packet cr rl a d (ev_time ev) COOKIE_REPLY_SZ = (x, rl1)" by fastforce
  have c: "clk (ev_clear ev) t" using clk_mono assms(1,2) by blast
  show ?thesis
  proof (cases x)
    case (Inl e)
    then show ?thesis using assms(3) c False v by (cases e) (auto simp: decapsulate_def split: if_splits)
  next
    case (Inr p)
    then show ?thesis using assms(3) False v by (auto simp: decapsulate_def dest: handle_verified_clk [OF c])
  qed
qed

lemma expire_sessions_past:
  "expire_sessions now xs ss = Some (xs', ss') \<Longrightarrow> \<forall>x\<in>set xs. x \<le> now \<Longrightarrow> \<forall>x\<in>set xs'. x \<le> now"
  by (induction now xs ss arbitrary: xs' ss' rule: expire_sessions.induct) (auto split: bind_splits if_splits)

lemma expire_clk: "clk C t \<Longrightarrow> C \<le> c \<Longrightarrow> clk c (expire t c)"
  using clk_clear [of C t c] by (simp add: expire_def clear_all_def clk_def timer_def)

lemma idle_clk:
  "clk C t \<Longrightarrow> idle_handshake_required t now = Some (b, t') \<Longrightarrow> clk C t'"
  "clk C t \<Longrightarrow> idle_keepalive_required t now = Some (b, t') \<Longrightarrow> clk C t'"
  by (auto simp: idle_handshake_required_def idle_keepalive_required_def Let_def split: bind_splits if_splits)

lemma timers_due_clk:
  assumes "clk C t" "C \<le> ev_clear ev" "timers_due t ev now = Some (d, t')"
  shows "clk (if d = DueExpired then ev_clear ev else C) t'"
proof (cases "hs_is_expired (t_handshake t)")
  case True
  then show ?thesis using assms clk_mono by (auto simp: timers_due_def)
next
  case False
  then obtain co where co: "and_elapsed (has_cookie (t_handshake t)) now (timer t TimeCookieReceived) COOKIE_EXPIRATION_TIME = Some co"
    using assms(3) by (auto simp: timers_due_def split: bind_splits)
  have "clk (ev_clear ev) (expire (t\<lparr>t_handshake := h\<rparr>) (ev_clear ev))" "clk (ev_clear ev) (expire t (ev_clear ev))" for h
    using expire_clk assms(1,2) by simp_all
  then show ?thesis using assms(1,3) False co
    by (auto simp: timers_due_def Let_def split: bind_splits if_splits option.splits dest!: idle_clk [rotated])
qed

lemma update_timers_clk:
  assumes t: "tunn_ok M L t" "L \<le> ev_time ev" "ev_time ev \<le> ev_clear ev"
    and u: "update_timers cr t rl ev n = Some (r, t', rl')"
  shows "clk (ev_clear ev) t'"
proof -
  define now where "now = ev_time ev - tm_time_started (t_timers t)"
  define t0 where "t0 = t\<lparr>t_timers := (t_timers t)\<lparr>tm_timers := (tm_timers (t_timers t))(TimeCurrent := now)\<rparr>\<rparr>"
  obtain t1 d t2 where s: "update_session_timers t0 now = Some t1" "timers_due t1 ev now = Some (d, t2)"
    using u by (auto simp: update_timers_def Let_def t0_def now_def split: bind_splits)
  have "\<forall>x\<in>set (tm_session_timers (t_timers t)). x \<le> now"
    using t(1,2) unfolding tunn_ok_def clock_ok_def now_def by (meson diff_le_mono order_trans)
  then have "clk (ev_time ev) t1"
    using s(1) expire_sessions_past [of now "tm_session_timers (t_timers t)" "t_sessions t"]
    by (auto simp: update_session_timers_def clk_def timer_def t0_def now_def split: bind_splits)
  then have t2: "clk (if d = DueExpired then ev_clear ev else ev_time ev) t2"
    using timers_due_clk s(2) t(3) by blast
  have "(case d of DueExpired \<Rightarrow> Some (TErr ConnectionExpired, t2)
      | DueHandshake \<Rightarrow> tunn_format_handshake_initiation cr t2 ev n True
      | DueKeepalive \<Rightarrow> encapsulate cr t2 [] ev n
      | DueNothing \<Rightarrow> Some (Done, t2)) = Some (r, t')"
    using u s by (auto simp: update_timers_def Let_def t0_def [symmetric] now_def [symmetric] split: bind_splits)
  then show ?thesis using t2 t(3) clk_mono format_initiation_clk encapsulate_clk by (cases d) fastforce+
qed

lemma tunn_step_clk:
  assumes "tunn_ok M L t" "clk L t" "L \<le> ev_time ev" "ev_time ev \<le> ev_clear ev"
    and "tunn_step cr n (t, rl) x ev = Some (r, t', rl')"
  shows "clk (ev_clear ev) t'"
proof -
  have L: "L \<le> ev_clear ev" using assms(3,4) by simp
  show ?thesis using assms(5)
    by (cases x) (auto dest: encapsulate_clk [OF assms(2) L] decapsulate_clk [OF assms(2) L]
        format_initiation_clk [OF assms(2) L] intro: update_timers_clk [OF assms(1,3,4)])
qed

text \<open>So every tunnel reached from a new one has both invariants.\<close>

lemma tunn_run_clk:
  assumes "crypto_ok cr" "M + 32 \<le> n" "64 \<le> n"
    and "tunn_ok M L t" "clk L t" "\<forall>(x, ev)\<in>set xs. op_fits M n x" "clock_forward L (map snd xs)"
    and "tunn_run cr n (t, rl) xs = Some (rs, t', rl')"
  shows "\<exists>L'. tunn_ok M L' t' \<and> clk L' t'"
  using assms(4-)
proof (induction xs arbitrary: t rl L rs)
  case Nil
  then show ?case by auto
next
  case (Cons a xs)
  obtain x ev where a: "a = (x, ev)" by (cases a)
  obtain r t1 rl1 where s: "tunn_step cr n (t, rl) x ev = Some (r, t1, rl1)" "tunn_ok M (ev_clear ev) t1"
    using tunn_step_ok [OF assms(1) Cons.prems(1) assms(2,3), of x ev rl] Cons.prems(3,4) by (auto simp: a)
  have c: "clk (ev_clear ev) t1"
    using tunn_step_clk [OF Cons.prems(1,2) _ _ s(1)] Cons.prems(4) by (simp add: a)
  obtain rs' where "tunn_run cr n (t1, rl1) xs = Some (rs', t', rl')"
    using Cons.prems(5) s(1) by (auto simp: a split: bind_splits)
  from Cons.IH [OF s(2) c _ _ this] Cons.prems(3,4) show ?case by (simp add: a)
qed

end
