(* ===== verification/Tunn_Connect.thy ===== *)
theory Tunn_Connect
  imports Tunn_Clock
begin

text \<open>
  Two tunnels together (\<open>noise/mod.rs\<close>): the datagrams of a handshake carried from one
  \<open>Tunn\<close> to the other and back establish a session on both sides, and from then on a
  packet given to \<open>encapsulate\<close> at either end leaves \<open>decapsulate\<close> at the other, in
  order and unchanged.  The network between them is what the theorems quantify over:
  each call has its own clock readings, and a datagram that is lost is a call that does
  not happen.
\<close>

section \<open>A packet the interface accepts\<close>

text \<open>An IP packet whose header states its length, with what the receiver reports for it.\<close>

definition ip_result :: "bytes \<Rightarrow> TunnResult option" where
  "ip_result p =
     (if 20 \<le> length p \<and> drop_bit 4 (p ! 0) = 4 \<and> unat (from_be_bytes (slice 2 4 p) :: u16) = length p
      then Some (WriteToTunnelV4 p (slice 12 16 p))
      else if 40 \<le> length p \<and> drop_bit 4 (p ! 0) = 6 \<and> unat (from_be_bytes (slice 4 6 p) :: u16) + 40 = length p
      then Some (WriteToTunnelV6 p (slice 8 24 p)) else None)"

lemma validate_ip:
  assumes "ip_result p = Some r"
  shows "\<exists>t'. validate_decapsulated_packet t p = (r, t') \<and> t_sessions t' = t_sessions t \<and> t_current t' = t_current t"
  using assms
  by (auto simp: ip_result_def validate_decapsulated_packet_def IPV4_MIN_HEADER_SIZE_def IPV6_MIN_HEADER_SIZE_def
      Let_def split: if_splits)

section \<open>Connected tunnels\<close>

text \<open>What the current session of one end sends, the current session of the other
  receives, and the other has counted nothing that this end has not sent yet.\<close>

definition linked :: "tunn \<Rightarrow> tunn \<Rightarrow> nat \<Rightarrow> bool" where
  "linked a b k \<longleftrightarrow> (\<exists>sa sb N R.
     t_sessions a ! (t_current a mod 8) = Some sa \<and> t_sessions b ! (t_current b mod 8) = Some sb \<and>
     t_current b = session_local_index sb \<and> sessions_paired sa sb \<and> session_window sb N R \<and>
     N \<le> unat (s_sending_key_counter sa) \<and> unat (s_sending_key_counter sa) \<le> k)"

definition connected :: "tunn \<Rightarrow> tunn \<Rightarrow> nat \<Rightarrow> bool" where
  "connected a b k \<longleftrightarrow> linked a b k \<and> linked b a k \<and> length (t_sessions a) = 8 \<and> length (t_sessions b) = 8"

lemma connected_sym: "connected a b k \<Longrightarrow> connected b a k"
  by (simp add: connected_def)

lemma paired_same:
  "sessions_paired a b \<Longrightarrow> same_session a a' \<Longrightarrow> same_session b b' \<Longrightarrow> sessions_paired a' b'"
  by (simp add: sessions_paired_def same_session_def)

lemma same_session_counter [simp]: "same_session s (s\<lparr>s_sending_key_counter := n\<rparr>)"
  by (simp add: same_session_def)

lemma session_window_counter [simp]: "session_window (s\<lparr>s_sending_key_counter := n\<rparr>) N R = session_window s N R"
  by (simp add: session_window_def)

text \<open>The filter accepts every counter from its upper end on.\<close>

lemma verdict_fresh: "session_window s N R \<Longrightarrow> N \<le> c \<Longrightarrow> spec_verdict N R c = Inr ()"
  by (auto simp: spec_verdict_def session_window_def window_rep_def)

lemma decapsulate_data:
  assumes "parse_incoming_packet w = Inr (PacketData p)"
  shows "decapsulate cr t rl addr w ev n = map_option (\<lambda>(r, t). (tunn_result r, t, rl)) (handle_data cr t p n)"
proof -
  have "w \<noteq> []" using assms by (auto simp: parse_incoming_packet_def)
  then show ?thesis using assms
    by (cases "handle_data cr t p n") (auto simp: decapsulate_def verify_packet_def handle_verified_packet_def)
qed

lemma encapsulate_session:
  assumes "t_sessions t ! (t_current t mod 8) = Some s" "length (t_sessions t) = 8"
    and "format_packet_data cr s src n = Some (w, s')"
  shows "\<exists>t'. encapsulate cr t src ev n = Some (WriteToNetwork w, t') \<and>
    t_sessions t' = (t_sessions t)[t_current t mod 8 := Some s'] \<and> t_current t' = t_current t"
  using assms by (simp add: encapsulate_def N_SESSIONS_def Let_def)

lemma handle_data_current:
  assumes "t_sessions t ! (t_current t mod 8) = Some s" "length (t_sessions t) = 8"
    and "t_current t = unat (pd_receiver_idx p)" "receive_packet_data cr s p n = Some (Inr src, s')"
    and "ip_result src = Some r"
  shows "\<exists>t'. handle_data cr t p n = Some (Inr r, t') \<and>
    t_sessions t' = (t_sessions t)[t_current t mod 8 := Some s'] \<and> t_current t' = t_current t"
proof -
  let ?t = "timer_tick (set_current_session (t\<lparr>t_sessions := (t_sessions t)[t_current t mod 8 := Some s']\<rparr>) (t_current t))
      TimeLastPacketReceived"
  obtain t' where "validate_decapsulated_packet ?t src = (r, t')" "t_sessions t' = t_sessions ?t" "t_current t' = t_current ?t"
    using validate_ip [OF assms(5)] by blast
  then show ?thesis using assms(1,2,3,4)
    by (simp add: handle_data_def N_SESSIONS_def Let_def set_current_session_def)
qed

text \<open>One packet over the link.\<close>

lemma link_delivers:
  assumes ok: "crypto_ok cr" and c: "connected a b k" and k: "k < 18446744073709550592"
    and src: "ip_result src = Some r" "length src + 32 \<le> n"
  shows "\<exists>w a' b'. encapsulate cr a src ev n = Some (WriteToNetwork w, a') \<and>
    decapsulate cr b rl addr w ev' n = Some (r, b', rl) \<and> connected a' b' (Suc k)"
proof -
  obtain sa sb N R where ab: "t_sessions a ! (t_current a mod 8) = Some sa" "t_sessions b ! (t_current b mod 8) = Some sb"
      "t_current b = session_local_index sb" "sessions_paired sa sb" "session_window sb N R"
      "N \<le> unat (s_sending_key_counter sa)" "unat (s_sending_key_counter sa) \<le> k"
    using c by (auto simp: connected_def linked_def)
  obtain N' R' where ba: "t_current a = session_local_index sa" "sessions_paired sb sa" "session_window sa N' R'"
      "N' \<le> unat (s_sending_key_counter sb)" "unat (s_sending_key_counter sb) \<le> k"
    using c ab(1,2) by (auto simp: connected_def linked_def)
  have len: "length (t_sessions a) = 8" "length (t_sessions b) = 8" using c by (simp_all add: connected_def)
  define sa' where "sa' = sa\<lparr>s_sending_key_counter := s_sending_key_counter sa + 1\<rparr>"
  have ctr: "unat (s_sending_key_counter sa) < 18446744073709550592" using ab(7) k by simp
  obtain w p sb' where d: "format_packet_data cr sa src n = Some (w, sa')"
      "parse_incoming_packet w = Inr (PacketData p)" "pd_receiver_idx p = s_receiving_index sb"
      "receive_packet_data cr sb p n = Some (Inr src, sb')"
      "session_window sb' (max N (unat (s_sending_key_counter sa) + 1)) (insert (unat (s_sending_key_counter sa)) R)"
      "same_session sb sb'" "s_sending_key_counter sb' = s_sending_key_counter sb"
    using data_delivered [OF ok ab(4,5) refl ctr verdict_fresh [OF ab(5,6)] src(2), of n] src(2)
    by (auto simp: sa'_def)
  obtain a' where a': "encapsulate cr a src ev n = Some (WriteToNetwork w, a')"
      "t_sessions a' = (t_sessions a)[t_current a mod 8 := Some sa']" "t_current a' = t_current a"
    using encapsulate_session [OF ab(1) len(1) d(1)] by blast
  have "t_current b = unat (pd_receiver_idx p)" using ab(3) d(3) by (simp add: session_local_index_def)
  then obtain b' where b': "handle_data cr b p n = Some (Inr r, b')"
      "t_sessions b' = (t_sessions b)[t_current b mod 8 := Some sb']" "t_current b' = t_current b"
    using handle_data_current [OF ab(2) len(2) _ d(4) src(1)] by blast
  have "unat (s_sending_key_counter sa + 1) = unat (s_sending_key_counter sa) + 1"
    using ctr by (simp add: unat_add_u64)
  moreover have "same_session sa sa'" by (simp add: sa'_def)
  moreover have "session_local_index sb' = session_local_index sb" "session_local_index sa' = session_local_index sa"
    using d(6) by (simp_all add: same_session_local_index sa'_def)
  moreover have "sessions_paired sa' sb'" "sessions_paired sb' sa'" "session_window sa' N' R'"
    using paired_same [OF ab(4) _ d(6)] paired_same [OF ba(2) d(6)] ba(3) by (simp_all add: sa'_def)
  moreover have "t_sessions a' ! (t_current a' mod 8) = Some sa'" "t_sessions b' ! (t_current b' mod 8) = Some sb'"
    using a'(2,3) b'(2,3) len by simp_all
  moreover have "s_sending_key_counter sa' = s_sending_key_counter sa + 1" by (simp add: sa'_def)
  ultimately have "linked a' b' (Suc k)" "linked b' a' (Suc k)"
    using a'(3) b'(3) ab(3,6,7) ba(1,4,5) d(5,7) unfolding linked_def by fastforce+
  then have "connected a' b' (Suc k)" using a' b' len by (simp add: connected_def)
  then show ?thesis using a'(1) b'(1) decapsulate_data [OF d(2)] by auto
qed

text \<open>Packets in both directions.  \<open>True\<close> is a packet of the first end; the answer
  is what \<open>decapsulate\<close> of the other end returns, and an end that has no datagram to
  send stops the run.\<close>

record traffic =
  tr_forward :: bool
  tr_packet :: bytes
  tr_sent :: env
  tr_received :: env
  tr_from :: "IpAddr option"

definition carry :: "crypto \<Rightarrow> nat \<Rightarrow> tunn \<Rightarrow> tunn \<times> rate_limiter \<Rightarrow> traffic \<Rightarrow>
    (TunnResult \<times> tunn \<times> tunn \<times> rate_limiter) option" where
  "carry cr n a b x = (case b of (b, rlb) \<Rightarrow> do {
     (r, a) \<leftarrow> encapsulate cr a (tr_packet x) (tr_sent x) n;
     w \<leftarrow> (case r of WriteToNetwork w \<Rightarrow> Some w | _ \<Rightarrow> None);
     (r, b, rlb) \<leftarrow> decapsulate cr b rlb (tr_from x) w (tr_received x) n;
     Some (r, a, b, rlb) })"

fun exchange_packets :: "crypto \<Rightarrow> nat \<Rightarrow> tunn \<times> rate_limiter \<Rightarrow> tunn \<times> rate_limiter \<Rightarrow> traffic list \<Rightarrow>
    (TunnResult list \<times> (tunn \<times> rate_limiter) \<times> tunn \<times> rate_limiter) option" where
  "exchange_packets cr n (a, rla) (b, rlb) [] = Some ([], (a, rla), b, rlb)"
| "exchange_packets cr n (a, rla) (b, rlb) (x # xs) =
     (if tr_forward x then do {
        (r, a, b, rlb) \<leftarrow> carry cr n a (b, rlb) x;
        (rs, s) \<leftarrow> exchange_packets cr n (a, rla) (b, rlb) xs;
        Some (r # rs, s) }
      else do {
        (r, b, a, rla) \<leftarrow> carry cr n b (a, rla) x;
        (rs, s) \<leftarrow> exchange_packets cr n (a, rla) (b, rlb) xs;
        Some (r # rs, s) })"

definition traffic_fits :: "nat \<Rightarrow> traffic \<Rightarrow> bool" where
  "traffic_fits n x \<longleftrightarrow> ip_result (tr_packet x) \<noteq> None \<and> length (tr_packet x) + 32 \<le> n"

lemma carry_delivers:
  assumes "crypto_ok cr" "connected a b k" "k < 18446744073709550592" "traffic_fits n x"
  shows "\<exists>a' b'. carry cr n a (b, rl) x = Some (the (ip_result (tr_packet x)), a', b', rl) \<and> connected a' b' (Suc k)"
proof -
  obtain r where "ip_result (tr_packet x) = Some r" "length (tr_packet x) + 32 \<le> n"
    using assms(4) by (auto simp: traffic_fits_def)
  then show ?thesis
    using link_delivers [OF assms(1-3), of "tr_packet x" r n "tr_sent x" rl "tr_from x" "tr_received x"]
    by (auto simp: carry_def)
qed

lemma exchange_delivers:
  assumes "crypto_ok cr" "connected a b k" "k + length xs \<le> 18446744073709550592" "\<forall>x\<in>set xs. traffic_fits n x"
  shows "\<exists>a' b'. exchange_packets cr n (a, rla) (b, rlb) xs =
    Some (map (\<lambda>x. the (ip_result (tr_packet x))) xs, (a', rla), b', rlb) \<and> connected a' b' (k + length xs)"
  using assms(2-4)
proof (induction xs arbitrary: a b k)
  case Nil
  then show ?case by simp
next
  case (Cons x xs)
  have k: "k < 18446744073709550592" and x: "traffic_fits n x" and xs: "\<forall>x\<in>set xs. traffic_fits n x"
    "Suc k + length xs \<le> 18446744073709550592" using Cons.prems by simp_all
  note c = carry_delivers [OF assms(1) _ k x]
  show ?case
  proof (cases "tr_forward x")
    case True
    obtain a1 b1 where "carry cr n a (b, rlb) x = Some (the (ip_result (tr_packet x)), a1, b1, rlb)"
        "connected a1 b1 (Suc k)" using c [OF Cons.prems(1)] by blast
    with Cons.IH [OF this(2) xs(2,1)] True show ?thesis by auto
  next
    case False
    obtain a1 b1 where "carry cr n b (a, rla) x = Some (the (ip_result (tr_packet x)), b1, a1, rla)"
        "connected b1 a1 (Suc k)" using c [OF connected_sym [OF Cons.prems(1)]] by blast
    with Cons.IH [OF connected_sym [OF this(2)] xs(2,1)] False show ?thesis by auto
  qed
qed

section \<open>Taking up a new session\<close>

text \<open>The condition under which a tunnel makes a session that is established now its
  current one: no session, or one established earlier.\<close>

definition can_switch :: "tunn \<Rightarrow> bool" where
  "can_switch t \<longleftrightarrow> t_sessions t ! (t_current t mod 8) = None \<or>
     tm_session_timers (t_timers t) ! (t_current t mod 8) \<le> timer t TimeCurrent"

lemma clk_can_switch:
  assumes "clk L t" "tunn_ok M L t"
  shows "can_switch t"
proof -
  have "length (tm_session_timers (t_timers t)) = 8" using assms(2) by (simp add: tunn_ok_def clock_ok_def)
  then have "tm_session_timers (t_timers t) ! (t_current t mod 8) \<in> set (tm_session_timers (t_timers t))" by simp
  then show ?thesis using assms(1) by (simp add: can_switch_def clk_def)
qed

lemma can_switch_tick [simp]: "can_switch (timer_tick t n) = can_switch t"
  by (simp add: can_switch_def)

lemma start_initiation:
  assumes t: "tunn_ok M L a" "L \<le> ev_clear ev" "can_switch a" and f: "force \<or> \<not> is_in_progress (t_handshake a)"
    and h: "format_handshake_initiation cr (t_handshake a) (ev_ephemeral ev) (ev_stamp ev) (ev_sent ev) n = Some (Inr w, h)"
  shows "\<exists>a'. tunn_format_handshake_initiation cr a ev n force = Some (WriteToNetwork w, a') \<and> t_handshake a' = h \<and>
    t_sessions a' = t_sessions a \<and> t_current a' = t_current a \<and>
    length (tm_session_timers (t_timers a')) = 8 \<and> can_switch a'"
proof -
  have st: "tm_session_timers (t_timers a) ! (t_current a mod 8) \<le> L - tm_time_started (t_timers a)"
    "length (tm_session_timers (t_timers a)) = 8"
    using t(1) by (auto simp: tunn_ok_def clock_ok_def)
  let ?a = "if hs_is_expired (t_handshake a) then a\<lparr>t_timers := timers_clear (t_timers a) (ev_clear ev)\<rparr> else a"
  have "can_switch (?a\<lparr>t_handshake := h\<rparr>)" 
    using t(2,3) st by (auto simp: can_switch_def timer_def timers_clear_def Let_def)
  moreover have "t_handshake ?a = t_handshake a" "t_sessions ?a = t_sessions a" "t_current ?a = t_current a"
    "length (tm_session_timers (t_timers ?a)) = 8" using st(2) by (simp_all add: timers_clear_def Let_def)
  ultimately show ?thesis using f h by (auto simp: tunn_format_handshake_initiation_def Let_def)
qed

lemma answer_initiation:
  assumes "receive_handshake_initialization cr (t_handshake b) p (ev_ephemeral ev) n = Some (Inr (w, s), h)"
  shows "\<exists>b'. handle_handshake_init cr b p ev n = Some (Inr (WriteToNetwork w), b') \<and>
    t_sessions b' = (t_sessions b)[session_local_index s mod 8 := Some s] \<and> t_current b' = t_current b \<and>
    tm_session_timers (t_timers b') =
      (tm_session_timers (t_timers b))[session_local_index s mod 8 := timer b TimeCurrent]"
  using assms by (simp add: handle_handshake_init_def N_SESSIONS_def Let_def) (simp add: timer_def)

lemma set_current_new:
  assumes "can_switch t" "length (t_sessions t) = 8" "length (tm_session_timers (t_timers t)) = 8"
    and "t_sessions t' = (t_sessions t)[i mod 8 := Some s]" "t_current t' = t_current t"
    and "tm_session_timers (t_timers t') = (tm_session_timers (t_timers t))[i mod 8 := timer t TimeCurrent]"
  shows "t_current (set_current_session t' i) = i \<and> t_sessions (set_current_session t' i) = t_sessions t'"
proof -
  have "t_sessions t' ! (t_current t mod 8) = None \<or>
      tm_session_timers (t_timers t') ! (t_current t mod 8) \<le> tm_session_timers (t_timers t') ! (i mod 8)"
    using assms(1-4,6) unfolding can_switch_def by (cases "i mod 8 = t_current t mod 8") simp_all
  then show ?thesis using assms(5) by (auto simp: set_current_session_def N_SESSIONS_def Let_def)
qed

lemma take_response:
  assumes t: "can_switch a" "length (t_sessions a) = 8" "length (tm_session_timers (t_timers a)) = 8"
    and r: "receive_handshake_response cr (t_handshake a) q (ev_time ev) = Some (Inr s, h)"
    and f: "format_packet_data cr s [] n = Some (w, s')" "session_local_index s' = session_local_index s"
  shows "\<exists>a'. handle_handshake_response cr a q ev n = Some (Inr (WriteToNetwork w), a') \<and>
    t_sessions a' = (t_sessions a)[session_local_index s mod 8 := Some s'] \<and> t_current a' = session_local_index s"
proof -
  let ?l = "session_local_index s"
  let ?a = "timer_tick_session_established
      (timer_tick (a\<lparr>t_handshake := h, t_sessions := (t_sessions a)[?l mod 8 := Some s']\<rparr>) TimeLastPacketReceived)
      True (?l mod 8)"
  have "timer (a\<lparr>t_handshake := h, t_sessions := (t_sessions a)[?l mod 8 := Some s']\<rparr>) TimeCurrent = timer a TimeCurrent"
    by (simp add: timer_def)
  then have "t_current (set_current_session ?a ?l) = ?l \<and> t_sessions (set_current_session ?a ?l) = t_sessions ?a"
    by (intro set_current_new [OF t]) simp_all
  then show ?thesis using r f by (simp add: handle_handshake_response_def N_SESSIONS_def Let_def)
qed

text \<open>The responder's side: its session becomes current with the first packet that
  arrives, the keepalive.\<close>

lemma take_keepalive:
  assumes "can_switch b0" "length (t_sessions b0) = 8" "length (tm_session_timers (t_timers b0)) = 8"
    and b: "t_sessions b = (t_sessions b0)[i mod 8 := Some s]" "t_current b = t_current b0"
      "tm_session_timers (t_timers b) = (tm_session_timers (t_timers b0))[i mod 8 := timer b0 TimeCurrent]"
    and p: "unat (pd_receiver_idx p) = i" "receive_packet_data cr s p n = Some (Inr [], s')"
  shows "\<exists>b'. handle_data cr b p n = Some (Inr Done, b') \<and>
    t_sessions b' = (t_sessions b)[i mod 8 := Some s'] \<and> t_current b' = i"
proof -
  let ?b = "b\<lparr>t_sessions := (t_sessions b)[i mod 8 := Some s']\<rparr>"
  have "t_current (set_current_session ?b i) = i \<and> t_sessions (set_current_session ?b i) = t_sessions ?b"
    using b by (intro set_current_new [OF assms(1-3), of _ i s']) simp_all
  then show ?thesis using b(1) p assms(2)
    by (simp add: handle_data_def N_SESSIONS_def Let_def validate_decapsulated_packet_def)
qed

section \<open>Handshake messages pass the limiter\<close>

lemma verify_unloaded:
  assumes "parse_incoming_packet w = Inr p" "rl_count rl < rl_limit rl"
    and "b2s_keyed_mac_16 cr (rl_mac1_key rl) (take (length w - 32) w) = take 16 (drop (length w - 32) w)"
  shows "\<exists>rl'. verify_packet cr rl addr w now n = (Inr p, rl')"
  using assms by (auto simp: verify_packet_def is_under_load_def Let_def not_le split: option.split)

lemma parsed_nonempty: "parse_incoming_packet w = Inr p \<Longrightarrow> w \<noteq> []"
  by (auto simp: parse_incoming_packet_def)

lemma decapsulate_handshake:
  assumes "parse_incoming_packet w = Inr p" "rl_count rl < rl_limit rl"
    and "b2s_keyed_mac_16 cr (rl_mac1_key rl) (take (length w - 32) w) = take 16 (drop (length w - 32) w)"
  shows "\<exists>rl'. decapsulate cr t rl addr w ev n = map_option (\<lambda>(r, t). (r, t, rl')) (handle_verified_packet cr t p ev n)"
proof -
  obtain rl' where "verify_packet cr rl addr w (ev_time ev) COOKIE_REPLY_SZ = (Inr p, rl')"
    using verify_unloaded [OF assms] by blast
  then show ?thesis using parsed_nonempty [OF assms(1)] by (auto simp: decapsulate_def)
qed

lemma initiation_mac1:
  assumes "crypto_ok cr" "format_handshake_initiation cr h e t1 t2 n = Some (Inr w, h')"
  shows "b2s_keyed_mac_16 cr (np_sending_mac1_key (h_params h)) (take (length w - 32) w) =
    take 16 (drop (length w - 32) w)"
proof -
  obtain m1 m2 where m: "length w = 148" "w = take 116 w @ m1 @ m2" "length m1 = 16" "length m2 = 16"
      "macs_of cr (h_params h) (ck_write_cookie (h_cookies h)) (take 116 w) = (m1, m2)"
    using format_initiation_macs [OF assms] by blast
  then show ?thesis
    unfolding split_macs [OF m(2,1,3,4)] by (simp add: macs_of_def Let_def)
qed

lemma response_mac1:
  assumes ok: "crypto_ok cr" and r: "receive_handshake_initialization cr h p e n = Some (Inr (w, s), h')"
  shows "b2s_keyed_mac_16 cr (np_sending_mac1_key (h_params h)) (take (length w - 32) w) =
    take 16 (drop (length w - 32) w)"
proof -
  obtain t hash ck where c: "init_check cr (h_params h) p = Some (Inr (t, hash, ck))"
    using receive_initialization_accepted [OF r] by blast
  obtain h0 i msg where "append_mac1_and_mac2 cr h0 i msg = (w, h')" "h_params h0 = h_params h"
    using r c
    by (auto simp: receive_initialization_checks format_handshake_response_def Let_def split_beta inc_index_def
        bind_eq_Some_conv split: if_splits)
  then obtain m2 where w: "w = msg @ b2s_keyed_mac_16 cr (np_sending_mac1_key (h_params h)) msg @ m2" "length m2 = 16"
    using ok by (auto simp: append_mac1_and_mac2_def Let_def crypto_simps split: option.splits)
  then show ?thesis using ok by (simp add: crypto_simps)
qed

text \<open>New sessions have sent nothing.\<close>

lemma init_session_counter:
  assumes "receive_handshake_initialization cr h p e n = Some (Inr (w, s), h')"
  shows "s_sending_key_counter s = 0"
proof -
  obtain t hash ck where "init_check cr (h_params h) p = Some (Inr (t, hash, ck))"
    using receive_initialization_accepted [OF assms] by blast
  then show ?thesis using assms
    by (auto simp: receive_initialization_checks format_handshake_response_def Let_def split_beta
        bind_eq_Some_conv session_new_def split: if_splits)
qed

lemma response_session_counter:
  assumes "receive_handshake_response cr h q now = Some (Inr s, h')"
  shows "s_sending_key_counter s = 0"
  using assms
  by (auto simp: receive_handshake_response_def Let_def split_beta bind_eq_Some_conv session_new_def
      split: option.splits sum.splits) (metis obj_sumE)

section \<open>The handshake of two tunnels\<close>

lemma connect:
  assumes ok: "crypto_ok cr"
    and pm: "params_matched cr (h_params (t_handshake a)) (h_params (t_handshake b))"
    and a: "tunn_ok M L a" "L \<le> ev_clear ev1" "can_switch a" "force \<or> \<not> is_in_progress (t_handshake a)"
    and b: "tunn_ok M' L' b" "can_switch b"
    and ts: "tai64n_parse (stamp (h_stamper (t_handshake a)) (ev_stamp ev1)) = Inr t"
      "tai64n_after t (h_last_timestamp (t_handshake b))"
    and lim: "limiter_for cr rla (np_static_public (h_params (t_handshake a)))" "rl_count rla < rl_limit rla"
      "limiter_for cr rlb (np_static_public (h_params (t_handshake b)))" "rl_count rlb < rl_limit rlb"
    and n: "148 \<le> n"
  shows "\<exists>w1 a1 w2 b1 rlb1 w3 a2 rla2 b2.
    tunn_format_handshake_initiation cr a ev1 n force = Some (WriteToNetwork w1, a1) \<and>
    decapsulate cr b rlb from_a w1 ev2 n = Some (WriteToNetwork w2, b1, rlb1) \<and>
    decapsulate cr a1 rla from_b w2 ev3 n = Some (WriteToNetwork w3, a2, rla2) \<and>
    decapsulate cr b1 rlb1 from_a' w3 ev4 n = Some (Done, b2, rlb1) \<and> connected a2 b2 1"
proof -
  let ?ha = "t_handshake a" and ?hb = "t_handshake b"
  have la: "length (t_sessions a) = 8" and lb: "length (t_sessions b) = 8" "length (tm_session_timers (t_timers b)) = 8"
    using a(1) b(1) by (simp_all add: tunn_ok_def ring_ok_def clock_ok_def)
  have keys: "np_sending_mac1_key (h_params ?ha) = rl_mac1_key rlb" "np_sending_mac1_key (h_params ?hb) = rl_mac1_key rla"
    using pm lim(1,3) by (simp_all add: params_matched_def params_ok_def limiter_for_def)
  obtain w1 ha p w2 sr hb q si ha2 where hs:
      "format_handshake_initiation cr ?ha (ev_ephemeral ev1) (ev_stamp ev1) (ev_sent ev1) n = Some (Inr w1, ha)"
      "parse_incoming_packet w1 = Inr (HandshakeInit p)"
      "receive_handshake_initialization cr ?hb p (ev_ephemeral ev2) n = Some (Inr (w2, sr), hb)"
      "parse_incoming_packet w2 = Inr (HandshakeResponse q)"
      "receive_handshake_response cr ha q (ev_time ev3) = Some (Inr si, ha2)"
      "sessions_paired si sr" "sessions_paired sr si" "session_window si 0 {}" "session_window sr 0 {}"
    using handshake_completes [OF ok pm ts n, of n "ev_ephemeral ev1" "ev_sent ev1" "ev_ephemeral ev2" "ev_time ev3"] n
    by auto
  obtain a1 where a1: "tunn_format_handshake_initiation cr a ev1 n force = Some (WriteToNetwork w1, a1)"
      "t_handshake a1 = ha" "t_sessions a1 = t_sessions a" "length (tm_session_timers (t_timers a1)) = 8" "can_switch a1"
    using start_initiation [OF a hs(1)] by blast
  obtain b1 where b1: "handle_handshake_init cr b p ev2 n = Some (Inr (WriteToNetwork w2), b1)"
      "t_sessions b1 = (t_sessions b)[session_local_index sr mod 8 := Some sr]" "t_current b1 = t_current b"
      "tm_session_timers (t_timers b1) = (tm_session_timers (t_timers b))[session_local_index sr mod 8 := timer b TimeCurrent]"
    using answer_initiation [OF hs(3)] by blast
  obtain rlb1 where d1: "decapsulate cr b rlb from_a w1 ev2 n = Some (WriteToNetwork w2, b1, rlb1)"
    using decapsulate_handshake [OF hs(2) lim(4), of cr b from_a ev2 n] initiation_mac1 [OF ok hs(1)] keys(1) b1(1)
    by (auto simp: handle_verified_packet_def)
  define si' where "si' = si\<lparr>s_sending_key_counter := s_sending_key_counter si + 1\<rparr>"
  have zero: "s_sending_key_counter si = 0" "s_sending_key_counter sr = 0"
    using hs(3,5) by (auto dest: response_session_counter init_session_counter)
  obtain w3 d sr' where k: "format_packet_data cr si [] n = Some (w3, si')" "parse_incoming_packet w3 = Inr (PacketData d)"
      "pd_receiver_idx d = s_receiving_index sr" "receive_packet_data cr sr d n = Some (Inr [], sr')"
      "session_window sr' 1 {0}" "same_session sr sr'" "s_sending_key_counter sr' = 0"
    using data_delivered [OF ok hs(6,9), of 0 "[]" n n] n by (auto simp: si'_def zero spec_verdict_def)
  obtain a2 where a2: "handle_handshake_response cr a1 q ev3 n = Some (Inr (WriteToNetwork w3), a2)"
      "t_sessions a2 = (t_sessions a)[session_local_index si mod 8 := Some si']" "t_current a2 = session_local_index si"
    using take_response [OF a1(5) _ a1(4) _ k(1), of q ev3 ha2] a1(2,3) la hs(5)
    by (auto simp: si'_def same_session_local_index)
  obtain rla2 where d2: "decapsulate cr a1 rla from_b w2 ev3 n = Some (WriteToNetwork w3, a2, rla2)"
    using decapsulate_handshake [OF hs(4) lim(2), of cr a1 from_b ev3 n] response_mac1 [OF ok hs(3)] keys(2) a2(1)
    by (auto simp: handle_verified_packet_def)
  have "unat (pd_receiver_idx d) = session_local_index sr" using k(3) by (simp add: session_local_index_def)
  then obtain b2 where b2: "handle_data cr b1 d n = Some (Inr Done, b2)"
      "t_sessions b2 = (t_sessions b1)[session_local_index sr mod 8 := Some sr']" "t_current b2 = session_local_index sr"
    using take_keepalive [OF b(2) lb b1(2-4) _ k(4)] by blast
  have "same_session si si'" "session_window si' 0 {}" "s_sending_key_counter si' = 1"
    using hs(8) by (simp_all add: si'_def zero)
  moreover have "sessions_paired si' sr'" "sessions_paired sr' si'"
    using paired_same [OF hs(6) _ k(6)] paired_same [OF hs(7) k(6)] calculation(1) by blast+
  moreover have "session_local_index si' = session_local_index si" "session_local_index sr' = session_local_index sr"
    using calculation(1) k(6) by (simp_all add: same_session_local_index)
  moreover have "t_sessions a2 ! (t_current a2 mod 8) = Some si'" "t_sessions b2 ! (t_current b2 mod 8) = Some sr'"
    "length (t_sessions a2) = 8" "length (t_sessions b2) = 8"
    using a2(2,3) b2(2,3) b1(2) la lb(1) by simp_all
  ultimately have "linked a2 b2 1" "linked b2 a2 1"
    using a2(3) b2(3) k(5,7) unfolding linked_def by fastforce+
  then have "connected a2 b2 1" using \<open>length (t_sessions a2) = 8\<close> \<open>length (t_sessions b2) = 8\<close>
    by (simp add: connected_def)
  moreover have "decapsulate cr b1 rlb1 from_a' w3 ev4 n = Some (Done, b2, rlb1)"
    using b2(1) by (simp add: decapsulate_data [OF k(2)])
  ultimately show ?thesis using a1(1) d1 d2 by blast
qed

section \<open>Properties\<close>

text \<open>C1: the tunnel works end to end.  Let two tunnels, in any state their
  operations lead to, be configured for each other, let the responder have seen no later
  timestamp and the limiters have room.  Then the initiation of one makes the other
  answer, the answer makes the first one send a keepalive, which the other takes; and
  from then on every IP packet given to either end, in any order of directions, comes out
  of the other end unchanged and with its source address.\<close>

theorem tunnels_deliver:
  assumes "crypto_ok cr" "params_matched cr (h_params (t_handshake a)) (h_params (t_handshake b))"
    and "tunn_ok M L a" "clk L a" "L \<le> ev_clear ev1" "force \<or> \<not> is_in_progress (t_handshake a)"
    and "tunn_ok M' L' b" "clk L' b"
    and "tai64n_parse (stamp (h_stamper (t_handshake a)) (ev_stamp ev1)) = Inr t"
      "tai64n_after t (h_last_timestamp (t_handshake b))"
    and "limiter_for cr rla (np_static_public (h_params (t_handshake a)))" "rl_count rla < rl_limit rla"
      "limiter_for cr rlb (np_static_public (h_params (t_handshake b)))" "rl_count rlb < rl_limit rlb"
    and "148 \<le> n"
  shows "\<exists>w1 a1 w2 b1 rlb1 w3 a2 rla2 b2.
    tunn_format_handshake_initiation cr a ev1 n force = Some (WriteToNetwork w1, a1) \<and>
    decapsulate cr b rlb from_a w1 ev2 n = Some (WriteToNetwork w2, b1, rlb1) \<and>
    decapsulate cr a1 rla from_b w2 ev3 n = Some (WriteToNetwork w3, a2, rla2) \<and>
    decapsulate cr b1 rlb1 from_a' w3 ev4 n = Some (Done, b2, rlb1) \<and>
    (\<forall>xs. (\<forall>x\<in>set xs. traffic_fits n x) \<and> length xs < 18446744073709550592 \<longrightarrow>
       (\<exists>s. exchange_packets cr n (a2, rla2) (b2, rlb1) xs = Some (map (\<lambda>x. the (ip_result (tr_packet x))) xs, s)))"
proof -
  obtain w1 a1 w2 b1 rlb1 w3 a2 rla2 b2 where c:
      "tunn_format_handshake_initiation cr a ev1 n force = Some (WriteToNetwork w1, a1)"
      "decapsulate cr b rlb from_a w1 ev2 n = Some (WriteToNetwork w2, b1, rlb1)"
      "decapsulate cr a1 rla from_b w2 ev3 n = Some (WriteToNetwork w3, a2, rla2)"
      "decapsulate cr b1 rlb1 from_a' w3 ev4 n = Some (Done, b2, rlb1)" "connected a2 b2 1"
    using connect [OF assms(1,2,3,5) clk_can_switch [OF assms(4,3)] assms(6,7) clk_can_switch [OF assms(8,7)]
        assms(9-15), of from_a ev2 from_b ev3 from_a' ev4] by blast
  have "\<exists>s. exchange_packets cr n (a2, rla2) (b2, rlb1) xs = Some (map (\<lambda>x. the (ip_result (tr_packet x))) xs, s)"
    if "\<forall>x\<in>set xs. traffic_fits n x" "length xs < 18446744073709550592" for xs
    using exchange_delivers [OF assms(1) c(5) _ that(1), of rla2 rlb1] that(2) by auto
  then show ?thesis using c(1-4) by blast
qed

definition toy_end :: "bytes \<Rightarrow> bytes \<Rightarrow> u32 \<Rightarrow> tunn" where
  "toy_end k peer idx = tunn_new toy_crypto k (cr_pub toy_crypto peer) None None idx False toy_stamper 0"

definition toy_guard :: "bytes \<Rightarrow> rate_limiter" where
  "toy_guard k = rate_limiter_new toy_crypto (cr_pub toy_crypto k) 10 [2] [3] 0"

definition toy_traffic :: traffic where
  "toy_traffic = \<lparr>tr_forward = False, tr_packet = [0x45, 0, 0, 20] @ replicate 16 9, tr_sent = toy_env 5,
     tr_received = toy_env 6, tr_from = None\<rparr>"

lemma toy_traffic_result:
  "ip_result (tr_packet toy_traffic) = Some (WriteToTunnelV4 ([0x45, 0, 0, 20] @ replicate 16 9) [9, 9, 9, 9])"
  by (simp add: toy_traffic_def ip_result_def) code_simp

theorem tunnels_deliver_witness:
  "\<exists>w1 a1 w2 b1 rlb1 w3 a2 rla2 b2 s.
    tunn_format_handshake_initiation toy_crypto (toy_end [1] [2] 5) (toy_env 3) 200 False = Some (WriteToNetwork w1, a1) \<and>
    decapsulate toy_crypto (toy_end [2] [1] 9) (toy_guard [2]) None w1 (toy_env 3) 200 = Some (WriteToNetwork w2, b1, rlb1) \<and>
    decapsulate toy_crypto a1 (toy_guard [1]) None w2 (toy_env 3) 200 = Some (WriteToNetwork w3, a2, rla2) \<and>
    decapsulate toy_crypto b1 rlb1 None w3 (toy_env 3) 200 = Some (Done, b2, rlb1) \<and>
    exchange_packets toy_crypto 200 (a2, rla2) (b2, rlb1) [toy_traffic] =
      Some ([WriteToTunnelV4 ([0x45, 0, 0, 20] @ replicate 16 9) [9, 9, 9, 9]], s)"
proof -
  have p: "params_matched toy_crypto (h_params (t_handshake (toy_end [1] [2] 5))) (h_params (t_handshake (toy_end [2] [1] 9)))"
    using toy_matched by (simp add: toy_end_def tunn_new_def toy_initiator_def toy_responder_def handshake_new_def)
  obtain t where t: "tai64n_parse (stamp (h_stamper (t_handshake (toy_end [1] [2] 5))) (ev_stamp (toy_env 3))) = Inr t"
      "tai64n_after t (h_last_timestamp (t_handshake (toy_end [2] [1] 9)))"
    using toy_stamp by (auto simp: toy_end_def tunn_new_def toy_initiator_def toy_responder_def handshake_new_def toy_env_def)
  have g: "limiter_for toy_crypto (toy_guard [1]) (np_static_public (h_params (t_handshake (toy_end [1] [2] 5))))"
      "limiter_for toy_crypto (toy_guard [2]) (np_static_public (h_params (t_handshake (toy_end [2] [1] 9))))"
      "rl_count (toy_guard k) < rl_limit (toy_guard k)" for k
    by (simp_all add: toy_guard_def toy_end_def tunn_new_def handshake_new_def noise_params_new_def)
      (simp add: rate_limiter_new_def)
  have f: "0 \<le> ev_clear (toy_env 3)" "False \<or> \<not> is_in_progress (t_handshake (toy_end [1] [2] 5))"
    by (simp_all add: toy_end_def tunn_new_def handshake_new_def is_in_progress_def)
  have ok: "tunn_ok 100 0 (toy_end k p i)" "clk 0 (toy_end k p i)" for k p i
    unfolding toy_end_def by (rule tunn_new_ok [OF toy_crypto_ok]) (rule clk_new)
  have x: "\<forall>x\<in>set [toy_traffic]. traffic_fits 200 x" "length [toy_traffic] < 18446744073709550592"
    using toy_traffic_result by (simp_all add: traffic_fits_def) (simp add: toy_traffic_def)
  from tunnels_deliver [OF toy_crypto_ok p ok(1,2) f ok(1,2) t g(1,3) g(2,3), of 200 None "toy_env 3" None "toy_env 3"
      None "toy_env 3"] x toy_traffic_result
  show ?thesis by fastforce
qed

end
