(* ===== verification/Bindings.thy ===== *)
theory Bindings
  imports Tunn_Invariant Key_Parse Device
begin

text \<open>
  The bindings of the library for programs in C (\<open>ffi/mod.rs\<close>) and Java (\<open>jni.rs\<close>).
  A tunnel is a handle: the address of a \<open>Mutex<Tunn>\<close> in the memory of the program
  that hosts the library, which \<open>ffi_host\<close> maps to the tunnel and its own rate limiter; the
  mutex makes every call one step.  A C string is the list of its bytes before the NUL.  The
  slice a result points to is the front of the caller's \<open>dst\<close>.  \<open>None\<close> is a call that does
  not return: a panic, which the hook of \<open>new_tunnel\<close> turns into SIGSEGV, or the use of a
  handle that is not alive.  The base64 and hex crates, the allocator's choice of an
  address and the clocks are arguments; the loss estimate of \<open>wireguard_stats\<close> is a
  floating-point number and is left out, and so is the logging function.
\<close>

section \<open>Text\<close>

text \<open>\<open>str::from_utf8\<close>: no overlong forms, no surrogates, nothing above U+10FFFF.\<close>

definition utf8_three :: "u8 \<Rightarrow> u8 \<Rightarrow> u8 \<Rightarrow> bool" where
  "utf8_three a b c \<longleftrightarrow> is_continuation c \<and>
     (a = 0xE0 \<and> 0xA0 \<le> b \<and> b \<le> 0xBF \<or> 0xE1 \<le> a \<and> a \<le> 0xEC \<and> is_continuation b \<or>
      a = 0xED \<and> 0x80 \<le> b \<and> b \<le> 0x9F \<or> 0xEE \<le> a \<and> a \<le> 0xEF \<and> is_continuation b)"

definition utf8_four :: "u8 \<Rightarrow> u8 \<Rightarrow> u8 \<Rightarrow> u8 \<Rightarrow> bool" where
  "utf8_four a b c d \<longleftrightarrow> is_continuation c \<and> is_continuation d \<and>
     (a = 0xF0 \<and> 0x90 \<le> b \<and> b \<le> 0xBF \<or> 0xF1 \<le> a \<and> a \<le> 0xF3 \<and> is_continuation b \<or>
      a = 0xF4 \<and> 0x80 \<le> b \<and> b \<le> 0x8F)"

fun valid_utf8 :: "bytes \<Rightarrow> bool" where
  "valid_utf8 [] = True"
| "valid_utf8 (a # xs) =
     (if a < 0x80 then valid_utf8 xs
      else (case xs of [] \<Rightarrow> False
        | b # ys \<Rightarrow>
          if 0xC2 \<le> a \<and> a \<le> 0xDF \<and> is_continuation b then valid_utf8 ys
          else (case ys of [] \<Rightarrow> False
            | c # zs \<Rightarrow>
              if utf8_three a b c then valid_utf8 zs
              else (case zs of [] \<Rightarrow> False | d # ws \<Rightarrow> utf8_four a b c d \<and> valid_utf8 ws))))"

definition is_ascii :: "bytes \<Rightarrow> bool" where
  "is_ascii s \<longleftrightarrow> (\<forall>c\<in>set s. c < 0x80)"

lemma ascii_valid_utf8: "is_ascii s \<Longrightarrow> valid_utf8 s"
  by (induction s) (auto simp: is_ascii_def)

lemma ascii_not_continuation: "is_ascii (c # s) \<Longrightarrow> \<not> is_continuation c"
  by (auto simp: is_ascii_def is_continuation_def)

section \<open>Results\<close>

datatype result_type =
    WIREGUARD_DONE
  | WRITE_TO_NETWORK
  | WIREGUARD_ERROR
  | WRITE_TO_TUNNEL_IPV4
  | WRITE_TO_TUNNEL_IPV6

primrec result_code :: "result_type \<Rightarrow> u8" where
  "result_code WIREGUARD_DONE = 0"
| "result_code WRITE_TO_NETWORK = 1"
| "result_code WIREGUARD_ERROR = 2"
| "result_code WRITE_TO_TUNNEL_IPV4 = 4"
| "result_code WRITE_TO_TUNNEL_IPV6 = 6"

record wireguard_result =
  wr_op :: result_type
  wr_size :: usize

text \<open>\<open>e as _\<close> is the position of the error in the enumeration.\<close>

primrec error_code :: "WireGuardError \<Rightarrow> usize" where
  "error_code DestinationBufferTooSmall = 0"
| "error_code IncorrectPacketLength = 1"
| "error_code UnexpectedPacket = 2"
| "error_code WrongPacketType = 3"
| "error_code WrongIndex = 4"
| "error_code WrongKey = 5"
| "error_code InvalidTai64nTimestamp = 6"
| "error_code WrongTai64nTimestamp = 7"
| "error_code InvalidMac = 8"
| "error_code InvalidAeadTag = 9"
| "error_code InvalidCounter = 10"
| "error_code DuplicateCounter = 11"
| "error_code InvalidPacket = 12"
| "error_code NoCurrentSession = 13"
| "error_code LockFailed = 14"
| "error_code ConnectionExpired = 15"
| "error_code UnderLoad = 16"

primrec wireguard_result_from :: "TunnResult \<Rightarrow> wireguard_result" where
  "wireguard_result_from Done = \<lparr>wr_op = WIREGUARD_DONE, wr_size = 0\<rparr>"
| "wireguard_result_from (TErr e) = \<lparr>wr_op = WIREGUARD_ERROR, wr_size = error_code e\<rparr>"
| "wireguard_result_from (WriteToNetwork b) = \<lparr>wr_op = WRITE_TO_NETWORK, wr_size = of_nat (length b)\<rparr>"
| "wireguard_result_from (WriteToTunnelV4 b a) = \<lparr>wr_op = WRITE_TO_TUNNEL_IPV4, wr_size = of_nat (length b)\<rparr>"
| "wireguard_result_from (WriteToTunnelV6 b a) = \<lparr>wr_op = WRITE_TO_TUNNEL_IPV6, wr_size = of_nat (length b)\<rparr>"

text \<open>What the call has left at the front of \<open>dst\<close>.\<close>

primrec written :: "TunnResult \<Rightarrow> bytes" where
  "written Done = []"
| "written (TErr e) = []"
| "written (WriteToNetwork b) = b"
| "written (WriteToTunnelV4 b a) = b"
| "written (WriteToTunnelV6 b a) = b"

section \<open>The host and its handles\<close>

record ffi_host =
  ho_tunnels :: "nat \<Rightarrow> (tunn \<times> rate_limiter) option"
  ho_strings :: "nat \<Rightarrow> bytes option"
  ho_hook :: bool

definition host_start :: ffi_host where
  "host_start = \<lparr>ho_tunnels = (\<lambda>_. None), ho_strings = (\<lambda>_. None), ho_hook = False\<rparr>"

text \<open>Taking the mutex of a handle, the operation on the tunnel, and its result.\<close>

definition with_tunnel :: "ffi_host \<Rightarrow> nat \<Rightarrow> (tunn \<Rightarrow> rate_limiter \<Rightarrow> (TunnResult \<times> tunn \<times> rate_limiter) option) \<Rightarrow>
    ((wireguard_result \<times> bytes) \<times> ffi_host) option" where
  "with_tunnel h p f = do {
     (t, rl) \<leftarrow> ho_tunnels h p;
     (r, t, rl) \<leftarrow> f t rl;
     Some ((wireguard_result_from r, written r), h\<lparr>ho_tunnels := (ho_tunnels h)(p \<mapsto> (t, rl))\<rparr>) }"

definition wireguard_write where
  "wireguard_write cr h tunnel src ev dst_size =
     with_tunnel h tunnel (\<lambda>t rl. map_option (\<lambda>(r, t). (r, t, rl)) (encapsulate cr t src ev (unat (dst_size :: u32))))"

definition wireguard_read where
  "wireguard_read cr h tunnel src ev dst_size =
     with_tunnel h tunnel (\<lambda>t rl. decapsulate cr t rl None src ev (unat (dst_size :: u32)))"

definition wireguard_tick where
  "wireguard_tick cr h tunnel ev dst_size =
     with_tunnel h tunnel (\<lambda>t rl. update_timers cr t rl ev (unat (dst_size :: u32)))"

definition wireguard_force_handshake where
  "wireguard_force_handshake cr h tunnel ev dst_size =
     with_tunnel h tunnel (\<lambda>t rl. map_option (\<lambda>(r, t). (r, t, rl))
       (tunn_format_handshake_initiation cr t ev (unat (dst_size :: u32)) True))"

record ffi_stats =
  fs_time_since_last_handshake :: "64 word"
  fs_tx_bytes :: usize
  fs_rx_bytes :: usize
  fs_estimated_rtt :: "32 word"

definition wireguard_stats :: "ffi_host \<Rightarrow> nat \<Rightarrow> nat \<Rightarrow> ffi_stats option" where
  "wireguard_stats h tunnel instant = do {
     (t, rl) \<leftarrow> ho_tunnels h tunnel;
     time \<leftarrow> time_since_last_handshake t instant;
     Some \<lparr>fs_time_since_last_handshake = (case time of Some ns \<Rightarrow> of_nat (ns div 1000000000) | None \<Rightarrow> - 1),
       fs_tx_bytes = t_tx_bytes t, fs_rx_bytes = t_rx_bytes t,
       fs_estimated_rtt = (case h_last_rtt (t_handshake t) of Some r \<Rightarrow> r | None \<Rightarrow> - 1)\<rparr> }"

section \<open>Making and freeing a tunnel\<close>

text \<open>What \<open>new_tunnel\<close> takes from outside: the address of the box, the clock, the start of the
  stamper and the random keys of the limiter.\<close>

record fresh =
  fr_addr :: nat
  fr_now :: nat
  fr_stamper :: time_stamper
  fr_secret_key :: bytes
  fr_nonce_key :: bytes

definition parse_preshared :: "(bytes \<Rightarrow> bytes option) \<Rightarrow> bytes option \<Rightarrow> (unit + bytes option) option" where
  "parse_preshared b64 preshared_key =
     (case preshared_key of None \<Rightarrow> Some (Inr None)
      | Some string \<Rightarrow>
        if \<not> valid_utf8 string then Some (Inl ())
        else map_option (\<lambda>r. case r of Inr key \<Rightarrow> Inr (Some key) | Inl _ \<Rightarrow> Inl ()) (key_from_str b64 string))"

definition new_tunnel :: "crypto \<Rightarrow> (bytes \<Rightarrow> bytes option) \<Rightarrow> ffi_host \<Rightarrow> bytes \<Rightarrow> bytes \<Rightarrow> bytes option \<Rightarrow> u16 \<Rightarrow> u32 \<Rightarrow>
    fresh \<Rightarrow> (nat \<times> ffi_host) option" where
  "new_tunnel cr b64 h static_private server_static_public preshared_key keep_alive index fr =
     (if \<not> valid_utf8 static_private \<or> \<not> valid_utf8 server_static_public then Some (0, h)
      else do {
        psk \<leftarrow> parse_preshared b64 preshared_key;
        case psk of Inl _ \<Rightarrow> Some (0, h)
        | Inr preshared_key \<Rightarrow> do {
            r \<leftarrow> key_from_str b64 static_private;
            case r of Inl _ \<Rightarrow> Some (0, h)
            | Inr private_key \<Rightarrow> do {
                r \<leftarrow> key_from_str b64 server_static_public;
                case r of Inl _ \<Rightarrow> Some (0, h)
                | Inr public_key \<Rightarrow>
                  let keep_alive = (if keep_alive = 0 then None else Some keep_alive);
                      t = tunn_new cr private_key public_key preshared_key keep_alive index True (fr_stamper fr) (fr_now fr);
                      rl = rate_limiter_new cr (cr_pub cr private_key) PEER_HANDSHAKE_RATE_LIMIT
                        (fr_secret_key fr) (fr_nonce_key fr) (fr_now fr)
                  in Some (fr_addr fr,
                       h\<lparr>ho_tunnels := (ho_tunnels h)(fr_addr fr \<mapsto> (t, rl)), ho_hook := True\<rparr>) }}})"

definition tunnel_free :: "ffi_host \<Rightarrow> nat \<Rightarrow> ffi_host option" where
  "tunnel_free h tunnel = do {
     _ \<leftarrow> ho_tunnels h tunnel;
     Some (h\<lparr>ho_tunnels := (ho_tunnels h)(tunnel := None)\<rparr>) }"

section \<open>Keys\<close>

text \<open>\<open>CString::new\<close> refuses a NUL, and the \<open>unwrap\<close> panics then.\<close>

definition c_string_new :: "ffi_host \<Rightarrow> nat \<Rightarrow> bytes \<Rightarrow> (nat \<times> ffi_host) option" where
  "c_string_new h addr s =
     (if 0 \<in> set s then None else Some (addr, h\<lparr>ho_strings := (ho_strings h)(addr \<mapsto> s)\<rparr>))"

definition x25519_secret_key :: "bytes \<Rightarrow> bytes" where
  "x25519_secret_key random = random"

definition x25519_public_key :: "crypto \<Rightarrow> bytes \<Rightarrow> bytes" where
  "x25519_public_key cr private_key = cr_pub cr private_key"

definition x25519_key_to_base64 :: "(bytes \<Rightarrow> bytes) \<Rightarrow> ffi_host \<Rightarrow> bytes \<Rightarrow> nat \<Rightarrow> (nat \<times> ffi_host) option" where
  "x25519_key_to_base64 b64_encode h key addr = c_string_new h addr (b64_encode key)"

definition x25519_key_to_hex :: "(bytes \<Rightarrow> bytes) \<Rightarrow> ffi_host \<Rightarrow> bytes \<Rightarrow> nat \<Rightarrow> (nat \<times> ffi_host) option" where
  "x25519_key_to_hex hex_encode h key addr = c_string_new h addr (hex_encode key)"

definition x25519_key_to_str_free :: "ffi_host \<Rightarrow> nat \<Rightarrow> ffi_host option" where
  "x25519_key_to_str_free h stringified_key = do {
     _ \<leftarrow> ho_strings h stringified_key;
     Some (h\<lparr>ho_strings := (ho_strings h)(stringified_key := None)\<rparr>) }"

definition check_base64_encoded_x25519_key :: "(bytes \<Rightarrow> bytes option) \<Rightarrow> bytes \<Rightarrow> 32 word" where
  "check_base64_encoded_x25519_key b64 key =
     (if \<not> valid_utf8 key then 0
      else case b64 key of
        Some key \<Rightarrow>
          (let zero = fold (\<lambda>b zero. zero OR b) key 0 in if length key = 32 \<and> zero \<noteq> 0 then 1 else 0)
      | None \<Rightarrow> 0)"

section \<open>The Java bindings\<close>

text \<open>A Java byte array is its bytes, or \<open>None\<close> for a reference the environment refuses;
  \<open>get_byte_array_region\<close> of 32 bytes fails on a shorter array.  A direct buffer is its
  capacity, \<open>None\<close> when it is no direct buffer.  The arguments \<open>ok\<close> say whether the
  virtual machine could allocate.  Sizes beyond an array or a buffer are memory the call does
  not own, so the call is \<open>None\<close>.\<close>

definition byte_array_region :: "bytes option \<Rightarrow> bytes option" where
  "byte_array_region arr = (case arr of Some a \<Rightarrow> if 32 \<le> length a then Some (take 32 a) else None | None \<Rightarrow> None)"

definition generate_secret_key :: "bytes \<Rightarrow> bool \<Rightarrow> bytes option" where
  "generate_secret_key random ok = (if ok then Some (x25519_secret_key random) else None)"

definition generate_public_key1 :: "crypto \<Rightarrow> bytes option \<Rightarrow> bool \<Rightarrow> bytes option" where
  "generate_public_key1 cr arg_secret_key ok =
     (case byte_array_region arg_secret_key of
        None \<Rightarrow> None
      | Some key_inner \<Rightarrow> if ok then Some (x25519_public_key cr key_inner) else None)"

text \<open>The C string is read back from its address and stays allocated.\<close>

definition convert_x25519_key_to_hex ::
  "(bytes \<Rightarrow> bytes) \<Rightarrow> ffi_host \<Rightarrow> bytes option \<Rightarrow> nat \<Rightarrow> bool \<Rightarrow> (bytes option \<times> ffi_host) option" where
  "convert_x25519_key_to_hex hex_encode h arg_key addr ok =
     (case byte_array_region arg_key of
        None \<Rightarrow> Some (None, h)
      | Some key \<Rightarrow> do {
          (p, h) \<leftarrow> x25519_key_to_hex hex_encode h key addr;
          text \<leftarrow> ho_strings h p;
          Some (if ok then Some text else None, h) })"

definition convert_x25519_key_to_base64 ::
  "(bytes \<Rightarrow> bytes) \<Rightarrow> ffi_host \<Rightarrow> bytes option \<Rightarrow> nat \<Rightarrow> bool \<Rightarrow> (bytes option \<times> ffi_host) option" where
  "convert_x25519_key_to_base64 b64_encode h arg_key addr ok =
     (case byte_array_region arg_key of
        None \<Rightarrow> Some (None, h)
      | Some key \<Rightarrow> do {
          (p, h) \<leftarrow> x25519_key_to_base64 b64_encode h key addr;
          text \<leftarrow> ho_strings h p;
          Some (if ok then Some text else None, h) })"

text \<open>A string argument is its C string, \<open>None\<close> when the environment cannot give it; the
  outer \<open>None\<close> of \<open>arg_preshared_key\<close> is a null reference.\<close>

definition create_new_tunnel :: "crypto \<Rightarrow> (bytes \<Rightarrow> bytes option) \<Rightarrow> ffi_host \<Rightarrow> bytes option \<Rightarrow> bytes option \<Rightarrow>
    bytes option option \<Rightarrow> 16 word \<Rightarrow> 32 word \<Rightarrow> fresh \<Rightarrow> (64 word \<times> ffi_host) option" where
  "create_new_tunnel cr b64 h arg_secret_key arg_public_key arg_preshared_key keep_alive index fr =
     (case arg_secret_key of None \<Rightarrow> Some (0, h)
      | Some secret_key \<Rightarrow> (case arg_public_key of None \<Rightarrow> Some (0, h)
        | Some public_key \<Rightarrow>
          if arg_preshared_key = Some None then Some (0, h)
          else do {
            (tunnel, h) \<leftarrow> new_tunnel cr b64 h secret_key public_key (Option.bind arg_preshared_key id) keep_alive index fr;
            if tunnel = 0 then Some (0, h) else Some (of_nat tunnel, h) }))"

record jni_answer =
  ja_size :: "32 word"
  ja_op :: "u8 option"
  ja_dst :: bytes

definition no_buffer :: jni_answer where
  "no_buffer = \<lparr>ja_size = 0, ja_op = None, ja_dst = []\<rparr>"

definition jni_result :: "wireguard_result \<times> bytes \<Rightarrow> jni_answer" where
  "jni_result output = \<lparr>ja_size = ucast (wr_size (fst output)), ja_op = Some (result_code (wr_op (fst output))),
     ja_dst = snd output\<rparr>"

definition encrypt_raw_packet where
  "encrypt_raw_packet cr h (tunnel :: 64 word) src (src_size :: 32 word) dst (dst_size :: 32 word) op ev =
     (case (dst, op) of
        (Some dst_capacity, Some op_capacity) \<Rightarrow> do {
          src \<leftarrow> src;
          if length src < unat src_size \<or> dst_capacity < unat dst_size \<or> op_capacity = (0::nat) then None
          else map_option (\<lambda>(output, h). (jni_result output, h))
            (wireguard_write cr h (unat tunnel) (take (unat src_size) src) ev dst_size) }
      | _ \<Rightarrow> Some (no_buffer, h))"

definition decrypt_to_raw_packet where
  "decrypt_to_raw_packet cr h (tunnel :: 64 word) src (src_size :: 32 word) dst (dst_size :: 32 word) op ev =
     (case (dst, op) of
        (Some dst_capacity, Some op_capacity) \<Rightarrow> do {
          src \<leftarrow> src;
          if length src < unat src_size \<or> dst_capacity < unat dst_size \<or> op_capacity = (0::nat) then None
          else map_option (\<lambda>(output, h). (jni_result output, h))
            (wireguard_read cr h (unat tunnel) (take (unat src_size) src) ev dst_size) }
      | _ \<Rightarrow> Some (no_buffer, h))"

definition run_periodic_task where
  "run_periodic_task cr h (tunnel :: 64 word) dst (dst_size :: 32 word) op ev =
     (case (dst, op) of
        (Some dst_capacity, Some op_capacity) \<Rightarrow>
          if dst_capacity < unat dst_size \<or> op_capacity = (0::nat) then None
          else map_option (\<lambda>(output, h). (jni_result output, h)) (wireguard_tick cr h (unat tunnel) ev dst_size)
      | _ \<Rightarrow> Some (no_buffer, h))"

section \<open>What the caller reads\<close>

text \<open>The specification of a result: the caller knows the operation and the bytes it is for,
  or the error; not the source address of a packet.\<close>

datatype view = NothingDue | Failed WireGuardError | ToNetwork bytes | ToInterface4 bytes | ToInterface6 bytes

primrec view_of :: "TunnResult \<Rightarrow> view" where
  "view_of Done = NothingDue"
| "view_of (TErr e) = Failed e"
| "view_of (WriteToNetwork b) = ToNetwork b"
| "view_of (WriteToTunnelV4 b a) = ToInterface4 b"
| "view_of (WriteToTunnelV6 b a) = ToInterface6 b"

definition all_errors :: "WireGuardError list" where
  "all_errors = [DestinationBufferTooSmall, IncorrectPacketLength, UnexpectedPacket, WrongPacketType, WrongIndex,
     WrongKey, InvalidTai64nTimestamp, WrongTai64nTimestamp, InvalidMac, InvalidAeadTag, InvalidCounter,
     DuplicateCounter, InvalidPacket, NoCurrentSession, LockFailed, ConnectionExpired, UnderLoad]"

text \<open>A program that switches on the code and takes \<open>size\<close> bytes of its buffer.\<close>

definition read_result :: "u8 \<Rightarrow> nat \<Rightarrow> bytes \<Rightarrow> view option" where
  "read_result op len dst =
     (if op = 0 then Some NothingDue
      else if op = 1 then Some (ToNetwork (take len dst))
      else if op = 2 then (if len < length all_errors then Some (Failed (all_errors ! len)) else None)
      else if op = 4 then Some (ToInterface4 (take len dst))
      else if op = 6 then Some (ToInterface6 (take len dst)) else None)"

lemma error_code_position: "unat (error_code e) < 17 \<and> all_errors ! unat (error_code e) = e"
  by (cases e) (simp_all add: all_errors_def)

lemma read_written:
  assumes "take (length (written r)) dst = written r" "length (written r) < m"
    and "\<And>k. k < m \<Longrightarrow> g (of_nat k :: usize) = k" "17 \<le> m"
  shows "read_result (result_code (wr_op (wireguard_result_from r))) (g (wr_size (wireguard_result_from r))) dst =
    Some (view_of r)"
proof (cases r)
  case (TErr e)
  have "g (error_code e) = unat (error_code e)"
    using error_code_position [of e] assms(3) [of "unat (error_code e)"] assms(4) by simp
  then show ?thesis using error_code_position [of e] TErr by (simp add: read_result_def all_errors_def)
qed (use assms in \<open>simp_all add: read_result_def\<close>)

lemma c_result_reads:
  assumes "take (length (written r)) dst = written r" "length (written r) < 2 ^ 64"
  shows "read_result (result_code (wr_op (wireguard_result_from r))) (unat (wr_size (wireguard_result_from r))) dst =
    Some (view_of r)"
  using assms by (intro read_written [where m = "2 ^ 64"]) (simp_all add: unat_of_nat)

lemma java_result_reads:
  assumes "take (length (written r)) dst = written r" "length (written r) < 2 ^ 31"
    and "a = jni_result (wireguard_result_from r, written r)"
  shows "read_result (the (ja_op a)) (unat (ja_size a)) dst = Some (view_of r)"
proof -
  have "unat (ucast (of_nat k :: usize) :: 32 word) = k" if "k < 2 ^ 31" for k
  proof -
    have "unat (of_nat k :: usize) = k" using that by (simp add: unat_of_nat)
    then show ?thesis using that by (simp add: unsigned_ucast_eq take_bit_nat_eq_self_iff)
  qed
  then show ?thesis
    using read_written [OF assms(1,2), of "\<lambda>w. unat (ucast w :: 32 word)"] by (simp add: assms(3) jni_result_def)
qed

section \<open>Keys of the caller\<close>

lemma or_all_zero: "fold (\<lambda>b zero. zero OR b) key z = (0 :: u8) \<longleftrightarrow> z = 0 \<and> (\<forall>b\<in>set key. b = 0)"
  by (induction key arbitrary: z) (auto simp: or_eq_0_iff)

lemma check_key_exact:
  "check_base64_encoded_x25519_key b64 s = 1 \<longleftrightarrow>
    valid_utf8 s \<and> (\<exists>k. b64 s = Some k \<and> length k = 32 \<and> (\<exists>b\<in>set k. b \<noteq> 0))"
  by (auto simp: check_base64_encoded_x25519_key_def Let_def or_all_zero split: option.split)

text \<open>Keys that pass the check are the keys of the tunnel.  The hypothesis is the length of
  the base64 text of 32 bytes, with or without padding.\<close>

lemma checked_keys_make_tunnel:
  assumes "\<And>s k. b64 s = Some k \<Longrightarrow> length k = 32 \<Longrightarrow> length s = 43 \<or> length s = 44"
    and "check_base64_encoded_x25519_key b64 s = 1" "check_base64_encoded_x25519_key b64 p = 1"
  shows "\<exists>k pk t rl h'. b64 s = Some k \<and> b64 p = Some pk \<and>
    new_tunnel cr b64 h s p None ka idx fr = Some (fr_addr fr, h') \<and> ho_tunnels h' (fr_addr fr) = Some (t, rl) \<and>
    np_static_private (h_params (t_handshake t)) = k \<and> np_peer_static_public (h_params (t_handshake t)) = pk"
proof -
  obtain k pk where k: "valid_utf8 s" "b64 s = Some k" "length k = 32" "valid_utf8 p" "b64 p = Some pk" "length pk = 32"
    using assms(2,3) unfolding check_key_exact by blast
  then have "key_from_str b64 s = Some (Inr k)" "key_from_str b64 p = Some (Inr pk)"
    using assms(1) [of s k] assms(1) [of p pk] by (auto simp: key_from_str_def)
  then show ?thesis using k
    by (simp add: new_tunnel_def parse_preshared_def Let_def tunn_new_def handshake_new_def noise_params_new_def)
qed

text \<open>A mistyped key is not: 44 characters that are not base64 fail the check, and
  \<open>new_tunnel\<close> makes a tunnel with the all-zero private key of them instead of NULL.\<close>

lemma unchecked_key_makes_zero_tunnel:
  assumes "b64 s = None" "length s = 44" "valid_utf8 s" "valid_utf8 p" "key_from_str b64 p = Some (Inr pk)"
  shows "check_base64_encoded_x25519_key b64 s = 0 \<and>
    (\<exists>h' t rl. new_tunnel cr b64 h s p None ka idx fr = Some (fr_addr fr, h') \<and>
       ho_tunnels h' (fr_addr fr) = Some (t, rl) \<and> np_static_private (h_params (t_handshake t)) = replicate 32 0)"
  using assms invalid_base64_is_zero_key [of b64 s]
  by (simp add: check_base64_encoded_x25519_key_def new_tunnel_def parse_preshared_def Let_def tunn_new_def
      handshake_new_def noise_params_new_def)

text \<open>A key of 64 bytes with a character of two bytes in front panics, which kills the host.\<close>

lemma non_ascii_key_panics:
  assumes "valid_utf8 p"
  shows "new_tunnel cr b64 h ([0x61, 0xC3, 0xA9] @ replicate 61 0x61) p None ka idx fr = None"
proof -
  have "valid_utf8 ([0x61, 0xC3, 0xA9] @ s)" if "is_ascii s" for s
    using ascii_valid_utf8 [OF that] by (simp add: is_continuation_def)
  then have "valid_utf8 ([0x61, 0xC3, 0xA9] @ replicate 61 0x61)" by (simp add: is_ascii_def)
  moreover have "key_from_str b64 ([0x61, 0xC3, 0xA9] @ replicate 61 0x61) = None"
    by (simp add: key_from_str_def is_continuation_def)
  ultimately show ?thesis using assms by (simp add: new_tunnel_def parse_preshared_def)
qed

text \<open>The Java conversion leaves its C string allocated, the C conversion with its own
  \<open>x25519_key_to_str_free\<close> leaves nothing.\<close>

lemma java_conversion_leaks:
  assumes "convert_x25519_key_to_hex enc h (Some arr) addr ok = Some (r, h')" "32 \<le> length arr"
  shows "ho_strings h' addr = Some (enc (take 32 arr))"
  using assms by (auto simp: convert_x25519_key_to_hex_def byte_array_region_def x25519_key_to_hex_def c_string_new_def
      split: bind_splits if_splits)

lemma c_string_freed:
  assumes "x25519_key_to_hex enc h key addr = Some (p, h')" "ho_strings h addr = None"
  shows "x25519_key_to_str_free h' p = Some h"
  using assms by (auto simp: x25519_key_to_hex_def c_string_new_def x25519_key_to_str_free_def
      fun_upd_idem split: if_splits)

section \<open>Results fit the buffer\<close>

definition fits :: "nat \<Rightarrow> TunnResult \<Rightarrow> bool" where
  "fits n r \<longleftrightarrow> length (written r) \<le> n"

lemma initiation_fits:
  assumes "crypto_ok cr" "tunn_format_handshake_initiation cr t ev n force = Some (r, t')"
  shows "fits n r"
proof -
  have "length w \<le> n" if "format_handshake_initiation cr h e t1 t2 n = Some (Inr w, h')" for w h e t1 t2 h'
  proof -
    have "length w = 148" using format_initiation_macs [OF assms(1) that] by blast
    moreover have "148 \<le> n"
      using that by (auto simp: format_handshake_initiation_def HANDSHAKE_INIT_SZ_def split: if_splits)
    ultimately show ?thesis by simp
  qed
  then show ?thesis using assms(2)
    by (auto simp: tunn_format_handshake_initiation_def fits_def Let_def split: if_splits bind_splits sum.splits)
qed

lemma packet_data_fits:
  "crypto_ok cr \<Longrightarrow> format_packet_data cr s src n = Some (w, s') \<Longrightarrow> length w \<le> n"
  by (auto simp: format_packet_data_def DATA_OVERHEAD_SZ_def Let_def crypto_simps split: if_splits)

lemma encapsulate_fits:
  assumes "crypto_ok cr" "encapsulate cr t src ev n = Some (r, t')"
  shows "fits n r"
  using assms
  by (auto simp: encapsulate_def Let_def fits_def split: option.splits bind_splits prod.splits
      dest: packet_data_fits initiation_fits [unfolded fits_def])

lemma send_queued_fits:
  assumes "crypto_ok cr" "send_queued_packet cr t ev n = Some (r, t')"
  shows "fits n r"
  using assms
  by (auto simp: send_queued_packet_def split: option.splits bind_splits prod.splits TunnResult.splits
      dest: encapsulate_fits) (auto simp: fits_def)

lemma response_fits:
  assumes "crypto_ok cr" "receive_handshake_initialization cr h p e n = Some (Inr (w, s), h')"
  shows "length w \<le> n"
proof -
  obtain t hash ck where "init_check cr (h_params h) p = Some (Inr (t, hash, ck))"
    using receive_initialization_accepted [OF assms(2)] by blast
  then show ?thesis using assms
    by (auto simp: receive_initialization_checks format_handshake_response_def append_mac1_and_mac2_def Let_def
        split_beta inc_index_def bind_eq_Some_conv HANDSHAKE_RESP_SZ_def crypto_simps aead_chacha20_seal_def
        aead_chacha20_seal_inner_def split: if_splits option.splits)
qed

lemma validate_fits:
  "validate_decapsulated_packet t p = (r, t') \<Longrightarrow> length p \<le> n \<Longrightarrow> fits n r"
  by (auto simp: validate_decapsulated_packet_def fits_def Let_def split: if_splits option.splits IpAddr.splits)

lemma map_sum_const: "map_sum id (\<lambda>_. x) a = Inr y \<Longrightarrow> y = x"
  by (cases a) auto

lemma received_length:
  "crypto_ok cr \<Longrightarrow> receive_packet_data cr s p n = Some (Inr ret, s') \<Longrightarrow> length ret \<le> n"
  by (auto simp: receive_packet_data_def split: if_splits sum.splits option.splits bind_splits
      dest!: open_length map_sum_const)

lemma handle_verified_fits:
  assumes ok: "crypto_ok cr" and h: "handle_verified_packet cr t p ev n = Some (r, t')"
  shows "fits n r"
proof (cases p)
  case (PacketData d)
  then show ?thesis using h
    by (auto simp: handle_verified_packet_def handle_data_def Let_def split: option.splits bind_splits sum.splits prod.splits
        dest!: received_length [OF ok] dest: validate_fits) (simp_all add: fits_def)
next
  case (HandshakeInit q)
  then show ?thesis using h response_fits [OF ok]
    by (fastforce simp: handle_verified_packet_def handle_handshake_init_def Let_def fits_def split: bind_splits sum.splits)
next
  case (HandshakeResponse q)
  then show ?thesis using h packet_data_fits [OF ok]
    by (fastforce simp: handle_verified_packet_def handle_handshake_response_def Let_def fits_def
        split: bind_splits sum.splits)
qed (use h in \<open>auto simp: handle_verified_packet_def handle_cookie_reply_def Let_def fits_def
    split: bind_splits sum.splits\<close>)

lemma decapsulate_fits:
  assumes ok: "crypto_ok cr" and d: "decapsulate cr t rl a dg ev n = Some (r, t', rl')"
  shows "fits n r"
proof (cases "dg = []")
  case True
  then show ?thesis using d by (auto simp: decapsulate_def dest: send_queued_fits [OF ok])
next
  case False
  obtain v rl1 where "verify_packet cr rl a dg (ev_time ev) COOKIE_REPLY_SZ = (v, rl1)" by fastforce
  then show ?thesis using d False
    by (cases v) (auto simp: decapsulate_def fits_def split: TunnResult.splits if_splits
        dest: handle_verified_fits [OF ok, unfolded fits_def])
qed

lemma update_timers_fits:
  assumes ok: "crypto_ok cr" and u: "update_timers cr t rl ev n = Some (r, t', rl')"
  shows "fits n r"
proof -
  obtain d t2 where "(case d of DueExpired \<Rightarrow> Some (TErr ConnectionExpired, t2)
      | DueHandshake \<Rightarrow> tunn_format_handshake_initiation cr t2 ev n True
      | DueKeepalive \<Rightarrow> encapsulate cr t2 [] ev n
      | DueNothing \<Rightarrow> Some (Done, t2)) = Some (r, t')"
    using u by (auto simp: update_timers_def Let_def split: bind_splits)
  then show ?thesis using initiation_fits [OF ok] encapsulate_fits [OF ok]
    by (cases d) (auto simp: fits_def)
qed

section \<open>Sequences of calls\<close>

datatype ffi_call =
    CallNew bytes bytes "bytes option" u16 u32 fresh
  | CallWrite nat bytes env u32
  | CallRead nat bytes env u32
  | CallTick nat env u32
  | CallForce nat env u32
  | CallStats nat nat
  | CallFree nat

datatype ffi_answer = AnsTunnel nat | AnsResult "wireguard_result \<times> bytes" | AnsStats ffi_stats | AnsFreed

fun ffi_step :: "crypto \<Rightarrow> (bytes \<Rightarrow> bytes option) \<Rightarrow> ffi_host \<Rightarrow> ffi_call \<Rightarrow> (ffi_answer \<times> ffi_host) option" where
  "ffi_step cr b64 h (CallNew s p psk ka idx fr) =
     map_option (\<lambda>(a, h). (AnsTunnel a, h)) (new_tunnel cr b64 h s p psk ka idx fr)"
| "ffi_step cr b64 h (CallWrite t src ev n) = map_option (\<lambda>(r, h). (AnsResult r, h)) (wireguard_write cr h t src ev n)"
| "ffi_step cr b64 h (CallRead t src ev n) = map_option (\<lambda>(r, h). (AnsResult r, h)) (wireguard_read cr h t src ev n)"
| "ffi_step cr b64 h (CallTick t ev n) = map_option (\<lambda>(r, h). (AnsResult r, h)) (wireguard_tick cr h t ev n)"
| "ffi_step cr b64 h (CallForce t ev n) =
     map_option (\<lambda>(r, h). (AnsResult r, h)) (wireguard_force_handshake cr h t ev n)"
| "ffi_step cr b64 h (CallStats t instant) = map_option (\<lambda>r. (AnsStats r, h)) (wireguard_stats h t instant)"
| "ffi_step cr b64 h (CallFree t) = map_option (\<lambda>h. (AnsFreed, h)) (tunnel_free h t)"

text \<open>The contract of \<open>wireguard_ffi.h\<close>: handles that are alive, buffers of
  \<open>MAX_WIREGUARD_PACKET_SIZE\<close>, packets that fit an IP header's length field.  Keys are ASCII,
  the allocator gives an address that is not in use, and the clock does not go back.\<close>

definition MAX_WIREGUARD_PACKET_SIZE :: nat where "MAX_WIREGUARD_PACKET_SIZE = 65536 + 64"

definition buffer_ok :: "nat \<Rightarrow> env \<Rightarrow> u32 \<Rightarrow> bool" where
  "buffer_ok L ev n \<longleftrightarrow> MAX_WIREGUARD_PACKET_SIZE \<le> unat n \<and> L \<le> ev_time ev \<and> ev_time ev \<le> ev_clear ev"

fun call_ok :: "ffi_host \<Rightarrow> nat \<Rightarrow> ffi_call \<Rightarrow> bool" where
  "call_ok h L (CallNew s p psk ka idx fr) \<longleftrightarrow> is_ascii s \<and> is_ascii p \<and> (\<forall>k. psk = Some k \<longrightarrow> is_ascii k) \<and>
     fr_addr fr \<noteq> 0 \<and> ho_tunnels h (fr_addr fr) = None \<and> L \<le> fr_now fr"
| "call_ok h L (CallWrite t src ev n) \<longleftrightarrow> ho_tunnels h t \<noteq> None \<and> length src \<le> 65535 \<and> buffer_ok L ev n"
| "call_ok h L (CallRead t src ev n) \<longleftrightarrow>
     ho_tunnels h t \<noteq> None \<and> length src \<le> MAX_WIREGUARD_PACKET_SIZE \<and> buffer_ok L ev n"
| "call_ok h L (CallTick t ev n) \<longleftrightarrow> ho_tunnels h t \<noteq> None \<and> buffer_ok L ev n"
| "call_ok h L (CallForce t ev n) \<longleftrightarrow> ho_tunnels h t \<noteq> None \<and> buffer_ok L ev n"
| "call_ok h L (CallStats t instant) \<longleftrightarrow> ho_tunnels h t \<noteq> None \<and> L \<le> instant"
| "call_ok h L (CallFree t) \<longleftrightarrow> ho_tunnels h t \<noteq> None"

fun call_time :: "nat \<Rightarrow> ffi_call \<Rightarrow> nat" where
  "call_time L (CallNew s p psk ka idx fr) = fr_now fr"
| "call_time L (CallWrite t src ev n) = ev_clear ev"
| "call_time L (CallRead t src ev n) = ev_clear ev"
| "call_time L (CallTick t ev n) = ev_clear ev"
| "call_time L (CallForce t ev n) = ev_clear ev"
| "call_time L (CallStats t instant) = instant"
| "call_time L (CallFree t) = L"

fun call_handle :: "ffi_call \<Rightarrow> nat" where
  "call_handle (CallNew s p psk ka idx fr) = fr_addr fr"
| "call_handle (CallWrite t src ev n) = t"
| "call_handle (CallRead t src ev n) = t"
| "call_handle (CallTick t ev n) = t"
| "call_handle (CallForce t ev n) = t"
| "call_handle (CallStats t instant) = t"
| "call_handle (CallFree t) = t"

inductive ffi_reach :: "crypto \<Rightarrow> (bytes \<Rightarrow> bytes option) \<Rightarrow> ffi_host \<Rightarrow> nat \<Rightarrow> bool" for cr b64 where
  reach_start: "ffi_reach cr b64 host_start L"
| reach_call: "ffi_reach cr b64 h L \<Longrightarrow> call_ok h L c \<Longrightarrow> ffi_step cr b64 h c = Some (a, h') \<Longrightarrow>
    ffi_reach cr b64 h' (call_time L c)"

definition host_ok :: "nat \<Rightarrow> ffi_host \<Rightarrow> bool" where
  "host_ok L h \<longleftrightarrow> (\<forall>p t rl. ho_tunnels h p = Some (t, rl) \<longrightarrow> tunn_ok 65535 L t)"

lemma host_ok_mono: "host_ok L h \<Longrightarrow> L \<le> L' \<Longrightarrow> host_ok L' h"
  by (auto simp: host_ok_def intro: tunn_ok_mono)

lemma host_okD: "host_ok L h \<Longrightarrow> ho_tunnels h p = Some (t, rl) \<Longrightarrow> tunn_ok 65535 L t"
  unfolding host_ok_def by blast

text \<open>Every operation through a handle is a step of the tunnel behind it.\<close>

lemma with_tunnel_ok:
  assumes h: "host_ok L h" "ho_tunnels h p \<noteq> None" and t: "L \<le> L'"
    and f: "\<And>t rl. tunn_ok 65535 L t \<Longrightarrow> \<exists>r t' rl'. f t rl = Some (r, t', rl') \<and> tunn_ok 65535 L' t'"
  shows "\<exists>r h'. with_tunnel h p f = Some (r, h') \<and> host_ok L' h' \<and> (\<forall>q. q \<noteq> p \<longrightarrow> ho_tunnels h' q = ho_tunnels h q)"
proof -
  obtain t rl where p: "ho_tunnels h p = Some (t, rl)" using h(2) by auto
  then have "tunn_ok 65535 L t" by (rule host_okD [OF h(1)])
  then obtain r t' rl' where r: "f t rl = Some (r, t', rl')" "tunn_ok 65535 L' t'" using f by blast
  then show ?thesis using p host_ok_mono [OF h(1) t] by (auto simp: with_tunnel_def host_ok_def)
qed

lemma ascii_key_total: "is_ascii s \<Longrightarrow> key_from_str b64 s \<noteq> None"
proof -
  have "is_ascii s \<Longrightarrow> parse_hex_key s \<noteq> None"
  proof (induction s rule: parse_hex_key.induct)
    case (1 a b rest)
    have "is_ascii rest" using 1(2) by (simp add: is_ascii_def)
    moreover have "\<not> is_continuation a" "rest \<noteq> [] \<Longrightarrow> \<not> is_continuation (hd rest)"
      using 1(2) by (auto simp: is_ascii_def is_continuation_def neq_Nil_conv)
    ultimately show ?case using 1(1) by (auto split: option.split)
  qed simp_all
  then show "is_ascii s \<Longrightarrow> ?thesis" by (auto simp: key_from_str_def split: option.split)
qed

lemma new_tunnel_ok:
  assumes ok: "crypto_ok cr" and h: "host_ok L h" and c: "call_ok h L (CallNew s p psk ka idx fr)"
  shows "\<exists>a h'. new_tunnel cr b64 h s p psk ka idx fr = Some (a, h') \<and> host_ok (fr_now fr) h' \<and>
    (\<forall>q. q \<noteq> fr_addr fr \<longrightarrow> ho_tunnels h' q = ho_tunnels h q)"
proof -
  have v: "valid_utf8 s" "valid_utf8 p" using c ascii_valid_utf8 by auto
  obtain k pk where k: "key_from_str b64 s = Some k" "key_from_str b64 p = Some pk"
    using c ascii_key_total by fastforce
  obtain sk where sk: "parse_preshared b64 psk = Some sk"
    using c ascii_key_total [of "the psk" b64] by (cases psk) (auto simp: parse_preshared_def ascii_valid_utf8)
  have h': "host_ok (fr_now fr) h" using h c host_ok_mono by auto
  then have "host_ok (fr_now fr) (h\<lparr>ho_tunnels := (ho_tunnels h)(fr_addr fr \<mapsto>
      (tunn_new cr key peer sk ka idx True (fr_stamper fr) (fr_now fr), rl)), ho_hook := True\<rparr>)" for key peer sk ka rl
    using tunn_new_ok [OF ok] by (auto simp: host_ok_def)
  then show ?thesis using v k sk h'
    by (cases sk; cases k; cases pk) (auto simp: new_tunnel_def Let_def)
qed

lemma stats_total:
  assumes "tunn_ok M L t" "L \<le> instant"
  shows "time_since_last_handshake t instant \<noteq> None"
proof -
  have "timer t TimeSessionEstablished \<le> L - tm_time_started (t_timers t)"
    using assms(1) by (simp add: tunn_ok_def clock_ok_def timer_def)
  moreover have "L - tm_time_started (t_timers t) \<le> instant - tm_time_started (t_timers t)"
    using assms(2) by (rule diff_le_mono)
  ultimately show ?thesis by (simp add: time_since_last_handshake_def dur_sub_def)
qed

lemma ffi_step_ok:
  assumes ok: "crypto_ok cr" and h: "host_ok L h" and c: "call_ok h L c"
  shows "\<exists>a h'. ffi_step cr b64 h c = Some (a, h') \<and> host_ok (call_time L c) h' \<and>
    (\<forall>q. q \<noteq> call_handle c \<longrightarrow> ho_tunnels h' q = ho_tunnels h q)"
proof (cases c)
  case (CallNew s p psk ka idx fr)
  then show ?thesis using new_tunnel_ok [OF ok h, of s p psk ka idx fr b64] c by auto
next
  case (CallWrite p src ev n)
  have live: "ho_tunnels h p \<noteq> None" "L \<le> ev_clear ev" using c by (simp_all add: CallWrite buffer_ok_def)
  have step: "\<exists>r t' rl'. map_option (\<lambda>(r, t). (r, t, rl)) (encapsulate cr t src ev (unat n)) = Some (r, t', rl') \<and>
      tunn_ok 65535 (ev_clear ev) t'" if "tunn_ok 65535 L t" for t rl
    using encapsulate_ok [OF ok that, of ev "ev_clear ev" src "unat n"] c
    by (auto simp: CallWrite buffer_ok_def MAX_WIREGUARD_PACKET_SIZE_def)
  have "\<exists>r h'. wireguard_write cr h p src ev n = Some (r, h') \<and> host_ok (ev_clear ev) h' \<and>
      (\<forall>q. q \<noteq> p \<longrightarrow> ho_tunnels h' q = ho_tunnels h q)"
    unfolding wireguard_write_def by (rule with_tunnel_ok [OF h live]) (erule step)
  then show ?thesis by (auto simp: CallWrite)
next
  case (CallRead p src ev n)
  have live: "ho_tunnels h p \<noteq> None" "L \<le> ev_clear ev" using c by (simp_all add: CallRead buffer_ok_def)
  have step: "\<exists>r t' rl'. decapsulate cr t rl None src ev (unat n) = Some (r, t', rl') \<and>
      tunn_ok 65535 (ev_clear ev) t'" if "tunn_ok 65535 L t" for t rl
    using decapsulate_ok [OF ok that, of ev "ev_clear ev" "unat n" src rl None] c
    by (auto simp: CallRead buffer_ok_def MAX_WIREGUARD_PACKET_SIZE_def)
  have "\<exists>r h'. wireguard_read cr h p src ev n = Some (r, h') \<and> host_ok (ev_clear ev) h' \<and>
      (\<forall>q. q \<noteq> p \<longrightarrow> ho_tunnels h' q = ho_tunnels h q)"
    unfolding wireguard_read_def by (rule with_tunnel_ok [OF h live]) (erule step)
  then show ?thesis by (auto simp: CallRead)
next
  case (CallTick p ev n)
  have live: "ho_tunnels h p \<noteq> None" "L \<le> ev_clear ev" using c by (simp_all add: CallTick buffer_ok_def)
  have step: "\<exists>r t' rl'. update_timers cr t rl ev (unat n) = Some (r, t', rl') \<and>
      tunn_ok 65535 (ev_clear ev) t'" if "tunn_ok 65535 L t" for t rl
    using update_timers_ok [OF ok that, of ev "unat n" rl] c
    by (auto simp: CallTick buffer_ok_def MAX_WIREGUARD_PACKET_SIZE_def)
  have "\<exists>r h'. wireguard_tick cr h p ev n = Some (r, h') \<and> host_ok (ev_clear ev) h' \<and>
      (\<forall>q. q \<noteq> p \<longrightarrow> ho_tunnels h' q = ho_tunnels h q)"
    unfolding wireguard_tick_def by (rule with_tunnel_ok [OF h live]) (erule step)
  then show ?thesis by (auto simp: CallTick)
next
  case (CallForce p ev n)
  have live: "ho_tunnels h p \<noteq> None" "L \<le> ev_clear ev" using c by (simp_all add: CallForce buffer_ok_def)
  have step: "\<exists>r t' rl'. map_option (\<lambda>(r, t). (r, t, rl)) (tunn_format_handshake_initiation cr t ev (unat n) True) =
      Some (r, t', rl') \<and> tunn_ok 65535 (ev_clear ev) t'" if "tunn_ok 65535 L t" for t rl
    using tunn_format_initiation_ok [OF ok that, of ev "ev_clear ev" "unat n" True] c
    by (auto simp: CallForce buffer_ok_def)
  have "\<exists>r h'. wireguard_force_handshake cr h p ev n = Some (r, h') \<and> host_ok (ev_clear ev) h' \<and>
      (\<forall>q. q \<noteq> p \<longrightarrow> ho_tunnels h' q = ho_tunnels h q)"
    unfolding wireguard_force_handshake_def by (rule with_tunnel_ok [OF h live]) (erule step)
  then show ?thesis by (auto simp: CallForce)
next
  case (CallStats p instant)
  obtain t rl where t: "ho_tunnels h p = Some (t, rl)" using c CallStats by auto
  then have "tunn_ok 65535 L t" by (rule host_okD [OF h])
  then obtain x where "time_since_last_handshake t instant = Some x" using stats_total c CallStats by fastforce
  then show ?thesis using t host_ok_mono [OF h] c CallStats by (simp add: wireguard_stats_def)
next
  case (CallFree p)
  then obtain y where "ho_tunnels h p = Some y" using c by auto
  then show ?thesis using h CallFree by (auto simp: tunnel_free_def host_ok_def)
qed

lemma reach_host_ok:
  assumes "crypto_ok cr"
  shows "ffi_reach cr b64 h L \<Longrightarrow> host_ok L h"
proof (induction rule: ffi_reach.induct)
  case (reach_start L)
  then show ?case by (simp add: host_ok_def host_start_def)
next
  case (reach_call h L c a h')
  then show ?case using ffi_step_ok [OF assms, of L h c b64] by auto
qed

fun call_buffer :: "ffi_call \<Rightarrow> nat" where
  "call_buffer (CallWrite t src ev n) = unat n"
| "call_buffer (CallRead t src ev n) = unat n"
| "call_buffer (CallTick t ev n) = unat n"
| "call_buffer (CallForce t ev n) = unat n"
| "call_buffer _ = 0"

definition answer_fits :: "nat \<Rightarrow> ffi_answer \<Rightarrow> bool" where
  "answer_fits n a = (case a of
     AnsResult output \<Rightarrow> length (snd output) \<le> n \<and>
       (wr_op (fst output) \<noteq> WIREGUARD_ERROR \<longrightarrow> unat (wr_size (fst output)) = length (snd output))
   | _ \<Rightarrow> True)"

lemma with_tunnel_fits:
  assumes "with_tunnel h p f = Some (output, h')" "\<And>t rl r t' rl'. f t rl = Some (r, t', rl') \<Longrightarrow> fits (unat n) r"
  shows "answer_fits (unat (n :: u32)) (AnsResult output)"
proof -
  obtain r where r: "output = (wireguard_result_from r, written r)" "fits (unat n) r"
    using assms by (auto simp: with_tunnel_def split: bind_splits)
  have "unat n < 2 ^ 32" using unsigned_less [of n] by simp
  then have "length (written r) < 2 ^ 64" using r(2) by (simp add: fits_def)
  then show ?thesis using r by (cases r) (auto simp: answer_fits_def fits_def unat_of_nat)
qed

lemma ffi_answer_fits:
  assumes ok: "crypto_ok cr" and s: "ffi_step cr b64 h c = Some (a, h')"
  shows "answer_fits (call_buffer c) a"
proof (cases c)
  case (CallWrite p src ev n)
  then show ?thesis using s
    by (auto simp: wireguard_write_def dest: encapsulate_fits [OF ok] intro: with_tunnel_fits)
next
  case (CallRead p src ev n)
  then show ?thesis using s
    by (auto simp: wireguard_read_def dest: decapsulate_fits [OF ok] intro: with_tunnel_fits)
next
  case (CallTick p ev n)
  then show ?thesis using s
    by (auto simp: wireguard_tick_def dest: update_timers_fits [OF ok] intro: with_tunnel_fits)
next
  case (CallForce p ev n)
  then show ?thesis using s
    by (auto simp: wireguard_force_handshake_def dest: initiation_fits [OF ok] intro: with_tunnel_fits)
qed (use s in \<open>auto simp: answer_fits_def\<close>)

text \<open>A Java program that passes its packet and buffers of the sizes it states learns what the
  tunnel decided.\<close>

lemma java_write_reports:
  assumes ok: "crypto_ok cr" and h: "host_ok L h" "ho_tunnels h (unat p) = Some (t, rl)"
    and src: "unat src_size \<le> length src" "unat src_size \<le> 65535"
    and dst: "unat dst_size \<le> capacity" "unat dst_size < 2 ^ 31" "buffer_ok L ev dst_size" "op_capacity \<noteq> 0"
  shows "\<exists>r t' a h'. encapsulate cr t (take (unat src_size) src) ev (unat dst_size) = Some (r, t') \<and>
    encrypt_raw_packet cr h p (Some src) src_size (Some capacity) dst_size (Some op_capacity) ev = Some (a, h') \<and>
    ho_tunnels h' (unat p) = Some (t', rl) \<and>
    (\<forall>dst. take (length (written r)) dst = written r \<longrightarrow>
       read_result (the (ja_op a)) (unat (ja_size a)) dst = Some (view_of r))"
proof -
  obtain r t' where e: "encapsulate cr t (take (unat src_size) src) ev (unat dst_size) = Some (r, t')"
    using encapsulate_ok [OF ok host_okD [OF h], of ev "ev_clear ev" "take (unat src_size) src" "unat dst_size"]
      src(2) dst(3) min.coboundedI2 [of "unat src_size" 65535 "length src"]
    by (auto simp: buffer_ok_def MAX_WIREGUARD_PACKET_SIZE_def)
  have "length (written r) < 2 ^ 31" using encapsulate_fits [OF ok e] dst(2) by (simp add: fits_def)
  then show ?thesis using e h(2) src(1) dst(1,4) java_result_reads [of r _ "jni_result (wireguard_result_from r, written r)"]
    by (simp add: encrypt_raw_packet_def wireguard_write_def with_tunnel_def)
qed

section \<open>Properties\<close>

text \<open>C20: the bindings do not crash the program that uses them and stay in its memory.
  After any sequence of calls, every call that keeps the contract of the header (a live
  handle, buffers of the maximal packet size, ASCII keys) returns, writes no more than the
  buffer it was given and reports exactly the bytes it wrote, and changes no tunnel but its
  own.\<close>

theorem binding_calls_return:
  assumes "crypto_ok cr" "ffi_reach cr b64 h L" "call_ok h L c"
  shows "\<exists>a h'. ffi_step cr b64 h c = Some (a, h') \<and> answer_fits (call_buffer c) a \<and>
    (\<forall>q. q \<noteq> call_handle c \<longrightarrow> ho_tunnels h' q = ho_tunnels h q)"
  using ffi_step_ok [OF assms(1) reach_host_ok [OF assms(1,2)] assms(3), of b64] ffi_answer_fits [OF assms(1)] by blast

definition toy_fresh :: fresh where
  "toy_fresh = \<lparr>fr_addr = 16, fr_now = 0, fr_stamper = toy_stamper, fr_secret_key = [2], fr_nonce_key = [3]\<rparr>"

theorem binding_calls_return_witness:
  "\<exists>h r h'. ffi_step toy_crypto Some host_start (CallNew (replicate 64 48) (replicate 64 49) None 25 7 toy_fresh) =
      Some (AnsTunnel 16, h) \<and>
    ffi_step toy_crypto Some h (CallWrite 16 [1, 2, 3] (toy_env 1) 65600) = Some (r, h') \<and>
    answer_fits 65600 r \<and> ho_tunnels h' 17 = ho_tunnels h 17"
proof -
  have hex: "parse_hex_key (replicate (2 * n) c) = Some (Inr (replicate n (of_nat v)))"
    if "from_str_radix16 256 [c, c] = Some v" "\<not> is_continuation c" for n c v
    using that by (induction n) (auto simp: hd_replicate)
  have k: "key_from_str Some (replicate 64 48) = Some (Inr (replicate 32 (of_nat 0)))"
      "key_from_str Some (replicate 64 49) = Some (Inr (replicate 32 (of_nat 17)))"
    using hex [of 48 0 32] hex [of 49 17 32]
    by (simp_all add: key_from_str_def from_str_radix16_def hex_digit_def is_continuation_def Let_def)
  have v: "is_ascii (replicate 64 48)" "is_ascii (replicate 64 49)" by (simp_all add: is_ascii_def)
  let ?new = "CallNew (replicate 64 48) (replicate 64 49) None 25 7 toy_fresh"
  obtain h where h: "ffi_step toy_crypto Some host_start ?new = Some (AnsTunnel 16, h)" "ho_tunnels h 16 \<noteq> None"
    using k v [THEN ascii_valid_utf8] by (auto simp: new_tunnel_def parse_preshared_def Let_def toy_fresh_def)
  have "call_ok host_start 0 ?new" using v by (simp add: toy_fresh_def host_start_def)
  from reach_call [OF reach_start this h(1)] have "ffi_reach toy_crypto Some h 0" by (simp add: toy_fresh_def)
  moreover have "call_ok h 0 (CallWrite 16 [1, 2, 3] (toy_env 1) 65600)"
    using h(2) by (simp add: buffer_ok_def toy_env_def MAX_WIREGUARD_PACKET_SIZE_def)
  ultimately obtain r h' where "ffi_step toy_crypto Some h (CallWrite 16 [1, 2, 3] (toy_env 1) 65600) = Some (r, h')"
      "answer_fits (call_buffer (CallWrite 16 [1, 2, 3] (toy_env 1) 65600)) r" "\<forall>q. q \<noteq> call_handle (CallWrite 16 [1, 2, 3] (toy_env 1) 65600) \<longrightarrow> ho_tunnels h' q = ho_tunnels h q"
    using binding_calls_return [OF toy_crypto_ok] by blast
  then show ?thesis using h(1) by auto
qed

end
