(* ===== verification/Dev_Lock.thy ===== *)
theory Dev_Lock
  imports Prelude
begin

text \<open>
  The lock of the device (\<open>device/dev_lock.rs\<close>): a read/write lock whose readers may
  ask for write access, marking their intention so that no new reader starts.  Each
  place between two operations on the mutex, the condition variable or the inner lock
  is a control point of a thread, and a step relation interleaves the threads.

  The mutex, the condition variable and the \<open>RwLock\<close> are those of the \<open>parking_lot\<close>
  crate; the relation has their documented behaviour: one owner, \<open>wait\<close> releases
  the mutex and takes it again (and may wake at any time), many readers or one writer.  The
  flag \<open>fair\<close> is the crate's choice to let a waiting writer hold up new readers.
\<close>

section \<open>Threads\<close>

text \<open>Of \<open>read\<close>: holding the mutex; waiting; then \<open>Reading\<close>, the guard.  Of \<open>try_writeable\<close>:
  the mutex taken; in the closure of the first \<open>unlocked\<close>, checking and waiting; marked and
  taking the read lock back; the \<open>prep_func\<close>; the second \<open>unlocked\<close>; the write access;
  taking the read lock back; about to signal; signalling with the mutex.\<close>

datatype pc =
    Outside | ReadMutex | ReadWait | Reading
  | WriteMutex | WriteCheck | WriteWait | Marked | Prep | WantInner | Writing | Written | Finish | Signal

record 'a lock =
  lk_wants_write :: bool
  lk_mutex :: "nat option"
  lk_pcs :: "nat \<Rightarrow> pc"
  lk_inner :: 'a

definition lock_new :: "'a \<Rightarrow> 'a lock" where
  "lock_new user_data = \<lparr>lk_wants_write = False, lk_mutex = None, lk_pcs = (\<lambda>_. Outside), lk_inner = user_data\<rparr>"

definition holds_read :: "pc \<Rightarrow> bool" where
  "holds_read p \<longleftrightarrow> p \<in> {Reading, WriteMutex, Prep, Finish, Signal}"

definition holds_mutex :: "pc \<Rightarrow> bool" where
  "holds_mutex p \<longleftrightarrow> p \<in> {ReadMutex, WriteMutex, WriteCheck, Signal}"

text \<open>From setting \<open>wants_write\<close> to clearing it.\<close>

definition marked :: "pc \<Rightarrow> bool" where
  "marked p \<longleftrightarrow> p \<in> {Marked, Prep, WantInner, Writing, Written, Finish, Signal}"

section \<open>Steps\<close>

text \<open>When the inner lock can be taken.\<close>

definition can_read :: "bool \<Rightarrow> 'a lock \<Rightarrow> bool" where
  "can_read fair l \<longleftrightarrow> (\<forall>u. lk_pcs l u \<noteq> Writing) \<and> (fair \<longrightarrow> (\<forall>u. lk_pcs l u \<noteq> WantInner))"

definition can_write :: "'a lock \<Rightarrow> bool" where
  "can_write l \<longleftrightarrow> (\<forall>u. lk_pcs l u \<noteq> Writing \<and> \<not> holds_read (lk_pcs l u))"

definition goto :: "'a lock \<Rightarrow> nat \<Rightarrow> pc \<Rightarrow> 'a lock" where
  "goto l t p = l\<lparr>lk_pcs := (lk_pcs l)(t := p)\<rparr>"

definition take_mutex :: "'a lock \<Rightarrow> nat \<Rightarrow> 'a lock" where
  "take_mutex l t = l\<lparr>lk_mutex := Some t\<rparr>"

definition drop_mutex :: "'a lock \<Rightarrow> 'a lock" where
  "drop_mutex l = l\<lparr>lk_mutex := None\<rparr>"

text \<open>\<open>lock_step fair mut l t l'\<close>: thread \<open>t\<close> takes one step.  \<open>mut\<close> relates the values of the
  inner data before and after a \<open>mut_func\<close>.\<close>

inductive lock_step :: "bool \<Rightarrow> ('a \<Rightarrow> 'a \<Rightarrow> bool) \<Rightarrow> 'a lock \<Rightarrow> nat \<Rightarrow> 'a lock \<Rightarrow> bool"
  for fair :: bool and mut :: "'a \<Rightarrow> 'a \<Rightarrow> bool" where
  read_lock: "lk_pcs l t \<in> {Outside, ReadWait} \<Longrightarrow> lk_mutex l = None \<Longrightarrow>
    lock_step fair mut l t (goto (take_mutex l t) t ReadMutex)"
| read_wait: "lk_pcs l t = ReadMutex \<Longrightarrow> lk_wants_write l \<Longrightarrow>
    lock_step fair mut l t (goto (drop_mutex l) t ReadWait)"
| read_inner: "lk_pcs l t = ReadMutex \<Longrightarrow> \<not> lk_wants_write l \<Longrightarrow> can_read fair l \<Longrightarrow>
    lock_step fair mut l t (goto (drop_mutex l) t Reading)"
| drop_guard: "lk_pcs l t = Reading \<Longrightarrow> lock_step fair mut l t (goto l t Outside)"
| write_lock: "lk_pcs l t = Reading \<Longrightarrow> lk_mutex l = None \<Longrightarrow>
    lock_step fair mut l t (goto (take_mutex l t) t WriteMutex)"
| write_unlocked: "lk_pcs l t = WriteMutex \<Longrightarrow> lock_step fair mut l t (goto l t WriteCheck)"
| write_wait: "lk_pcs l t = WriteCheck \<Longrightarrow> lk_wants_write l \<Longrightarrow>
    lock_step fair mut l t (goto (drop_mutex l) t WriteWait)"
| write_wake: "lk_pcs l t = WriteWait \<Longrightarrow> lk_mutex l = None \<Longrightarrow>
    lock_step fair mut l t (goto (take_mutex l t) t WriteCheck)"
| write_mark: "lk_pcs l t = WriteCheck \<Longrightarrow> \<not> lk_wants_write l \<Longrightarrow>
    lock_step fair mut l t (goto (drop_mutex (l\<lparr>lk_wants_write := True\<rparr>)) t Marked)"
| write_relock: "lk_pcs l t = Marked \<Longrightarrow> can_read fair l \<Longrightarrow> lock_step fair mut l t (goto l t Prep)"
| write_prep: "lk_pcs l t = Prep \<Longrightarrow> lock_step fair mut l t (goto l t WantInner)"
| write_inner: "lk_pcs l t = WantInner \<Longrightarrow> can_write l \<Longrightarrow> lock_step fair mut l t (goto l t Writing)"
| write_mut: "lk_pcs l t = Writing \<Longrightarrow> mut (lk_inner l) x \<Longrightarrow>
    lock_step fair mut l t (goto (l\<lparr>lk_inner := x\<rparr>) t Written)"
| write_back: "lk_pcs l t = Written \<Longrightarrow> can_read fair l \<Longrightarrow> lock_step fair mut l t (goto l t Finish)"
| write_signal: "lk_pcs l t = Finish \<Longrightarrow> lk_mutex l = None \<Longrightarrow>
    lock_step fair mut l t (goto (take_mutex l t) t Signal)"
| write_done: "lk_pcs l t = Signal \<Longrightarrow>
    lock_step fair mut l t (goto (drop_mutex (l\<lparr>lk_wants_write := False\<rparr>)) t Reading)"

inductive_cases lock_stepE: "lock_step fair mut l t l'"

inductive lock_reach :: "bool \<Rightarrow> ('a \<Rightarrow> 'a \<Rightarrow> bool) \<Rightarrow> 'a \<Rightarrow> 'a lock \<Rightarrow> bool"
  for fair :: bool and mut :: "'a \<Rightarrow> 'a \<Rightarrow> bool" and x :: 'a where
  init: "lock_reach fair mut x (lock_new x)"
| step: "lock_reach fair mut x l \<Longrightarrow> lock_step fair mut l t l' \<Longrightarrow> lock_reach fair mut x l'"

section \<open>The invariant\<close>

definition lock_ok :: "'a lock \<Rightarrow> bool" where
  "lock_ok l \<longleftrightarrow> (\<forall>t. holds_mutex (lk_pcs l t) \<longleftrightarrow> lk_mutex l = Some t) \<and>
     (\<forall>t u. marked (lk_pcs l t) \<longrightarrow> marked (lk_pcs l u) \<longrightarrow> t = u) \<and>
     (lk_wants_write l \<longleftrightarrow> (\<exists>t. marked (lk_pcs l t))) \<and>
     (\<forall>t u. lk_pcs l t = Writing \<longrightarrow> \<not> holds_read (lk_pcs l u))"

lemmas pc_defs = holds_read_def holds_mutex_def marked_def goto_def take_mutex_def drop_mutex_def
  can_read_def can_write_def

lemma lock_ok_new: "lock_ok (lock_new x)"
  by (simp add: lock_ok_def lock_new_def pc_defs)

text \<open>One thread moves: what has to be right about the mutex, the mark and the inner lock.\<close>

lemma lock_ok_goto:
  assumes ok: "lock_ok l"
    and pcs: "lk_pcs m = lk_pcs l"
    and mutex: "holds_mutex p = holds_mutex (lk_pcs l t) \<Longrightarrow> lk_mutex m = lk_mutex l"
      "holds_mutex p \<Longrightarrow> \<not> holds_mutex (lk_pcs l t) \<Longrightarrow> lk_mutex l = None \<and> lk_mutex m = Some t"
      "\<not> holds_mutex p \<Longrightarrow> holds_mutex (lk_pcs l t) \<Longrightarrow> lk_mutex m = None"
    and mark: "marked p = marked (lk_pcs l t) \<Longrightarrow> lk_wants_write m = lk_wants_write l"
      "marked p \<Longrightarrow> \<not> marked (lk_pcs l t) \<Longrightarrow> \<not> lk_wants_write l \<and> lk_wants_write m"
      "\<not> marked p \<Longrightarrow> marked (lk_pcs l t) \<Longrightarrow> \<not> lk_wants_write m"
    and inner: "holds_read p \<Longrightarrow> holds_read (lk_pcs l t) \<or> (\<forall>u. lk_pcs l u \<noteq> Writing)"
      "p = Writing \<Longrightarrow> (\<forall>u. \<not> holds_read (lk_pcs l u))"
  shows "lock_ok (goto m t p)"
  unfolding lock_ok_def
proof (intro conjI)
  have g: "lk_pcs (goto m t p) = (lk_pcs l)(t := p)" "lk_mutex (goto m t p) = lk_mutex m"
      "lk_wants_write (goto m t p) = lk_wants_write m"
    by (simp_all add: goto_def pcs)
  have m: "\<And>u. holds_mutex (lk_pcs l u) \<longleftrightarrow> lk_mutex l = Some u"
    and k: "\<And>u v. marked (lk_pcs l u) \<Longrightarrow> marked (lk_pcs l v) \<Longrightarrow> u = v"
    and w: "lk_wants_write l \<longleftrightarrow> (\<exists>u. marked (lk_pcs l u))"
    and r: "\<And>u v. lk_pcs l u = Writing \<Longrightarrow> \<not> holds_read (lk_pcs l v)"
    using ok unfolding lock_ok_def by blast+
  have m': "lk_mutex m = (if holds_mutex p then Some t else if holds_mutex (lk_pcs l t) then None else lk_mutex l)"
    using mutex m [of t] by metis
  have w': "lk_wants_write m = (if marked p then True else if marked (lk_pcs l t) then False else lk_wants_write l)"
    using mark w by metis
  have f1: "holds_mutex p \<Longrightarrow> holds_mutex (lk_pcs l t) \<or> lk_mutex l = None" using mutex(2) by metis
  have f2: "marked p \<Longrightarrow> marked (lk_pcs l t) \<or> \<not> lk_wants_write l" using mark(2) by metis
  show "\<forall>u. holds_mutex (lk_pcs (goto m t p) u) \<longleftrightarrow> lk_mutex (goto m t p) = Some u"
  proof
    fix u show "holds_mutex (lk_pcs (goto m t p) u) \<longleftrightarrow> lk_mutex (goto m t p) = Some u"
      using m [of u] m [of t] f1 unfolding g m' by (cases "u = t") (auto split: if_splits)
  qed
  show "\<forall>u v. marked (lk_pcs (goto m t p) u) \<longrightarrow> marked (lk_pcs (goto m t p) v) \<longrightarrow> u = v"
    using k w f2 unfolding g fun_upd_def by metis
  show "lk_wants_write (goto m t p) \<longleftrightarrow> (\<exists>u. marked (lk_pcs (goto m t p) u))"
    using k w unfolding g w' fun_upd_def by metis
  show "\<forall>u v. lk_pcs (goto m t p) u = Writing \<longrightarrow> \<not> holds_read (lk_pcs (goto m t p) v)"
  proof (intro allI impI)
    fix u v assume u: "lk_pcs (goto m t p) u = Writing"
    show "\<not> holds_read (lk_pcs (goto m t p) v)"
    proof (cases "u = t")
      case True
      then show ?thesis using u inner(2) unfolding g by (cases "v = t") (auto simp: holds_read_def)
    next
      case False
      then have "lk_pcs l u = Writing" using u unfolding g by simp
      then show ?thesis using r inner(1) unfolding g by (cases "v = t") auto
    qed
  qed
qed

lemma lock_step_ok:
  assumes ok: "lock_ok l" and s: "lock_step fair mut l t l'"
  shows "lock_ok l'"
  using s
proof (rule lock_stepE)
qed (hypsubst, rule lock_ok_goto [OF ok]; force simp: pc_defs)+

lemma lock_reach_ok: "lock_reach fair mut x l \<Longrightarrow> lock_ok l"
  by (induction rule: lock_reach.induct) (auto intro: lock_ok_new lock_step_ok)

section \<open>Progress\<close>

lemma can_read_marked:
  assumes "lock_ok l" "marked (lk_pcs l t)" "lk_pcs l t \<notin> {WantInner, Writing}"
  shows "can_read fair l"
proof -
  have "lk_pcs l u \<noteq> Writing \<and> lk_pcs l u \<noteq> WantInner" for u
  proof
    have u: "marked (lk_pcs l u) \<Longrightarrow> u = t" using assms(1,2) unfolding lock_ok_def by blast
    show "lk_pcs l u \<noteq> Writing" "lk_pcs l u \<noteq> WantInner" using u assms(3) by (auto simp: marked_def)
  qed
  then show ?thesis by (simp add: can_read_def)
qed

lemma can_read_unmarked: "lock_ok l \<Longrightarrow> \<not> lk_wants_write l \<Longrightarrow> can_read fair l"
  by (auto simp: lock_ok_def can_read_def marked_def)

text \<open>Who holds the mutex is never blocked.\<close>

lemma mutex_holder_steps:
  assumes ok: "lock_ok l" and m: "lk_mutex l = Some u"
  shows "\<exists>l'. lock_step fair mut l u l'"
proof -
  have "holds_mutex (lk_pcs l u)" using ok m by (simp add: lock_ok_def)
  then consider "lk_pcs l u = ReadMutex" | "lk_pcs l u = WriteMutex" | "lk_pcs l u = WriteCheck" | "lk_pcs l u = Signal"
    by (auto simp: holds_mutex_def)
  then show ?thesis
  proof cases
    case 1
    then show ?thesis using read_wait read_inner can_read_unmarked [OF ok] by (cases "lk_wants_write l") blast+
  next
    case 3
    then show ?thesis using write_wait write_mark by (cases "lk_wants_write l") blast+
  qed (blast intro: write_unlocked write_done)+
qed

lemma free_mutex_steps:
  assumes ok: "lock_ok l" and m: "lk_mutex l = None" and t: "lk_pcs l t \<notin> {Outside, Reading}"
    and total: "\<exists>y. mut (lk_inner l) y"
  shows "(\<exists>l'. lock_step fair mut l t l') \<or> lk_pcs l t = WantInner \<and> (\<exists>u. lk_pcs l u = Reading)"
proof -
  have nm: "\<not> holds_mutex (lk_pcs l u)" for u using ok m by (simp add: lock_ok_def)
  have "can_write l" if w: "lk_pcs l t = WantInner" "\<not> (\<exists>u. lk_pcs l u = Reading)"
  proof -
    have one: "marked (lk_pcs l u) \<Longrightarrow> u = t" for u
      using ok w(1) unfolding lock_ok_def by (metis marked_def insertCI)
    have "lk_pcs l u \<noteq> Writing \<and> \<not> holds_read (lk_pcs l u)" for u
      using one [of u] nm [of u] w by (cases "lk_pcs l u") (auto simp: pc_defs)
    then show ?thesis by (simp add: can_write_def)
  qed
  then show ?thesis using t total nm [of t] can_read_marked [OF ok, of t fair] m
    by (cases "lk_pcs l t")
      (auto simp: holds_mutex_def marked_def intro: lock_step.intros)
qed

section \<open>Properties\<close>



text \<open>Thread 0 asks for write access while thread 1 reads; then thread 1 yields.\<close>

definition toy_lock :: "(nat \<times> pc) list \<Rightarrow> bool \<Rightarrow> nat option \<Rightarrow> nat lock" where
  "toy_lock ps w m = \<lparr>lk_wants_write = w, lk_mutex = m,
     lk_pcs = (\<lambda>t. case map_of ps t of Some p \<Rightarrow> p | None \<Rightarrow> Outside), lk_inner = 0\<rparr>"

lemma toy_lock_simps:
  "goto (toy_lock ps w m) t p = toy_lock ((t, p) # ps) w m" "lk_mutex (toy_lock ps w m) = m"
  "lk_wants_write (toy_lock ps w m) = w" "take_mutex (toy_lock ps w m) t = toy_lock ps w (Some t)"
  "drop_mutex (toy_lock ps w m) = toy_lock ps w None" "(toy_lock ps w m)\<lparr>lk_wants_write := b\<rparr> = toy_lock ps b m"
  "lk_pcs (toy_lock ps w m) t = (case map_of ps t of Some p \<Rightarrow> p | None \<Rightarrow> Outside)"
  by (auto simp: toy_lock_def goto_def take_mutex_def drop_mutex_def fun_eq_iff)

lemma toy_can_read: "(\<forall>p \<in> snd ` set ps. p \<noteq> Writing \<and> p \<noteq> WantInner) \<Longrightarrow> can_read fair (toy_lock ps w m)"
  by (auto simp: can_read_def toy_lock_simps split: option.split dest!: map_of_SomeD)

lemma toy_waiting:
  "\<exists>ps. lock_reach fair (\<lambda>_ _. True) 0 (toy_lock ps True None) \<and> map_of ps 0 = Some WantInner \<and> map_of ps 1 = Some Reading \<and>
    fst ` set ps = {0, 1}"
proof -
  let ?r = "\<lambda>ps w m. lock_reach fair (\<lambda>_ _. True) 0 (toy_lock ps w m)"
  have new: "lock_new 0 = toy_lock [] False None" by (simp add: lock_new_def toy_lock_def)
  have s: "?r ps w m \<Longrightarrow> lock_step fair (\<lambda>_ _. True) (toy_lock ps w m) t l' \<Longrightarrow> l' = toy_lock ps' w' m' \<Longrightarrow> ?r ps' w' m'"
    for ps w m t l' ps' w' m'
    by (metis lock_reach.step)
  note st = toy_lock_simps
  have "?r [] False None" using lock_reach.init [of fair "\<lambda>_ _. True" "0 :: nat"] new by simp
  then have "?r [(1, ReadMutex)] False (Some 1)" by (rule s [OF _ read_lock [where t = 1]]) (simp_all add: st)
  then have "?r [(1, Reading), (1, ReadMutex)] False None"
    by (rule s [OF _ read_inner [where t = 1]]) (simp_all add: st toy_can_read)
  then have "?r [(0, ReadMutex), (1, Reading), (1, ReadMutex)] False (Some 0)"
    by (rule s [OF _ read_lock [where t = 0]]) (simp_all add: st)
  then have "?r ([(0, Reading), (0, ReadMutex), (1, Reading), (1, ReadMutex)]) False None"
    by (rule s [OF _ read_inner [where t = 0]]) (simp_all add: st toy_can_read)
  then have "?r ([(0, WriteMutex), (0, Reading), (0, ReadMutex), (1, Reading), (1, ReadMutex)]) False (Some 0)"
    by (rule s [OF _ write_lock [where t = 0]]) (simp_all add: st)
  then have "?r ([(0, WriteCheck), (0, WriteMutex), (0, Reading), (0, ReadMutex), (1, Reading), (1, ReadMutex)]) False (Some 0)"
    by (rule s [OF _ write_unlocked [where t = 0]]) (simp_all add: st)
  then have "?r ([(0, Marked), (0, WriteCheck), (0, WriteMutex), (0, Reading), (0, ReadMutex), (1, Reading), (1, ReadMutex)]) True None"
    by (rule s [OF _ write_mark [where t = 0]]) (simp_all add: st)
  then have "?r ([(0, Prep), (0, Marked), (0, WriteCheck), (0, WriteMutex), (0, Reading), (0, ReadMutex), (1, Reading),
      (1, ReadMutex)]) True None"
    by (rule s [OF _ write_relock [where t = 0]]) (simp_all add: st toy_can_read)
  then have "?r ([(0, WantInner), (0, Prep), (0, Marked), (0, WriteCheck), (0, WriteMutex), (0, Reading), (0, ReadMutex),
      (1, Reading), (1, ReadMutex)]) True None"
    by (rule s [OF _ write_prep [where t = 0]]) (simp_all add: st)
  then show ?thesis by (intro exI conjI, assumption) auto
qed



end
