(* ===== verification/Text_Parse.thy ===== *)
theory Text_Parse
  imports Payment_Config Key_Parse Peer
begin

text \<open>
  Text of the configuration protocol: what the sources use of the parsers and printers
  of the Rust standard library (\<open>split\<close>, \<open>splitn\<close>, \<open>parse\<close> of numbers, booleans,
  addresses and socket addresses, \<open>read_line\<close>, \<open>Display\<close>) and
  \<open>AllowedIP::from_str\<close> of \<open>device/peer.rs\<close>.  Text is the list of its UTF-8 bytes.
\<close>

section \<open>Pieces of text\<close>

text \<open>\<open>str::split\<close> on one character.\<close>

fun split_on :: "u8 \<Rightarrow> bytes \<Rightarrow> bytes list" where
  "split_on sep [] = [[]]"
| "split_on sep (c # cs) =
     (if c = sep then [] # split_on sep cs
      else case split_on sep cs of p # ps \<Rightarrow> (c # p) # ps | [] \<Rightarrow> [[c]])"

text \<open>\<open>str::splitn(2, c)\<close> and \<open>split_once\<close>: before and after the first separator.\<close>

definition split_once :: "u8 \<Rightarrow> bytes \<Rightarrow> (bytes \<times> bytes) option" where
  "split_once sep s = (if sep \<in> set s
     then Some (takeWhile (\<lambda>c. c \<noteq> sep) s, drop 1 (dropWhile (\<lambda>c. c \<noteq> sep) s)) else None)"

text \<open>\<open>String::pop\<close>: the last character, which may take several bytes.\<close>

definition pop_char :: "bytes \<Rightarrow> bytes" where
  "pop_char s = rev (drop 1 (dropWhile is_continuation (rev s)))"

text \<open>\<open>BufRead::lines\<close> and \<open>read_line\<close> on a stream that ends: the lines with their line feeds.\<close>

fun stream_lines :: "bytes \<Rightarrow> bytes list" where
  "stream_lines [] = []"
| "stream_lines (c # cs) = (if c = 10 then [10] # stream_lines cs
     else case stream_lines cs of l # ls \<Rightarrow> (c # l) # ls | [] \<Rightarrow> [[c]])"

section \<open>Numbers and booleans\<close>

text \<open>\<open>parse\<close> of an unsigned integer below \<open>bound\<close>: a plus sign is accepted.\<close>

fun dec_value :: "nat \<Rightarrow> nat \<Rightarrow> bytes \<Rightarrow> nat option" where
  "dec_value bound acc [] = Some acc"
| "dec_value bound acc (c # cs) =
     (if 48 \<le> unat c \<and> unat c \<le> 57 \<and> 10 * acc + (unat c - 48) < bound
      then dec_value bound (10 * acc + (unat c - 48)) cs else None)"

definition parse_uint :: "nat \<Rightarrow> bytes \<Rightarrow> nat option" where
  "parse_uint bound s = (let ds = (if take 1 s = [43] then drop 1 s else s) in
     if ds = [] then None else dec_value bound 0 ds)"

definition parse_u8 :: "bytes \<Rightarrow> u8 option" where "parse_u8 s = map_option of_nat (parse_uint 256 s)"
definition parse_u16 :: "bytes \<Rightarrow> u16 option" where "parse_u16 s = map_option of_nat (parse_uint 65536 s)"
definition parse_u32 :: "bytes \<Rightarrow> u32 option" where "parse_u32 s = map_option of_nat (parse_uint 4294967296 s)"

definition parse_bool :: "bytes \<Rightarrow> bool option" where
  "parse_bool s = (if s = ascii ''true'' then Some True else if s = ascii ''false'' then Some False else None)"

section \<open>Addresses\<close>

text \<open>The parser of the standard library: a reader takes a prefix of the text, or nothing.\<close>

definition radix_digit :: "nat \<Rightarrow> u8 \<Rightarrow> bool" where
  "radix_digit radix c \<longleftrightarrow> (case hex_digit c of Some d \<Rightarrow> d < radix | None \<Rightarrow> False)"

definition radix_value :: "nat \<Rightarrow> bytes \<Rightarrow> nat" where
  "radix_value radix ds = foldl (\<lambda>n c. radix * n + the (hex_digit c)) 0 ds"

definition read_number :: "nat \<Rightarrow> nat \<Rightarrow> nat option \<Rightarrow> bool \<Rightarrow> bytes \<Rightarrow> (nat \<times> bytes) option" where
  "read_number radix bound max_digits allow_zero_prefix s =
     (let ds = takeWhile (radix_digit radix) s in
      if ds = [] \<or> (case max_digits of Some m \<Rightarrow> m < length ds | None \<Rightarrow> False)
         \<or> (\<not> allow_zero_prefix \<and> hd ds = 48 \<and> 1 < length ds)
      then None
      else let n = radix_value radix ds in if n < bound then Some (n, drop (length ds) s) else None)"

definition read_char :: "u8 \<Rightarrow> bytes \<Rightarrow> bytes option" where
  "read_char c s = (case s of x # xs \<Rightarrow> if x = c then Some xs else None | [] \<Rightarrow> None)"

definition read_separator :: "u8 \<Rightarrow> nat \<Rightarrow> (bytes \<Rightarrow> ('a \<times> bytes) option) \<Rightarrow> bytes \<Rightarrow> ('a \<times> bytes) option" where
  "read_separator sep index inner s = (if index > 0 then Option.bind (read_char sep s) inner else inner s)"

definition read_octet :: "nat \<Rightarrow> bytes \<Rightarrow> (nat \<times> bytes) option" where
  "read_octet i = read_separator 46 i (read_number 10 256 (Some 3) False)"

definition read_ipv4 :: "bytes \<Rightarrow> (bytes \<times> bytes) option" where
  "read_ipv4 s = do {
     (a, s) \<leftarrow> read_octet 0 s;
     (b, s) \<leftarrow> read_octet 1 s;
     (c, s) \<leftarrow> read_octet 2 s;
     (d, s) \<leftarrow> read_octet 3 s;
     Some (map of_nat [a, b, c, d], s) }"

text \<open>Groups of an IPv6 address, the last two perhaps as an IPv4 address.\<close>

fun read_groups :: "nat \<Rightarrow> nat \<Rightarrow> bytes \<Rightarrow> u16 list \<times> bool \<times> bytes" where
  "read_groups 0 i s = ([], False, s)"
| "read_groups (Suc n) i s =
     (case (if n > 0 then read_separator 58 i read_ipv4 s else None) of
        Some (q, s) \<Rightarrow> ([from_be_bytes (take 2 q), from_be_bytes (drop 2 q)], True, s)
      | None \<Rightarrow>
     (case read_separator 58 i (read_number 16 65536 (Some 4) True) s of
        Some (g, s) \<Rightarrow> (case read_groups n (Suc i) s of (gs, ipv4, s) \<Rightarrow> (of_nat g # gs, ipv4, s))
      | None \<Rightarrow> ([], False, s)))"

definition read_ipv6 :: "bytes \<Rightarrow> (bytes \<times> bytes) option" where
  "read_ipv6 s = (case read_groups 8 0 s of (head, ipv4, s) \<Rightarrow>
     if length head = 8 then Some (concat (map to_be_bytes head), s)
     else if ipv4 then None
     else do {
       s \<leftarrow> read_char 58 s;
       s \<leftarrow> read_char 58 s;
       let (tail, _, s) = read_groups (8 - (length head + 1)) 0 s;
       Some (concat (map to_be_bytes (head @ replicate (8 - length head - length tail) 0 @ tail)), s) })"

definition parse_ip :: "bytes \<Rightarrow> IpAddr option" where
  "parse_ip s = (case read_ipv4 s of
       Some (a, rest) \<Rightarrow> if rest = [] then Some (V4 a) else None
     | None \<Rightarrow> (case read_ipv6 s of Some (a, rest) \<Rightarrow> if rest = [] then Some (V6 a) else None | None \<Rightarrow> None))"

text \<open>The scope of an IPv6 socket address is read and not kept.\<close>

definition read_port :: "bytes \<Rightarrow> (u16 \<times> bytes) option" where
  "read_port s = do {
     s \<leftarrow> read_char 58 s;
     (n, s) \<leftarrow> read_number 10 65536 None True s;
     Some (of_nat n, s) }"

definition read_scope :: "bytes \<Rightarrow> bytes" where
  "read_scope s = (case Option.bind (read_char 37 s) (read_number 10 4294967296 None True) of
     Some (_, rest) \<Rightarrow> rest | None \<Rightarrow> s)"

definition read_socket_v4 :: "bytes \<Rightarrow> (sock_addr \<times> bytes) option" where
  "read_socket_v4 s = do {
     (a, s) \<leftarrow> read_ipv4 s;
     (port, s) \<leftarrow> read_port s;
     Some ((V4 a, port), s) }"

definition read_socket_v6 :: "bytes \<Rightarrow> (sock_addr \<times> bytes) option" where
  "read_socket_v6 s = do {
     s \<leftarrow> read_char 91 s;
     (a, s) \<leftarrow> read_ipv6 s;
     s \<leftarrow> read_char 93 (read_scope s);
     (port, s) \<leftarrow> read_port s;
     Some ((V6 a, port), s) }"

definition parse_socket_addr :: "bytes \<Rightarrow> sock_addr option" where
  "parse_socket_addr s = (case (case read_socket_v4 s of Some r \<Rightarrow> Some r | None \<Rightarrow> read_socket_v6 s) of
     Some (a, rest) \<Rightarrow> if rest = [] then Some a else None
   | None \<Rightarrow> None)"

section \<open>AllowedIP\<close>

definition allowed_ip_from_str :: "bytes \<Rightarrow> allowed_ip option" where
  "allowed_ip_from_str s = (case split_on 47 s of
     [a, c] \<Rightarrow> (case (parse_ip a, parse_u8 c) of
         (Some (V4 o4), Some cidr) \<Rightarrow> if cidr \<le> 32 then Some \<lparr>ai_addr = V4 o4, ai_cidr = cidr\<rparr> else None
       | (Some (V6 o6), Some cidr) \<Rightarrow> if cidr \<le> 128 then Some \<lparr>ai_addr = V6 o6, ai_cidr = cidr\<rparr> else None
       | _ \<Rightarrow> None)
   | _ \<Rightarrow> None)"

section \<open>Printing\<close>

definition dec :: "'a::len word \<Rightarrow> bytes" where "dec w = dec_of_nat (unat w)"

fun join_with :: "u8 \<Rightarrow> bytes list \<Rightarrow> bytes" where
  "join_with sep [] = []"
| "join_with sep [p] = p"
| "join_with sep (p # ps) = p @ sep # join_with sep ps"

definition show_ipv4 :: "bytes \<Rightarrow> bytes" where "show_ipv4 a = join_with 46 (map dec a)"

fun hex_of_nat :: "nat \<Rightarrow> bytes" where
  "hex_of_nat n = (if n < 16 then [hex_char n] else hex_of_nat (n div 16) @ [hex_char (n mod 16)])"

declare hex_of_nat.simps [simp del]

fun groups_of :: "bytes \<Rightarrow> u16 list" where
  "groups_of (a # b # rest) = from_be_bytes [a, b] # groups_of rest"
| "groups_of _ = []"

text \<open>The longest run of zero groups, the first of several: its start and length.\<close>

fun zero_run :: "nat \<Rightarrow> nat \<times> nat \<Rightarrow> nat \<times> nat \<Rightarrow> u16 list \<Rightarrow> nat \<times> nat" where
  "zero_run i best cur [] = best"
| "zero_run i best cur (g # gs) =
     (if g = 0
      then let cur = (if snd cur = 0 then (i, 1) else (fst cur, snd cur + 1))
        in zero_run (Suc i) (if snd best < snd cur then cur else best) cur gs
      else zero_run (Suc i) best (0, 0) gs)"

definition show_groups :: "u16 list \<Rightarrow> bytes" where
  "show_groups gs = join_with 58 (map (\<lambda>g. hex_of_nat (unat g)) gs)"

definition show_ipv6 :: "bytes \<Rightarrow> bytes" where
  "show_ipv6 a = (if take 12 a = replicate 10 0 @ [255, 255] then ascii ''::ffff:'' @ show_ipv4 (drop 12 a)
     else let gs = groups_of a; (start, n) = zero_run 0 (0, 0) (0, 0) gs in
       if n > 1 then show_groups (take start gs) @ [58, 58] @ show_groups (drop (start + n) gs) else show_groups gs)"

fun show_ip :: "IpAddr \<Rightarrow> bytes" where
  "show_ip (V4 a) = show_ipv4 a"
| "show_ip (V6 a) = show_ipv6 a"

fun show_socket_addr :: "sock_addr \<Rightarrow> bytes" where
  "show_socket_addr (V4 a, port) = show_ipv4 a @ 58 # dec port"
| "show_socket_addr (V6 a, port) = 91 # show_ipv6 a @ [93, 58] @ dec port"

definition show_bool :: "bool \<Rightarrow> bytes" where "show_bool b = (if b then ascii ''true'' else ascii ''false'')"

end
