(* ===== verification/Uapi.thy ===== *)
theory Uapi
  imports Text_Parse Device
begin

text \<open>
  The configuration protocol of the device (\<open>device/api.rs\<close>): the handler of a
  connection, \<open>get=1\<close> and \<open>set=1\<close>.  A request is the list of the results of
  \<open>read_line\<close>: a line with its line feed, or \<open>None\<close> for an error (bytes that are
  not UTF-8, a timeout); the empty list is the end of the stream.  A response is a list of
  lines.  The outcome \<open>None\<close> is a panic.  Error numbers are those of Linux.
\<close>

section \<open>Requests\<close>

definition EIO :: nat where "EIO = 5"
definition EINVAL :: nat where "EINVAL = 22"
definition EPROTO :: nat where "EPROTO = 71"
definition EADDRINUSE :: nat where "EADDRINUSE = 98"

text \<open>What a command reads from outside: clocks and random draws, the port the system
  binds, whether the mark could be set.\<close>

record uapi_env =
  ue_dev :: dev_env
  ue_bind :: "u16 \<Rightarrow> u16 option"
  ue_mark_ok :: bool

text \<open>A peer section as far as it has been read.\<close>

record peer_section =
  sc_public_key :: bytes
  sc_remove :: bool
  sc_replace_ips :: bool
  sc_endpoint :: "sock_addr option"
  sc_keepalive :: "u16 option"
  sc_preshared_key :: "bytes option"
  sc_allowed_ips :: "allowed_ip list"

definition section_new :: "bytes \<Rightarrow> peer_section" where
  "section_new pub_key = \<lparr>sc_public_key = pub_key, sc_remove = False, sc_replace_ips = False, sc_endpoint = None,
     sc_keepalive = None, sc_preshared_key = None, sc_allowed_ips = []\<rparr>"

definition commit_section ::
  "('u, 't) ext \<Rightarrow> ('u, 't) device \<Rightarrow> peer_section \<Rightarrow> dev_env \<Rightarrow> ('u, 't) device option" where
  "commit_section ex d s ev = update_peer ex d (sc_public_key s) (sc_remove s) (sc_replace_ips s) (sc_endpoint s)
     (sc_allowed_ips s) (sc_keepalive s) (sc_preshared_key s) ev"

text \<open>One line of a peer section: an error number, or the section to go on with.\<close>

definition set_or :: "'a option \<Rightarrow> ('a \<Rightarrow> peer_section) \<Rightarrow> nat + peer_section" where
  "set_or v f = (case v of Some x \<Rightarrow> Inr (f x) | None \<Rightarrow> Inl EINVAL)"

definition section_line ::
  "('u, 't) ext \<Rightarrow> (bytes \<Rightarrow> bytes option) \<Rightarrow> ('u, 't) device \<Rightarrow> peer_section \<Rightarrow> bytes \<Rightarrow> bytes \<Rightarrow> dev_env \<Rightarrow>
    ((nat + peer_section) \<times> ('u, 't) device) option" where
  "section_line ex b64 d s key val ev =
     (if key = ascii ''remove'' then
        Some (set_or (parse_bool val) (\<lambda>b. s\<lparr>sc_remove := b\<rparr>), d)
      else if key = ascii ''preshared_key'' then do {
        r \<leftarrow> key_from_str b64 val;
        Some (case r of Inr k \<Rightarrow> Inr (s\<lparr>sc_preshared_key := Some k\<rparr>) | Inl _ \<Rightarrow> Inl EINVAL, d) }
      else if key = ascii ''endpoint'' then
        Some (set_or (parse_socket_addr val) (\<lambda>a. s\<lparr>sc_endpoint := Some a\<rparr>), d)
      else if key = ascii ''persistent_keepalive_interval'' then
        Some (set_or (parse_u16 val) (\<lambda>n. s\<lparr>sc_keepalive := Some n\<rparr>), d)
      else if key = ascii ''replace_allowed_ips'' then
        Some (set_or (parse_bool val) (\<lambda>b. s\<lparr>sc_replace_ips := b\<rparr>), d)
      else if key = ascii ''allowed_ip'' then
        Some (set_or (allowed_ip_from_str val) (\<lambda>ip. s\<lparr>sc_allowed_ips := sc_allowed_ips s @ [ip]\<rparr>), d)
      else if key = ascii ''public_key'' then do {
        d \<leftarrow> commit_section ex d s ev;
        let s = s\<lparr>sc_allowed_ips := []\<rparr>;
        r \<leftarrow> key_from_str b64 val;
        Some (case r of Inr k \<Rightarrow> Inr (s\<lparr>sc_public_key := k\<rparr>) | Inl _ \<Rightarrow> Inl EINVAL, d) }
      else if key = ascii ''protocol_version'' then
        Some (if parse_u32 val = Some 1 then Inr s else Inl EINVAL, d)
      else Some (Inl EINVAL, d))"

fun api_set_peer ::
  "('u, 't) ext \<Rightarrow> (bytes \<Rightarrow> bytes option) \<Rightarrow> (nat \<Rightarrow> uapi_env) \<Rightarrow> ('u, 't) device \<Rightarrow> peer_section \<Rightarrow> bytes option list \<Rightarrow>
    (nat \<times> ('u, 't) device) option" where
  "api_set_peer ex b64 evs d s [] = map_option (Pair 0) (commit_section ex d s (ue_dev (evs 0)))"
| "api_set_peer ex b64 evs d s (None # rest) = Some (0, d)"
| "api_set_peer ex b64 evs d s (Some line # rest) =
     (let ev = ue_dev (evs (Suc (length rest))); cmd = pop_char line in
      if cmd = [] then map_option (Pair 0) (commit_section ex d s ev)
      else case split_once 61 cmd of
        None \<Rightarrow> Some (EPROTO, d)
      | Some (key, val) \<Rightarrow> do {
          (r, d) \<leftarrow> section_line ex b64 d s key val ev;
          (case r of Inl e \<Rightarrow> Some (e, d) | Inr s \<Rightarrow> api_set_peer ex b64 evs d s rest) })"

text \<open>One line before the first peer section: \<open>Inl\<close> the status to return with, \<open>Inr None\<close> to
  go on, \<open>Inr (Some k)\<close> for the section of the peer \<open>k\<close>.\<close>

definition set_line ::
  "('u, 't) ext \<Rightarrow> (bytes \<Rightarrow> bytes option) \<Rightarrow> ('u, 't) device \<Rightarrow> bytes \<Rightarrow> bytes \<Rightarrow> uapi_env \<Rightarrow>
    ((nat + bytes option) \<times> ('u, 't) device) option" where
  "set_line ex b64 d key val ev =
     (if key = ascii ''private_key'' then do {
        r \<leftarrow> key_from_str b64 val;
        (case r of Inl _ \<Rightarrow> Some (Inl EINVAL, d)
         | Inr k \<Rightarrow> map_option (Pair (Inr None)) (set_key ex d k (ue_dev ev))) }
      else if key = ascii ''listen_port'' then
        (case parse_u16 val of None \<Rightarrow> Some (Inl EINVAL, d)
         | Some port \<Rightarrow> (case open_listen_socket d (ue_bind ev port) of
             (True, d) \<Rightarrow> Some (Inr None, d) | (False, d) \<Rightarrow> Some (Inl EADDRINUSE, d)))
      else if key = ascii ''fwmark'' then
        (case parse_u32 val of None \<Rightarrow> Some (Inl EINVAL, d)
         | Some mark \<Rightarrow> Some (if ue_mark_ok ev then Inr None else Inl EADDRINUSE, set_fwmark d mark))
      else if key = ascii ''replace_peers'' then
        (case parse_bool val of None \<Rightarrow> Some (Inl EINVAL, d)
         | Some b \<Rightarrow> Some (Inr None, if b then clear_peers ex d else d))
      else if key = ascii ''public_key'' then do {
        r \<leftarrow> key_from_str b64 val;
        Some (case r of Inl _ \<Rightarrow> Inl EINVAL | Inr k \<Rightarrow> Inr (Some k), d) }
      else Some (Inl EINVAL, d))"

fun api_set ::
  "('u, 't) ext \<Rightarrow> (bytes \<Rightarrow> bytes option) \<Rightarrow> (nat \<Rightarrow> uapi_env) \<Rightarrow> ('u, 't) device \<Rightarrow> bytes option list \<Rightarrow>
    (nat \<times> ('u, 't) device) option" where
  "api_set ex b64 evs d [] = Some (0, d)"
| "api_set ex b64 evs d (None # rest) = Some (0, d)"
| "api_set ex b64 evs d (Some line # rest) =
     (let cmd = pop_char line in
      if cmd = [] then Some (0, d)
      else case split_on 61 cmd of
        [key, val] \<Rightarrow> do {
          (r, d) \<leftarrow> set_line ex b64 d key val (evs (Suc (length rest)));
          (case r of Inl e \<Rightarrow> Some (e, d)
           | Inr None \<Rightarrow> api_set ex b64 evs d rest
           | Inr (Some k) \<Rightarrow> api_set_peer ex b64 evs d (section_new k) rest) }
      | _ \<Rightarrow> Some (EPROTO, d))"

section \<open>Reports\<close>

definition field :: "string \<Rightarrow> bytes \<Rightarrow> bytes" where "field key val = ascii key @ 61 # val"

definition quota_lines :: "quota \<Rightarrow> bytes list" where
  "quota_lines q = [field ''quota_remaining'' (dec (remaining q)), field ''quota_blocked'' (show_bool (is_blocked q)),
     field ''quota_total_consumed'' (dec (total_consumed q)), field ''quota_payment_count'' (dec (payment_count q))]"

definition handshake_lines :: "nat option \<Rightarrow> bytes list" where
  "handshake_lines time = (case time of None \<Rightarrow> []
     | Some ns \<Rightarrow> [field ''last_handshake_time_sec'' (dec_of_nat (ns div 1000000000)),
         field ''last_handshake_time_nsec'' (dec_of_nat (ns mod 1000000000))])"

definition peer_lines :: "('u, 't) ext \<Rightarrow> bytes \<Rightarrow> 'u peer \<Rightarrow> nat \<Rightarrow> bytes list option" where
  "peer_lines ex k p now = do {
     time \<leftarrow> peer_time_since_last_handshake p now;
     Some ([field ''public_key'' (ex_hex_encode ex k)] @
       (case pe_preshared_key p of Some key \<Rightarrow> [field ''preshared_key'' (ex_hex_encode ex key)] | None \<Rightarrow> []) @
       (case peer_persistent_keepalive p of
          Some n \<Rightarrow> [field ''persistent_keepalive_interval'' (dec n)] | None \<Rightarrow> []) @
       (case pe_addr p of Some addr \<Rightarrow> [field ''endpoint'' (show_socket_addr addr)] | None \<Rightarrow> []) @
       map (\<lambda>(ip, cidr). field ''allowed_ip'' (show_ip ip @ 47 # dec cidr)) (peer_allowed_ips (ex_ptab ex) p) @
       handshake_lines time @
       [field ''rx_bytes'' (dec (t_rx_bytes (pe_tunnel p))), field ''tx_bytes'' (dec (t_tx_bytes (pe_tunnel p)))] @
       (case pe_quota p of Some q \<Rightarrow> quota_lines q | None \<Rightarrow> [])) }"

fun all_peer_lines :: "('u, 't) ext \<Rightarrow> 'u peer list \<Rightarrow> (nat \<Rightarrow> nat) \<Rightarrow> (bytes \<times> nat) list \<Rightarrow> bytes list option" where
  "all_peer_lines ex heap now [] = Some []"
| "all_peer_lines ex heap now ((k, a) # ps) = do {
     ls \<leftarrow> peer_lines ex k (heap ! a) (now a);
     rest \<leftarrow> all_peer_lines ex heap now ps;
     Some (ls @ rest) }"

definition api_get :: "('u, 't) ext \<Rightarrow> ('u, 't) device \<Rightarrow> (nat \<Rightarrow> nat) \<Rightarrow> bytes list option" where
  "api_get ex d now = do {
     ls \<leftarrow> all_peer_lines ex (dv_heap d) now (dv_peers d);
     Some ((case dv_key_pair d of Some k \<Rightarrow> [field ''own_public_key'' (ex_hex_encode ex (snd k))] | None \<Rightarrow> []) @
       (if dv_listen_port d \<noteq> 0 then [field ''listen_port'' (dec (dv_listen_port d))] else []) @
       (case dv_fwmark d of Some m \<Rightarrow> [field ''fwmark'' (dec m)] | None \<Rightarrow> []) @ ls) }"

section \<open>Connections\<close>

text \<open>The handlers of the socket and of an inherited descriptor: the response, without the line
  feeds.  The descriptor's handler exits when nothing can be read.\<close>

definition status_lines :: "nat \<Rightarrow> bytes list" where
  "status_lines status = [field ''errno'' (dec_of_nat status), []]"

definition api_command ::
  "('u, 't) ext \<Rightarrow> (bytes \<Rightarrow> bytes option) \<Rightarrow> (nat \<Rightarrow> uapi_env) \<Rightarrow> (nat \<Rightarrow> nat) \<Rightarrow> ('u, 't) device \<Rightarrow> bytes \<Rightarrow> bytes option list \<Rightarrow>
    (bytes list \<times> ('u, 't) device) option" where
  "api_command ex b64 evs now d line rest =
     (let cmd = pop_char line in
      if cmd = ascii ''get=1'' then map_option (\<lambda>ls. (ls @ status_lines 0, d)) (api_get ex d now)
      else if cmd = ascii ''set=1'' then
        map_option (\<lambda>(status, d). (status_lines status, d)) (api_set ex b64 evs d rest)
      else Some (status_lines EIO, d))"

definition api_handler ::
  "('u, 't) ext \<Rightarrow> (bytes \<Rightarrow> bytes option) \<Rightarrow> (nat \<Rightarrow> uapi_env) \<Rightarrow> (nat \<Rightarrow> nat) \<Rightarrow> ('u, 't) device \<Rightarrow> bytes option list \<Rightarrow>
    (bytes list \<times> ('u, 't) device) option" where
  "api_handler ex b64 evs now d req = (case req of
       [] \<Rightarrow> api_command ex b64 evs now d [] []
     | None # _ \<Rightarrow> Some ([], d)
     | Some line # rest \<Rightarrow> api_command ex b64 evs now d line rest)"

definition api_fd_handler ::
  "('u, 't) ext \<Rightarrow> (bytes \<Rightarrow> bytes option) \<Rightarrow> (nat \<Rightarrow> uapi_env) \<Rightarrow> (nat \<Rightarrow> nat) \<Rightarrow> ('u, 't) device \<Rightarrow> bytes option list \<Rightarrow>
    (bool \<times> bytes list \<times> ('u, 't) device) option" where
  "api_fd_handler ex b64 evs now d req =
     map_option (Pair (take 1 req = [None])) (api_handler ex b64 evs now d req)"

text \<open>The monitor: exit when the socket file is gone, else read the MTU.\<close>

definition monitor :: "('u, 't) device \<Rightarrow> bool \<Rightarrow> nat option \<Rightarrow> bool \<times> ('u, 't) device" where
  "monitor d exists mtu = (if \<not> exists then (True, d)
     else (False, case mtu of Some m \<Rightarrow> d\<lparr>dv_mtu := m\<rparr> | None \<Rightarrow> d))"

end
