(* ===== verification/Registration.thy ===== *)
theory Registration
  imports Uapi Complex_Main
begin

text \<open>
  The registration server (\<open>device/http_api.rs\<close>): the pool of addresses, registration and
  removal of peers through the configuration socket, the check of World ID proofs, the
  HTTP dispatch with its rate limiter, and the reaper.  The configuration socket leads
  to \<open>Uapi\<close>, so that the state of the server and of the device change together.

  Parameters: the \<open>base64\<close> and \<open>serde_json\<close> crates, the environment, the World API, the
  iteration order of a hash set, and rounding to \<open>f64\<close>.  Log messages and the commands
  for kernel routes (not called) are left out.
\<close>

section \<open>Trimming\<close>

text \<open>\<open>str::trim\<close>: the length of the white space character at the head, in bytes, or 0.\<close>

fun ws_head :: "bytes \<Rightarrow> nat" where
  "ws_head [] = 0"
| "ws_head (c # cs) =
     (if 9 \<le> c \<and> c \<le> 13 \<or> c = 32 then 1
      else case (c, cs) of
        (c, b # rest) \<Rightarrow>
          if c = 0xC2 \<and> (b = 0x85 \<or> b = 0xA0) then 2
          else (case rest of [] \<Rightarrow> 0
            | e # _ \<Rightarrow> if c = 0xE1 \<and> b = 0x9A \<and> e = 0x80 \<or> c = 0xE2 \<and> b = 0x80 \<and> (0x80 \<le> e \<and> e \<le> 0x8A \<or> e \<in> {0xA8, 0xA9, 0xAF})
                \<or> c = 0xE2 \<and> b = 0x81 \<and> e = 0x9F \<or> c = 0xE3 \<and> b = 0x80 \<and> e = 0x80 then 3 else 0)
      | _ \<Rightarrow> 0)"

function trim_start :: "bytes \<Rightarrow> bytes" where
  "trim_start s = (if 0 < ws_head s \<and> s \<noteq> [] then trim_start (drop (ws_head s) s) else s)"
  by pat_completeness auto
termination by (relation "measure length") auto

declare trim_start.simps [simp del]

definition ws_last :: "bytes \<Rightarrow> nat" where
  "ws_last s = (if ws_head (drop (length s - 1) s) = 1 then 1
     else if 2 \<le> length s \<and> ws_head (drop (length s - 2) s) = 2 then 2
     else if 3 \<le> length s \<and> ws_head (drop (length s - 3) s) = 3 then 3 else 0)"

function trim_end :: "bytes \<Rightarrow> bytes" where
  "trim_end s = (if 0 < ws_last s \<and> s \<noteq> [] then trim_end (take (length s - ws_last s) s) else s)"
  by pat_completeness auto
termination by (relation "measure length") auto

declare trim_end.simps [simp del]

definition trim :: "bytes \<Rightarrow> bytes" where "trim s = trim_end (trim_start s)"

section \<open>State\<close>

definition MAX_BODY_BYTES :: nat where "MAX_BODY_BYTES = 8192"
definition STALE_PEER_SECS :: nat where "STALE_PEER_SECS = 600"
definition STALE_NEVER_CONNECTED_SECS :: nat where "STALE_NEVER_CONNECTED_SECS = 600"
definition RATE_LIMIT_PER_SEC :: rat where "RATE_LIMIT_PER_SEC = 1"
definition RATE_LIMIT_BURST :: nat where "RATE_LIMIT_BURST = 10"
definition RATE_LIMITER_PRUNE_SECS :: nat where "RATE_LIMITER_PRUNE_SECS = 300"

record payment_config_snapshot =
  sn_chain_id :: u64
  sn_gateway_wallet :: bytes
  sn_usdc_contract :: bytes
  sn_amount_per_quota :: u64
  sn_quota_bytes :: u64

text \<open>Times are in nanoseconds; \<open>f64\<close> values are rationals, rounded by \<open>rnd\<close>.\<close>

record token_bucket =
  tb_tokens :: rat
  tb_last_refill :: nat

definition token_bucket_new :: "nat \<Rightarrow> token_bucket" where
  "token_bucket_new now = \<lparr>tb_tokens = of_nat RATE_LIMIT_BURST, tb_last_refill = now\<rparr>"

definition as_secs_f64 :: "(rat \<Rightarrow> rat) \<Rightarrow> nat \<Rightarrow> rat" where
  "as_secs_f64 rnd ns = rnd (rnd (of_nat (ns div 1000000000)) + rnd (of_nat (ns mod 1000000000) / 1000000000))"

definition try_consume :: "(rat \<Rightarrow> rat) \<Rightarrow> token_bucket \<Rightarrow> nat \<Rightarrow> bool \<times> token_bucket" where
  "try_consume rnd b now =
     (let elapsed = as_secs_f64 rnd (now - tb_last_refill b);
          tokens = min (rnd (tb_tokens b + rnd (elapsed * RATE_LIMIT_PER_SEC))) (of_nat RATE_LIMIT_BURST)
      in if tokens \<ge> 1 then (True, \<lparr>tb_tokens = rnd (tokens - 1), tb_last_refill = now\<rparr>)
         else (False, \<lparr>tb_tokens = tokens, tb_last_refill = now\<rparr>))"

record registration_inner =
  ri_registered_peers :: "bytes set"
  ri_available_ips :: "u8 set"
  ri_peer_to_octet :: "(bytes \<times> u8) list"
  ri_peer_registered_at :: "(bytes \<times> nat) list"
  ri_server_pubkey_cache :: "bytes option"
  ri_listen_port_cache :: "u16 option"
  ri_used_nullifiers :: "bytes set"

record registration_state = registration_inner +
  rs_rate_limiter :: "(IpAddr \<times> token_bucket) list"
  rs_subnet_prefix :: bytes
  rs_payment_config :: payment_config_snapshot
  rs_public_ip :: bytes
  rs_world_rp_id :: bytes
  rs_world_action :: bytes
  rs_world_signing_key :: "bytes option"

definition octet_pool :: "u8 set" where "octet_pool = set (map of_nat [2..<255])"

text \<open>The key from the environment.\<close>

definition world_signing_key :: "(bytes \<Rightarrow> bytes option) \<Rightarrow> environ \<Rightarrow> bytes option" where
  "world_signing_key hex_decode env = do {
     s \<leftarrow> env ''BT_WORLD_SIGNING_KEY'';
     bytes \<leftarrow> hex_decode (strip_0x s);
     if length bytes = 32 then Some bytes else None }"

definition registration_new ::
  "(bytes \<Rightarrow> bytes option) \<Rightarrow> environ \<Rightarrow> bytes \<Rightarrow> payment_config_snapshot \<Rightarrow> bytes \<Rightarrow> registration_state" where
  "registration_new hex_decode env subnet_prefix payment_config public_ip =
     \<lparr>ri_registered_peers = {}, ri_available_ips = octet_pool, ri_peer_to_octet = [], ri_peer_registered_at = [],
      ri_server_pubkey_cache = None, ri_listen_port_cache = None, ri_used_nullifiers = {},
      rs_rate_limiter = [], rs_subnet_prefix = subnet_prefix, rs_payment_config = payment_config,
      rs_public_ip = public_ip, rs_world_rp_id = env_or env ''BT_WORLD_RP_ID'' [],
      rs_world_action = env_or env ''BT_WORLD_ACTION'' (ascii ''xelt-connect''),
      rs_world_signing_key = world_signing_key hex_decode env\<rparr>"

section \<open>Parameters\<close>

record 'j json_api =
  js_parse :: "bytes \<Rightarrow> 'j option"
  js_get :: "'j \<Rightarrow> bytes \<Rightarrow> 'j option"
  js_str :: "'j \<Rightarrow> bytes option"
  js_bool :: "'j \<Rightarrow> bool option"
  js_first :: "'j \<Rightarrow> 'j option"
  js_error :: "bytes \<Rightarrow> bytes"

record 'j reg_ext =
  rx_json :: "'j json_api"
  rx_b64_decode :: "bytes \<Rightarrow> bytes option"
  rx_b64_encode :: "bytes \<Rightarrow> bytes"
  rx_hex_decode :: "bytes \<Rightarrow> bytes option"
  rx_env :: environ
  rx_first_ip :: "u8 set \<Rightarrow> u8"
  rx_world_api :: "bytes \<Rightarrow> 'j \<Rightarrow> bytes + bytes"
  rx_rnd :: "rat \<Rightarrow> rat"

text \<open>What happens to a connection to the configuration socket: it is served, it is refused (the
  device sees nothing), or the device acts on it and the answer is lost, for example to the
  timeout of five seconds.\<close>

datatype link = Served | Refused bytes | AnswerLost bytes

record call_env =
  ce_link :: link
  ce_uapi :: "nat \<Rightarrow> uapi_env"
  ce_now :: "nat \<Rightarrow> nat"

section \<open>The client of the configuration socket\<close>

definition uapi_call ::
  "('u, 't) ext \<Rightarrow> 'j reg_ext \<Rightarrow> call_env \<Rightarrow> ('u, 't) device \<Rightarrow> bytes \<Rightarrow> ((bytes + bytes list) \<times> ('u, 't) device) option" where
  "uapi_call ex rx ce d req = (case ce_link ce of
       Refused e \<Rightarrow> Some (Inl e, d)
     | Served \<Rightarrow> map_option (\<lambda>(ls, d). (Inr ls, d))
         (api_handler ex (rx_b64_decode rx) (ce_uapi ce) (ce_now ce) d (map Some (stream_lines req)))
     | AnswerLost e \<Rightarrow> map_option (\<lambda>(ls, d). (Inl e, d))
         (api_handler ex (rx_b64_decode rx) (ce_uapi ce) (ce_now ce) d (map Some (stream_lines req))))"

text \<open>Reading the answer to \<open>get=1\<close>.\<close>

record get_state =
  gs_peers :: "(bytes \<times> nat option) list"
  gs_current_pubkey :: "bytes option"
  gs_current_handshake :: "nat option"
  gs_own_pubkey :: "bytes option"
  gs_listen_port :: "u16 option"

definition flush_peer :: "get_state \<Rightarrow> get_state" where
  "flush_peer g = (case gs_current_pubkey g of None \<Rightarrow> g
     | Some pk \<Rightarrow> g\<lparr>gs_peers := AList.update pk (gs_current_handshake g) (gs_peers g),
         gs_current_pubkey := None, gs_current_handshake := None\<rparr>)"

definition get_line :: "'j reg_ext \<Rightarrow> get_state \<Rightarrow> bytes \<Rightarrow> bytes \<Rightarrow> get_state" where
  "get_line rx g key val =
     (if key = ascii ''own_public_key'' then
        (case rx_hex_decode rx val of Some bytes \<Rightarrow> g\<lparr>gs_own_pubkey := Some (rx_b64_encode rx bytes)\<rparr> | None \<Rightarrow> g)
      else if key = ascii ''listen_port'' then g\<lparr>gs_listen_port := parse_u16 val\<rparr>
      else if key = ascii ''public_key'' then
        (flush_peer g)\<lparr>gs_current_pubkey := Some val, gs_current_handshake := None\<rparr>
      else if key = ascii ''last_handshake_time_sec'' then
        g\<lparr>gs_current_handshake := parse_uint 18446744073709551616 val\<rparr>
      else g)"

fun get_lines :: "'j reg_ext \<Rightarrow> get_state \<Rightarrow> bytes list \<Rightarrow> get_state" where
  "get_lines rx g [] = flush_peer g"
| "get_lines rx g (line # rest) =
     (if line = [] then get_lines rx (flush_peer g) rest
      else if take 6 line = ascii ''errno='' then flush_peer g
      else case split_once 61 line of None \<Rightarrow> get_lines rx g rest
        | Some (key, val) \<Rightarrow> get_lines rx (get_line rx g key val) rest)"

type_synonym get_answer = "bytes option \<times> u16 option \<times> (bytes \<times> nat option) list"

definition read_get :: "'j reg_ext \<Rightarrow> bytes list \<Rightarrow> get_answer" where
  "read_get rx ls = (let g = get_lines rx \<lparr>gs_peers = [], gs_current_pubkey = None, gs_current_handshake = None,
       gs_own_pubkey = None, gs_listen_port = None\<rparr> ls in (gs_own_pubkey g, gs_listen_port g, gs_peers g))"

definition uapi_get_peers ::
  "('u, 't) ext \<Rightarrow> 'j reg_ext \<Rightarrow> call_env \<Rightarrow> ('u, 't) device \<Rightarrow> ((bytes + get_answer) \<times> ('u, 't) device) option" where
  "uapi_get_peers ex rx ce d = map_option (\<lambda>(r, d). (map_sum id (read_get rx) r, d))
     (uapi_call ex rx ce d (ascii ''get=1'' @ [10]))"

definition first_line :: "bytes list \<Rightarrow> bytes" where
  "first_line ls = (case ls of l # _ \<Rightarrow> trim (l @ [10]) | [] \<Rightarrow> [])"

definition uapi_run_set ::
  "('u, 't) ext \<Rightarrow> 'j reg_ext \<Rightarrow> call_env \<Rightarrow> ('u, 't) device \<Rightarrow> bytes \<Rightarrow> ((bytes + unit) \<times> ('u, 't) device) option" where
  "uapi_run_set ex rx ce d config_body = map_option (\<lambda>(r, d). (case r of Inl e \<Rightarrow> Inl e
       | Inr ls \<Rightarrow> if first_line ls = ascii ''errno=0'' then Inr ()
           else Inl (ascii ''UAPI set failed: '' @ first_line ls), d))
     (uapi_call ex rx ce d (ascii ''set=1'' @ [10] @ config_body))"

definition set_peer_body :: "bytes \<Rightarrow> bytes \<Rightarrow> bytes" where
  "set_peer_body pubkey_hex allowed_ip = field ''public_key'' pubkey_hex @ [10] @
     field ''replace_allowed_ips'' (ascii ''true'') @ [10] @
     field ''allowed_ip'' (show_ipv4 allowed_ip @ ascii ''/32'') @ [10, 10]"

definition uapi_set_peer ::
  "('u, 't) ext \<Rightarrow> 'j reg_ext \<Rightarrow> call_env \<Rightarrow> ('u, 't) device \<Rightarrow> bytes \<Rightarrow> bytes \<Rightarrow>
    ((bytes + unit) \<times> ('u, 't) device) option" where
  "uapi_set_peer ex rx ce d pubkey_hex allowed_ip = uapi_run_set ex rx ce d (set_peer_body pubkey_hex allowed_ip)"

definition remove_peer_body :: "bytes \<Rightarrow> bytes" where
  "remove_peer_body pubkey_hex = field ''public_key'' pubkey_hex @ [10] @ field ''remove'' (ascii ''true'') @ [10, 10]"

definition uapi_remove_peer ::
  "('u, 't) ext \<Rightarrow> 'j reg_ext \<Rightarrow> call_env \<Rightarrow> ('u, 't) device \<Rightarrow> bytes \<Rightarrow> ((bytes + bool) \<times> ('u, 't) device) option" where
  "uapi_remove_peer ex rx ce d pubkey_hex = map_option (\<lambda>(r, d). (map_sum id (\<lambda>ls. first_line ls = ascii ''errno=0'') r, d))
     (uapi_call ex rx ce d (ascii ''set=1'' @ [10] @ remove_peer_body pubkey_hex))"

section \<open>Start-up\<close>

definition hex_key_ok :: "bytes \<Rightarrow> bool" where
  "hex_key_ok s \<longleftrightarrow> length s = 64 \<and> (\<forall>c \<in> set s. hex_digit c \<noteq> None)"

definition path_join :: "bytes \<Rightarrow> bytes \<Rightarrow> bytes" where
  "path_join a b = (if a = [] then b else if last a = 47 then a @ b else a @ 47 # b)"

definition server_key_path :: "environ \<Rightarrow> bytes" where
  "server_key_path env = (case env ''BT_SERVER_KEY_FILE'' of Some path \<Rightarrow> path
     | None \<Rightarrow> path_join (path_join (env_or env ''HOME'' (ascii ''.'')) (ascii ''.xelt'')) (ascii ''boringtun-server.key''))"

text \<open>The key of the server: from the environment, from the key file (its contents, or an error),
  or drawn and written to the file.\<close>

definition load_or_create_server_private_key_hex ::
  "(bytes \<Rightarrow> bytes) \<Rightarrow> environ \<Rightarrow> (bytes + bytes) option \<Rightarrow> bytes option \<Rightarrow> bytes \<Rightarrow> bytes + bytes" where
  "load_or_create_server_private_key_hex hex_encode env key_file write_error secret =
     (case env ''BT_SERVER_PRIVATE_KEY'' of
        Some key \<Rightarrow> (let trimmed = ascii_lower (trim key) in
          if hex_key_ok trimmed then Inr trimmed
          else Inl (ascii ''BT_SERVER_PRIVATE_KEY must be 64 hex characters (32-byte WireGuard key)''))
      | None \<Rightarrow>
     (case key_file of
        Some (Inl e) \<Rightarrow> Inl e
      | Some (Inr contents) \<Rightarrow> (let trimmed = ascii_lower (trim contents) in
          if hex_key_ok trimmed then Inr trimmed
          else Inl (ascii ''invalid key in '' @ server_key_path env @ ascii '' (expected 64 hex chars)''))
      | None \<Rightarrow> (case write_error of Some e \<Rightarrow> Inl e | None \<Rightarrow> Inr (hex_encode secret))))"

definition init_wg_server ::
  "('u, 't) ext \<Rightarrow> 'j reg_ext \<Rightarrow> call_env \<Rightarrow> call_env \<Rightarrow> ('u, 't) device \<Rightarrow> bytes + bytes \<Rightarrow> u16 \<Rightarrow>
    ((bytes + bytes) \<times> ('u, 't) device) option" where
  "init_wg_server ex rx ce1 ce2 d key listen_port = (case key of
       Inl e \<Rightarrow> Some (Inl e, d)
     | Inr private_key_hex \<Rightarrow> do {
         (r, d) \<leftarrow> uapi_run_set ex rx ce1 d (field ''private_key'' private_key_hex @ [10] @
             field ''listen_port'' (dec listen_port) @ [10, 10]);
         (case r of Inl e \<Rightarrow> Some (Inl e, d)
          | Inr _ \<Rightarrow> do {
              (r, d) \<leftarrow> uapi_get_peers ex rx ce2 d;
              Some (case r of Inl e \<Rightarrow> Inl e
                | Inr (Some pk, _, _) \<Rightarrow> Inr pk
                | Inr (None, _, _) \<Rightarrow> Inl (ascii ''WireGuard server configured but own_public_key missing''), d) }) })"

section \<open>Requests\<close>

type_synonym response = "nat \<times> bytes"

definition error_json :: "bytes \<Rightarrow> bytes" where
  "error_json msg = ascii ''{\"error\":\"'' @ msg @ ascii ''\"}''"

definition assigned_ip :: "registration_state \<Rightarrow> u8 \<Rightarrow> bytes" where
  "assigned_ip st octet = take 3 (rs_subnet_prefix st) @ [octet]"

definition build_success_response ::
  "('u, 't) ext \<Rightarrow> bytes \<Rightarrow> payment_config_snapshot \<Rightarrow> bytes \<Rightarrow> bytes \<Rightarrow> u16 \<Rightarrow> bytes" where
  "build_success_response ex ip pc public_ip server_pubkey listen_port =
     ascii ''{\"status\":\"ok\",\"server_public_key\":\"'' @ server_pubkey @
     ascii ''\",\"endpoint\":\"'' @ public_ip @ ascii '':'' @ dec listen_port @
     ascii ''\",\"assigned_ip\":\"'' @ show_ipv4 ip @
     ascii ''/32\",\"chain_id\":'' @ dec (sn_chain_id pc) @
     ascii '',\"gateway_wallet\":\"0x'' @ ex_hex_encode ex (sn_gateway_wallet pc) @
     ascii ''\",\"usdc_contract\":\"0x'' @ ex_hex_encode ex (sn_usdc_contract pc) @
     ascii ''\",\"amount_per_quota\":'' @ dec (sn_amount_per_quota pc) @
     ascii '',\"quota_bytes\":'' @ dec (sn_quota_bytes pc) @ ascii ''}''"

definition success_response :: "('u, 't) ext \<Rightarrow> registration_state \<Rightarrow> u8 \<Rightarrow> response" where
  "success_response ex st octet = (200, build_success_response ex (assigned_ip st octet) (rs_payment_config st)
     (rs_public_ip st) (case ri_server_pubkey_cache st of Some pk \<Rightarrow> pk | None \<Rightarrow> [])
     (case ri_listen_port_cache st of Some p \<Rightarrow> p | None \<Rightarrow> 51820))"

definition forget_peer :: "registration_state \<Rightarrow> bytes \<Rightarrow> u8 \<Rightarrow> registration_state" where
  "forget_peer st pubkey_hex octet = st\<lparr>ri_available_ips := insert octet (ri_available_ips st),
     ri_registered_peers := ri_registered_peers st - {pubkey_hex},
     ri_peer_to_octet := AList.delete pubkey_hex (ri_peer_to_octet st),
     ri_peer_registered_at := AList.delete pubkey_hex (ri_peer_registered_at st)\<rparr>"

definition record_peer :: "registration_state \<Rightarrow> bytes \<Rightarrow> u8 \<Rightarrow> nat \<Rightarrow> registration_state" where
  "record_peer st pubkey_hex octet now = st\<lparr>ri_available_ips := ri_available_ips st - {octet},
     ri_registered_peers := insert pubkey_hex (ri_registered_peers st),
     ri_peer_to_octet := AList.update pubkey_hex octet (ri_peer_to_octet st),
     ri_peer_registered_at := AList.update pubkey_hex now (ri_peer_registered_at st)\<rparr>"

definition handle_unregister ::
  "('u, 't) ext \<Rightarrow> 'j reg_ext \<Rightarrow> call_env \<Rightarrow> registration_state \<Rightarrow> ('u, 't) device \<Rightarrow> bytes \<Rightarrow>
    (response \<times> registration_state \<times> ('u, 't) device) option" where
  "handle_unregister ex rx ce st d pubkey_base64 =
     (case rx_b64_decode rx (trim pubkey_base64) of
        None \<Rightarrow> Some ((400, error_json (ascii ''invalid public_key'')), st, d)
      | Some bytes \<Rightarrow>
        if length bytes \<noteq> 32 then Some ((400, error_json (ascii ''invalid public_key'')), st, d)
        else let pubkey_hex = ex_hex_encode ex bytes in
     (case map_of (ri_peer_to_octet st) pubkey_hex of
        None \<Rightarrow> Some ((404, error_json (ascii ''peer not registered'')), st, d)
      | Some octet \<Rightarrow> do {
          (r, d) \<leftarrow> uapi_remove_peer ex rx ce d pubkey_hex;
          Some (case r of
              Inr True \<Rightarrow> ((200, ascii ''{\"status\":\"ok\"}''), forget_peer st pubkey_hex octet, d)
            | Inr False \<Rightarrow> ((500, error_json (ascii ''UAPI remove failed'')), st, d)
            | Inl e \<Rightarrow> ((500, error_json e), st, d)) }))"

text \<open>The member \<open>public_key\<close> of a request body.\<close>

definition body_pubkey :: "'j reg_ext \<Rightarrow> bytes \<Rightarrow> bytes + ('j \<times> bytes)" where
  "body_pubkey rx body = (case js_parse (rx_json rx) (trim body) of
       None \<Rightarrow> Inl (error_json (ascii ''invalid JSON''))
     | Some json \<Rightarrow> (case Option.bind (js_get (rx_json rx) json (ascii ''public_key'')) (js_str (rx_json rx)) of
         None \<Rightarrow> Inl (error_json (ascii ''missing public_key field''))
       | Some pk \<Rightarrow> Inr (json, pk)))"

definition handle_unregister_v2 ::
  "('u, 't) ext \<Rightarrow> 'j reg_ext \<Rightarrow> call_env \<Rightarrow> registration_state \<Rightarrow> ('u, 't) device \<Rightarrow> bytes \<Rightarrow>
    (response \<times> registration_state \<times> ('u, 't) device) option" where
  "handle_unregister_v2 ex rx ce st d body = (case body_pubkey rx body of
       Inl e \<Rightarrow> Some ((400, e), st, d)
     | Inr (_, pubkey_base64) \<Rightarrow> handle_unregister ex rx ce st d pubkey_base64)"

text \<open>Filling the caches, once: an answer to give, or go on.\<close>

definition fill_caches ::
  "('u, 't) ext \<Rightarrow> 'j reg_ext \<Rightarrow> call_env \<Rightarrow> registration_state \<Rightarrow> ('u, 't) device \<Rightarrow>
    (response option \<times> registration_state \<times> ('u, 't) device) option" where
  "fill_caches ex rx ce st d =
     (if ri_server_pubkey_cache st \<noteq> None then Some (None, st, d)
      else do {
        (r, d) \<leftarrow> uapi_get_peers ex rx ce d;
        Some (case r of
            Inr (Some pk, port, _) \<Rightarrow>
              (None, st\<lparr>ri_server_pubkey_cache := Some pk, ri_listen_port_cache := port\<rparr>, d)
          | Inr (None, _, _) \<Rightarrow> (Some (503, error_json (ascii ''server not configured yet'')), st, d)
          | Inl e \<Rightarrow> (Some (500, error_json (ascii ''internal error: '' @ e)), st, d)) })"

text \<open>Allocating an address and adding the peer.\<close>

definition add_peer ::
  "('u, 't) ext \<Rightarrow> 'j reg_ext \<Rightarrow> call_env \<Rightarrow> nat \<Rightarrow> registration_state \<Rightarrow> ('u, 't) device \<Rightarrow> bytes \<Rightarrow>
    (response \<times> registration_state \<times> ('u, 't) device) option" where
  "add_peer ex rx ce now st d pubkey_hex =
     (if ri_available_ips st = {} then Some ((503, error_json (ascii ''no addresses available'')), st, d)
      else let octet = rx_first_ip rx (ri_available_ips st) in do {
        (r, d) \<leftarrow> uapi_set_peer ex rx ce d pubkey_hex (assigned_ip st octet);
        Some (case r of
            Inr _ \<Rightarrow> let st = record_peer st pubkey_hex octet now in (success_response ex st octet, st, d)
          | Inl e \<Rightarrow> ((500, error_json (ascii ''internal error: '' @ e)), st, d)) })"

definition handle_registration ::
  "('u, 't) ext \<Rightarrow> 'j reg_ext \<Rightarrow> call_env \<Rightarrow> call_env \<Rightarrow> nat \<Rightarrow> registration_state \<Rightarrow> ('u, 't) device \<Rightarrow> bytes \<Rightarrow>
    (response \<times> registration_state \<times> ('u, 't) device) option" where
  "handle_registration ex rx ce1 ce2 now st d pubkey_base64 =
     (case rx_b64_decode rx (trim pubkey_base64) of
        None \<Rightarrow> Some ((400, error_json (ascii ''invalid base64 encoding'')), st, d)
      | Some bytes \<Rightarrow>
        if length bytes \<noteq> 32 then Some ((400, error_json (ascii ''public key must be exactly 32 bytes'')), st, d)
        else let pubkey_hex = ex_hex_encode ex bytes in do {
          (answer, st, d) \<leftarrow> fill_caches ex rx ce1 st d;
          (case answer of Some resp \<Rightarrow> Some (resp, st, d)
           | None \<Rightarrow>
             if pubkey_hex \<in> ri_registered_peers st
             then (case map_of (ri_peer_to_octet st) pubkey_hex of
                 Some octet \<Rightarrow> Some (success_response ex st octet, st, d)
               | None \<Rightarrow> add_peer ex rx ce2 now st d pubkey_hex)
             else add_peer ex rx ce2 now st d pubkey_hex) })"

section \<open>World ID\<close>

definition world_verify_url :: "bytes \<Rightarrow> bytes" where
  "world_verify_url rp_id = ascii ''https://developer.world.org/api/v4/verify/'' @ rp_id"

definition verify_world_proof :: "'j reg_ext \<Rightarrow> registration_state \<Rightarrow> 'j \<Rightarrow> bytes + bytes" where
  "verify_world_proof rx st proof =
     (let js = rx_json rx; get = (\<lambda>j k. js_get js j (ascii k)) in
      if rs_world_rp_id st = [] then Inl (ascii ''World ID not configured (missing BT_WORLD_RP_ID)'')
      else case rx_world_api rx (world_verify_url (rs_world_rp_id st)) proof of
        Inl e \<Rightarrow> Inl e
      | Inr body_text \<Rightarrow> (case js_parse js body_text of
          None \<Rightarrow> Inl (ascii ''World API parse failed: '' @ js_error js body_text @ ascii '' body='' @ body_text)
        | Some body \<Rightarrow>
          if Option.bind (get body ''success'') (js_bool js) = Some True
          then let nullifier = (case Option.bind (get body ''nullifier'') (js_str js) of
                   Some n \<Rightarrow> n
                 | None \<Rightarrow> (case Option.bind (Option.bind (Option.bind (get body ''results'') (js_first js))
                       (\<lambda>item. get item ''nullifier'')) (js_str js) of Some n \<Rightarrow> n | None \<Rightarrow> []))
            in if nullifier = [] then Inl (ascii ''World API returned success but no nullifier'') else Inr nullifier
          else Inl (ascii ''World API rejected: '' @
            (case Option.bind (get body ''detail'') (js_str js) of Some e \<Rightarrow> e | None \<Rightarrow> ascii ''unknown error''))))"

definition human_only :: "environ \<Rightarrow> bool" where
  "human_only env = (case env ''BT_HUMAN_ONLY'' of
     Some v \<Rightarrow> v = ascii ''1'' \<or> ascii_lower v = ascii ''true'' | None \<Rightarrow> False)"

definition handle_registration_v2 ::
  "('u, 't) ext \<Rightarrow> 'j reg_ext \<Rightarrow> call_env \<Rightarrow> call_env \<Rightarrow> nat \<Rightarrow> registration_state \<Rightarrow> ('u, 't) device \<Rightarrow> bytes \<Rightarrow>
    (response \<times> registration_state \<times> ('u, 't) device) option" where
  "handle_registration_v2 ex rx ce1 ce2 now st d body = (case body_pubkey rx body of
       Inl e \<Rightarrow> Some ((400, e), st, d)
     | Inr (json, pubkey_base64) \<Rightarrow>
       if \<not> human_only (rx_env rx) then handle_registration ex rx ce1 ce2 now st d pubkey_base64
       else (case js_get (rx_json rx) json (ascii ''world_proof'') of
           None \<Rightarrow> Some ((400, error_json (ascii ''world_proof required for human-only nodes'')), st, d)
         | Some world_proof \<Rightarrow> (case verify_world_proof rx st world_proof of
             Inl e \<Rightarrow> Some ((400, error_json (ascii ''World ID verification failed: '' @ e)), st, d)
           | Inr nullifier \<Rightarrow> handle_registration ex rx ce1 ce2 now
               (st\<lparr>ri_used_nullifiers := insert nullifier (ri_used_nullifiers st)\<rparr>) d pubkey_base64)))"

section \<open>The context for World ID\<close>

definition hash_to_field :: "eth \<Rightarrow> bytes \<Rightarrow> bytes" where
  "hash_to_field et input = 0 # take 31 (et_keccak et input)"

text \<open>The message that is signed, and the signature in its 65 bytes; a key that is not a scalar
  is an error.\<close>

definition rp_message :: "bytes \<Rightarrow> u64 \<Rightarrow> u64 \<Rightarrow> bytes" where
  "rp_message nonce created_at expires_at = nonce @ to_be_bytes created_at @ to_be_bytes expires_at"

definition generate_rp_signature :: "eth \<Rightarrow> bytes \<Rightarrow> bytes \<Rightarrow> u64 \<Rightarrow> (bytes \<times> bytes \<times> u64 \<times> u64) option" where
  "generate_rp_signature et signing_key nonce_raw now =
     (if \<not> et_scalar_ok et signing_key then None
      else let nonce = hash_to_field et nonce_raw; expires_at = now + 300;
               digest = et_keccak et (rp_message nonce now expires_at);
               (sig_bytes, recovery_id) = et_sign et signing_key digest
        in Some (sig_bytes @ [recovery_id + 27], nonce, now, expires_at))"

definition handle_rp_context :: "('u, 't) ext \<Rightarrow> registration_state \<Rightarrow> bytes \<Rightarrow> u64 \<Rightarrow> bytes \<Rightarrow> response" where
  "handle_rp_context ex st nonce_raw now key_error = (case rs_world_signing_key st of
       None \<Rightarrow> (503, error_json (ascii ''World ID not configured''))
     | Some key \<Rightarrow> (case generate_rp_signature (ex_et ex) key nonce_raw now of
         None \<Rightarrow> (500, error_json (ascii ''RP signature failed: Invalid signing key: '' @ key_error))
       | Some (sig, nonce, created_at, expires_at) \<Rightarrow>
         (200, ascii ''{\"rp_id\":\"'' @ rs_world_rp_id st @ ascii ''\",\"nonce\":\"0x'' @ ex_hex_encode ex nonce @
           ascii ''\",\"created_at\":'' @ dec created_at @ ascii '',\"expires_at\":'' @ dec expires_at @
           ascii '',\"signature\":\"0x'' @ ex_hex_encode ex sig @ ascii ''\",\"action\":\"'' @ rs_world_action st @
           ascii ''\"}'')))"

section \<open>HTTP\<close>

datatype http_method = Get | Post | Options | OtherMethod

text \<open>A request: its declared length, its body (at most one byte more than allowed is read), or
  \<open>None\<close> when reading it failed.\<close>

record http_request =
  hr_method :: http_method
  hr_url :: bytes
  hr_body_length :: "nat option"
  hr_remote :: "IpAddr option"
  hr_body :: "bytes option"

record http_env =
  hx_now :: nat
  hx_unix_secs :: u64
  hx_nonce :: bytes
  hx_key_error :: bytes
  hx_call1 :: call_env
  hx_call2 :: call_env

text \<open>The bucket of the sender; true to go on.\<close>

definition check_rate ::
  "(rat \<Rightarrow> rat) \<Rightarrow> registration_state \<Rightarrow> IpAddr option \<Rightarrow> nat \<Rightarrow> bool \<times> registration_state" where
  "check_rate rnd st remote now = (case remote of None \<Rightarrow> (True, st)
     | Some ip \<Rightarrow>
       let bucket = (case map_of (rs_rate_limiter st) ip of Some b \<Rightarrow> b | None \<Rightarrow> token_bucket_new now);
           (ok, bucket) = try_consume rnd bucket now
       in (ok, st\<lparr>rs_rate_limiter := AList.update ip bucket (rs_rate_limiter st)\<rparr>))"

definition health_response :: "registration_state \<Rightarrow> response" where
  "health_response st = (200, ascii ''{\"pool_available\":'' @ dec_of_nat (card (ri_available_ips st)) @
     ascii '',\"peer_count\":'' @ dec_of_nat (card (ri_registered_peers st)) @ ascii ''}'')"

text \<open>A body for a handler; \<open>from_utf8_lossy\<close> on bytes that are not UTF-8 is part of the JSON
  parser's parameter.\<close>

definition with_body ::
  "bytes option \<Rightarrow> registration_state \<Rightarrow> ('u, 't) device \<Rightarrow>
    (bytes \<Rightarrow> (response \<times> registration_state \<times> ('u, 't) device) option) \<Rightarrow>
    (response \<times> registration_state \<times> ('u, 't) device) option" where
  "with_body body st d handler = (case body of
       None \<Rightarrow> Some ((400, error_json (ascii ''failed to read body'')), st, d)
     | Some b \<Rightarrow> if length (take (MAX_BODY_BYTES + 1) b) > MAX_BODY_BYTES
         then Some ((413, error_json (ascii ''request body too large'')), st, d)
         else handler b)"

definition http_dispatch ::
  "('u, 't) ext \<Rightarrow> 'j reg_ext \<Rightarrow> registration_state \<Rightarrow> ('u, 't) device \<Rightarrow> http_request \<Rightarrow> http_env \<Rightarrow>
    (response \<times> registration_state \<times> ('u, 't) device) option" where
  "http_dispatch ex rx st d req he =
     (if hr_method req = Get \<and> hr_url req = ascii ''/health'' then Some (health_response st, st, d)
      else if hr_method req = Get \<and> hr_url req = ascii ''/v1/rp-context'' then
        Some (handle_rp_context ex st (hx_nonce he) (hx_unix_secs he) (hx_key_error he), st, d)
      else if hr_method req = Post \<and> hr_url req = ascii ''/v1/register'' then
        with_body (hr_body req) st d (handle_registration_v2 ex rx (hx_call1 he) (hx_call2 he) (hx_now he) st d)
      else if hr_method req = Post \<and> hr_url req = ascii ''/v1/unregister'' then
        with_body (hr_body req) st d (handle_unregister_v2 ex rx (hx_call1 he) st d)
      else if hr_method req = Options then Some ((204, []), st, d)
      else Some ((404, error_json (ascii ''not found'')), st, d))"

definition http_handle ::
  "('u, 't) ext \<Rightarrow> 'j reg_ext \<Rightarrow> registration_state \<Rightarrow> ('u, 't) device \<Rightarrow> http_request \<Rightarrow> http_env \<Rightarrow>
    (response \<times> registration_state \<times> ('u, 't) device) option" where
  "http_handle ex rx st d req he =
     (if MAX_BODY_BYTES < (case hr_body_length req of Some n \<Rightarrow> n | None \<Rightarrow> 0)
      then Some ((413, error_json (ascii ''request body too large'')), st, d)
      else case check_rate (rx_rnd rx) st (hr_remote req) (hx_now he) of
        (False, st) \<Rightarrow> Some ((429, error_json (ascii ''rate limited'')), st, d)
      | (True, st) \<Rightarrow> http_dispatch ex rx st d req he)"

section \<open>The reaper\<close>

text \<open>Whether a peer goes, by what the device reports and when it was registered.\<close>

definition is_stale :: "registration_state \<Rightarrow> (bytes \<times> nat option) list \<Rightarrow> nat \<Rightarrow> bytes \<Rightarrow> bool" where
  "is_stale st uapi_peers now pubkey_hex = (case map_of uapi_peers pubkey_hex of
       None \<Rightarrow> True
     | Some handshake \<Rightarrow> (case handshake of
         Some handshake_sec \<Rightarrow> if handshake_sec > 0 then handshake_sec > STALE_PEER_SECS
           else (case map_of (ri_peer_registered_at st) pubkey_hex of None \<Rightarrow> False
             | Some registered_at \<Rightarrow> (now - registered_at) div 1000000000 > STALE_NEVER_CONNECTED_SECS)
       | None \<Rightarrow> (case map_of (ri_peer_registered_at st) pubkey_hex of None \<Rightarrow> False
             | Some registered_at \<Rightarrow> (now - registered_at) div 1000000000 > STALE_NEVER_CONNECTED_SECS)))"

fun reap ::
  "('u, 't) ext \<Rightarrow> 'j reg_ext \<Rightarrow> (nat \<Rightarrow> call_env) \<Rightarrow> registration_state \<Rightarrow> ('u, 't) device \<Rightarrow> (bytes \<times> u8) list \<Rightarrow>
    (registration_state \<times> ('u, 't) device) option" where
  "reap ex rx ces st d [] = Some (st, d)"
| "reap ex rx ces st d ((pubkey_hex, octet) # rest) = do {
     (r, d) \<leftarrow> uapi_remove_peer ex rx (ces (length rest)) d pubkey_hex;
     reap ex rx ces (if r = Inr True then forget_peer st pubkey_hex octet else st) d rest }"

definition prune :: "registration_state \<Rightarrow> nat \<Rightarrow> registration_state" where
  "prune st now = st\<lparr>rs_rate_limiter :=
     filter (\<lambda>(_, b). (now - tb_last_refill b) div 1000000000 < RATE_LIMITER_PRUNE_SECS) (rs_rate_limiter st)\<rparr>"

text \<open>One round of \<open>run_reaper\<close>.  The device is asked before the state is locked: what
  \<open>reaper_apply\<close> works with is a snapshot, and other requests may come between.\<close>

definition reaper_apply ::
  "('u, 't) ext \<Rightarrow> 'j reg_ext \<Rightarrow> (nat \<Rightarrow> call_env) \<Rightarrow> nat \<Rightarrow> (bytes \<times> nat option) list \<Rightarrow> registration_state \<Rightarrow> ('u, 't) device \<Rightarrow>
    (registration_state \<times> ('u, 't) device) option" where
  "reaper_apply ex rx ces now uapi_peers st d = do {
     let to_remove = filter (\<lambda>(k, _). is_stale st uapi_peers now k) (ri_peer_to_octet st);
     (st, d) \<leftarrow> reap ex rx ces st d to_remove;
     Some (prune st now, d) }"

definition reaper_round ::
  "('u, 't) ext \<Rightarrow> 'j reg_ext \<Rightarrow> call_env \<Rightarrow> (nat \<Rightarrow> call_env) \<Rightarrow> nat \<Rightarrow> registration_state \<Rightarrow> ('u, 't) device \<Rightarrow>
    (registration_state \<times> ('u, 't) device) option" where
  "reaper_round ex rx ce ces now st d = do {
     (r, d) \<leftarrow> uapi_get_peers ex rx ce d;
     (case r of
        Inl _ \<Rightarrow> Some (st, d)
      | Inr (_, _, uapi_peers) \<Rightarrow> reaper_apply ex rx ces now uapi_peers st d) }"

end
