(* ===== verification/Uapi_Text.thy ===== *)
theory Uapi_Text
  imports Registration Device_Tables
begin

text \<open>
  What the texts of the configuration protocol mean: printing and parsing are inverse, the
  requests of the registration server are exactly \<open>update_peer\<close> and \<open>remove_peer\<close> of the
  device, and the report of the device is read back.
\<close>

section \<open>Decimal text\<close>

lemma dec_of_nat_small: "n < 10 \<Longrightarrow> dec_of_nat n = [of_nat (48 + n)]"
  by (subst dec_of_nat.simps) simp

lemma dec_of_nat_snoc: "10 \<le> n \<Longrightarrow> dec_of_nat n = dec_of_nat (n div 10) @ [of_nat (48 + n mod 10)]"
  by (subst dec_of_nat.simps) simp

text \<open>A property of the digits and the value.\<close>

lemma dec_digit_facts:
  assumes "d < 10"
  shows "radix_digit 10 (of_nat (48 + d))" "the (hex_digit (of_nat (48 + d))) = d" "\<not> is_continuation (of_nat (48 + d))"
    "(of_nat (48 + d) :: u8) \<noteq> 10" "(of_nat (48 + d) :: u8) \<noteq> 61" "(of_nat (48 + d) :: u8) \<noteq> 46" "(of_nat (48 + d) :: u8) \<noteq> 47"
    "(of_nat (48 + d) :: u8) = 48 \<longleftrightarrow> d = 0"
proof -
  have u: "unat (of_nat (48 + d) :: u8) = 48 + d" by (rule unat_digit [OF assms])
  then have h: "hex_digit (of_nat (48 + d)) = Some d" using assms by (simp add: hex_digit_def Let_def)
  then show "radix_digit 10 (of_nat (48 + d))" "the (hex_digit (of_nat (48 + d))) = d"
    using assms by (simp_all add: radix_digit_def)
  show "\<not> is_continuation (of_nat (48 + d))"
    using u assms by (simp add: is_continuation_def word_le_nat_alt word_less_nat_alt)
  show "(of_nat (48 + d) :: u8) \<noteq> 10" "(of_nat (48 + d) :: u8) \<noteq> 61" "(of_nat (48 + d) :: u8) \<noteq> 46" "(of_nat (48 + d) :: u8) \<noteq> 47"
    "(of_nat (48 + d) :: u8) = 48 \<longleftrightarrow> d = 0"
    using u assms by (simp_all add: word_unat_eq_iff del: of_nat_add)
qed

lemma dec_of_nat_chars:
  "\<forall>c \<in> set (dec_of_nat n). radix_digit 10 c \<and> \<not> is_continuation c \<and> c \<notin> {10, 61, 46, 47}"
proof (induction n rule: dec_of_nat.induct)
  case (1 n)
  show ?case
  proof (cases "n < 10")
    case True
    then show ?thesis using dec_digit_facts [OF True] by (simp only: dec_of_nat_small) simp
  next
    case False
    then show ?thesis using 1 dec_digit_facts [of "n mod 10"] by (simp only: dec_of_nat_snoc not_less) auto
  qed
qed

lemma dec_of_nat_value: "radix_value 10 (dec_of_nat n) = n"
proof (induction n rule: dec_of_nat.induct)
  case (1 n)
  show ?case
  proof (cases "n < 10")
    case True
    then show ?thesis using dec_digit_facts(2) [OF True] by (simp only: dec_of_nat_small) (simp add: radix_value_def)
  next
    case False
    then show ?thesis using 1 dec_digit_facts(2) [of "n mod 10"]
      by (simp only: dec_of_nat_snoc not_less) (simp add: radix_value_def)
  qed
qed

lemma dec_of_nat_length: "n < 10 ^ k \<Longrightarrow> 0 < k \<Longrightarrow> length (dec_of_nat n) \<le> k"
proof (induction n arbitrary: k rule: dec_of_nat.induct)
  case (1 n)
  show ?case
  proof (cases "n < 10")
    case True
    then show ?thesis using 1(3) by (simp add: dec_of_nat_small)
  next
    case False
    then obtain j where k: "k = Suc j" "0 < j" using 1(2,3) by (cases k; cases "k = 1") auto
    have "n div 10 < 10 ^ j" using 1(2) k by (simp add: less_mult_imp_div_less mult.commute)
    then show ?thesis using 1(1) [of j] False k by (simp add: dec_of_nat_snoc)
  qed
qed

lemma hd_dec_of_nat_zero: "hd (dec_of_nat n) = 48 \<longleftrightarrow> n = 0"
proof (induction n rule: dec_of_nat.induct)
  case (1 n)
  show ?case
  proof (cases "n < 10")
    case True
    show ?thesis by (simp only: dec_of_nat_small [OF True] list.sel dec_digit_facts(8) [OF True])
  next
    case False
    then have "dec_of_nat n = dec_of_nat (n div 10) @ [of_nat (48 + n mod 10)]" by (simp add: dec_of_nat_snoc)
    then have "hd (dec_of_nat n) = hd (dec_of_nat (n div 10))" by (simp add: hd_append)
    then show ?thesis using 1 False by auto
  qed
qed

lemma read_number_dec:
  assumes n: "n < bound" "case max_digits of Some m \<Rightarrow> n < 10 ^ m \<and> 0 < m | None \<Rightarrow> True"
    and rest: "rest = [] \<or> \<not> radix_digit 10 (hd rest)"
  shows "read_number 10 bound max_digits z (dec_of_nat n @ rest) = Some (n, rest)"
proof -
  have "takeWhile (radix_digit 10) (dec_of_nat n @ rest) = dec_of_nat n"
    using dec_of_nat_chars rest by (cases rest) (auto simp: takeWhile_append)
  moreover have "\<not> (hd (dec_of_nat n) = 48 \<and> 1 < length (dec_of_nat n))"
    using hd_dec_of_nat_zero [of n] dec_of_nat_small [of n] by auto
  moreover have "case max_digits of Some m \<Rightarrow> length (dec_of_nat n) \<le> m | None \<Rightarrow> True"
    using n(2) dec_of_nat_length by (auto split: option.splits)
  ultimately show ?thesis using n(1)
    by (auto simp: read_number_def Let_def dec_of_nat_value split: option.splits)
qed

lemma dec_value_append:
  "dec_value b acc (xs @ ys) = Option.bind (dec_value b acc xs) (\<lambda>n. dec_value b n ys)"
  by (induction xs arbitrary: acc) auto

lemma dec_value_dec: "n < bound \<Longrightarrow> dec_value bound 0 (dec_of_nat n) = Some n"
proof (induction n rule: dec_of_nat.induct)
  case (1 n)
  show ?case
  proof (cases "n < 10")
    case True
    then show ?thesis using unat_digit [OF True] 1(2) by (simp add: dec_of_nat_small)
  next
    case False
    have "n div 10 < bound" using 1(2) by (meson div_le_dividend le_less_trans)
    moreover have "unat (of_nat (48 + n mod 10) :: u8) = 48 + n mod 10" by (rule unat_digit) simp
    moreover have "10 * (n div 10) + n mod 10 = n" by simp
    ultimately show ?thesis using 1 False by (simp only: dec_of_nat_snoc not_less dec_value_append) simp
  qed
qed

lemma parse_uint_dec: "n < bound \<Longrightarrow> parse_uint bound (dec_of_nat n) = Some n"
proof -
  have "take 1 (dec_of_nat n) \<noteq> [43]" using hd_dec_of_nat [of n] by (cases "dec_of_nat n") auto
  then show "parse_uint bound (dec_of_nat n) = Some n" if "n < bound"
    using dec_value_dec [OF that] by (simp add: parse_uint_def Let_def)
qed

section \<open>Lines\<close>

lemma stream_lines_append: "10 \<notin> set l \<Longrightarrow> stream_lines (l @ 10 # rest) = (l @ [10]) # stream_lines rest"
  by (induction l) auto

lemma pop_line: "pop_char (l @ [10]) = l"
  by (simp add: pop_char_def is_continuation_def)

lemma pop_newline [simp]: "pop_char [10] = []"
  using pop_line [of "[]"] by simp

lemma split_once_field: "61 \<notin> set (ascii key) \<Longrightarrow> split_once 61 (field key val) = Some (ascii key, val)"
  by (auto simp: split_once_def field_def takeWhile_append dropWhile_append)

lemma split_on_none: "sep \<notin> set s \<Longrightarrow> split_on sep s = [s]"
  by (induction s) auto

lemma split_on_append: "sep \<notin> set a \<Longrightarrow> split_on sep (a @ sep # b) = a # split_on sep b"
  by (induction a) (auto simp: split_on_none)

lemma split_on_field:
  "61 \<notin> set (ascii key) \<Longrightarrow> 61 \<notin> set val \<Longrightarrow> split_on 61 (field key val) = [ascii key, val]"
  by (simp add: field_def split_on_append split_on_none)

lemma hex_char_plain:
  assumes "d < 16"
  shows "hex_char d \<notin> {10, 61} \<and> \<not> is_continuation (hex_char d)"
proof -
  have "unat (hex_char d) \<noteq> 10" "unat (hex_char d) \<noteq> 61"
    using unat_hex_char [OF assms] assms by simp_all
  then have "hex_char d \<noteq> 10" "hex_char d \<noteq> 61" by auto
  then show ?thesis using hex_char_ascii [OF assms] by simp
qed

lemma to_hex_chars: "\<forall>c \<in> set (to_hex bs). c \<notin> {10, 61} \<and> \<not> is_continuation c"
proof (induction bs)
  case (Cons b bs)
  have "unat b div 16 < 16" using unat_u8_less [of b] by simp
  then show ?case using Cons.IH hex_char_plain by (simp only: to_hex.simps list.set ball_simps mod_less_divisor) simp
qed simp

section \<open>Addresses\<close>

lemma join_4: "length a = 4 \<Longrightarrow> \<exists>w x y z. a = [w, x, y, z]"
  by (auto simp: length_Suc_conv eval_nat_numeral)

lemma read_octet_dec:
  "rest = [] \<or> \<not> radix_digit 10 (hd rest) \<Longrightarrow>
    read_octet 0 (dec w @ rest) = Some (unat (w :: u8), rest) \<and> (0 < i \<longrightarrow> read_octet i (46 # dec w @ rest) = Some (unat w, rest))"
  using read_number_dec [of "unat w" 256 "Some 3" rest False] unat_u8_less [of w]
  by (simp add: read_octet_def read_separator_def read_char_def dec_def)

lemma not_digit: "\<not> radix_digit 10 46" "\<not> radix_digit 10 47" "\<not> radix_digit 10 58"
  by (simp_all add: radix_digit_def hex_digit_def Let_def)

lemma read_show_ipv4:
  assumes "length a = 4" "rest = [] \<or> \<not> radix_digit 10 (hd rest)"
  shows "read_ipv4 (show_ipv4 a @ rest) = Some (a, rest)"
proof -
  obtain w x y z where a: "a = [w, x, y, z]" using join_4 [OF assms(1)] by blast
  have n: "0 < (Suc 0)" by simp
  show ?thesis
    using read_octet_dec [of "46 # dec x @ 46 # dec y @ 46 # dec z @ rest" w 1]
      read_octet_dec [of "46 # dec y @ 46 # dec z @ rest" x 1] read_octet_dec [of "46 # dec z @ rest" y 2]
      read_octet_dec [of rest z 3] assms(2)
    by (simp add: a show_ipv4_def read_ipv4_def not_digit)
qed

lemma show_ipv4_chars: "length a = 4 \<Longrightarrow> \<forall>c \<in> set (show_ipv4 a). c \<notin> {10, 61, 47}"
  using join_4 [of a] by (auto simp: show_ipv4_def dec_def dest: dec_of_nat_chars [THEN bspec])

lemma parse_show_allowed:
  assumes "length a = 4"
  shows "allowed_ip_from_str (show_ipv4 a @ ascii ''/32'') = Some \<lparr>ai_addr = V4 a, ai_cidr = 32\<rparr>"
proof -
  have s: "ascii ''/32'' = 47 # dec_of_nat 32" "47 \<notin> set (dec_of_nat 32)" by code_simp+
  have p: "parse_ip (show_ipv4 a) = Some (V4 a)"
    using read_show_ipv4 [OF assms, of "[]"] by (simp add: parse_ip_def)
  have u: "parse_u8 (dec_of_nat 32) = Some 32" using parse_uint_dec [of 32 256] by (simp add: parse_u8_def)
  have "split_on 47 (show_ipv4 a @ 47 # dec_of_nat 32) = [show_ipv4 a, dec_of_nat 32]"
    using show_ipv4_chars [OF assms] s(2) split_on_append [of 47 "show_ipv4 a" "dec_of_nat 32"]
      split_on_none [OF s(2)] by auto
  then show ?thesis by (simp add: allowed_ip_from_str_def s(1) p u)
qed

section \<open>The requests of the registration server\<close>

lemma field_no_newline: "10 \<notin> set (ascii key) \<Longrightarrow> 10 \<notin> set val \<Longrightarrow> 10 \<notin> set (field key val)"
  by (simp add: field_def)

lemma keys_plain:
  "10 \<notin> set (ascii ''set=1'')" "10 \<notin> set (ascii ''get=1'')"
  "10 \<notin> set (ascii ''public_key'')" "61 \<notin> set (ascii ''public_key'')"
  "10 \<notin> set (ascii ''replace_allowed_ips'')" "61 \<notin> set (ascii ''replace_allowed_ips'')"
  "10 \<notin> set (ascii ''allowed_ip'')" "61 \<notin> set (ascii ''allowed_ip'')"
  "10 \<notin> set (ascii ''remove'')" "61 \<notin> set (ascii ''remove'')"
  "10 \<notin> set (ascii ''true'')" "10 \<notin> set (ascii ''/32'')"
  by code_simp+

lemma keys_differ:
  "ascii ''set=1'' \<noteq> ascii ''get=1''" "ascii ''public_key'' \<noteq> ascii ''private_key''" "ascii ''public_key'' \<noteq> ascii ''listen_port''"
  "ascii ''public_key'' \<noteq> ascii ''fwmark''" "ascii ''public_key'' \<noteq> ascii ''replace_peers''"
  "ascii ''replace_allowed_ips'' \<noteq> ascii ''remove''" "ascii ''replace_allowed_ips'' \<noteq> ascii ''preshared_key''"
  "ascii ''replace_allowed_ips'' \<noteq> ascii ''endpoint''" "ascii ''replace_allowed_ips'' \<noteq> ascii ''persistent_keepalive_interval''"
  "ascii ''allowed_ip'' \<noteq> ascii ''remove''" "ascii ''allowed_ip'' \<noteq> ascii ''preshared_key''"
  "ascii ''allowed_ip'' \<noteq> ascii ''endpoint''" "ascii ''allowed_ip'' \<noteq> ascii ''persistent_keepalive_interval''"
  "ascii ''allowed_ip'' \<noteq> ascii ''replace_allowed_ips''" "parse_bool (ascii ''true'') = Some True"
  by code_simp+

lemma field_nonempty: "field key val \<noteq> []" "field key val @ [10] \<noteq> []"
  by (simp_all add: field_def)

text \<open>The lines of a request, each with its line feed.\<close>

definition with_newlines :: "bytes list \<Rightarrow> bytes" where
  "with_newlines ls = concat (map (\<lambda>l. l @ [10]) ls)"

lemma stream_with_newlines:
  "(\<forall>l \<in> set ls. 10 \<notin> set l) \<Longrightarrow> stream_lines (with_newlines ls) = map (\<lambda>l. l @ [10]) ls"
  by (induction ls) (simp_all add: with_newlines_def stream_lines_append)

lemma set_request:
  assumes "\<forall>l \<in> set ls. 10 \<notin> set l" "length k = 32"
  shows "api_handler ex b64 evs now d (map Some (stream_lines (ascii ''set=1'' @ [10] @
      with_newlines (field ''public_key'' (to_hex k) # ls)))) =
    map_option (\<lambda>(status, d). (status_lines status, d))
      (api_set_peer ex b64 evs d (section_new k) (map (\<lambda>l. Some (l @ [10])) ls))"
proof -
  let ?pk = "field ''public_key'' (to_hex k)"
  have t: "10 \<notin> set (to_hex k)" "61 \<notin> set (to_hex k)" using to_hex_chars by blast+
  have "stream_lines (ascii ''set=1'' @ [10] @ with_newlines (?pk # ls)) =
      map (\<lambda>l. l @ [10]) (ascii ''set=1'' # ?pk # ls)"
    using stream_with_newlines [of "ascii ''set=1'' # ?pk # ls"] assms(1) field_no_newline t keys_plain
    by (simp add: with_newlines_def)
  moreover have "set_line ex b64 d (ascii ''public_key'') (to_hex k) ev = Some (Inr (Some k), d)" for ev
    using hex_key_roundtrip [OF assms(2), of b64] keys_differ by (simp add: set_line_def)
  ultimately show ?thesis
    using split_on_field [OF keys_plain(4) t(2)] keys_differ(1)
    by (simp add: api_handler_def api_command_def pop_line field_nonempty comp_def)
qed

lemma set_peer_request:
  assumes "length k = 32" "length ip = 4"
  shows "api_handler ex b64 evs now d (map Some (stream_lines (ascii ''set=1'' @ [10] @ set_peer_body (to_hex k) ip))) =
    map_option (\<lambda>d. (status_lines 0, d))
      (update_peer ex d k False True None [\<lparr>ai_addr = V4 ip, ai_cidr = 32\<rparr>] None None (ue_dev (evs 1)))"
proof -
  let ?ls = "[field ''replace_allowed_ips'' (ascii ''true''), field ''allowed_ip'' (show_ipv4 ip @ ascii ''/32''), []]"
  have body: "set_peer_body (to_hex k) ip = with_newlines (field ''public_key'' (to_hex k) # ?ls)"
    by (simp add: set_peer_body_def with_newlines_def)
  have nl: "\<forall>l \<in> set ?ls. 10 \<notin> set l"
    using field_no_newline keys_plain show_ipv4_chars [OF assms(2)] by auto
  show ?thesis unfolding body set_request [OF nl assms(1)]
    by (simp add: pop_line Let_def field_nonempty split_once_field keys_plain section_line_def keys_differ set_or_def
        parse_show_allowed [OF assms(2)] commit_section_def section_new_def option.map_comp comp_def)
qed

lemma remove_peer_request:
  assumes "length k = 32"
  shows "api_handler ex b64 evs now d (map Some (stream_lines (ascii ''set=1'' @ [10] @ remove_peer_body (to_hex k)))) =
    Some (status_lines 0, remove_peer ex d k)"
proof -
  let ?ls = "[field ''remove'' (ascii ''true''), []]"
  have body: "remove_peer_body (to_hex k) = with_newlines (field ''public_key'' (to_hex k) # ?ls)"
    by (simp add: remove_peer_body_def with_newlines_def)
  have nl: "\<forall>l \<in> set ?ls. 10 \<notin> set l" using field_no_newline keys_plain by auto
  show ?thesis unfolding body set_request [OF nl assms(1)]
    by (simp add: pop_line Let_def field_nonempty split_once_field keys_plain section_line_def keys_differ set_or_def
        commit_section_def section_new_def update_peer_def)
qed

lemma status_ok: "first_line (status_lines 0) = ascii ''errno=0''"
  by code_simp

section \<open>The report of the device\<close>

definition plain_key :: "string \<Rightarrow> bool" where
  "plain_key key \<longleftrightarrow> 6 \<le> length (ascii key) \<and> take 6 (ascii key) \<noteq> ascii ''errno='' \<and> 61 \<notin> set (ascii key)"

definition quiet_key :: "string \<Rightarrow> bool" where
  "quiet_key key \<longleftrightarrow> plain_key key \<and> ascii key \<notin> set (map ascii [''own_public_key'', ''listen_port'', ''public_key'',
     ''last_handshake_time_sec''])"

lemma report_keys:
  "plain_key ''own_public_key''" "plain_key ''listen_port''" "plain_key ''public_key''" "plain_key ''last_handshake_time_sec''"
  "quiet_key ''fwmark''" "quiet_key ''preshared_key''" "quiet_key ''persistent_keepalive_interval''" "quiet_key ''endpoint''"
  "quiet_key ''allowed_ip''" "quiet_key ''last_handshake_time_nsec''" "quiet_key ''rx_bytes''" "quiet_key ''tx_bytes''"
  "quiet_key ''quota_remaining''" "quiet_key ''quota_blocked''" "quiet_key ''quota_total_consumed''"
  "quiet_key ''quota_payment_count''"
  by code_simp+

lemma own_keys_differ:
  "ascii ''listen_port'' \<noteq> ascii ''own_public_key''" "ascii ''public_key'' \<noteq> ascii ''own_public_key''"
  "ascii ''public_key'' \<noteq> ascii ''listen_port''" "ascii ''last_handshake_time_sec'' \<noteq> ascii ''own_public_key''"
  "ascii ''last_handshake_time_sec'' \<noteq> ascii ''listen_port''" "ascii ''last_handshake_time_sec'' \<noteq> ascii ''public_key''"
  by code_simp+

lemma get_field:
  assumes "plain_key key"
  shows "get_lines rx g (field key val # rest) = get_lines rx (get_line rx g (ascii key) val) rest"
proof -
  have "take 6 (field key val) = take 6 (ascii key)" using assms by (simp add: plain_key_def field_def)
  then show ?thesis using assms by (simp add: plain_key_def field_nonempty split_once_field)
qed

definition quiet_lines :: "bytes list \<Rightarrow> bool" where
  "quiet_lines ls \<longleftrightarrow> (\<forall>l \<in> set ls. \<exists>key val. l = field key val \<and> quiet_key key)"

lemma get_quiet: "quiet_lines ls \<Longrightarrow> get_lines rx g (ls @ rest) = get_lines rx g rest"
proof (induction ls)
  case (Cons l ls)
  then obtain key val where l: "l = field key val" "quiet_key key" by (auto simp: quiet_lines_def)
  have "get_line rx g (ascii key) val = g" using l(2) by (simp add: get_line_def quiet_key_def)
  then show ?case using Cons l get_field [of key rx g val "ls @ rest"] by (simp add: quiet_lines_def quiet_key_def)
qed simp

definition reported :: "nat option \<Rightarrow> nat option" where
  "reported time = Option.bind time (\<lambda>ns. parse_uint 18446744073709551616 (dec_of_nat (ns div 1000000000)))"

lemma get_handshake:
  "get_lines rx (g\<lparr>gs_current_handshake := None\<rparr>) (handshake_lines time @ rest) =
    get_lines rx (g\<lparr>gs_current_handshake := reported time\<rparr>) rest"
proof (cases time)
  case None
  then show ?thesis by (simp add: handshake_lines_def reported_def)
next
  case (Some ns)
  have q: "quiet_lines [field ''last_handshake_time_nsec'' v]" for v by (auto simp: quiet_lines_def report_keys)
  show ?thesis
    using get_field [OF report_keys(4), where rx = rx] get_quiet [OF q, where rx = rx]
    by (simp add: Some handshake_lines_def reported_def get_line_def own_keys_differ del: get_lines.simps)
qed

text \<open>The state after the lines of a peer.\<close>

definition after_peer :: "get_state \<Rightarrow> bytes \<Rightarrow> nat option \<Rightarrow> get_state" where
  "after_peer g k hs = (flush_peer g)\<lparr>gs_current_pubkey := Some k, gs_current_handshake := hs\<rparr>"

lemma get_peer:
  assumes "peer_lines ex k p now = Some ls" "peer_time_since_last_handshake p now = Some time"
  shows "get_lines rx g (ls @ rest) = get_lines rx (after_peer g (ex_hex_encode ex k) (reported time)) rest"
proof -
  obtain q1 q2 where ls: "ls = field ''public_key'' (ex_hex_encode ex k) # q1 @ handshake_lines time @ q2"
    and q: "quiet_lines q1" "quiet_lines q2"
  proof (rule that)
    show "ls = field ''public_key'' (ex_hex_encode ex k) #
       ((case pe_preshared_key p of Some key \<Rightarrow> [field ''preshared_key'' (ex_hex_encode ex key)] | None \<Rightarrow> []) @
       (case peer_persistent_keepalive p of
          Some n \<Rightarrow> [field ''persistent_keepalive_interval'' (dec n)] | None \<Rightarrow> []) @
       (case pe_addr p of Some addr \<Rightarrow> [field ''endpoint'' (show_socket_addr addr)] | None \<Rightarrow> []) @
       map (\<lambda>(ip, cidr). field ''allowed_ip'' (show_ip ip @ 47 # dec cidr)) (peer_allowed_ips (ex_ptab ex) p)) @
       handshake_lines time @
       ([field ''rx_bytes'' (dec (t_rx_bytes (pe_tunnel p))), field ''tx_bytes'' (dec (t_tx_bytes (pe_tunnel p)))] @
       (case pe_quota p of Some q \<Rightarrow> quota_lines q | None \<Rightarrow> []))"
      using assms by (simp add: peer_lines_def)
  qed (fastforce simp: quiet_lines_def quota_lines_def report_keys split: option.splits)+
  have pk: "get_line rx g (ascii ''public_key'') v = (after_peer g v None)\<lparr>gs_current_handshake := None\<rparr>" for v
    by (simp add: get_line_def own_keys_differ after_peer_def)
  have upd: "(after_peer g v h)\<lparr>gs_current_handshake := h'\<rparr> = after_peer g v h'" for v h h'
    by (simp add: after_peer_def)
  have "get_lines rx g (ls @ rest) = get_lines rx ((after_peer g (ex_hex_encode ex k) None)\<lparr>gs_current_handshake := None\<rparr>)
      (q1 @ handshake_lines time @ q2 @ rest)"
    unfolding ls append_Cons append_assoc get_field [OF report_keys(3)] pk ..
  also have "\<dots> = get_lines rx (after_peer g (ex_hex_encode ex k) (reported time)) rest"
    by (simp add: get_quiet q upd) (simp only: get_handshake [of rx "after_peer g (ex_hex_encode ex k) None", unfolded upd] get_quiet q)
  finally show ?thesis .
qed

lemma get_end: "get_lines rx g (status_lines 0) = flush_peer g"
proof -
  have "take 6 (hd (status_lines 0)) = ascii ''errno=''" "status_lines 0 = [hd (status_lines 0), []]" "hd (status_lines 0) \<noteq> []"
    by code_simp+
  then show ?thesis by (metis get_lines.simps(2))
qed

fun report_all :: "(bytes \<times> nat option) list \<Rightarrow> (bytes \<times> nat option) list \<Rightarrow> (bytes \<times> nat option) list" where
  "report_all m [] = m"
| "report_all m ((k, h) # rest) = report_all (AList.update k h m) rest"

definition report_of :: "('u, 't) ext \<Rightarrow> 'u peer list \<Rightarrow> (nat \<Rightarrow> nat) \<Rightarrow> bytes \<times> nat \<Rightarrow> bytes \<times> nat option" where
  "report_of ex heap now e = (ex_hex_encode ex (fst e),
     reported (the (peer_time_since_last_handshake (heap ! snd e) (now (snd e)))))"

lemma get_all:
  assumes "all_peer_lines ex heap now ps = Some ls"
  shows "gs_peers (get_lines rx g (ls @ status_lines 0)) = report_all (gs_peers (flush_peer g)) (map (report_of ex heap now) ps) \<and>
    gs_own_pubkey (get_lines rx g (ls @ status_lines 0)) = gs_own_pubkey g \<and>
    gs_listen_port (get_lines rx g (ls @ status_lines 0)) = gs_listen_port g"
  using assms
proof (induction ps arbitrary: g ls)
  case Nil
  then show ?case by (simp add: get_end flush_peer_def split: option.split)
next
  case (Cons e ps)
  obtain k a where e: "e = (k, a)" by fastforce
  obtain l1 l2 where l: "peer_lines ex k (heap ! a) (now a) = Some l1" "all_peer_lines ex heap now ps = Some l2" "ls = l1 @ l2"
    using Cons.prems by (auto simp: e split: bind_splits)
  obtain time where t: "peer_time_since_last_handshake (heap ! a) (now a) = Some time"
    using l(1) by (auto simp: peer_lines_def split: bind_splits)
  let ?g = "after_peer g (ex_hex_encode ex k) (reported time)"
  have "get_lines rx g (ls @ status_lines 0) = get_lines rx ?g (l2 @ status_lines 0)"
    using get_peer [OF l(1) t] l(3) by simp
  moreover have "gs_peers (flush_peer ?g) = AList.update (ex_hex_encode ex k) (reported time) (gs_peers (flush_peer g))"
      "gs_own_pubkey ?g = gs_own_pubkey g" "gs_listen_port ?g = gs_listen_port g"
    by (simp_all add: after_peer_def flush_peer_def split: option.split)
  ultimately show ?case using Cons.IH [OF l(2), of ?g] t by (simp add: e report_of_def)
qed

lemma all_peer_lines_time:
  assumes "all_peer_lines ex heap now ps = Some ls" "e \<in> set ps"
  obtains time where "peer_time_since_last_handshake (heap ! snd e) (now (snd e)) = Some time"
  using assms
  by (induction ps arbitrary: ls) (auto simp: peer_lines_def split: bind_splits)

lemma get_own_key:
  assumes "\<forall>b. ex_hex_encode ex b = to_hex b" "\<forall>b. rx_hex_decode rx (to_hex b) = Some b"
  shows "get_lines rx g ((case kp of Some k \<Rightarrow> [field ''own_public_key'' (ex_hex_encode ex (snd k))] | None \<Rightarrow> []) @ rest) =
    get_lines rx (case kp of Some k \<Rightarrow> g\<lparr>gs_own_pubkey := Some (rx_b64_encode rx (snd k))\<rparr> | None \<Rightarrow> g) rest"
  using get_field [OF report_keys(1), where rx = rx] assms
  by (cases kp) (simp_all add: get_line_def del: get_lines.simps)

lemma get_port:
  "get_lines rx g ((if port \<noteq> 0 then [field ''listen_port'' (dec (port :: u16))] else []) @ rest) =
    get_lines rx (if port \<noteq> 0 then g\<lparr>gs_listen_port := Some port\<rparr> else g) rest"
proof -
  have "parse_u16 (dec port) = Some port"
    using parse_uint_dec [of "unat port" 65536] unat_u16_less [of port] by (simp add: parse_u16_def dec_def)
  then show ?thesis using get_field [OF report_keys(2), where rx = rx]
    by (simp add: get_line_def own_keys_differ del: get_lines.simps)
qed

lemma report_all_new:
  "distinct (map fst (m @ xs)) \<Longrightarrow> report_all m xs = m @ xs"
proof (induction xs arbitrary: m)
  case (Cons x xs)
  obtain k h where x: "x = (k, h)" by fastforce
  have "map_of m k = None" using Cons.prems by (auto simp: x map_of_eq_None_iff)
  then show ?case using Cons by (simp add: x alist_update_new)
qed simp

lemma to_hex_inject: "to_hex a = to_hex b \<longleftrightarrow> a = b"
  by (metis parse_to_hex option.inject sum.inject(2))

lemma get_request: "uapi_call ex rx ce d (ascii ''get=1'' @ [10]) = (case ce_link ce of
     Refused e \<Rightarrow> Some (Inl e, d)
   | Served \<Rightarrow> map_option (\<lambda>ls. (Inr (ls @ status_lines 0), d)) (api_get ex d (ce_now ce))
   | AnswerLost e \<Rightarrow> map_option (\<lambda>ls. (Inl e, d)) (api_get ex d (ce_now ce)))"
proof -
  have "stream_lines (ascii ''get=1'' @ [10]) = [ascii ''get=1'' @ [10]]" by code_simp
  then show ?thesis
    by (simp add: uapi_call_def api_handler_def api_command_def pop_line option.map_comp comp_def split: link.split)
qed

lemma uapi_get_answer:
  assumes "\<forall>b. ex_hex_encode ex b = to_hex b" "\<forall>b. rx_hex_decode rx (to_hex b) = Some b"
    and "ce_link ce = Served" "api_get ex d (ce_now ce) = Some ls"
  shows "uapi_get_peers ex rx ce d = Some (Inr
     (map_option (\<lambda>kp. rx_b64_encode rx (snd kp)) (dv_key_pair d),
      (if dv_listen_port d = 0 then None else Some (dv_listen_port d)),
      report_all [] (map (report_of ex (dv_heap d) (ce_now ce)) (dv_peers d))), d)"
    "\<exists>ps. all_peer_lines ex (dv_heap d) (ce_now ce) (dv_peers d) = Some ps"
proof -
  obtain ps where ps: "all_peer_lines ex (dv_heap d) (ce_now ce) (dv_peers d) = Some ps"
    and ls: "ls = (case dv_key_pair d of Some k \<Rightarrow> [field ''own_public_key'' (ex_hex_encode ex (snd k))] | None \<Rightarrow> []) @
       (if dv_listen_port d \<noteq> 0 then [field ''listen_port'' (dec (dv_listen_port d))] else []) @
       (case dv_fwmark d of Some m \<Rightarrow> [field ''fwmark'' (dec m)] | None \<Rightarrow> []) @ ps"
    using assms(4) by (auto simp: api_get_def split: bind_splits)
  have fw: "quiet_lines (case dv_fwmark d of Some m \<Rightarrow> [field ''fwmark'' (dec m)] | None \<Rightarrow> [])"
    by (fastforce simp: quiet_lines_def report_keys split: option.split)
  show "uapi_get_peers ex rx ce d = Some (Inr
     (map_option (\<lambda>kp. rx_b64_encode rx (snd kp)) (dv_key_pair d),
      (if dv_listen_port d = 0 then None else Some (dv_listen_port d)),
      report_all [] (map (report_of ex (dv_heap d) (ce_now ce)) (dv_peers d))), d)"
    using get_all [OF ps, where rx = rx]
    by (simp add: uapi_get_peers_def get_request assms(3,4) ls read_get_def Let_def get_own_key [OF assms(1,2)] get_port
        get_quiet [OF fw] flush_peer_def split: option.split)
  show "\<exists>ps. all_peer_lines ex (dv_heap d) (ce_now ce) (dv_peers d) = Some ps" using ps by blast
qed

text \<open>C24: what the device reports is what the registration server reads.  The answer to
  \<open>get=1\<close> of a device with any peers (with keys, endpoints, networks, quotas and traffic
  in whatever state) is printed, sent and parsed; the server then holds the device's own
  public key, its port, and for each peer its key and the whole seconds since its last
  handshake, and the device has not changed.\<close>

theorem uapi_get_reports:
  assumes "\<forall>b. ex_hex_encode ex b = to_hex b" "\<forall>b. rx_hex_decode rx (to_hex b) = Some b"
    and "ce_link ce = Served" "api_get ex d (ce_now ce) = Some ls" "distinct (map fst (dv_peers d))"
    and "\<forall>(k, a) \<in> set (dv_peers d). \<forall>ns. peer_time_since_last_handshake (dv_heap d ! a) (ce_now ce a) = Some (Some ns) \<longrightarrow>
      ns div 1000000000 < 2 ^ 64"
  shows "uapi_get_peers ex rx ce d = Some (Inr
     (map_option (\<lambda>kp. rx_b64_encode rx (snd kp)) (dv_key_pair d),
      (if dv_listen_port d = 0 then None else Some (dv_listen_port d)),
      map (\<lambda>(k, a). (to_hex k, map_option (\<lambda>ns. ns div 1000000000)
        (the (peer_time_since_last_handshake (dv_heap d ! a) (ce_now ce a))))) (dv_peers d)), d)"
proof -
  let ?now = "ce_now ce"
  obtain ps where ps: "all_peer_lines ex (dv_heap d) ?now (dv_peers d) = Some ps"
    using uapi_get_answer(2) [OF assms(1-4)] by blast
  let ?peers = "map (report_of ex (dv_heap d) ?now) (dv_peers d)"
  have dist: "distinct (map fst ?peers)"
    using assms(1,5) by (simp add: comp_def report_of_def distinct_map inj_on_def to_hex_inject)
  have "?peers = map (\<lambda>(k, a). (to_hex k, map_option (\<lambda>ns. ns div 1000000000)
        (the (peer_time_since_last_handshake (dv_heap d ! a) (?now a))))) (dv_peers d)"
  proof (rule map_cong [OF refl])
    fix e assume e: "e \<in> set (dv_peers d)"
    obtain time where t: "peer_time_since_last_handshake (dv_heap d ! snd e) (?now (snd e)) = Some time"
      using all_peer_lines_time [OF ps e] .
    show "report_of ex (dv_heap d) ?now e = (case e of (k, a) \<Rightarrow> (to_hex k, map_option (\<lambda>ns. ns div 1000000000)
        (the (peer_time_since_last_handshake (dv_heap d ! a) (?now a)))))"
      using assms(1,6) e t by (cases e; cases time) (auto simp: report_of_def reported_def parse_uint_dec)
  qed
  then show ?thesis using uapi_get_answer(1) [OF assms(1-4)] report_all_new [of "[]" ?peers] dist by simp
qed

section \<open>The flags of a section\<close>

text \<open>The flags of a peer section leak into the next.  A request that removes one peer and
  then configures another, each in its own section, is accepted (status 0) and removes the
  second peer too: \<open>remove=true\<close> is still set when the second section ends.\<close>

lemma section_flags_leak:
  assumes "length k1 = 32" "length k2 = 32" "length ip = 4"
  shows "api_handler ex b64 evs now d (map Some (stream_lines (ascii ''set=1'' @ [10] @ with_newlines
      [field ''public_key'' (to_hex k1), field ''remove'' (ascii ''true''),
       field ''public_key'' (to_hex k2), field ''allowed_ip'' (show_ipv4 ip @ ascii ''/32''), []]))) =
    Some (status_lines 0, remove_peer ex (remove_peer ex d k1) k2)"
proof -
  let ?ls = "[field ''remove'' (ascii ''true''), field ''public_key'' (to_hex k2),
    field ''allowed_ip'' (show_ipv4 ip @ ascii ''/32''), []]"
  have hex: "10 \<notin> set (to_hex k2)" using to_hex_chars by blast
  have nl: "\<forall>l \<in> set ?ls. 10 \<notin> set l"
    using field_no_newline keys_plain show_ipv4_chars [OF assms(3)] hex by auto
  have differ: "ascii ''public_key'' \<noteq> ascii ''remove''" "ascii ''public_key'' \<noteq> ascii ''preshared_key''"
      "ascii ''public_key'' \<noteq> ascii ''endpoint''" "ascii ''public_key'' \<noteq> ascii ''persistent_keepalive_interval''"
      "ascii ''public_key'' \<noteq> ascii ''replace_allowed_ips''" "ascii ''public_key'' \<noteq> ascii ''allowed_ip''"
    by code_simp+
  show ?thesis unfolding set_request [OF nl assms(1)]
    by (simp add: pop_line Let_def field_nonempty split_once_field keys_plain section_line_def keys_differ differ set_or_def
        parse_show_allowed [OF assms(3)] commit_section_def section_new_def update_peer_def
        hex_key_roundtrip [OF assms(2)])
qed

end
