(* ===== verification/Registration_Run.thy ===== *)
theory Registration_Run
  imports Uapi_Text Device_Run
begin

text \<open>
  The registration server together with its device: HTTP requests, rounds of the reaper
  and the device's own events in any order.  \<open>reg_ok\<close> says that the tables of the server
  and of the device agree: the registered keys are the keys of the peers, addresses are
  given out once, and the table by address leads each of them to its peer.
\<close>

section \<open>Parameters\<close>

text \<open>What is relied on: the tables of networks, a prefix of 32 bits leaves an address as it is,
  the \<open>hex\<close> crate, and a hash set's iterator gives one of its elements.\<close>

definition reg_ext_ok :: "('u, 't) ext \<Rightarrow> 'j reg_ext \<Rightarrow> bool" where
  "reg_ext_ok ex rx \<longleftrightarrow> ip_table_ok (ex_net ex) (ex_dtab ex) \<and>
     (\<forall>ip. length ip = 4 \<longrightarrow> in_truncate (ex_net ex) (V4 ip) 32 = Some (V4 ip, 32)) \<and>
     (\<forall>ip a. length ip = 4 \<longrightarrow> in_contains (ex_net ex) (V4 ip, 32) a = (a = V4 ip)) \<and>
     (\<forall>b. ex_hex_encode ex b = to_hex b) \<and> (\<forall>b. rx_hex_decode rx (to_hex b) = Some b) \<and>
     (\<forall>S. S \<noteq> {} \<longrightarrow> rx_first_ip rx S \<in> S)"

lemma reg_ext_facts:
  assumes "reg_ext_ok ex rx"
  shows "ip_table_ok (ex_net ex) (ex_dtab ex)"
    "length ip = 4 \<Longrightarrow> in_truncate (ex_net ex) (V4 ip) 32 = Some (V4 ip, 32)"
    "length ip = 4 \<Longrightarrow> in_contains (ex_net ex) (V4 ip, 32) a = (a = V4 ip)"
    "ex_hex_encode ex b = to_hex b" "rx_hex_decode rx (to_hex b) = Some b"
    "S \<noteq> {} \<Longrightarrow> rx_first_ip rx S \<in> S"
proof -
  note c = assms [unfolded reg_ext_ok_def]
  note c2 = conjunct2 [OF c]
  note c3 = conjunct2 [OF c2]
  note c4 = conjunct2 [OF c3]
  note c5 = conjunct2 [OF c4]
  show "ip_table_ok (ex_net ex) (ex_dtab ex)" by (rule conjunct1 [OF c])
  show "length ip = 4 \<Longrightarrow> in_truncate (ex_net ex) (V4 ip) 32 = Some (V4 ip, 32)" by (rule conjunct1 [OF c2, rule_format])
  show "length ip = 4 \<Longrightarrow> in_contains (ex_net ex) (V4 ip, 32) a = (a = V4 ip)" by (rule conjunct1 [OF c3, rule_format])
  show "ex_hex_encode ex b = to_hex b" by (rule conjunct1 [OF c4, rule_format])
  show "rx_hex_decode rx (to_hex b) = Some b" by (rule conjunct1 [OF c5, rule_format])
  show "S \<noteq> {} \<Longrightarrow> rx_first_ip rx S \<in> S" by (rule conjunct2 [OF c5, rule_format])
qed

lemma reg_ext_table:
  assumes "reg_ext_ok ex rx"
  shows "set (it_iter (ex_dtab ex) (it_insert (ex_dtab ex) t n v)) = insert (n, v) {e \<in> set (it_iter (ex_dtab ex) t). fst e \<noteq> n}"
    "set (it_iter (ex_dtab ex) (it_retain (ex_dtab ex) t Q)) = {e \<in> set (it_iter (ex_dtab ex) t). Q (snd e)}"
proof -
  note c = conjunct2 [OF reg_ext_facts(1) [OF assms, unfolded ip_table_ok_def]]
  show "set (it_iter (ex_dtab ex) (it_insert (ex_dtab ex) t n v)) = insert (n, v) {e \<in> set (it_iter (ex_dtab ex) t). fst e \<noteq> n}"
    using conjunct1 [OF c] by (elim allE)
  show "set (it_iter (ex_dtab ex) (it_retain (ex_dtab ex) t Q)) = {e \<in> set (it_iter (ex_dtab ex) t). Q (snd e)}"
    using conjunct1 [OF conjunct2 [OF c]] by (elim allE)
qed

definition answered :: "call_env \<Rightarrow> bool" where
  "answered ce \<longleftrightarrow> (\<forall>e. ce_link ce \<noteq> AnswerLost e)"

section \<open>The calls of the server\<close>

definition add_op :: "('u, 't) ext \<Rightarrow> call_env \<Rightarrow> ('u, 't) device \<Rightarrow> bytes \<Rightarrow> bytes \<Rightarrow> ('u, 't) device option" where
  "add_op ex ce d k ip =
     update_peer ex d k False True None [\<lparr>ai_addr = V4 ip, ai_cidr = 32\<rparr>] None None (ue_dev (ce_uapi ce 1))"

lemma uapi_set_peer_effect:
  assumes "length k = 32" "length ip = 4"
  shows "uapi_set_peer ex rx ce d (to_hex k) ip = (case ce_link ce of
     Refused e \<Rightarrow> Some (Inl e, d)
   | Served \<Rightarrow> map_option (Pair (Inr ())) (add_op ex ce d k ip)
   | AnswerLost e \<Rightarrow> map_option (Pair (Inl e)) (add_op ex ce d k ip))"
  using set_peer_request [OF assms, of ex "rx_b64_decode rx" "ce_uapi ce" "ce_now ce" d] status_ok
  by (simp add: uapi_set_peer_def uapi_run_set_def uapi_call_def add_op_def option.map_comp comp_def split: link.split)

lemma uapi_remove_peer_effect:
  assumes "length k = 32"
  shows "uapi_remove_peer ex rx ce d (to_hex k) = (case ce_link ce of
     Refused e \<Rightarrow> Some (Inl e, d)
   | Served \<Rightarrow> Some (Inr True, remove_peer ex d k)
   | AnswerLost e \<Rightarrow> Some (Inl e, remove_peer ex d k))"
  using remove_peer_request [OF assms, of ex "rx_b64_decode rx" "ce_uapi ce" "ce_now ce" d] status_ok
  by (simp add: uapi_remove_peer_def uapi_call_def split: link.split)

lemma uapi_get_cases:
  assumes "reg_ext_ok ex rx" "uapi_get_peers ex rx ce d = Some (r, d')"
  shows "d' = d \<and> (\<forall>pk port ps. r = Inr (Some pk, port, ps) \<longrightarrow> dv_key_pair d \<noteq> None)"
proof (cases "api_get ex d (ce_now ce)")
  case None
  then show ?thesis using assms(2) by (auto simp: uapi_get_peers_def get_request split: link.splits)
next
  case (Some ls)
  then show ?thesis using assms uapi_get_answer(1) [of ex rx ce d ls]
    by (cases "ce_link ce") (auto simp: reg_ext_ok_def, auto simp: uapi_get_peers_def get_request)
qed

section \<open>The agreement\<close>

definition reg_routes :: "registration_state \<Rightarrow> (bytes \<times> nat) list \<Rightarrow> (ip_network \<times> nat) set" where
  "reg_routes st ps = {((V4 (assigned_ip st octet), 32), a) | k a octet.
     (k, a) \<in> set ps \<and> (to_hex k, octet) \<in> set (ri_peer_to_octet st)}"

definition reg_ok :: "('u, 't) ext \<Rightarrow> registration_state \<Rightarrow> ('u, 't) device \<Rightarrow> bool" where
  "reg_ok ex st d \<longleftrightarrow> length (rs_subnet_prefix st) = 3 \<and>
     distinct (map fst (ri_peer_to_octet st)) \<and> distinct (map snd (ri_peer_to_octet st)) \<and>
     ri_registered_peers st = fst ` set (ri_peer_to_octet st) \<and>
     snd ` set (ri_peer_to_octet st) \<subseteq> octet_pool \<and>
     ri_available_ips st = octet_pool - snd ` set (ri_peer_to_octet st) \<and>
     fst ` set (ri_peer_to_octet st) = (to_hex \<circ> fst) ` set (dv_peers d) \<and>
     (\<forall>k \<in> fst ` set (dv_peers d). length k = 32) \<and>
     set (it_iter (ex_dtab ex) (dv_peers_by_ip d)) = reg_routes st (dv_peers d) \<and>
     (ri_server_pubkey_cache st \<noteq> None \<longrightarrow> dv_key_pair d \<noteq> None)"

lemma reg_ok_nullifiers [simp]: "reg_ok ex (st\<lparr>ri_used_nullifiers := x\<rparr>) d = reg_ok ex st d"
  and reg_ok_limiter [simp]: "reg_ok ex (st\<lparr>rs_rate_limiter := y\<rparr>) d = reg_ok ex st d"
  by (simp_all add: reg_ok_def reg_routes_def assigned_ip_def)

lemma reg_ok_caches:
  "reg_ok ex st d \<Longrightarrow> dv_key_pair d \<noteq> None \<Longrightarrow> reg_ok ex (st\<lparr>ri_server_pubkey_cache := pk, ri_listen_port_cache := port\<rparr>) d"
  by (simp add: reg_ok_def reg_routes_def assigned_ip_def)

lemma reg_ok_device:
  assumes "reg_ok ex st d" "dv_peers d' = dv_peers d" "dv_peers_by_ip d' = dv_peers_by_ip d" "dv_key_pair d' = dv_key_pair d"
  shows "reg_ok ex st d'"
  using assms by (simp add: reg_ok_def)

lemma assigned_ip_length: "length (rs_subnet_prefix st) = 3 \<Longrightarrow> length (assigned_ip st octet) = 4"
  by (simp add: assigned_ip_def)

lemma assigned_ip_inject: "length (rs_subnet_prefix st) = 3 \<Longrightarrow> assigned_ip st a = assigned_ip st b \<longleftrightarrow> a = b"
  by (simp add: assigned_ip_def)

lemma assigned_ip_core [simp]:
  "assigned_ip (record_peer st h oct now) octet = assigned_ip st octet"
  "assigned_ip (forget_peer st h oct) octet = assigned_ip st octet"
  by (simp_all add: assigned_ip_def record_peer_def forget_peer_def)

section \<open>Adding and removing a peer\<close>

lemma add_op_tables:
  assumes x: "reg_ext_ok ex rx" and ip: "length ip = 4" and a: "add_op ex ce d k ip = Some d'"
  shows "map_of (dv_peers d) k = None" "dv_peers d' = dv_peers d @ [(k, length (dv_heap d))]"
    "dv_key_pair d' = dv_key_pair d" "length (dv_heap d') = Suc (length (dv_heap d))"
    "set (it_iter (ex_dtab ex) (dv_peers_by_ip d')) = insert ((V4 ip, 32), length (dv_heap d))
      {e \<in> set (it_iter (ex_dtab ex) (dv_peers_by_ip d)). fst e \<noteq> (V4 ip, 32)}"
proof -
  have t: "in_truncate (ex_net ex) (V4 ip) 32 = Some (V4 ip, 32)" using x ip by (rule reg_ext_facts(2))
  have none: "map_of (dv_peers d) k = None"
    using a by (cases "map_of (dv_peers d) k") (auto simp: add_op_def update_peer_def)
  then show "map_of (dv_peers d) k = None" .
  show "dv_peers d' = dv_peers d @ [(k, length (dv_heap d))]" "dv_key_pair d' = dv_key_pair d"
      "length (dv_heap d') = Suc (length (dv_heap d))"
      "set (it_iter (ex_dtab ex) (dv_peers_by_ip d')) = insert ((V4 ip, 32), length (dv_heap d))
      {e \<in> set (it_iter (ex_dtab ex) (dv_peers_by_ip d)). fst e \<noteq> (V4 ip, 32)}"
    using a none by (auto simp: add_op_def update_peer_def Let_def alist_update_new aips_insert_def t reg_ext_table [OF x] split: bind_splits)
qed

lemma routes_iff: "e \<in> reg_routes st ps \<longleftrightarrow> (\<exists>j b oct. e = ((V4 (assigned_ip st oct), 32), b) \<and>
     (j, b) \<in> set ps \<and> (to_hex j, oct) \<in> set (ri_peer_to_octet st))"
  by (auto simp: reg_routes_def)

lemma routes_add:
  assumes "to_hex k \<notin> fst ` set (ri_peer_to_octet st)" "k \<notin> fst ` set ps"
    and "ri_peer_to_octet st' = ri_peer_to_octet st @ [(to_hex k, octet)]" "\<And>b. assigned_ip st' b = assigned_ip st b"
  shows "reg_routes st' (ps @ [(k, a)]) = insert ((V4 (assigned_ip st octet), 32), a) (reg_routes st ps)"
proof -
  have x: "(j, b) \<in> set (ps @ [(k, a)]) \<and> (to_hex j, oct) \<in> set (ri_peer_to_octet st') \<longleftrightarrow>
      j = k \<and> b = a \<and> oct = octet \<or> (j, b) \<in> set ps \<and> (to_hex j, oct) \<in> set (ri_peer_to_octet st)" for j b oct
    using assms(1,2) unfolding assms(3) by (cases "j = k") (auto simp: to_hex_inject image_iff)
  show ?thesis unfolding set_eq_iff insert_iff routes_iff assms(4) x by blast
qed

lemma reg_add:
  assumes x: "reg_ext_ok ex rx" and r: "reg_ok ex st d" and o: "octet \<in> ri_available_ips st" and k: "length k = 32"
    and a: "add_op ex ce d k (assigned_ip st octet) = Some d'"
  shows "reg_ok ex (record_peer st (to_hex k) octet now) d'"
proof -
  let ?po = "ri_peer_to_octet st" and ?ip = "assigned_ip st octet" and ?a = "length (dv_heap d)"
  have ip: "length ?ip = 4" using r by (simp add: reg_ok_def assigned_ip_length)
  note t = add_op_tables [OF x ip a]
  have P: "fst ` set ?po = (to_hex \<circ> fst) ` set (dv_peers d)" "length (rs_subnet_prefix st) = 3"
      "set (it_iter (ex_dtab ex) (dv_peers_by_ip d)) = reg_routes st (dv_peers d)"
      "octet \<notin> snd ` set ?po" "octet \<in> octet_pool"
    using r o by (auto simp: reg_ok_def)
  have k': "k \<notin> fst ` set (dv_peers d)" using t(1) by (simp add: map_of_eq_None_iff)
  then have h: "to_hex k \<notin> fst ` set ?po" unfolding P(1) by (auto simp: to_hex_inject image_iff)
  then have upd: "AList.update (to_hex k) octet ?po = ?po @ [(to_hex k, octet)]"
    by (intro alist_update_new) (simp add: map_of_eq_None_iff)
  have po: "ri_peer_to_octet (record_peer st (to_hex k) octet now) = ?po @ [(to_hex k, octet)]"
    by (simp add: record_peer_def upd)
  have "fst e \<noteq> (V4 ?ip, 32)" if "e \<in> reg_routes st (dv_peers d)" for e
    using that P(4) assigned_ip_inject [OF P(2)] by (force simp: reg_routes_def)
  then have "{e \<in> reg_routes st (dv_peers d). fst e \<noteq> (V4 ?ip, 32)} = reg_routes st (dv_peers d)" by blast
  moreover have "reg_routes (record_peer st (to_hex k) octet now) (dv_peers d @ [(k, ?a)]) =
      insert ((V4 ?ip, 32), ?a) (reg_routes st (dv_peers d))"
    by (rule routes_add) (use h k' po in simp_all)
  ultimately have routes: "set (it_iter (ex_dtab ex) (dv_peers_by_ip d')) =
      reg_routes (record_peer st (to_hex k) octet now) (dv_peers d')"
    unfolding t(2,5) P(3) by simp
  have pre: "rs_subnet_prefix (record_peer st (to_hex k) octet now) = rs_subnet_prefix st"
      "ri_registered_peers (record_peer st (to_hex k) octet now) = insert (to_hex k) (ri_registered_peers st)"
      "ri_available_ips (record_peer st (to_hex k) octet now) = ri_available_ips st - {octet}"
      "ri_server_pubkey_cache (record_peer st (to_hex k) octet now) = ri_server_pubkey_cache st"
    by (simp_all add: record_peer_def)
  show ?thesis using r h P(4,5) k routes unfolding reg_ok_def pre po t(2,3) by (auto simp: image_iff)
qed

lemma delete_fst: "fst ` set (AList.delete k xs) = fst ` set xs - {k}"
  unfolding set_map [symmetric] AList.delete_keys by simp

lemma delete_set: "set (AList.delete k xs) = {e \<in> set xs. fst e \<noteq> k}"
  by (auto simp: AList.delete_eq)

lemma delete_snd:
  assumes "distinct (map fst xs)" "distinct (map snd xs)" "(k, v) \<in> set xs"
  shows "snd ` set (AList.delete k xs) = snd ` set xs - {v}"
proof (rule set_eqI)
  fix w
  have 1: "b = v" if "(k, b) \<in> set xs" for b using assms(1,3) that by (metis map_of_is_SomeI option.inject)
  have 2: "j = k" if "(j, v) \<in> set xs" for j
    using assms(2,3) that unfolding distinct_map by (metis fst_conv inj_onD snd_conv)
  have "w \<in> snd ` set (AList.delete k xs) \<longleftrightarrow> (\<exists>j. (j, w) \<in> set xs \<and> j \<noteq> k)" unfolding delete_set by force
  also have "\<dots> \<longleftrightarrow> (\<exists>j. (j, w) \<in> set xs) \<and> w \<noteq> v" using 1 2 by blast
  also have "\<dots> \<longleftrightarrow> w \<in> snd ` set xs - {v}" by force
  finally show "w \<in> snd ` set (AList.delete k xs) \<longleftrightarrow> w \<in> snd ` set xs - {v}" .
qed

lemma reg_remove:
  assumes x: "reg_ext_ok ex rx" and ok: "dev_ok ex d" and r: "reg_ok ex st d"
    and m: "(to_hex k, octet) \<in> set (ri_peer_to_octet st)"
  shows "reg_ok ex (forget_peer st (to_hex k) octet) (remove_peer ex d k)"
proof -
  let ?po = "ri_peer_to_octet st" and ?st = "forget_peer st (to_hex k) octet" and ?d = "remove_peer ex d k"
  have P: "distinct (map fst (dv_peers d))" "distinct (map snd (dv_peers d))"
    using ok by (simp_all add: dev_ok_def peers_ok_def)
  have R: "distinct (map fst ?po)" "distinct (map snd ?po)" "fst ` set ?po = (to_hex \<circ> fst) ` set (dv_peers d)"
      "set (it_iter (ex_dtab ex) (dv_peers_by_ip d)) = reg_routes st (dv_peers d)"
      "snd ` set ?po \<subseteq> octet_pool" "ri_available_ips st = octet_pool - snd ` set ?po"
      "ri_registered_peers st = fst ` set ?po"
    using r by (simp_all add: reg_ok_def)
  have "to_hex k \<in> fst ` set ?po" using m by force
  then obtain a where a: "(k, a) \<in> set (dv_peers d)" unfolding R(3) by (auto simp: to_hex_inject)
  then have ma: "map_of (dv_peers d) k = Some a" using P(1) by simp
  have D: "dv_peers ?d = AList.delete k (dv_peers d)" "dv_key_pair ?d = dv_key_pair d"
      "set (it_iter (ex_dtab ex) (dv_peers_by_ip ?d)) = {e \<in> reg_routes st (dv_peers d). snd e \<noteq> a}"
    by (simp_all add: remove_peer_def ma Let_def aips_remove_def reg_ext_table [OF x] R(4))
  have S: "ri_peer_to_octet ?st = AList.delete (to_hex k) ?po" "rs_subnet_prefix ?st = rs_subnet_prefix st"
      "ri_registered_peers ?st = ri_registered_peers st - {to_hex k}"
      "ri_available_ips ?st = insert octet (ri_available_ips st)"
      "ri_server_pubkey_cache ?st = ri_server_pubkey_cache st"
    by (simp_all add: forget_peer_def)
  have snds: "snd ` set (AList.delete (to_hex k) ?po) = snd ` set ?po - {octet}"
    by (rule delete_snd) (use R m in auto)
  have keya: "j = k" if "(j, a) \<in> set (dv_peers d)" for j
    using P(2) a that unfolding distinct_map by (metis fst_conv inj_onD snd_conv)
  have kk: "b = a" if "(k, b) \<in> set (dv_peers d)" for b
    using ma map_of_is_SomeI [OF P(1) that] by simp
  have routes: "{e \<in> reg_routes st (dv_peers d). snd e \<noteq> a} = reg_routes ?st (dv_peers ?d)"
  proof (rule set_eqI)
    fix e
    show "e \<in> {e \<in> reg_routes st (dv_peers d). snd e \<noteq> a} \<longleftrightarrow> e \<in> reg_routes ?st (dv_peers ?d)"
      unfolding mem_Collect_eq routes_iff S(1) D(1) assigned_ip_core delete_set fst_conv to_hex_inject
      using keya kk by (metis snd_conv)
  qed
  have fsts: "fst ` set (AList.delete (to_hex k) ?po) = (to_hex \<circ> fst) ` set (AList.delete k (dv_peers d))"
    unfolding delete_fst R(3) image_comp [symmetric] by (auto simp: to_hex_inject)
  have pool: "octet \<in> octet_pool" using R(5) m by force
  have d1: "distinct (map fst (AList.delete (to_hex k) ?po))" using R(1) by (rule AList.distinct_delete)
  have d2: "distinct (map snd (AList.delete (to_hex k) ?po))" unfolding AList.delete_eq by (rule distinct_map_filter) (rule R(2))
  have regd: "ri_registered_peers st - {to_hex k} = fst ` set (AList.delete (to_hex k) ?po)"
    unfolding R(7) delete_fst ..
  have len: "\<forall>j \<in> fst ` set (AList.delete k (dv_peers d)). length j = 32"
    using r by (auto simp: reg_ok_def delete_set)
  have avail: "insert octet (ri_available_ips st) = octet_pool - snd ` set (AList.delete (to_hex k) ?po)"
    unfolding R(6) snds using pool by blast
  show ?thesis
    unfolding reg_ok_def S(2-5) unfolding S(1) D(1,2)
    using r d1 d2 regd snds R(5) avail fsts len routes [symmetric] D(1,3) by (auto simp: reg_ok_def)
qed

section \<open>The device's own events\<close>

definition same_tables :: "('u, 't) device \<Rightarrow> ('u, 't) device \<Rightarrow> bool" where
  "same_tables d d' \<longleftrightarrow> dv_peers d' = dv_peers d \<and> dv_peers_by_ip d' = dv_peers_by_ip d \<and> dv_key_pair d' = dv_key_pair d"

lemma same_tables_put [simp]:
  "same_tables d (put_peer d' a p) = same_tables d d'" "same_tables d (put_limiter d' l rl) = same_tables d d'"
  by (simp_all add: same_tables_def put_peer_def put_limiter_def)

lemma same_tables_refl [simp]: "same_tables d d"
  and same_tables_trans: "same_tables d0 d \<Longrightarrow> same_tables d d' \<Longrightarrow> same_tables d0 d'"
  by (simp_all add: same_tables_def)

lemma udp_datagram_tables: "udp_datagram ex d addr dg he = Some (c, d', outs) \<Longrightarrow> same_tables d d'"
  by (erule udp_datagram_cases) auto

lemma conn_datagram_tables: "conn_datagram ex a pa d dg he = Some (c, d', outs) \<Longrightarrow> same_tables d d'"
  by (erule conn_datagram_cases) auto

lemma iface_packet_tables: "iface_packet ex d src he = Some (d', outs) \<Longrightarrow> same_tables d d'"
  by (auto simp: iface_packet_def Let_def split: option.splits prod.splits gate.splits bind_splits TunnResult.splits)

lemma timer_peer_tables: "timer_peer ex d a ev = Some (d', outs) \<Longrightarrow> same_tables d d'"
  by (auto simp: timer_peer_def Let_def split: option.splits bind_splits TunnResult.splits)

lemma event_out_tables:
  assumes "event_out ex d e = Some (d', outs)" "\<forall>x. e \<noteq> Configure x"
  shows "same_tables d d'"
proof -
  have u: "udp_loop ex n d xs = Some (d', outs) \<Longrightarrow> same_tables d d'" for n xs
    by (rule udp_loop_preserves [where P = "same_tables d"]) (auto intro: same_tables_trans udp_datagram_tables)
  have c: "conn_loop ex a pa n d xs = Some (d', outs) \<Longrightarrow> same_tables d d'" for a pa n xs
    by (rule conn_loop_preserves [where P = "same_tables d"]) (auto intro: same_tables_trans conn_datagram_tables)
  have i: "iface_loop ex n d xs = Some (b, d', outs) \<Longrightarrow> same_tables d d'" for n xs b
    by (rule iface_loop_preserves [where P = "same_tables d"]) (auto intro: same_tables_trans iface_packet_tables)
  have t: "timer_loop ex d xs = Some (d', outs) \<Longrightarrow> same_tables d d'" for xs
    by (rule timer_loop_preserves [where P = "same_tables d"]) (auto intro: same_tables_trans timer_peer_tables)
  show ?thesis using assms
    by (cases e) (auto simp: udp_handler_def conn_handler_def iface_handler_def reset_timer_def timer_handler_def
      split: if_splits option.splits dest: u c i t)
qed

section \<open>Requests keep the agreement\<close>

abbreviation both_ok :: "('u, 't) ext \<Rightarrow> registration_state \<Rightarrow> ('u, 't) device \<Rightarrow> bool" where
  "both_ok ex st d \<equiv> dev_ok ex d \<and> reg_ok ex st d"

lemma add_op_ok:
  assumes "reg_ext_ok ex rx" "dev_ok ex d" "add_op ex ce d k ip = Some d'"
  shows "dev_ok ex d'"
  using update_peer_ok [OF reg_ext_facts(1) [OF assms(1)] assms(2)] assms(3) unfolding add_op_def by blast

lemma octet_known:
  assumes "map_of (ri_peer_to_octet st) h = Some octet"
  shows "(h, octet) \<in> set (ri_peer_to_octet st)"
  using assms by (rule map_of_SomeD)

lemma fill_caches_ok:
  assumes "reg_ext_ok ex rx" "both_ok ex st d" "fill_caches ex rx ce st d = Some (answer, st', d')"
  shows "d' = d \<and> both_ok ex st' d \<and> ri_peer_to_octet st' = ri_peer_to_octet st \<and>
    (answer = None \<longrightarrow> ri_server_pubkey_cache st' \<noteq> None)"
proof (cases "ri_server_pubkey_cache st")
  case None
  then obtain r d1 where g: "uapi_get_peers ex rx ce d = Some (r, d1)"
    using assms(3) by (auto simp: fill_caches_def split: bind_splits)
  note c = uapi_get_cases [OF assms(1) g]
  have step: "fill_caches ex rx ce st d = Some (case r of
       Inr (Some pk, port, _) \<Rightarrow> (None, st\<lparr>ri_server_pubkey_cache := Some pk, ri_listen_port_cache := port\<rparr>, d)
     | Inr (None, _, _) \<Rightarrow> (Some (503, error_json (ascii ''server not configured yet'')), st, d)
     | Inl e \<Rightarrow> (Some (500, error_json (ascii ''internal error: '' @ e)), st, d))"
    using None g c by (simp add: fill_caches_def)
  show ?thesis
  proof (cases "\<exists>pk port ps. r = Inr (Some pk, port, ps)")
    case True
    then obtain pk port ps where r: "r = Inr (Some pk, port, ps)" by blast
    have "reg_ok ex (st\<lparr>ri_server_pubkey_cache := Some pk, ri_listen_port_cache := port\<rparr>) d"
      by (rule reg_ok_caches) (use assms(2) c r in auto)
    then show ?thesis using assms(2,3) step r by auto
  next
    case False
    then show ?thesis using assms(2,3) step by (auto split: sum.splits option.splits)
  qed
next
  case (Some pk)
  then show ?thesis using assms(2,3) by (auto simp: fill_caches_def)
qed

lemma add_peer_ok:
  assumes x: "reg_ext_ok ex rx" and ok: "both_ok ex st d" and k: "length k = 32" and l: "answered ce"
    and a: "add_peer ex rx ce now st d (to_hex k) = Some (resp, st', d')"
  shows "both_ok ex st' d'"
proof (cases "ri_available_ips st = {}")
  case True
  then show ?thesis using a ok by (simp add: add_peer_def)
next
  case False
  let ?o = "rx_first_ip rx (ri_available_ips st)"
  have o: "?o \<in> ri_available_ips st" using False by (rule reg_ext_facts(6) [OF x])
  have ip: "length (assigned_ip st ?o) = 4" using ok by (simp add: reg_ok_def assigned_ip_length)
  show ?thesis
  proof (cases "ce_link ce")
    case Served
    then obtain d1 where d1: "add_op ex ce d k (assigned_ip st ?o) = Some d1"
        "st' = record_peer st (to_hex k) ?o now" "d' = d1"
      using a False by (auto simp: add_peer_def Let_def uapi_set_peer_effect [OF k ip] split: bind_splits)
    show ?thesis using reg_add [OF x _ o k d1(1)] add_op_ok [OF x _ d1(1)] ok d1(2,3) by simp
  next
    case (Refused e)
    then show ?thesis using a False ok by (auto simp: add_peer_def Let_def uapi_set_peer_effect [OF k ip])
  next
    case (AnswerLost e)
    then show ?thesis using l by (simp add: answered_def)
  qed
qed

lemma known_key:
  assumes "reg_ok ex st d" "h \<in> fst ` set (ri_peer_to_octet st)"
  obtains k where "h = to_hex k" "length k = 32"
proof -
  have "fst ` set (ri_peer_to_octet st) = (to_hex \<circ> fst) ` set (dv_peers d)" using assms(1) by (simp add: reg_ok_def)
  then obtain p where "p \<in> set (dv_peers d)" "h = to_hex (fst p)" using assms(2) by auto
  then show thesis using that assms(1) by (simp add: reg_ok_def)
qed

lemma remove_step_ok:
  assumes x: "reg_ext_ok ex rx" and ok: "both_ok ex st d" and l: "answered ce"
    and m: "(h, octet) \<in> set (ri_peer_to_octet st)"
    and u: "uapi_remove_peer ex rx ce d h = Some (r, d')"
  shows "(r = Inr True \<and> both_ok ex (forget_peer st h octet) d') \<or> (r \<noteq> Inr True \<and> d' = d)"
proof -
  obtain k where k: "h = to_hex k" "length k = 32" using known_key [of ex st d h] ok m by force
  have "dev_ok ex (remove_peer ex d k)" using remove_peer_ok [OF reg_ext_facts(1) [OF x]] ok by blast
  then show ?thesis using u l reg_remove [OF x _ _ m [unfolded k(1)]] ok
    by (auto simp: k(1) uapi_remove_peer_effect [OF k(2)] answered_def split: link.splits)
qed

lemma handle_unregister_ok:
  assumes "reg_ext_ok ex rx" "both_ok ex st d" "answered ce" "handle_unregister ex rx ce st d pk = Some (resp, st', d')"
  shows "both_ok ex st' d'"
proof (cases "\<exists>k octet. rx_b64_decode rx (trim pk) = Some k \<and> length k = 32 \<and>
    map_of (ri_peer_to_octet st) (ex_hex_encode ex k) = Some octet")
  case False
  then show ?thesis using assms(2,4)
    by (auto simp: handle_unregister_def Let_def split: option.splits if_splits)
next
  case True
  then obtain k octet where k: "rx_b64_decode rx (trim pk) = Some k" "length k = 32"
      "map_of (ri_peer_to_octet st) (ex_hex_encode ex k) = Some octet" by blast
  then obtain r d1 where u: "uapi_remove_peer ex rx ce d (ex_hex_encode ex k) = Some (r, d1)"
    using assms(4) by (auto simp: handle_unregister_def Let_def split: bind_splits)
  have "st' = (if r = Inr True then forget_peer st (ex_hex_encode ex k) octet else st) \<and> d' = d1"
    using assms(4) k u by (auto simp: handle_unregister_def Let_def split: sum.splits bool.splits)
  then show ?thesis using remove_step_ok [OF assms(1-3) octet_known [OF k(3)] u] assms(2) by auto
qed

lemma handle_registration_ok:
  assumes x: "reg_ext_ok ex rx" and ok: "both_ok ex st d" and l: "answered ce2"
    and h: "handle_registration ex rx ce1 ce2 now st d pk = Some (resp, st', d')"
  shows "both_ok ex st' d'"
proof (cases "\<exists>k. rx_b64_decode rx (trim pk) = Some k \<and> length k = 32")
  case False
  then show ?thesis using h ok by (auto simp: handle_registration_def split: option.splits if_splits)
next
  case True
  then obtain k where k: "rx_b64_decode rx (trim pk) = Some k" "length k = 32" by blast
  have hex: "ex_hex_encode ex k = to_hex k" by (rule reg_ext_facts(4) [OF x])
  obtain answer st1 d1 where f: "fill_caches ex rx ce1 st d = Some (answer, st1, d1)"
    using h k by (auto simp: handle_registration_def Let_def split: bind_splits)
  note ok1 = fill_caches_ok [OF x ok f]
  note add = add_peer_ok [OF x _ k(2) l, where st = st1 and d = d]
  have "handle_registration ex rx ce1 ce2 now st d pk = (case answer of Some resp \<Rightarrow> Some (resp, st1, d)
     | None \<Rightarrow> if to_hex k \<in> ri_registered_peers st1
         then (case map_of (ri_peer_to_octet st1) (to_hex k) of
             Some octet \<Rightarrow> Some (success_response ex st1 octet, st1, d)
           | None \<Rightarrow> add_peer ex rx ce2 now st1 d (to_hex k))
         else add_peer ex rx ce2 now st1 d (to_hex k))"
    using f ok1 by (simp add: handle_registration_def Let_def k hex cong: option.case_cong)
  then have cases: "st' = st1 \<and> d' = d \<or> add_peer ex rx ce2 now st1 d (to_hex k) = Some (resp, st', d')"
    unfolding h by (auto split: option.splits if_splits)
  show ?thesis using cases ok1 add by blast
qed

lemma check_rate_ok:
  "both_ok ex st d \<Longrightarrow> check_rate rnd st remote now = (b, st') \<Longrightarrow> both_ok ex st' d"
  by (auto simp: check_rate_def Let_def split: option.splits prod.splits)

lemma http_handle_ok:
  assumes x: "reg_ext_ok ex rx" and ok: "both_ok ex st d" and l: "answered (hx_call1 he)" "answered (hx_call2 he)"
    and h: "http_handle ex rx st d req he = Some (resp, st', d')"
  shows "both_ok ex st' d'"
proof -
  obtain b st1 where c: "check_rate (rx_rnd rx) st (hr_remote req) (hx_now he) = (b, st1)" by fastforce
  have ok1: "both_ok ex st1 d" using check_rate_ok [OF ok c] .
  have un: "handle_unregister_v2 ex rx (hx_call1 he) st1 d body = Some (resp, st', d') \<Longrightarrow> both_ok ex st' d'" for body
    using ok1 handle_unregister_ok [OF x ok1 l(1), of _ resp st' d'] by (auto simp: handle_unregister_v2_def split: sum.splits)
  have reg: "handle_registration ex rx (hx_call1 he) (hx_call2 he) (hx_now he) st2 d pk = Some (resp, st', d') \<Longrightarrow>
      both_ok ex st2 d \<Longrightarrow> both_ok ex st' d'" for st2 pk
    by (rule handle_registration_ok [OF x _ l(2)])
  have re: "handle_registration_v2 ex rx (hx_call1 he) (hx_call2 he) (hx_now he) st1 d body = Some (resp, st', d') \<Longrightarrow>
      both_ok ex st' d'" for body
    using ok1 by (auto simp: handle_registration_v2_def split: sum.splits if_splits option.splits dest!: reg)
  show ?thesis using h ok ok1 c
    by (auto simp: http_handle_def http_dispatch_def with_body_def split: if_splits option.splits bool.splits dest: un re)
qed

lemma reap_ok:
  assumes x: "reg_ext_ok ex rx" and l: "\<forall>i. answered (ces i)"
  shows "both_ok ex st d \<Longrightarrow> distinct (map fst xs) \<Longrightarrow> set xs \<subseteq> set (ri_peer_to_octet st) \<Longrightarrow>
    reap ex rx ces st d xs = Some (st', d') \<Longrightarrow> both_ok ex st' d'"
proof (induction xs arbitrary: st d)
  case (Cons e xs)
  obtain h octet where e: "e = (h, octet)" by fastforce
  have m: "(h, octet) \<in> set (ri_peer_to_octet st)" using Cons.prems(3) by (simp add: e)
  obtain r d1 where u: "uapi_remove_peer ex rx (ces (length xs)) d h = Some (r, d1)"
    using Cons.prems(4) by (auto simp: e split: bind_splits)
  have sub: "set xs \<subseteq> set (ri_peer_to_octet (forget_peer st h octet))"
    using Cons.prems(2,3) by (auto simp: e forget_peer_def delete_set)
  show ?case
    using remove_step_ok [OF x Cons.prems(1) spec [OF l] m u] Cons.prems sub u
      Cons.IH [where st = "forget_peer st h octet" and d = d1] Cons.IH [where st = st and d = d]
    by (auto simp: e)
qed simp

lemma reaper_apply_ok:
  assumes x: "reg_ext_ok ex rx" and ok: "both_ok ex st d" and l: "\<forall>i. answered (ces i)"
    and r: "reaper_apply ex rx ces now snapshot st d = Some (st', d')"
  shows "both_ok ex st' d'"
proof -
  let ?xs = "filter (\<lambda>(k, _). is_stale st snapshot now k) (ri_peer_to_octet st)"
  obtain st1 where st1: "reap ex rx ces st d ?xs = Some (st1, d')" "st' = prune st1 now"
    using r by (auto simp: reaper_apply_def Let_def split: bind_splits)
  have "distinct (map fst ?xs)" using ok by (simp add: reg_ok_def distinct_map_filter)
  then show ?thesis using reap_ok [OF x l ok _ _ st1(1)] st1(2) by (simp add: prune_def)
qed

end
