(* ===== verification/Registration_Props.thy ===== *)
theory Registration_Props
  imports Registration_Run
begin

text \<open>
  The reachable states of the registration server and its device, and what holds in them:
  the tables agree, a registered key owns its address alone, requests are answered; and
  two ways in which the agreement is lost, an answer of the device that does not arrive and
  a round of the reaper that works with an old report.
\<close>

section \<open>The start\<close>

lemma init_request:
  assumes "length sk = 32"
  shows "api_handler ex b64 evs now d (map Some (stream_lines (ascii ''set=1'' @ [10] @
      field ''private_key'' (to_hex sk) @ [10] @ field ''listen_port'' (dec (port :: u16)) @ [10, 10]))) =
    Option.bind (set_key ex d sk (ue_dev (evs 3))) (\<lambda>d.
      let (ok, d) = open_listen_socket d (ue_bind (evs 2) port)
      in Some (status_lines (if ok then 0 else EADDRINUSE), d))"
proof -
  let ?ls = "[ascii ''set=1'', field ''private_key'' (to_hex sk), field ''listen_port'' (dec port), []]"
  have key: "10 \<notin> set (ascii ''private_key'')" "61 \<notin> set (ascii ''private_key'')" "10 \<notin> set (ascii ''listen_port'')"
      "61 \<notin> set (ascii ''listen_port'')" "ascii ''listen_port'' \<noteq> ascii ''private_key''"
    by code_simp+
  have hex: "10 \<notin> set (to_hex sk)" "61 \<notin> set (to_hex sk)" using to_hex_chars by blast+
  have port: "10 \<notin> set (dec port)" "61 \<notin> set (dec port)"
    using dec_of_nat_chars [of "unat port"] by (auto simp: dec_def)
  have nl: "\<forall>l \<in> set ?ls. 10 \<notin> set l" using field_no_newline key hex port keys_plain by simp
  have p: "parse_u16 (dec port) = Some port"
    using parse_uint_dec [of "unat port" 65536] unat_u16_less [of port] by (simp add: parse_u16_def dec_def)
  have "ascii ''set=1'' @ [10] @ field ''private_key'' (to_hex sk) @ [10] @ field ''listen_port'' (dec port) @ [10, 10] =
      with_newlines ?ls" by (simp add: with_newlines_def)
  then show ?thesis
    using keys_differ(1) hex_key_roundtrip [OF assms, of b64]
    by (cases "set_key ex d sk (ue_dev (evs 3))")
      (simp_all add: stream_with_newlines [OF nl] api_handler_def api_command_def pop_line field_nonempty
        split_on_field [OF key(2) hex(2)] split_on_field [OF key(4) port(2)] set_line_def key(5) p Let_def
        numeral_eq_Suc split: option.splits prod.splits)
qed

lemma set_key_tables:
  assumes "set_key ex d sk ev = Some d'" "dv_peers d = []"
  shows "dv_peers d' = [] \<and> dv_peers_by_ip d' = dv_peers_by_ip d \<and> dv_key_pair d' \<noteq> None"
  using assms by (cases "dv_key_pair d") (auto simp: set_key_def Let_def split: bind_splits if_splits)

lemma init_effect:
  assumes sk: "length sk = 32" and init: "init_wg_server ex rx ce1 ce2 d (Inr (to_hex sk)) port = Some (Inr pk, d')"
    and x: "reg_ext_ok ex rx"
  obtains d1 ev b where "set_key ex d sk ev = Some d1" "d' = snd (open_listen_socket d1 b)"
proof -
  obtain r d1 where r: "uapi_run_set ex rx ce1 d (field ''private_key'' (to_hex sk) @ [10] @
      field ''listen_port'' (dec port) @ [10, 10]) = Some (r, d1)"
    using init by (auto simp: init_wg_server_def split: bind_splits)
  have ok: "\<exists>u. r = Inr u" using init r by (auto simp: init_wg_server_def split: sum.splits)
  then obtain r2 where g: "uapi_get_peers ex rx ce2 d1 = Some (r2, d')"
    using init r by (auto simp: init_wg_server_def split: bind_splits)
  have d': "d' = d1" using uapi_get_cases [OF x g] by simp
  have s: "ce_link ce1 = Served"
    using r ok by (cases "ce_link ce1") (auto simp: uapi_run_set_def uapi_call_def)
  obtain d2 ok where "set_key ex d sk (ue_dev (ce_uapi ce1 3)) = Some d2"
      "open_listen_socket d2 (ue_bind (ce_uapi ce1 2) port) = (ok, d1)"
    using r init_request [OF sk, of ex "rx_b64_decode rx" "ce_uapi ce1" "ce_now ce1" d port]
    by (auto simp: uapi_run_set_def uapi_call_def s Let_def split: bind_splits prod.splits)
  then show thesis using that [of "ue_dev (ce_uapi ce1 3)" d2 "ue_bind (ce_uapi ce1 2) port"] d' by simp
qed

section \<open>Reachable states\<close>

text \<open>The server and its device from start-up on: HTTP requests, the second half of rounds
  of the reaper (with any snapshot, since requests may come after the device was asked), and
  events of the device.  Answers of the configuration socket arrive, or the connection is
  refused; the configuration is changed by the server only.\<close>

inductive reg_reach :: "('u, 't) ext \<Rightarrow> 'j reg_ext \<Rightarrow> registration_state \<Rightarrow> ('u, 't) device \<Rightarrow> bool"
  for ex :: "('u, 't) ext" and rx :: "'j reg_ext" where
  start: "lfsr_default draws = Some (l, draws') \<Longrightarrow> length sk = 32 \<Longrightarrow> length prefix = 3 \<Longrightarrow>
    init_wg_server ex rx ce1 ce2 (device_new ex l mtu uc cfg) (Inr (to_hex sk)) port = Some (Inr pk, d) \<Longrightarrow>
    reg_reach ex rx (registration_new hex_decode env prefix pc pip) d"
| request: "reg_reach ex rx st d \<Longrightarrow> http_handle ex rx st d req he = Some (resp, st', d') \<Longrightarrow>
    answered (hx_call1 he) \<Longrightarrow> answered (hx_call2 he) \<Longrightarrow> reg_reach ex rx st' d'"
| reaper: "reg_reach ex rx st d \<Longrightarrow> reaper_apply ex rx ces now snapshot st d = Some (st', d') \<Longrightarrow>
    \<forall>i. answered (ces i) \<Longrightarrow> reg_reach ex rx st' d'"
| device: "reg_reach ex rx st d \<Longrightarrow> event_out ex d e = Some (d', outs) \<Longrightarrow> \<forall>x. e \<noteq> Configure x \<Longrightarrow>
    reg_reach ex rx st d'"

lemma start_ok:
  assumes x: "reg_ext_ok ex rx" and l: "lfsr_default draws = Some (l, draws')" and k: "length sk = 32" "length prefix = 3"
    and i: "init_wg_server ex rx ce1 ce2 (device_new ex l mtu uc cfg) (Inr (to_hex sk)) port = Some (Inr pk, d)"
  shows "both_ok ex (registration_new hex_decode env prefix pc pip) d"
proof -
  let ?d0 = "device_new ex l mtu uc cfg"
  obtain d1 ev b where d1: "set_key ex ?d0 sk ev = Some d1" "d = snd (open_listen_socket d1 b)"
    using init_effect [OF k(1) i x] .
  have ok: "dev_ok ex d"
    unfolding d1(2) using device_new_ok [OF reg_ext_facts(1) [OF x] l] by (rule open_listen_socket_ok [OF set_key_ok [OF _ d1(1)]])
  have "dv_peers d1 = [] \<and> dv_peers_by_ip d1 = dv_peers_by_ip ?d0 \<and> dv_key_pair d1 \<noteq> None"
    by (rule set_key_tables [OF d1(1)]) (simp add: device_new_def)
  then have "dv_peers d = []" "dv_peers_by_ip d = aips_new (ex_dtab ex)"
    by (auto simp: d1(2) open_listen_socket_def Let_def device_new_def split: option.split)
  moreover have "it_iter (ex_dtab ex) (aips_new (ex_dtab ex)) = []"
    using reg_ext_facts(1) [OF x] by (simp add: ip_table_ok_def aips_new_def)
  ultimately show ?thesis using ok k(2) by (simp add: reg_ok_def reg_routes_def registration_new_def)
qed

lemma reach_ok:
  assumes "reg_reach ex rx st d" "reg_ext_ok ex rx"
  shows "both_ok ex st d"
  using assms(1)
proof (induction rule: reg_reach.induct)
  case (start draws l draws' sk prefix ce1 ce2 mtu uc cfg port pk d hex_decode env pc pip)
  show ?case by (rule start_ok [OF assms(2) start])
next
  case (request st d req he resp st' d')
  show ?case by (rule http_handle_ok [OF assms(2) request.IH request.hyps(3,4,2)])
next
  case (reaper st d ces now snapshot st' d')
  show ?case by (rule reaper_apply_ok [OF assms(2) reaper.IH reaper.hyps(3,2)])
next
  case (device st d e d' outs)
  have t: "same_tables d d'" using device.hyps(2,3) by (rule event_out_tables)
  have "dev_ok ex d'"
    using event_out_ok [OF reg_ext_facts(1) [OF assms(2)] _ device.hyps(2)] device.IH by blast
  then show ?case using reg_ok_device device.IH t unfolding same_tables_def by blast
qed

lemma route_iff:
  assumes x: "reg_ext_ok ex rx" and ok: "both_ok ex st d"
  shows "aips_find (ex_dtab ex) (dv_peers_by_ip d) addr = Some a \<longleftrightarrow>
    (\<exists>k octet. map_of (dv_peers d) k = Some a \<and> map_of (ri_peer_to_octet st) (to_hex k) = Some octet \<and>
      addr = V4 (assigned_ip st octet))"
proof -
  let ?E = "set (it_iter (ex_dtab ex) (dv_peers_by_ip d))"
  have R: "?E = reg_routes st (dv_peers d)" "length (rs_subnet_prefix st) = 3"
      "distinct (map fst (ri_peer_to_octet st))" "distinct (map snd (ri_peer_to_octet st))"
    and P: "distinct (map fst (dv_peers d))"
    using ok by (simp_all add: reg_ok_def dev_ok_def peers_ok_def)
  have c: "in_contains (ex_net ex) (V4 (assigned_ip st octet), 32) addr \<longleftrightarrow> addr = V4 (assigned_ip st octet)" for octet
    using x assigned_ip_length [OF R(2)] by (rule reg_ext_facts(3))
  have route: "((V4 (assigned_ip st octet), 32), b) \<in> ?E \<longleftrightarrow>
      (\<exists>k. map_of (dv_peers d) k = Some b \<and> map_of (ri_peer_to_octet st) (to_hex k) = Some octet)" for octet b
    unfolding R(1) routes_iff using P R(3) assigned_ip_inject [OF R(2)] by auto
  have same: "b = b'" if e1: "((V4 (assigned_ip st octet), 32), b) \<in> ?E" and e2: "((V4 (assigned_ip st octet), 32), b') \<in> ?E" for octet b b'
  proof -
    obtain k where k1: "map_of (dv_peers d) k = Some b" "map_of (ri_peer_to_octet st) (to_hex k) = Some octet"
      using e1 unfolding route by blast
    obtain k' where k2: "map_of (dv_peers d) k' = Some b'" "map_of (ri_peer_to_octet st) (to_hex k') = Some octet"
      using e2 unfolding route by blast
    have "to_hex k = to_hex k'"
      using map_of_SomeD [OF k1(2)] map_of_SomeD [OF k2(2)] R(4) unfolding distinct_map by (metis inj_onD fst_conv snd_conv)
    then show ?thesis using k1(1) k2(1) by (simp add: to_hex_inject)
  qed
  have m: "case it_longest_match (ex_dtab ex) (dv_peers_by_ip d) addr of
         None \<Rightarrow> \<forall>e \<in> ?E. \<not> in_contains (ex_net ex) (fst e) addr
       | Some m \<Rightarrow> m \<in> ?E \<and> in_contains (ex_net ex) (fst m) addr"
    using table_match [OF reg_ext_facts(1) [OF x], of "dv_peers_by_ip d" addr]
    by (cases "it_longest_match (ex_dtab ex) (dv_peers_by_ip d) addr") simp_all
  have entry: "e \<in> ?E \<Longrightarrow> \<exists>octet b. e = ((V4 (assigned_ip st octet), 32), b)" for e unfolding R(1) routes_iff by blast
  have "aips_find (ex_dtab ex) (dv_peers_by_ip d) addr = Some a \<longleftrightarrow> (\<exists>octet. ((V4 (assigned_ip st octet), 32), a) \<in> ?E \<and>
      addr = V4 (assigned_ip st octet))"
  proof (cases "it_longest_match (ex_dtab ex) (dv_peers_by_ip d) addr")
    case None
    then show ?thesis using m c unfolding aips_find_def by fastforce
  next
    case (Some e)
    then obtain octet b where e: "e = ((V4 (assigned_ip st octet), 32), b)" "e \<in> ?E" "addr = V4 (assigned_ip st octet)"
      using m entry c by fastforce
    then show ?thesis using Some same assigned_ip_inject [OF R(2)] unfolding aips_find_def by auto
  qed
  then show ?thesis unfolding route by blast
qed

section \<open>Properties\<close>

text \<open>C7: the registration server and the device agree.  In every reachable state the
  registered keys are exactly the keys of the device's peers, no address is given out twice,
  the free addresses are the others of the pool, and the device leads a packet for an
  address to a peer if and only if the address is the one that was assigned to its key.\<close>

theorem registrations_agree:
  assumes "reg_ext_ok ex rx" "reg_reach ex rx st d"
  shows "ri_registered_peers st = to_hex ` fst ` set (dv_peers d) \<and>
    (\<forall>h h' octet. map_of (ri_peer_to_octet st) h = Some octet \<and> map_of (ri_peer_to_octet st) h' = Some octet \<longrightarrow> h = h') \<and>
    ri_available_ips st = octet_pool - ran (map_of (ri_peer_to_octet st)) \<and>
    (\<forall>addr a. aips_find (ex_dtab ex) (dv_peers_by_ip d) addr = Some a \<longleftrightarrow>
      (\<exists>k octet. map_of (dv_peers d) k = Some a \<and> map_of (ri_peer_to_octet st) (to_hex k) = Some octet \<and>
        addr = V4 (assigned_ip st octet)))"
proof -
  have ok: "both_ok ex st d" by (rule reach_ok [OF assms(2,1)])
  let ?po = "ri_peer_to_octet st"
  have R: "distinct (map fst ?po)" "distinct (map snd ?po)" "fst ` set ?po = (to_hex \<circ> fst) ` set (dv_peers d)"
      "ri_registered_peers st = fst ` set ?po" "ri_available_ips st = octet_pool - snd ` set ?po"
    using ok by (simp_all add: reg_ok_def)
  have "h = h'" if "map_of ?po h = Some octet" "map_of ?po h' = Some octet" for h h' octet
    using map_of_SomeD [OF that(1)] map_of_SomeD [OF that(2)] R(2) unfolding distinct_map by (metis inj_onD fst_conv snd_conv)
  moreover have "ran (map_of ?po) = snd ` set ?po" by (rule ran_distinct) (rule R(1))
  ultimately show ?thesis using route_iff [OF assms(1) ok] R(3-5) by (simp add: image_comp)
qed

text \<open>The body of a request to register.\<close>

definition register_request :: "'j reg_ext \<Rightarrow> http_request \<Rightarrow> bytes \<Rightarrow> bool" where
  "register_request rx req k \<longleftrightarrow> hr_method req = Post \<and> hr_url req = ascii ''/v1/register'' \<and>
     (case hr_body req of Some body \<Rightarrow>
        (case body_pubkey rx body of Inr (_, pk) \<Rightarrow> rx_b64_decode rx (trim pk) = Some k | Inl _ \<Rightarrow> False)
      | None \<Rightarrow> False)"

lemma add_peer_reply:
  assumes x: "reg_ext_ok ex rx" and ok: "both_ok ex st d" and k: "length k = 32"
    and a: "add_peer ex rx ce now st d (to_hex k) = Some ((200, reply), st', d')"
  shows "\<exists>octet. map_of (ri_peer_to_octet st') (to_hex k) = Some octet \<and> (200, reply) = success_response ex st' octet"
proof -
  let ?o = "rx_first_ip rx (ri_available_ips st)"
  have ip: "length (assigned_ip st ?o) = 4" using ok by (simp add: reg_ok_def assigned_ip_length)
  have "st' = record_peer st (to_hex k) ?o now \<and> (200, reply) = success_response ex st' ?o"
    using a by (auto simp: add_peer_def Let_def success_response_def split: if_splits bind_splits sum.splits)
  then show ?thesis by (auto simp: record_peer_def AList.update_conv)
qed

lemma registration_reply:
  assumes x: "reg_ext_ok ex rx" and ok: "both_ok ex st d" and k: "rx_b64_decode rx (trim pk) = Some k"
    and h: "handle_registration ex rx ce1 ce2 now st d pk = Some ((200, reply), st', d')"
  shows "length k = 32 \<and> (\<exists>octet. map_of (ri_peer_to_octet st') (to_hex k) = Some octet \<and>
    (200, reply) = success_response ex st' octet)"
proof -
  have hex: "ex_hex_encode ex k = to_hex k" by (rule reg_ext_facts(4) [OF x])
  have len: "length k = 32" using h k by (auto simp: handle_registration_def split: if_splits)
  obtain answer st1 d1 where f: "fill_caches ex rx ce1 st d = Some (answer, st1, d1)"
    using h k len by (auto simp: handle_registration_def Let_def split: bind_splits)
  note ok1 = fill_caches_ok [OF x ok f]
  have "fst resp \<noteq> 200" if "answer = Some resp" for resp
    using f that by (auto simp: fill_caches_def split: if_splits bind_splits sum.splits option.splits prod.splits)
  then show ?thesis using h len f add_peer_reply [OF x _ len, where st = st1 and d = d1 and st' = st' and d' = d'] ok1
    by (auto simp: handle_registration_def Let_def k hex split: option.splits if_splits)
qed

lemma register_succeeds:
  assumes "reg_ext_ok ex rx" "reg_reach ex rx st d" "register_request rx req k"
    and "http_handle ex rx st d req he = Some ((200, reply), st', d')" "answered (hx_call1 he)" "answered (hx_call2 he)"
  shows "\<exists>octet a. map_of (ri_peer_to_octet st') (to_hex k) = Some octet \<and> octet \<in> octet_pool \<and>
    map_of (dv_peers d') k = Some a \<and> aips_find (ex_dtab ex) (dv_peers_by_ip d') (V4 (assigned_ip st' octet)) = Some a \<and>
    (200, reply) = success_response ex st' octet"
proof -
  note ok = reach_ok [OF assms(2,1)]
  have ok': "both_ok ex st' d'" by (rule http_handle_ok [OF assms(1) ok assms(5,6,4)])
  obtain body json pk where r: "hr_method req = Post" "hr_url req = ascii ''/v1/register''" "hr_body req = Some body"
      "body_pubkey rx body = Inr (json, pk)" "rx_b64_decode rx (trim pk) = Some k"
    using assms(3) by (auto simp: register_request_def split: option.splits sum.splits)
  obtain b st1 where c: "check_rate (rx_rnd rx) st (hr_remote req) (hx_now he) = (b, st1)" by fastforce
  have ok1: "both_ok ex st1 d" using check_rate_ok [OF ok c] .
  have url: "ascii ''/v1/register'' \<noteq> ascii ''/health''" "ascii ''/v1/register'' \<noteq> ascii ''/v1/rp-context''" by code_simp+
  have "\<exists>st2. both_ok ex st2 d \<and> handle_registration ex rx (hx_call1 he) (hx_call2 he) (hx_now he) st2 d pk =
      Some ((200, reply), st', d')"
    using assms(4) r c ok1
    by (auto simp: http_handle_def http_dispatch_def with_body_def handle_registration_v2_def
        split: if_splits bool.splits option.splits sum.splits intro: exI [of _ "st1\<lparr>ri_used_nullifiers := n\<rparr>" for n])
  then obtain octet where o: "length k = 32" "map_of (ri_peer_to_octet st') (to_hex k) = Some octet"
      "(200, reply) = success_response ex st' octet"
    using registration_reply [OF assms(1) _ r(5)] by blast
  have R: "fst ` set (ri_peer_to_octet st') = (to_hex \<circ> fst) ` set (dv_peers d')" "snd ` set (ri_peer_to_octet st') \<subseteq> octet_pool"
    using ok' by (simp_all add: reg_ok_def)
  have "octet \<in> octet_pool" using map_of_SomeD [OF o(2)] R(2) by force
  moreover have "k \<in> fst ` set (dv_peers d')"
  proof -
    have "to_hex k \<in> fst ` set (ri_peer_to_octet st')" using map_of_SomeD [OF o(2)] by force
    then show ?thesis unfolding R(1) by (auto simp: to_hex_inject image_iff)
  qed
  then obtain a where "map_of (dv_peers d') k = Some a" by (metis map_of_eq_None_iff not_None_eq)
  ultimately show ?thesis using o route_iff [OF assms(1) ok'] by blast
qed

text \<open>C14: whoever is told 200 owns the address.  When a request to register a key is
  answered with success, from any reachable state, the answer names the address under which
  the key is recorded, the key is a peer of the device, and the device leads packets for the
  address to this peer.\<close>

theorem registered_address_routes:
  assumes "reg_ext_ok ex rx" "reg_reach ex rx st d" "register_request rx req k"
    and "http_handle ex rx st d req he = Some ((200, reply), st', d')" "answered (hx_call1 he)" "answered (hx_call2 he)"
  shows "\<exists>octet a. map_of (ri_peer_to_octet st') (to_hex k) = Some octet \<and> octet \<in> octet_pool \<and>
    map_of (dv_peers d') k = Some a \<and> aips_find (ex_dtab ex) (dv_peers_by_ip d') (V4 (assigned_ip st' octet)) = Some a \<and>
    (200, reply) = success_response ex st' octet"
  by (rule register_succeeds [OF assms])

section \<open>Requests are answered\<close>

lemma add_op_returns:
  assumes "reg_ext_ok ex rx" "length ip = 4" "map_of (dv_peers d) k = None" "dv_key_pair d \<noteq> None"
    and "lfsr_next (dv_next_index d) \<noteq> None"
  shows "\<exists>d'. add_op ex ce d k ip = Some d'"
  using assms(3-5) reg_ext_facts(2) [OF assms(1,2)]
  by (auto simp: add_op_def update_peer_def peer_new_def aips_from_iter_def aips_insert_def Let_def)

lemma add_peer_returns:
  assumes x: "reg_ext_ok ex rx" and ok: "both_ok ex st d" and k: "length k = 32" "map_of (dv_peers d) k = None"
    and c: "ri_server_pubkey_cache st \<noteq> None" and l: "lfsr_next (dv_next_index d) \<noteq> None"
  shows "\<exists>r. add_peer ex rx ce now st d (to_hex k) = Some r"
proof -
  let ?o = "rx_first_ip rx (ri_available_ips st)"
  have ip: "length (assigned_ip st ?o) = 4" using ok by (simp add: reg_ok_def assigned_ip_length)
  have "dv_key_pair d \<noteq> None" using ok c by (simp add: reg_ok_def)
  then obtain d' where "add_op ex ce d k (assigned_ip st ?o) = Some d'" using add_op_returns [OF x ip k(2) _ l] by blast
  then show ?thesis by (simp add: add_peer_def Let_def uapi_set_peer_effect [OF k(1) ip] split: link.split)
qed

lemma unknown_key:
  assumes "reg_ok ex st d" "map_of (ri_peer_to_octet st) (to_hex k) = None"
  shows "map_of (dv_peers d) k = None"
proof (rule ccontr)
  assume "map_of (dv_peers d) k \<noteq> None"
  then obtain a where "(k, a) \<in> set (dv_peers d)" by (auto dest: map_of_SomeD)
  then have "to_hex k \<in> (to_hex \<circ> fst) ` set (dv_peers d)" by (rule rev_image_eqI) simp
  moreover have "fst ` set (ri_peer_to_octet st) = (to_hex \<circ> fst) ` set (dv_peers d)" using assms(1) by (simp add: reg_ok_def)
  ultimately show False using assms(2) by (simp add: map_of_eq_None_iff)
qed

lemma handle_registration_returns:
  assumes x: "reg_ext_ok ex rx" and ok: "both_ok ex st d" and l: "lfsr_next (dv_next_index d) \<noteq> None"
    and g: "api_get ex d (ce_now ce1) \<noteq> None"
  shows "\<exists>r. handle_registration ex rx ce1 ce2 now st d pk = Some r"
proof (cases "\<exists>k. rx_b64_decode rx (trim pk) = Some k \<and> length k = 32")
  case False
  then show ?thesis by (auto simp: handle_registration_def split: option.split)
next
  case True
  then obtain k where k: "rx_b64_decode rx (trim pk) = Some k" "length k = 32" by blast
  have hex: "ex_hex_encode ex k = to_hex k" by (rule reg_ext_facts(4) [OF x])
  have "\<exists>r. uapi_get_peers ex rx ce1 d = Some (r, d)"
    using g by (auto simp: uapi_get_peers_def get_request split: link.split)
  then have "\<exists>f. fill_caches ex rx ce1 st d = Some f"
    by (cases "ri_server_pubkey_cache st") (auto simp: fill_caches_def simp del: split_paired_Ex)
  then obtain f where f: "fill_caches ex rx ce1 st d = Some f" by blast
  obtain answer st1 d1 where f1: "f = (answer, st1, d1)" by (cases f) auto
  note ok1 = fill_caches_ok [OF x ok f [unfolded f1]]
  show ?thesis
  proof (cases "answer = None \<and> map_of (ri_peer_to_octet st1) (to_hex k) = None")
    case True
    then obtain r where "add_peer ex rx ce2 now st1 d (to_hex k) = Some r"
      using add_peer_returns [OF x _ k(2) unknown_key _ l] ok1 by blast
    then show ?thesis using f f1 ok1 True
      by (simp add: handle_registration_def Let_def k hex del: split_paired_Ex)
  next
    case False
    have "ri_registered_peers st1 = fst ` set (ri_peer_to_octet st1)" using ok1 by (simp add: reg_ok_def)
    then have "map_of (ri_peer_to_octet st1) h \<noteq> None \<Longrightarrow> h \<in> ri_registered_peers st1" for h
      by (simp add: map_of_eq_None_iff)
    then show ?thesis using f f1 False by (cases answer) (auto simp: handle_registration_def Let_def k hex)
  qed
qed

lemma remove_returns:
  assumes ok: "both_ok ex st d" and m: "h \<in> fst ` set (ri_peer_to_octet st)"
  shows "\<exists>r. uapi_remove_peer ex rx ce d h = Some r"
proof -
  obtain k where "h = to_hex k" "length k = 32" using known_key [of ex st d h] ok m by blast
  then show ?thesis by (simp add: uapi_remove_peer_effect split: link.split)
qed

lemma reap_returns:
  assumes x: "reg_ext_ok ex rx" and l: "\<forall>i. answered (ces i)"
  shows "both_ok ex st d \<Longrightarrow> distinct (map fst xs) \<Longrightarrow> set xs \<subseteq> set (ri_peer_to_octet st) \<Longrightarrow>
    \<exists>r. reap ex rx ces st d xs = Some r"
proof (induction xs arbitrary: st d)
  case (Cons e xs)
  obtain h octet where e: "e = (h, octet)" by fastforce
  have m: "(h, octet) \<in> set (ri_peer_to_octet st)" using Cons.prems(3) by (simp add: e)
  then obtain r d1 where u: "uapi_remove_peer ex rx (ces (length xs)) d h = Some (r, d1)"
    using remove_returns [OF Cons.prems(1)] by force
  have sub: "set xs \<subseteq> set (ri_peer_to_octet (forget_peer st h octet))"
    using Cons.prems(2,3) by (auto simp: e forget_peer_def delete_set)
  show ?case
    using remove_step_ok [OF x Cons.prems(1) spec [OF l] m u] Cons.prems sub u
      Cons.IH [where st = "forget_peer st h octet" and d = d1] Cons.IH [where st = st and d = d]
    by (auto simp: e)
qed simp


section \<open>How the agreement is lost\<close>

text \<open>C39: an answer that is lost takes the device down.  When the device adds the peer but its
  answer does not reach the server (the socket's timeout of five seconds), the request fails
  with status 500 and the server keeps its tables; the client's next attempt is sent to the
  device again, which panics because the peer exists.\<close>

theorem lost_answer_then_panic:
  assumes x: "reg_ext_ok ex rx" and r: "reg_reach ex rx st d" and c: "ri_server_pubkey_cache st \<noteq> None"
    and k: "rx_b64_decode rx (trim pk) = Some k" "length k = 32" "to_hex k \<notin> ri_registered_peers st"
    and i: "ri_available_ips st \<noteq> {}" "lfsr_next (dv_next_index d) \<noteq> None"
    and l: "ce_link ce2 = AnswerLost e"
  shows "\<exists>msg d1. handle_registration ex rx ce1 ce2 now st d pk = Some ((500, msg), st, d1) \<and>
    map_of (dv_peers d1) k \<noteq> None \<and>
    (\<forall>ce1 ce2 now. ce_link ce2 = Served \<longrightarrow> handle_registration ex rx ce1 ce2 now st d1 pk = None)"
proof -
  note ok = reach_ok [OF r x]
  have hex: "ex_hex_encode ex k = to_hex k" by (rule reg_ext_facts(4) [OF x])
  let ?ip = "assigned_ip st (rx_first_ip rx (ri_available_ips st))"
  have ip: "length ?ip = 4" using ok by (simp add: reg_ok_def assigned_ip_length)
  have f: "fill_caches ex rx ce st d = Some (None, st, d)" for ce d using c by (simp add: fill_caches_def)
  have h: "handle_registration ex rx ce1 ce2 now st d pk = add_peer ex rx ce2 now st d (to_hex k)" for ce1 ce2 now d
    using f k by (simp add: handle_registration_def Let_def hex)
  have "ri_registered_peers st = fst ` set (ri_peer_to_octet st)" "dv_key_pair d \<noteq> None" using ok c by (simp_all add: reg_ok_def)
  then have "map_of (dv_peers d) k = None" using ok k(3) by (intro unknown_key [where ex = ex]) (simp_all add: map_of_eq_None_iff)
  then obtain d1 where d1: "add_op ex ce2 d k ?ip = Some d1"
    using add_op_returns [OF x ip _ \<open>dv_key_pair d \<noteq> None\<close> i(2)] by blast
  have "\<exists>msg. add_peer ex rx ce2 now st d (to_hex k) = Some ((500, msg), st, d1)"
    using i(1) l d1 by (simp add: add_peer_def Let_def uapi_set_peer_effect [OF k(2) ip])
  moreover have peer: "map_of (dv_peers d1) k \<noteq> None"
    using add_op_tables(1,2) [OF x ip d1] by (simp add: map_add_def)
  moreover have "add_peer ex rx ce' now' st d1 (to_hex k) = None" if "ce_link ce' = Served" for ce' now'
  proof -
    have "add_op ex ce' d1 k ?ip = None" using peer by (simp add: add_op_def update_peer_def)
    then show ?thesis using i(1) that by (simp add: add_peer_def Let_def uapi_set_peer_effect [OF k(2) ip])
  qed
  ultimately show ?thesis unfolding h by blast
qed

lemma reap_removes:
  assumes x: "reg_ext_ok ex rx" and l: "\<forall>i. ce_link (ces i) = Served"
  shows "both_ok ex st d \<Longrightarrow> distinct (map fst xs) \<Longrightarrow> set xs \<subseteq> set (ri_peer_to_octet st) \<Longrightarrow>
    reap ex rx ces st d xs = Some (st', d') \<Longrightarrow>
    set (ri_peer_to_octet st') = {e \<in> set (ri_peer_to_octet st). fst e \<notin> fst ` set xs}"
proof (induction xs arbitrary: st d)
  case (Cons e xs)
  obtain h octet where e: "e = (h, octet)" by fastforce
  have m: "(h, octet) \<in> set (ri_peer_to_octet st)" using Cons.prems(3) by (simp add: e)
  have a: "answered (ces (length xs))" using l by (simp add: answered_def)
  obtain r d1 where u: "uapi_remove_peer ex rx (ces (length xs)) d h = Some (r, d1)"
    using Cons.prems(4) by (auto simp: e split: bind_splits)
  obtain k where k: "h = to_hex k" "length k = 32" using known_key [of ex st d h] Cons.prems(1) m by force
  have "r = Inr True" using u l by (simp add: k(1) uapi_remove_peer_effect [OF k(2)])
  note step = remove_step_ok [OF x Cons.prems(1) a m u]
  have sub: "set xs \<subseteq> set (ri_peer_to_octet (forget_peer st h octet))"
    using Cons.prems(2,3) by (auto simp: e forget_peer_def delete_set)
  have "set (ri_peer_to_octet st') = {e \<in> set (ri_peer_to_octet (forget_peer st h octet)). fst e \<notin> fst ` set xs}"
    using step Cons.prems(2,4) sub u \<open>r = Inr True\<close> by (intro Cons.IH [where d = d1]) (auto simp: e)
  then show ?case by (simp add: e forget_peer_def delete_set conj_assoc Collect_conj_eq)
qed simp

lemma report_all_keys: "fst ` set (report_all m xs) = fst ` set m \<union> fst ` set xs"
  by (induction m xs rule: report_all.induct) (auto simp: dom_update)

text \<open>C40: a round of the reaper can remove a peer that has just registered.  The reaper asks the
  device for its peers before it locks the tables; a client that registers in between is
  answered 200, and the same round takes its key and its peer away again, because the
  report does not name it.\<close>

theorem reaper_removes_fresh_peer:
  assumes x: "reg_ext_ok ex rx" and r: "reg_reach ex rx st0 d0"
    and snap: "uapi_get_peers ex rx ce d0 = Some (Inr (pk, port, snapshot), d0)"
    and req: "register_request rx req k" "to_hex k \<notin> ri_registered_peers st0"
    and h: "http_handle ex rx st0 d0 req he = Some ((200, reply), st, d)" "answered (hx_call1 he)" "answered (hx_call2 he)"
    and reap: "reaper_apply ex rx ces now snapshot st d = Some (st', d')" "\<forall>i. ce_link (ces i) = Served"
  shows "map_of (dv_peers d) k \<noteq> None \<and> map_of (dv_peers d') k = None \<and> to_hex k \<notin> ri_registered_peers st'"
proof -
  note ok0 = reach_ok [OF r x]
  have ok: "both_ok ex st d" by (rule http_handle_ok [OF x ok0 h(2,3,1)])
  obtain octet a where o: "map_of (ri_peer_to_octet st) (to_hex k) = Some octet" "map_of (dv_peers d) k = Some a"
    using register_succeeds [OF x r req(1) h] by blast
  have served: "ce_link ce = Served" using snap by (auto simp: uapi_get_peers_def get_request split: link.splits)
  then obtain ls where ls: "api_get ex d0 (ce_now ce) = Some ls"
    using snap by (auto simp: uapi_get_peers_def get_request)
  have "snapshot = report_all [] (map (report_of ex (dv_heap d0) (ce_now ce)) (dv_peers d0))"
    using uapi_get_answer(1) [OF _ _ served ls, of rx] reg_ext_facts(4,5) [OF x] snap by simp
  then have "fst ` set snapshot = (to_hex \<circ> fst) ` set (dv_peers d0)"
    by (simp add: report_all_keys report_of_def reg_ext_facts(4) [OF x] image_image comp_def)
  moreover have "ri_registered_peers st0 = (to_hex \<circ> fst) ` set (dv_peers d0)" using ok0 by (simp add: reg_ok_def)
  ultimately have none: "map_of snapshot (to_hex k) = None" using req(2) by (simp add: map_of_eq_None_iff)
  let ?xs = "filter (\<lambda>(k, _). is_stale st snapshot now k) (ri_peer_to_octet st)"
  obtain st1 where st1: "reap ex rx ces st d ?xs = Some (st1, d')" "st' = prune st1 now"
    using reap(1) by (auto simp: reaper_apply_def Let_def split: bind_splits)
  have dist: "distinct (map fst ?xs)" using ok by (simp add: reg_ok_def distinct_map_filter)
  have "(to_hex k, octet) \<in> set ?xs" using map_of_SomeD [OF o(1)] none by (simp add: is_stale_def)
  then have "to_hex k \<in> fst ` set ?xs" by force
  then have gone: "to_hex k \<notin> fst ` set (ri_peer_to_octet st1)"
    using reap_removes [OF x reap(2) ok dist _ st1(1)] by auto
  have ok1: "both_ok ex st1 d'"
    using reap_ok [OF x _ ok dist _ st1(1)] reap(2) by (simp add: answered_def)
  then have "map_of (dv_peers d') k = None" using gone by (intro unknown_key [where ex = ex]) (simp_all add: map_of_eq_None_iff)
  moreover have "to_hex k \<notin> ri_registered_peers st'" using ok1 gone by (simp add: st1(2) prune_def reg_ok_def)
  ultimately show ?thesis using o(2) by simp
qed

section \<open>The rate limiter of the server\<close>

lemma map_of_filter_keep:
  "distinct (map fst m) \<Longrightarrow>
    map_of (filter P m) k = (case map_of m k of Some v \<Rightarrow> if P (k, v) then Some v else None | None \<Rightarrow> None)"
  by (induction m) (auto simp: map_of_eq_None_iff split: option.split)

lemma try_consume_full:
  assumes "mono rnd" "rnd 0 = 0" "rnd 10 = 10" "rnd 300 = 300" "0 \<le> tb_tokens b"
    and "RATE_LIMITER_PRUNE_SECS \<le> (now - tb_last_refill b) div 1000000000"
  shows "try_consume rnd b now = (True, \<lparr>tb_tokens = rnd 9, tb_last_refill = now\<rparr>)"
proof -
  let ?ns = "now - tb_last_refill b" and ?e = "as_secs_f64 rnd (now - tb_last_refill b)"
  have up: "c = rnd c \<Longrightarrow> c \<le> x \<Longrightarrow> c \<le> rnd x" for c x using assms(1) by (metis monoD)
  have "300 \<le> ?ns div 1000000000" using assms(6) by (simp add: RATE_LIMITER_PRUNE_SECS_def)
  from of_nat_mono [OF this, where 'a = rat] have "300 \<le> rnd (of_nat (?ns div 1000000000))"
    by (intro up) (simp_all add: assms(4))
  moreover have "0 \<le> rnd (of_nat (?ns mod 1000000000) / 1000000000)" by (intro up) (simp_all add: assms(2) del: of_nat_mod)
  ultimately have "300 \<le> rnd (of_nat (?ns div 1000000000)) + rnd (of_nat (?ns mod 1000000000) / 1000000000)" by linarith
  then have "300 \<le> ?e" unfolding as_secs_f64_def by (rule up [OF assms(4) [symmetric]])
  then have "300 \<le> rnd (?e * RATE_LIMIT_PER_SEC)" by (intro up) (simp_all add: assms(4) RATE_LIMIT_PER_SEC_def)
  then have "300 \<le> rnd (tb_tokens b + rnd (?e * RATE_LIMIT_PER_SEC))" using assms(5) by (intro up) (simp_all add: assms(4))
  then have "min (rnd (tb_tokens b + rnd (?e * RATE_LIMIT_PER_SEC))) 10 = 10" by (simp add: min_def)
  then show ?thesis unfolding try_consume_def Let_def RATE_LIMIT_BURST_def of_nat_numeral by simp
qed

lemma try_consume_new:
  assumes "rnd 0 = 0" "rnd 10 = 10"
  shows "try_consume rnd (token_bucket_new now) now = (True, \<lparr>tb_tokens = rnd 9, tb_last_refill = now\<rparr>)"
  using assms by (simp add: try_consume_def token_bucket_new_def as_secs_f64_def RATE_LIMIT_BURST_def Let_def)

text \<open>Forgetting old buckets is not noticed.  The reaper drops the buckets of addresses that
  have been silent for five minutes; a later request from any address is allowed or refused as
  if they had been kept, and leaves the same bucket.  Rounding to \<open>f64\<close> is any monotone
  function that is exact on 0, 10 and 300.\<close>

lemma prune_invisible:
  assumes "mono rnd" "rnd 0 = 0" "rnd 10 = 10" "rnd 300 = 300"
    and "\<forall>(ip, b) \<in> set (rs_rate_limiter st). 0 \<le> tb_tokens b" "distinct (map fst (rs_rate_limiter st))" "t \<le> now"
    and "check_rate rnd (prune st t) (Some ip) now = (ok, st')"
  shows "\<exists>st2. check_rate rnd st (Some ip) now = (ok, st2) \<and>
    map_of (rs_rate_limiter st') ip = map_of (rs_rate_limiter st2) ip"
proof -
  let ?keep = "\<lambda>(_, b). (t - tb_last_refill b) div 1000000000 < RATE_LIMITER_PRUNE_SECS"
  let ?m = "rs_rate_limiter st"
  have eq: "map_of (filter ?keep ?m) ip = (case map_of ?m ip of Some b \<Rightarrow> if ?keep (ip, b) then Some b else None | None \<Rightarrow> None)"
    by (rule map_of_filter_keep) (rule assms(6))
  show ?thesis
  proof (cases "map_of (filter ?keep ?m) ip = map_of ?m ip")
    case True
    then show ?thesis using assms(8) by (auto simp: check_rate_def prune_def Let_def AList.update_conv split: prod.splits)
  next
    case False
    then obtain b where b: "map_of ?m ip = Some b" "\<not> ?keep (ip, b)" "map_of (filter ?keep ?m) ip = None"
      using eq by (auto split: option.splits if_splits)
    have "RATE_LIMITER_PRUNE_SECS \<le> (t - tb_last_refill b) div 1000000000" using b(2) by simp
    also have "\<dots> \<le> (now - tb_last_refill b) div 1000000000" using assms(7) by (intro div_le_mono) simp
    finally have full: "try_consume rnd b now = (True, \<lparr>tb_tokens = rnd 9, tb_last_refill = now\<rparr>)"
      using assms(5) map_of_SomeD [OF b(1)] by (intro try_consume_full [OF assms(1-4)]) auto
    show ?thesis using assms(8) b(1,3) full try_consume_new [of rnd now, OF assms(2,3)]
      by (auto simp: check_rate_def prune_def Let_def AList.update_conv)
  qed
qed

section \<open>A server with parameters that satisfy the assumptions\<close>

definition toy_rext :: "(toy_t, toy_d) ext" where "toy_rext = toy_ext\<lparr>ex_hex_encode := to_hex\<rparr>"

text \<open>A request body is the key itself.\<close>

definition toy_json :: "bytes json_api" where
  "toy_json = \<lparr>js_parse = Some, js_get = (\<lambda>j k. if k = ascii ''public_key'' then Some j else None), js_str = Some,
     js_bool = (\<lambda>_. None), js_first = (\<lambda>_. None), js_error = id\<rparr>"

definition toy_rx :: "bytes reg_ext" where
  "toy_rx = \<lparr>rx_json = toy_json, rx_b64_decode = Some, rx_b64_encode = id,
     rx_hex_decode = (\<lambda>s. case parse_hex_key s of Some (Inr b) \<Rightarrow> Some b | _ \<Rightarrow> None), rx_env = (\<lambda>_. None),
     rx_first_ip = Min, rx_world_api = (\<lambda>_ _. Inl []), rx_rnd = id\<rparr>"

lemma toy_reg_ext_ok: "reg_ext_ok toy_rext toy_rx"
  by (simp add: reg_ext_ok_def toy_rext_def toy_rx_def toy_ext_def toy_table_ok parse_to_hex Min_in)
    (auto simp: toy_net_def)

definition toy_call :: "link \<Rightarrow> call_env" where
  "toy_call l = \<lparr>ce_link = l, ce_uapi = (\<lambda>_. \<lparr>ue_dev = toy_dev_env, ue_bind = Some, ue_mark_ok = True\<rparr>), ce_now = (\<lambda>_. 0)\<rparr>"

definition toy_reg :: registration_state where
  "toy_reg = registration_new Some (\<lambda>_. None) [10, 0, 0]
     \<lparr>sn_chain_id = 1, sn_gateway_wallet = [], sn_usdc_contract = [], sn_amount_per_quota = 0, sn_quota_bytes = 0\<rparr> []"

abbreviation "toy_device0 \<equiv> device_new toy_rext \<lparr>lf_initial = 5, lf_lfsr = 5, lf_mask = 9\<rparr> 1420 True toy_config"

lemma toy_call_simps [simp]:
  "ce_link (toy_call l) = l" "answered (toy_call Served)" "answered (toy_call (Refused e))"
  by (simp_all add: toy_call_def answered_def)

lemma toy_start:
  "\<exists>d. reg_reach toy_rext toy_rx toy_reg d \<and> dv_peers d = [] \<and> dv_key_pair d \<noteq> None \<and>
    dv_next_index d = \<lparr>lf_initial = 5, lf_lfsr = 5, lf_mask = 9\<rparr>"
proof -
  let ?sk = "replicate 32 (1 :: u8)" and ?ce = "toy_call Served"
  obtain d1 where d1: "set_key toy_rext toy_device0 ?sk toy_dev_env = Some d1" "dv_peers d1 = []" "dv_key_pair d1 \<noteq> None"
      "dv_next_index d1 = \<lparr>lf_initial = 5, lf_lfsr = 5, lf_mask = 9\<rparr>"
    by (cases "pc_is_server toy_config")
      (simp_all add: set_key_def Let_def device_new_def toy_rext_def toy_ext_def toy_key_wallet)
  obtain d where d: "open_listen_socket d1 (Some 51820) = (True, d)" "dv_peers d = []" "dv_key_pair d \<noteq> None"
      "dv_next_index d = \<lparr>lf_initial = 5, lf_lfsr = 5, lf_mask = 9\<rparr>"
    using d1 by (simp add: open_listen_socket_def Let_def)
  have "api_get toy_rext d (ce_now ?ce) \<noteq> None" by (simp add: api_get_def d(2))
  then obtain ls where ls: "api_get toy_rext d (ce_now ?ce) = Some ls" by blast
  have set: "uapi_run_set toy_rext toy_rx ?ce toy_device0 (field ''private_key'' (to_hex ?sk) @ [10] @
      field ''listen_port'' (dec (51820 :: u16)) @ [10, 10]) = Some (Inr (), d)"
    using init_request [of ?sk toy_rext "rx_b64_decode toy_rx" "ce_uapi ?ce" "ce_now ?ce" toy_device0 51820] d1(1) d(1) status_ok
    by (simp add: uapi_run_set_def uapi_call_def toy_call_def)
  obtain kp where kp: "dv_key_pair d = Some kp" using d(3) by blast
  have "\<exists>pk. init_wg_server toy_rext toy_rx ?ce ?ce toy_device0 (Inr (to_hex ?sk)) 51820 = Some (Inr pk, d)"
    using set uapi_get_answer(1) [OF _ _ _ ls, of toy_rx] reg_ext_facts(4,5) [OF toy_reg_ext_ok] kp
    by (simp add: init_wg_server_def)
  then obtain pk where init: "init_wg_server toy_rext toy_rx ?ce ?ce toy_device0 (Inr (to_hex ?sk)) 51820 = Some (Inr pk, d)" by blast
  have "reg_reach toy_rext toy_rx toy_reg d"
    unfolding toy_reg_def by (rule reg_reach.start [OF toy_lfsr _ _ init]) simp_all
  then show ?thesis using d by blast
qed

definition toy_post :: "bytes \<Rightarrow> http_request" where
  "toy_post k = \<lparr>hr_method = Post, hr_url = ascii ''/v1/register'', hr_body_length = None, hr_remote = None, hr_body = Some k\<rparr>"

definition toy_http :: "link \<Rightarrow> http_env" where
  "toy_http l = \<lparr>hx_now = 0, hx_unix_secs = 0, hx_nonce = [], hx_key_error = [], hx_call1 = toy_call Served, hx_call2 = toy_call l\<rparr>"

lemma toy_http_simps [simp]: "hx_call1 (toy_http l) = toy_call Served" "hx_call2 (toy_http l) = toy_call l"
  by (simp_all add: toy_http_def)

abbreviation "toy_key \<equiv> replicate 32 (2 :: u8)"

lemma toy_trim: "trim toy_key = toy_key"
proof -
  have z: "ws_head toy_key = 0" "ws_last toy_key = 0" by code_simp+
  have "trim_start toy_key = toy_key" by (subst trim_start.simps) (simp only: z less_irrefl simp_thms if_False)
  moreover have "trim_end toy_key = toy_key" by (subst trim_end.simps) (simp only: z less_irrefl simp_thms if_False)
  ultimately show ?thesis by (simp add: trim_def)
qed

lemma toy_register_request: "register_request toy_rx (toy_post toy_key) toy_key"
  by (simp add: register_request_def toy_post_def body_pubkey_def toy_rx_def toy_json_def toy_trim)

lemma toy_http_handle:
  "http_handle toy_rext toy_rx st d (toy_post toy_key) (toy_http l) =
    handle_registration toy_rext toy_rx (toy_call Served) (toy_call l) 0 st d toy_key"
proof -
  have "ascii ''/v1/register'' \<noteq> ascii ''/health''" "ascii ''/v1/register'' \<noteq> ascii ''/v1/rp-context''" by code_simp+
  then show ?thesis
    by (simp add: http_handle_def check_rate_def toy_post_def http_dispatch_def with_body_def MAX_BODY_BYTES_def
        handle_registration_v2_def body_pubkey_def toy_rx_def toy_json_def toy_trim human_only_def toy_http_def)
qed

text \<open>The first registration, with the connection for adding the peer served or refused.\<close>

lemma toy_register:
  assumes r: "reg_reach toy_rext toy_rx toy_reg d" and d: "dv_peers d = []" "dv_key_pair d \<noteq> None"
    "dv_next_index d = \<lparr>lf_initial = 5, lf_lfsr = 5, lf_mask = 9\<rparr>"
  obtains (both) st1 reply d1 msg where
    "http_handle toy_rext toy_rx toy_reg d (toy_post toy_key) (toy_http Served) = Some ((200, reply), st1, d1)"
    "http_handle toy_rext toy_rx toy_reg d (toy_post toy_key) (toy_http (Refused [])) =
      Some ((500, msg), toy_reg\<lparr>ri_server_pubkey_cache := Some (snd (the (dv_key_pair d))),
        ri_listen_port_cache := if dv_listen_port d = 0 then None else Some (dv_listen_port d)\<rparr>, d)"
proof -
  let ?st = "toy_reg\<lparr>ri_server_pubkey_cache := Some (snd (the (dv_key_pair d))),
    ri_listen_port_cache := if dv_listen_port d = 0 then None else Some (dv_listen_port d)\<rparr>"
  obtain kp where kp: "dv_key_pair d = Some kp" using d(2) by blast
  have "api_get toy_rext d (ce_now (toy_call Served)) \<noteq> None" by (simp add: api_get_def d(1))
  then obtain ls where ls: "api_get toy_rext d (ce_now (toy_call Served)) = Some ls" by blast
  have b64: "rx_b64_encode toy_rx = id" "rx_b64_decode toy_rx = Some" by (simp_all add: toy_rx_def)
  have f: "fill_caches toy_rext toy_rx (toy_call Served) toy_reg d = Some (None, ?st, d)"
    using uapi_get_answer(1) [OF _ _ _ ls, of toy_rx] reg_ext_facts(4,5) [OF toy_reg_ext_ok] kp
    by (simp add: fill_caches_def toy_reg_def registration_new_def b64)
  have hex: "ex_hex_encode toy_rext k = to_hex k" for k by (rule reg_ext_facts(4) [OF toy_reg_ext_ok])
  have h: "handle_registration toy_rext toy_rx (toy_call Served) ce 0 toy_reg d toy_key =
      add_peer toy_rext toy_rx ce 0 ?st d (to_hex toy_key)" for ce
    using f by (simp add: handle_registration_def Let_def hex b64 toy_trim toy_reg_def registration_new_def)
  obtain st where st: "st = ?st" by blast
  have av: "ri_available_ips st \<noteq> {}" by (simp add: st toy_reg_def registration_new_def octet_pool_def)
  let ?ip = "assigned_ip st (rx_first_ip toy_rx (ri_available_ips st))"
  have ip: "length ?ip = 4" by (simp add: st assigned_ip_def toy_reg_def registration_new_def)
  have k: "length toy_key = 32" by simp
  obtain d1 where d1: "add_op toy_rext (toy_call Served) d toy_key ?ip = Some d1"
    using add_op_returns [OF toy_reg_ext_ok ip _ d(2)] d(1,3) toy_lfsr_next by auto
  have "\<exists>reply st1. add_peer toy_rext toy_rx (toy_call Served) 0 st d (to_hex toy_key) = Some ((200, reply), st1, d1)"
    unfolding add_peer_def Let_def uapi_set_peer_effect [OF k ip] using av d1 by (simp add: success_response_def)
  moreover have "\<exists>msg. add_peer toy_rext toy_rx (toy_call (Refused [])) 0 st d (to_hex toy_key) = Some ((500, msg), st, d)"
    unfolding add_peer_def Let_def uapi_set_peer_effect [OF k ip] using av by simp
  ultimately show thesis using both unfolding toy_http_handle h st by blast
qed

text \<open>Witnesses of the properties.\<close>

theorem registrations_agree_witness:
  "\<exists>st d. reg_reach toy_rext toy_rx st d \<and> map_of (ri_peer_to_octet st) (to_hex toy_key) \<noteq> None \<and>
    ri_registered_peers st = to_hex ` fst ` set (dv_peers d)"
proof -
  obtain d where d: "reg_reach toy_rext toy_rx toy_reg d" "dv_peers d = []" "dv_key_pair d \<noteq> None"
      "dv_next_index d = \<lparr>lf_initial = 5, lf_lfsr = 5, lf_mask = 9\<rparr>" using toy_start by blast
  obtain st1 reply d1 where h: "http_handle toy_rext toy_rx toy_reg d (toy_post toy_key) (toy_http Served) = Some ((200, reply), st1, d1)"
    using toy_register [OF d] by metis
  have r: "reg_reach toy_rext toy_rx st1 d1" by (rule reg_reach.request [OF d(1) h]) simp_all
  show ?thesis
    using r registrations_agree [OF toy_reg_ext_ok r] register_succeeds [OF toy_reg_ext_ok d(1) toy_register_request h] by auto
qed

theorem registered_address_routes_witness:
  "\<exists>st d st' d' reply octet a. reg_reach toy_rext toy_rx st d \<and>
    http_handle toy_rext toy_rx st d (toy_post toy_key) (toy_http Served) = Some ((200, reply), st', d') \<and>
    map_of (dv_peers d') toy_key = Some a \<and>
    aips_find (ex_dtab toy_rext) (dv_peers_by_ip d') (V4 (assigned_ip st' octet)) = Some a"
proof -
  obtain d where d: "reg_reach toy_rext toy_rx toy_reg d" "dv_peers d = []" "dv_key_pair d \<noteq> None"
      "dv_next_index d = \<lparr>lf_initial = 5, lf_lfsr = 5, lf_mask = 9\<rparr>" using toy_start by blast
  obtain st1 reply d1 where h: "http_handle toy_rext toy_rx toy_reg d (toy_post toy_key) (toy_http Served) = Some ((200, reply), st1, d1)"
    using toy_register [OF d] by metis
  obtain octet a where "map_of (dv_peers d1) toy_key = Some a"
      "aips_find (ex_dtab toy_rext) (dv_peers_by_ip d1) (V4 (assigned_ip st1 octet)) = Some a"
    using registered_address_routes [OF toy_reg_ext_ok d(1) toy_register_request h] by auto
  then show ?thesis using d(1) h by blast
qed


theorem lost_answer_then_panic_witness:
  "\<exists>st d d1 msg. reg_reach toy_rext toy_rx st d \<and>
    handle_registration toy_rext toy_rx (toy_call Served) (toy_call (AnswerLost [])) 0 st d toy_key = Some ((500, msg), st, d1) \<and>
    handle_registration toy_rext toy_rx (toy_call Served) (toy_call Served) 0 st d1 toy_key = None"
proof -
  obtain d where d: "reg_reach toy_rext toy_rx toy_reg d" "dv_peers d = []" "dv_key_pair d \<noteq> None"
      "dv_next_index d = \<lparr>lf_initial = 5, lf_lfsr = 5, lf_mask = 9\<rparr>" using toy_start by blast
  let ?st = "toy_reg\<lparr>ri_server_pubkey_cache := Some (snd (the (dv_key_pair d))),
    ri_listen_port_cache := if dv_listen_port d = 0 then None else Some (dv_listen_port d)\<rparr>"
  obtain msg where h: "http_handle toy_rext toy_rx toy_reg d (toy_post toy_key) (toy_http (Refused [])) = Some ((500, msg), ?st, d)"
    using toy_register [OF d] by metis
  have r: "reg_reach toy_rext toy_rx ?st d" by (rule reg_reach.request [OF d(1) h]) simp_all
  have av: "ri_available_ips ?st \<noteq> {}" by (simp add: toy_reg_def registration_new_def octet_pool_def)
  have k: "rx_b64_decode toy_rx (trim toy_key) = Some toy_key" "to_hex toy_key \<notin> ri_registered_peers ?st"
    by (simp_all add: toy_rx_def toy_trim toy_reg_def registration_new_def)
  obtain msg2 d1 where
    "handle_registration toy_rext toy_rx (toy_call Served) (toy_call (AnswerLost [])) 0 ?st d toy_key = Some ((500, msg2), ?st, d1)"
    "handle_registration toy_rext toy_rx (toy_call Served) (toy_call Served) 0 ?st d1 toy_key = None"
    using lost_answer_then_panic [OF toy_reg_ext_ok r _ k(1) _ k(2) av, of "toy_call (AnswerLost [])" "[]" "toy_call Served" 0]
      d(4) toy_lfsr_next by auto
  then show ?thesis using r by blast
qed

theorem reaper_removes_fresh_peer_witness:
  "\<exists>st d reply st1 d1 st2 d2. reg_reach toy_rext toy_rx st d \<and>
    http_handle toy_rext toy_rx st d (toy_post toy_key) (toy_http Served) = Some ((200, reply), st1, d1) \<and>
    reaper_apply toy_rext toy_rx (\<lambda>_. toy_call Served) 0 [] st1 d1 = Some (st2, d2) \<and>
    map_of (dv_peers d1) toy_key \<noteq> None \<and> map_of (dv_peers d2) toy_key = None"
proof -
  obtain d where d: "reg_reach toy_rext toy_rx toy_reg d" "dv_peers d = []" "dv_key_pair d \<noteq> None"
      "dv_next_index d = \<lparr>lf_initial = 5, lf_lfsr = 5, lf_mask = 9\<rparr>" using toy_start by blast
  obtain st1 reply d1 where h: "http_handle toy_rext toy_rx toy_reg d (toy_post toy_key) (toy_http Served) = Some ((200, reply), st1, d1)"
    using toy_register [OF d] by metis
  have "api_get toy_rext d (ce_now (toy_call Served)) \<noteq> None" by (simp add: api_get_def d(2))
  then obtain ls where ls: "api_get toy_rext d (ce_now (toy_call Served)) = Some ls" by blast
  obtain pk port where snap: "uapi_get_peers toy_rext toy_rx (toy_call Served) d = Some (Inr (pk, port, []), d)"
    using uapi_get_answer(1) [OF _ _ _ ls, of toy_rx] reg_ext_facts(4,5) [OF toy_reg_ext_ok] d(2) by simp
  have k: "to_hex toy_key \<notin> ri_registered_peers toy_reg" by (simp add: toy_reg_def registration_new_def)
  have r: "reg_reach toy_rext toy_rx st1 d1" by (rule reg_reach.request [OF d(1) h]) simp_all
  note ok = reach_ok [OF r toy_reg_ext_ok]
  let ?xs = "filter (\<lambda>(k, _). is_stale st1 [] 0 k) (ri_peer_to_octet st1)"
  have "distinct (map fst ?xs)" using ok by (simp add: reg_ok_def distinct_map_filter)
  then have "\<exists>r. reap toy_rext toy_rx (\<lambda>_. toy_call Served) st1 d1 ?xs = Some r"
    using ok by (intro reap_returns [OF toy_reg_ext_ok]) auto
  then obtain st2 d2 where p: "reaper_apply toy_rext toy_rx (\<lambda>_. toy_call Served) 0 [] st1 d1 = Some (st2, d2)"
    by (auto simp: reaper_apply_def Let_def)
  have "map_of (dv_peers d1) toy_key \<noteq> None \<and> map_of (dv_peers d2) toy_key = None"
    using reaper_removes_fresh_peer [OF toy_reg_ext_ok d(1) snap toy_register_request k h _ _ p] by simp
  then show ?thesis using d(1) h p by blast
qed

theorem uapi_get_reports_witness:
  "\<exists>d r. uapi_get_peers toy_rext toy_rx (toy_call Served) d = Some (Inr r, d) \<and> fst r = map_option snd (dv_key_pair d) \<and>
    dv_key_pair d \<noteq> None"
proof -
  obtain d where d: "dv_peers d = []" "dv_key_pair d \<noteq> None" "reg_reach toy_rext toy_rx toy_reg d" using toy_start by blast
  have "api_get toy_rext d (ce_now (toy_call Served)) \<noteq> None" by (simp add: api_get_def d(1))
  then obtain ls where ls: "api_get toy_rext d (ce_now (toy_call Served)) = Some ls" by blast
  have b64: "rx_b64_encode toy_rx = id" by (simp add: toy_rx_def)
  show ?thesis
    using uapi_get_reports [OF _ _ _ ls, of toy_rx] reg_ext_facts(4,5) [OF toy_reg_ext_ok] d
    by (auto simp: b64)
qed

end
