(* ===== verification/Ws_Relay.thy ===== *)
theory Ws_Relay
  imports Text_Parse "HOL-Library.Sublist"
begin

text \<open>
  The two relays that carry the datagrams of a tunnel over WebSocket: the proxy beside the
  server (\<open>device/ws_proxy.rs\<close>) and the bridge beside the client (\<open>device/ws_bridge.rs\<close>).
  WebSocket (the \<open>tungstenite\<close> crate) and the sockets are a \<open>relay_host\<close>, which answers
  each call as a function of the events so far; every call adds an event.  A thread that never
  ends has the value \<open>None\<close>.
\<close>

section \<open>Events\<close>

datatype ws_message = WsText bytes | WsBinary bytes | WsPing bytes | WsPong bytes | WsClose | WsFrame

text \<open>A read that would block or times out, or another error.\<close>

datatype read_error = NoData | Broken

datatype relay_event =
    Bound bytes bool
  | AcceptedTcp "read_error + nat"
  | Started nat sock_addr
  | HandshakeDone bool
  | ConnectedWs bytes bool
  | CheckedShutdown bool
  | UdpReceived "read_error + (bytes \<times> sock_addr)"
  | UdpSent bytes sock_addr bool
  | WsReceived "read_error + ws_message"
  | WsSent ws_message bool
  | WsClosed
  | Paused nat

type_synonym relay_log = "relay_event list"

record relay_host =
  rh_shutdown :: "relay_log \<Rightarrow> bool"
  rh_bind :: "relay_log \<Rightarrow> bytes \<Rightarrow> bool"
  rh_accept_tcp :: "relay_log \<Rightarrow> read_error + nat"
  rh_handshake :: "relay_log \<Rightarrow> bool"
  rh_connect :: "relay_log \<Rightarrow> bytes \<Rightarrow> bool"
  rh_udp_recv :: "relay_log \<Rightarrow> read_error + (bytes \<times> sock_addr)"
  rh_udp_send :: "relay_log \<Rightarrow> bytes \<Rightarrow> sock_addr \<Rightarrow> bool"
  rh_ws_read :: "relay_log \<Rightarrow> read_error + ws_message"
  rh_ws_send :: "relay_log \<Rightarrow> ws_message \<Rightarrow> bool"
  rh_trace :: bool

definition shutdown_set :: "relay_host \<Rightarrow> relay_log \<Rightarrow> bool \<times> relay_log" where
  "shutdown_set rh l = (let b = rh_shutdown rh l in (b, l @ [CheckedShutdown b]))"

definition bind_udp :: "relay_host \<Rightarrow> bytes \<Rightarrow> relay_log \<Rightarrow> bool \<times> relay_log" where
  "bind_udp rh addr l = (let b = rh_bind rh l addr in (b, l @ [Bound addr b]))"

definition udp_recv :: "relay_host \<Rightarrow> relay_log \<Rightarrow> (read_error + (bytes \<times> sock_addr)) \<times> relay_log" where
  "udp_recv rh l = (let r = rh_udp_recv rh l in (r, l @ [UdpReceived r]))"

definition udp_send :: "relay_host \<Rightarrow> bytes \<Rightarrow> sock_addr \<Rightarrow> relay_log \<Rightarrow> bool \<times> relay_log" where
  "udp_send rh data addr l = (let b = rh_udp_send rh l data addr in (b, l @ [UdpSent data addr b]))"

definition ws_read :: "relay_host \<Rightarrow> relay_log \<Rightarrow> (read_error + ws_message) \<times> relay_log" where
  "ws_read rh l = (let r = rh_ws_read rh l in (r, l @ [WsReceived r]))"

definition ws_send :: "relay_host \<Rightarrow> ws_message \<Rightarrow> relay_log \<Rightarrow> bool \<times> relay_log" where
  "ws_send rh m l = (let b = rh_ws_send rh l m in (b, l @ [WsSent m b]))"

lemmas relay_calls = shutdown_set_def bind_udp_def udp_recv_def udp_send_def ws_read_def ws_send_def Let_def

text \<open>The buffer of a datagram; a longer one is cut.\<close>

definition MAX_WG_PACKET :: nat where "MAX_WG_PACKET = 1500"

section \<open>Proxy\<close>

text \<open>The two halves of a round: whether the loop goes on, and the events.\<close>

definition proxy_from_ws :: "relay_host \<Rightarrow> sock_addr \<Rightarrow> relay_log \<Rightarrow> bool \<times> relay_log" where
  "proxy_from_ws rh wg_addr l = (case ws_read rh l of (r, l) \<Rightarrow> (case r of
       Inr (WsBinary data) \<Rightarrow> udp_send rh data wg_addr l
     | Inr WsClose \<Rightarrow> (False, l)
     | Inr (WsPing payload) \<Rightarrow> (True, snd (ws_send rh (WsPong payload) l))
     | Inr _ \<Rightarrow> (True, l)
     | Inl NoData \<Rightarrow> (True, l)
     | Inl Broken \<Rightarrow> (False, l)))"

definition proxy_from_udp :: "relay_host \<Rightarrow> relay_log \<Rightarrow> bool \<times> relay_log" where
  "proxy_from_udp rh l = (case udp_recv rh l of (r, l) \<Rightarrow> (case r of
       Inr (data, from) \<Rightarrow> ws_send rh (WsBinary (take MAX_WG_PACKET data)) l
     | Inl NoData \<Rightarrow> (True, l)
     | Inl Broken \<Rightarrow> (False, l)))"

definition proxy_round :: "relay_host \<Rightarrow> sock_addr \<Rightarrow> relay_log \<Rightarrow> bool \<times> relay_log" where
  "proxy_round rh wg_addr l = (case proxy_from_ws rh wg_addr l of (go, l) \<Rightarrow> if go then proxy_from_udp rh l else (False, l))"

partial_function (option) proxy_loop :: "relay_host \<Rightarrow> sock_addr \<Rightarrow> relay_log \<Rightarrow> relay_log option" where
  "proxy_loop rh wg_addr l = (case shutdown_set rh l of (stop, l) \<Rightarrow>
     if stop then Some l
     else (case proxy_round rh wg_addr l of (go, l) \<Rightarrow> if go then proxy_loop rh wg_addr l else Some l))"

definition handle_ws_client :: "relay_host \<Rightarrow> sock_addr \<Rightarrow> relay_log \<Rightarrow> relay_log option" where
  "handle_ws_client rh wg_addr l = (let ok = rh_handshake rh l; l = l @ [HandshakeDone ok] in
     if \<not> ok then Some l
     else (case bind_udp rh (ascii ''127.0.0.1:0'') l of (ok, l) \<Rightarrow>
       if \<not> ok then Some (l @ [WsClosed])
       else map_option (\<lambda>l. l @ [WsClosed]) (proxy_loop rh wg_addr l)))"

text \<open>The listener starts a thread per connection; a thread that cannot be started is dropped.\<close>

definition local_addr :: "u16 \<Rightarrow> sock_addr" where "local_addr port = (V4 [127, 0, 0, 1], port)"

partial_function (option) accept_loop :: "relay_host \<Rightarrow> sock_addr \<Rightarrow> relay_log \<Rightarrow> relay_log option" where
  "accept_loop rh wg_addr l = (case shutdown_set rh l of (stop, l) \<Rightarrow>
     if stop then Some l
     else (let r = rh_accept_tcp rh l; l = l @ [AcceptedTcp r] in
       case r of Inr stream \<Rightarrow> accept_loop rh wg_addr (l @ [Started stream wg_addr]) | Inl _ \<Rightarrow> accept_loop rh wg_addr l))"

definition run_ws_proxy :: "relay_host \<Rightarrow> bytes \<Rightarrow> u16 \<Rightarrow> relay_log \<Rightarrow> relay_log option" where
  "run_ws_proxy rh bind_addr wg_port l = (case bind_udp rh bind_addr l of (ok, l) \<Rightarrow>
     if \<not> ok then Some l else accept_loop rh (local_addr wg_port) l)"

section \<open>Bridge\<close>

datatype relay_next = Go | Stop | Crash

text \<open>The address of the tunnel process is that of the last datagram.\<close>

definition bridge_from_udp :: "relay_host \<Rightarrow> sock_addr option \<Rightarrow> relay_log \<Rightarrow> relay_next \<times> sock_addr option \<times> relay_log" where
  "bridge_from_udp rh client l = (case udp_recv rh l of (r, l) \<Rightarrow> (case r of
       Inr (data, from) \<Rightarrow> (case ws_send rh (WsBinary (take MAX_WG_PACKET data)) l of (ok, l) \<Rightarrow>
         (if ok then Go else Stop, Some from, l))
     | Inl NoData \<Rightarrow> (Go, client, l)
     | Inl Broken \<Rightarrow> (Stop, client, l)))"

text \<open>The trace message indexes the first byte of the data, which panics when there is none.\<close>

definition bridge_from_ws :: "relay_host \<Rightarrow> sock_addr option \<Rightarrow> relay_log \<Rightarrow> relay_next \<times> relay_log" where
  "bridge_from_ws rh client l = (case ws_read rh l of (r, l) \<Rightarrow> (case r of
       Inr (WsBinary data) \<Rightarrow> (case client of
           Some addr \<Rightarrow> (case udp_send rh data addr l of (ok, l) \<Rightarrow>
             (if ok \<and> rh_trace rh \<and> data = [] then Crash else Go, l))
         | None \<Rightarrow> (Go, l))
     | Inr (WsPing payload) \<Rightarrow> (Go, snd (ws_send rh (WsPong payload) l))
     | Inr WsClose \<Rightarrow> (Stop, l)
     | Inr _ \<Rightarrow> (Go, l)
     | Inl NoData \<Rightarrow> (Go, l)
     | Inl Broken \<Rightarrow> (Stop, l)))"

definition bridge_round :: "relay_host \<Rightarrow> sock_addr option \<Rightarrow> relay_log \<Rightarrow> relay_next \<times> sock_addr option \<times> relay_log" where
  "bridge_round rh client l = (case bridge_from_udp rh client l of (next, client, l) \<Rightarrow>
     if next = Go then (case bridge_from_ws rh client l of (next, l) \<Rightarrow> (next, client, l)) else (next, client, l))"

partial_function (option) bridge_relay ::
  "relay_host \<Rightarrow> sock_addr option \<Rightarrow> relay_log \<Rightarrow> (relay_next \<times> sock_addr option \<times> relay_log) option" where
  "bridge_relay rh client l = (case shutdown_set rh l of (stop, l) \<Rightarrow>
     if stop then Some (Stop, client, l)
     else (case bridge_round rh client l of (next, client, l) \<Rightarrow>
       if next = Go then bridge_relay rh client l else Some (next, client, l)))"

definition connect_ws :: "relay_host \<Rightarrow> bytes \<Rightarrow> relay_log \<Rightarrow> bool \<times> relay_log" where
  "connect_ws rh url l = (let b = rh_connect rh l url in (b, l @ [ConnectedWs url b]))"

definition RECONNECT_DELAY_MS :: nat where "RECONNECT_DELAY_MS = 2000"

text \<open>The end of a session: close, and wait before the next one unless it is time to stop.\<close>

definition bridge_close :: "relay_host \<Rightarrow> relay_log \<Rightarrow> relay_log" where
  "bridge_close rh l = (case shutdown_set rh (l @ [WsClosed]) of (stop, l) \<Rightarrow>
     if stop then l else l @ [Paused RECONNECT_DELAY_MS])"

partial_function (option) bridge_loop ::
  "relay_host \<Rightarrow> bytes \<Rightarrow> sock_addr option \<Rightarrow> relay_log \<Rightarrow> (relay_next \<times> relay_log) option" where
  "bridge_loop rh url client l = (case shutdown_set rh l of (stop, l) \<Rightarrow>
     if stop then Some (Stop, l)
     else (case connect_ws rh url l of (ok, l) \<Rightarrow>
       if \<not> ok then bridge_loop rh url client (l @ [Paused RECONNECT_DELAY_MS])
       else do {
         (next, client, l) \<leftarrow> bridge_relay rh client l;
         if next = Crash then Some (Crash, l) else bridge_loop rh url client (bridge_close rh l) }))"

definition run_ws_bridge :: "relay_host \<Rightarrow> u16 \<Rightarrow> bytes \<Rightarrow> relay_log \<Rightarrow> (relay_next \<times> relay_log) option" where
  "run_ws_bridge rh local_udp_port url l = (case bind_udp rh (ascii ''127.0.0.1:'' @ dec local_udp_port) l of (ok, l) \<Rightarrow>
     if \<not> ok then Some (Stop, l) else bridge_loop rh url None l)"

section \<open>What is relayed\<close>

fun ws_payload :: "relay_event \<Rightarrow> bytes list" where
  "ws_payload (WsReceived (Inr (WsBinary data))) = [data]"
| "ws_payload _ = []"

fun datagram :: "relay_event \<Rightarrow> bytes list" where
  "datagram (UdpReceived (Inr (data, from))) = [data]"
| "datagram _ = []"

fun to_udp :: "relay_event \<Rightarrow> (bytes \<times> sock_addr) list" where
  "to_udp (UdpSent data addr ok) = [(data, addr)]"
| "to_udp _ = []"

fun to_ws :: "relay_event \<Rightarrow> bytes list" where
  "to_ws (WsSent (WsBinary data) ok) = [data]"
| "to_ws _ = []"

definition of_log :: "(relay_event \<Rightarrow> 'a list) \<Rightarrow> relay_log \<Rightarrow> 'a list" where "of_log f l = concat (map f l)"

lemma of_log_simps [simp]: "of_log f [] = []" "of_log f (e # l) = f e @ of_log f l" "of_log f (l @ m) = of_log f l @ of_log f m"
  by (simp_all add: of_log_def)

text \<open>Where the messages of the bridge go: to the sender of the last datagram before them.\<close>

fun deliveries :: "sock_addr option \<Rightarrow> relay_log \<Rightarrow> (bytes \<times> sock_addr) list" where
  "deliveries client [] = []"
| "deliveries client (e # l) = (case e of
     UdpReceived (Inr (_, from)) \<Rightarrow> deliveries (Some from) l
   | WsReceived (Inr (WsBinary data)) \<Rightarrow> (case client of Some addr \<Rightarrow> (data, addr) # deliveries client l | None \<Rightarrow> deliveries client l)
   | _ \<Rightarrow> deliveries client l)"

fun last_client :: "sock_addr option \<Rightarrow> relay_log \<Rightarrow> sock_addr option" where
  "last_client client [] = client"
| "last_client client (e # l) = (case e of
     UdpReceived (Inr (_, from)) \<Rightarrow> last_client (Some from) l
   | _ \<Rightarrow> last_client client l)"

lemma last_client_append [simp]: "last_client c (l @ m) = last_client (last_client c l) m"
  by (induction c l rule: last_client.induct) (auto split: relay_event.splits sum.splits)

lemma deliveries_append [simp]: "deliveries c (l @ m) = deliveries c l @ deliveries (last_client c l) m"
  by (induction c l rule: deliveries.induct) (auto split: relay_event.splits sum.splits option.splits ws_message.splits)

text \<open>An operation adds events with a property, and the property is closed under appending.\<close>

definition cut :: "relay_log \<Rightarrow> bool" where
  "cut es \<longleftrightarrow> of_log to_ws es = map (take MAX_WG_PACKET) (of_log datagram es)"

definition proxied :: "sock_addr \<Rightarrow> relay_log \<Rightarrow> bool" where
  "proxied wg es \<longleftrightarrow> cut es \<and> of_log to_udp es = map (\<lambda>d. (d, wg)) (of_log ws_payload es)"

definition bridged :: "sock_addr option \<Rightarrow> sock_addr option \<Rightarrow> relay_log \<Rightarrow> bool" where
  "bridged c c' es \<longleftrightarrow> cut es \<and> of_log to_udp es = deliveries c es \<and> last_client c es = c'"

lemma proxied_append: "proxied wg es \<Longrightarrow> proxied wg fs \<Longrightarrow> proxied wg (es @ fs)"
  by (simp add: proxied_def cut_def)

lemma bridged_append: "bridged c c' es \<Longrightarrow> bridged c' c'' fs \<Longrightarrow> bridged c c'' (es @ fs)"
  by (simp add: bridged_def cut_def)

lemma proxy_round_relays:
  assumes "proxy_round rh wg l = (go, l')"
  shows "\<exists>es. l' = l @ es \<and> proxied wg es"
proof -
  obtain go1 l1 where 1: "proxy_from_ws rh wg l = (go1, l1)" by fastforce
  then have "\<exists>es. l1 = l @ es \<and> proxied wg es"
    by (auto simp: proxy_from_ws_def relay_calls proxied_def cut_def split: sum.splits ws_message.splits read_error.splits)
  moreover have "\<exists>fs. l2 = l1 @ fs \<and> proxied wg fs" if "proxy_from_udp rh l1 = (go2, l2)" for go2 l2
    using that by (auto simp: proxy_from_udp_def relay_calls proxied_def cut_def split: sum.splits prod.splits read_error.splits)
  ultimately show ?thesis using assms 1 by (auto simp: proxy_round_def split: if_splits) (metis append_assoc proxied_append)
qed

lemma proxy_loop_relays: "proxy_loop rh wg l = Some l' \<Longrightarrow> \<exists>es. l' = l @ es \<and> proxied wg es"
proof (rule proxy_loop.raw_induct [where P = "\<lambda>rh wg l l'. \<exists>es. l' = l @ es \<and> proxied wg es"], goal_cases)
  case (1 f rh wg l l')
  have stop: "proxied wg [CheckedShutdown b]" for b by (simp add: proxied_def cut_def)
  show ?case
  proof (cases "rh_shutdown rh l")
    case True
    then show ?thesis using 1 stop by (auto simp: relay_calls)
  next
    case False
    let ?l = "l @ [CheckedShutdown False]"
    obtain go l1 where r: "proxy_round rh wg ?l = (go, l1)" by fastforce
    obtain es where es: "l1 = ?l @ es" "proxied wg es" using proxy_round_relays [OF r] by blast
    have "\<exists>fs. l' = l1 @ fs \<and> proxied wg fs"
    proof (cases go)
      case True
      then show ?thesis using 1 False r by (auto simp: relay_calls)
    next
      case False
      moreover have "proxied wg []" by (simp add: proxied_def cut_def)
      ultimately show ?thesis using 1 \<open>\<not> rh_shutdown rh l\<close> r by (auto simp: relay_calls)
    qed
    then show ?thesis using es stop [of False] by (auto intro!: proxied_append)
      (metis append_Cons append_Nil proxied_append)
  qed
qed assumption

text \<open>How a bridge ends: it crashes on an empty message that was just passed on, while trace
  messages are on, and never passes such a message on otherwise.\<close>

definition crash_log :: "relay_log \<Rightarrow> bool" where
  "crash_log es \<longleftrightarrow> (\<exists>fs addr. es = fs @ [WsReceived (Inr (WsBinary [])), UdpSent [] addr True])"

definition ends :: "bool \<Rightarrow> relay_next \<Rightarrow> relay_log \<Rightarrow> bool" where
  "ends trace next es \<longleftrightarrow> (if next = Crash then trace \<and> crash_log es else trace \<longrightarrow> (\<forall>addr. UdpSent [] addr True \<notin> set es))"

lemma ends_append: "ends tr Go es \<Longrightarrow> ends tr next fs \<Longrightarrow> ends tr next (es @ fs)"
  by (auto simp: ends_def crash_log_def split: if_splits)

lemma bridge_round_relays:
  assumes "bridge_round rh c l = (next, c', l')"
  shows "\<exists>es. l' = l @ es \<and> bridged c c' es \<and> ends (rh_trace rh) next es"
proof -
  obtain n1 c1 l1 where 1: "bridge_from_udp rh c l = (n1, c1, l1)" by (cases "bridge_from_udp rh c l") auto
  have n1: "n1 \<noteq> Crash" using 1 by (auto simp: bridge_from_udp_def relay_calls split: sum.splits prod.splits read_error.splits if_splits)
  have "\<exists>es. l1 = l @ es \<and> bridged c c1 es \<and> (\<forall>n. ends (rh_trace rh) n es \<longleftrightarrow> n \<noteq> Crash)" using 1
    by (auto simp: bridge_from_udp_def relay_calls bridged_def cut_def ends_def crash_log_def
        split: sum.splits prod.splits read_error.splits)
  then obtain es where es: "l1 = l @ es" "bridged c c1 es" "\<And>n. ends (rh_trace rh) n es \<longleftrightarrow> n \<noteq> Crash" by blast
  have ws: "\<exists>fs. l2 = l1 @ fs \<and> bridged c1 c1 fs \<and> ends (rh_trace rh) n2 fs" if "bridge_from_ws rh c1 l1 = (n2, l2)" for n2 l2
    using that by (auto simp: bridge_from_ws_def relay_calls bridged_def cut_def ends_def crash_log_def
        split: sum.splits ws_message.splits read_error.splits option.splits if_splits)
  show ?thesis
  proof (cases "n1 = Go")
    case True
    then have f: "bridge_from_ws rh c1 l1 = (next, l')" "c' = c1" using assms 1
      by (auto simp: bridge_round_def split: prod.splits)
    obtain fs where "l' = l1 @ fs" "bridged c1 c1 fs" "ends (rh_trace rh) next fs" using ws [OF f(1)] by blast
    then show ?thesis using es f(2)
      by (intro exI [of _ "es @ fs"]) (auto intro: bridged_append ends_append)
  next
    case False
    then show ?thesis using assms 1 es n1 by (auto simp: bridge_round_def)
  qed
qed

lemma bridged_event [simp]:
  "bridged c c [CheckedShutdown b]" "bridged c c [ConnectedWs url b]" "bridged c c [Paused n]" "bridged c c [WsClosed]"
  "bridged c c [Bound addr b]" "bridged c c []"
  by (simp_all add: bridged_def cut_def)

lemma ends_event [simp]:
  "ends tr Go [CheckedShutdown b]" "ends tr Go [ConnectedWs url b]" "ends tr Go [Paused n]" "ends tr Go [WsClosed]"
  "ends tr Go [Bound addr b]" "ends tr Go []" "ends tr Stop [CheckedShutdown b]" "ends tr Stop [Bound addr b]"
  "ends tr Stop []"
  by (simp_all add: ends_def)

text \<open>A log that extends another by events with both properties.\<close>

definition bridge_step :: "bool \<Rightarrow> relay_next \<Rightarrow> sock_addr option \<Rightarrow> sock_addr option \<Rightarrow> relay_log \<Rightarrow> relay_log \<Rightarrow> bool" where
  "bridge_step tr next c c' l l' \<longleftrightarrow> (\<exists>es. l' = l @ es \<and> bridged c c' es \<and> ends tr next es)"

lemma bridge_step_trans [trans]:
  "bridge_step tr Go c c' l l' \<Longrightarrow> bridge_step tr next c' c'' l' l'' \<Longrightarrow> bridge_step tr next c c'' l l''"
  unfolding bridge_step_def by (metis append_assoc bridged_append ends_append)

lemma bridge_step_event:
  "bridged c c [e] \<Longrightarrow> ends tr next [e] \<Longrightarrow> bridge_step tr next c c l (l @ [e])"
  by (auto simp: bridge_step_def)

lemma bridge_relay_relays:
  "bridge_relay rh c l = Some (next, c', l') \<Longrightarrow> next \<noteq> Go \<and> bridge_step (rh_trace rh) next c c' l l'"
proof (rule bridge_relay.raw_induct [where
    P = "\<lambda>rh c l r. fst r \<noteq> Go \<and> bridge_step (rh_trace rh) (fst r) c (fst (snd r)) l (snd (snd r))", of rh c l "(next, c', l')", simplified fst_conv snd_conv], goal_cases)
  case (1 f rh c l r)
  show ?case
  proof (cases "rh_shutdown rh l")
    case True
    then show ?thesis using 1 by (auto simp: relay_calls intro!: bridge_step_event)
  next
    case False
    let ?l = "l @ [CheckedShutdown False]"
    obtain n c1 l1 where r: "bridge_round rh c ?l = (n, c1, l1)" by (cases "bridge_round rh c ?l") auto
    have s: "bridge_step (rh_trace rh) n c c1 l l1"
      by (rule bridge_step_trans [OF bridge_step_event]) (use bridge_round_relays [OF r] in \<open>auto simp: bridge_step_def\<close>)
    show ?thesis
    proof (cases "n = Go")
      case True
      then have "f rh c1 l1 = Some r" using 1 False r by (simp add: relay_calls)
      from 1(2) [OF this] show ?thesis using s True bridge_step_trans by blast
    next
      case False
      then show ?thesis using 1 \<open>\<not> rh_shutdown rh l\<close> r s by (auto simp: relay_calls)
    qed
  qed
qed assumption

lemma bridge_loop_relays:
  "bridge_loop rh url c l = Some (next, l') \<Longrightarrow> next \<noteq> Go \<and> (\<exists>c'. bridge_step (rh_trace rh) next c c' l l')"
proof (rule bridge_loop.raw_induct [where
    P = "\<lambda>rh url c l r. fst r \<noteq> Go \<and> (\<exists>c'. bridge_step (rh_trace rh) (fst r) c c' l (snd r))", of rh url c l "(next, l')", simplified fst_conv snd_conv], goal_cases)
  case (1 f rh url c l r)
  show ?case
  proof (cases "rh_shutdown rh l")
    case True
    then show ?thesis using 1 by (auto simp: relay_calls intro!: exI [of _ c] bridge_step_event)
  next
    case run: False
    let ?l = "l @ [CheckedShutdown False]" let ?b = "rh_connect rh ?l url" let ?c = "?l @ [ConnectedWs url ?b]"
    have pre: "bridge_step (rh_trace rh) Go c c l ?c"
      by (rule bridge_step_trans [OF bridge_step_event bridge_step_event]) simp_all
    show ?thesis
    proof (cases ?b)
      case False
      then have "f rh url c (?c @ [Paused RECONNECT_DELAY_MS]) = Some r" using 1 run by (simp add: relay_calls connect_ws_def)
      from 1(2) [OF this] show ?thesis
        using bridge_step_trans [OF bridge_step_trans [OF pre bridge_step_event]] by (metis bridged_event(3) ends_event(3))
    next
      case True
      then obtain n c1 l1 where b: "bridge_relay rh c ?c = Some (n, c1, l1)"
        using 1 run by (auto simp: relay_calls connect_ws_def split: bind_splits prod.splits)
      note s = bridge_relay_relays [OF b]
      show ?thesis
      proof (cases "n = Crash")
        case True
        then have "r = (Crash, l1)" using 1 run \<open>?b\<close> b by (simp add: relay_calls connect_ws_def)
        then show ?thesis using s True bridge_step_trans [OF pre] by auto
      next
        case False
        then have "f rh url c1 (bridge_close rh l1) = Some r" using 1 run \<open>?b\<close> b by (simp add: relay_calls connect_ws_def)
        moreover have "bridge_step (rh_trace rh) Go c1 c1 l1 (bridge_close rh l1)"
          by (auto simp: bridge_close_def relay_calls bridge_step_def bridged_def cut_def ends_def)
        moreover have "bridge_step (rh_trace rh) Go c c1 ?c l1" using s False by (cases n) (auto simp: bridge_step_def ends_def)
        ultimately show ?thesis using 1(2) [of rh url c1 "bridge_close rh l1" r] bridge_step_trans [OF pre] bridge_step_trans by metis
      qed
    qed
  qed
qed assumption

section \<open>Properties\<close>

lemma handle_ws_client_relays: "handle_ws_client rh wg [] = Some l \<Longrightarrow> proxied wg l"
  by (auto simp: handle_ws_client_def relay_calls proxied_def cut_def split: if_splits dest!: proxy_loop_relays)

lemma run_ws_bridge_relays:
  "run_ws_bridge rh port url [] = Some (next, l) \<Longrightarrow> next \<noteq> Go \<and> (\<exists>c. bridged None c l) \<and> ends (rh_trace rh) next l"
proof -
  assume r: "run_ws_bridge rh port url [] = Some (next, l)"
  let ?addr = "ascii ''127.0.0.1:'' @ dec port"
  have "next \<noteq> Go \<and> (\<exists>c. bridge_step (rh_trace rh) next None c [] l)"
  proof (cases "rh_bind rh [] ?addr")
    case False
    then show ?thesis using r by (auto simp: run_ws_bridge_def relay_calls bridge_step_def intro!: exI [of _ None])
  next
    case True
    then have "bridge_loop rh url None [Bound ?addr True] = Some (next, l)" using r by (simp add: run_ws_bridge_def relay_calls)
    note b = bridge_loop_relays [OF this]
    have "bridge_step (rh_trace rh) Go None None [] [Bound ?addr True]" by (auto simp: bridge_step_def)
    from bridge_step_trans [OF this] show ?thesis using b by auto
  qed
  then show ?thesis by (auto simp: bridge_step_def)
qed

lemma deliveries_subseq: "subseq (map fst (deliveries c l)) (of_log ws_payload l)"
  by (induction c l rule: deliveries.induct)
    (auto split: relay_event.splits sum.splits option.splits ws_message.splits)


text \<open>A bridge that has one datagram to pass on and gets one answer, and a proxy that gets it.\<close>

definition quiet_host :: relay_host where
  "quiet_host = \<lparr>rh_shutdown = \<lambda>l. 8 \<le> length l, rh_bind = \<lambda>_ _. True, rh_accept_tcp = \<lambda>_. Inl NoData,
     rh_handshake = \<lambda>_. True, rh_connect = \<lambda>_ _. True, rh_udp_recv = \<lambda>_. Inl NoData, rh_udp_send = \<lambda>_ _ _. True,
     rh_ws_read = \<lambda>_. Inl NoData, rh_ws_send = \<lambda>_ _. True, rh_trace = True\<rparr>"

definition bridge_host :: relay_host where
  "bridge_host = quiet_host\<lparr>rh_udp_recv := \<lambda>l. if length l = 4 then Inr ([1, 2, 3], V4 [127, 0, 0, 1], 5000) else Inl NoData,
     rh_ws_read := \<lambda>l. if length l = 6 then Inr (WsBinary [7]) else Inl NoData\<rparr>"

definition proxy_host :: relay_host where
  "proxy_host = quiet_host\<lparr>rh_ws_read := \<lambda>l. if length l = 3 then Inr (WsBinary [1, 2, 3]) else Inl NoData,
     rh_udp_recv := \<lambda>l. if length l = 5 then Inr ([7], V4 [127, 0, 0, 1], 51820) else Inl NoData\<rparr>"

definition relayed :: "relay_log \<Rightarrow> bytes list \<times> bytes list \<times> (bytes \<times> sock_addr) list \<times> bytes list" where
  "relayed l = (of_log datagram l, of_log to_ws l, of_log to_udp l, of_log ws_payload l)"

lemma proxy_loop_steps:
  "rh_shutdown rh l \<Longrightarrow> proxy_loop rh wg l = Some (l @ [CheckedShutdown True])"
  "\<not> rh_shutdown rh l \<Longrightarrow> proxy_round rh wg (l @ [CheckedShutdown False]) = (True, l') \<Longrightarrow> proxy_loop rh wg l = proxy_loop rh wg l'"
  by (subst proxy_loop.simps, simp add: relay_calls)+

lemma bridge_relay_steps:
  "rh_shutdown rh l \<Longrightarrow> bridge_relay rh c l = Some (Stop, c, l @ [CheckedShutdown True])"
  "\<not> rh_shutdown rh l \<Longrightarrow> bridge_round rh c (l @ [CheckedShutdown False]) = (Go, c', l') \<Longrightarrow>
    bridge_relay rh c l = bridge_relay rh c' l'"
  by (subst bridge_relay.simps, simp add: relay_calls)+

lemma bridge_loop_steps:
  "rh_shutdown rh l \<Longrightarrow> bridge_loop rh url c l = Some (Stop, l @ [CheckedShutdown True])"
  "\<not> rh_shutdown rh l \<Longrightarrow> connect_ws rh url (l @ [CheckedShutdown False]) = (True, l1) \<Longrightarrow>
    bridge_relay rh c l1 = Some (Stop, c', l') \<Longrightarrow> bridge_loop rh url c l = bridge_loop rh url c' (bridge_close rh l')"
  by (subst bridge_loop.simps, simp add: relay_calls)+

lemmas relay_steps = proxy_loop_steps bridge_relay_steps bridge_loop_steps proxy_round_def proxy_from_ws_def proxy_from_udp_def
  bridge_round_def bridge_from_udp_def bridge_from_ws_def connect_ws_def bridge_close_def relay_calls

lemma bridge_host_run:
  "map_option (map_prod id relayed) (run_ws_bridge bridge_host 51821 (ascii ''ws'') []) =
     Some (Stop, [[1, 2, 3]], [[1, 2, 3]], [([7], V4 [127, 0, 0, 1], 5000)], [[7]])"
  by (simp add: run_ws_bridge_def relay_steps bridge_host_def quiet_host_def relayed_def MAX_WG_PACKET_def)

lemma proxy_host_run:
  "map_option relayed (handle_ws_client proxy_host (local_addr 51820) []) =
     Some ([[7]], [[7]], [([1, 2, 3], local_addr 51820)], [[1, 2, 3]])"
  by (simp add: handle_ws_client_def relay_steps proxy_host_def quiet_host_def relayed_def MAX_WG_PACKET_def)


text \<open>The bridge crashes exactly on an empty message.  The thread of the bridge ends by a
  panic if and only if trace messages are on and it has passed on a WebSocket message
  without content, which the server at the other end is free to send.\<close>

lemma bridge_crash_exact:
  assumes "run_ws_bridge rh port url [] = Some (next, l)"
  shows "next = Crash \<longleftrightarrow> rh_trace rh \<and> (\<exists>addr. UdpSent [] addr True \<in> set l)"
proof -
  have "UdpSent [] addr True \<in> set (fs @ [e, UdpSent [] addr True])" for addr fs e by simp
  then show ?thesis using run_ws_bridge_relays [OF assms] unfolding ends_def crash_log_def by (metis (full_types))
qed

definition empty_host :: relay_host where
  "empty_host = bridge_host\<lparr>rh_ws_read := \<lambda>l. if length l = 6 then Inr (WsBinary []) else Inl NoData\<rparr>"

lemma bridge_crash_steps:
  "\<not> rh_shutdown rh l \<Longrightarrow> bridge_round rh c (l @ [CheckedShutdown False]) = (Crash, c', l') \<Longrightarrow> bridge_relay rh c l = Some (Crash, c', l')"
  "\<not> rh_shutdown rh l \<Longrightarrow> connect_ws rh url (l @ [CheckedShutdown False]) = (True, l1) \<Longrightarrow>
    bridge_relay rh c l1 = Some (Crash, c', l') \<Longrightarrow> bridge_loop rh url c l = Some (Crash, l')"
  by (subst bridge_relay.simps bridge_loop.simps, simp add: relay_calls)+

text \<open>The relays end once the flag is set: every turn of every loop looks at it.\<close>

lemma measure_log:
  assumes "\<forall>l. n \<le> length l \<longrightarrow> rh_shutdown rh l" "\<not> rh_shutdown rh l"
  shows "n - length (l @ e # es) < n - length l"
proof -
  have "length l < n" using assms not_le by blast
  then show ?thesis by simp
qed

lemma proxy_loop_stops:
  assumes "\<forall>l. n \<le> length l \<longrightarrow> rh_shutdown rh l"
  shows "\<exists>l'. proxy_loop rh wg l = Some l'"
proof (induction "n - length l" arbitrary: l rule: less_induct)
  case less
  obtain go l1 where r: "proxy_round rh wg (l @ [CheckedShutdown False]) = (go, l1)" by fastforce
  then obtain es where "l1 = (l @ [CheckedShutdown False]) @ es" using proxy_round_relays by blast
  then have "n - length l1 < n - length l \<or> rh_shutdown rh l" using measure_log [OF assms] by auto
  then show ?case using less [of l1] r by (subst proxy_loop.simps) (auto simp: relay_calls)
qed

lemma accept_loop_stops:
  assumes "\<forall>l. n \<le> length l \<longrightarrow> rh_shutdown rh l"
  shows "\<exists>l'. accept_loop rh wg l = Some l'"
proof (induction "n - length l" arbitrary: l rule: less_induct)
  case less
  have "\<exists>l'. accept_loop rh wg (l @ e # es) = Some l'" if "\<not> rh_shutdown rh l" for e es
    using less [OF measure_log [OF assms that]] .
  then show ?case by (subst accept_loop.simps) (auto simp: relay_calls split: sum.splits)
qed

lemma bridge_relay_stops:
  assumes "\<forall>l. n \<le> length l \<longrightarrow> rh_shutdown rh l"
  shows "\<exists>r. bridge_relay rh c l = Some r"
proof (induction "n - length l" arbitrary: c l rule: less_induct)
  case less
  obtain nx c1 l1 where r: "bridge_round rh c (l @ [CheckedShutdown False]) = (nx, c1, l1)"
    by (cases "bridge_round rh c (l @ [CheckedShutdown False])") auto
  then obtain es where "l1 = (l @ [CheckedShutdown False]) @ es" using bridge_round_relays by blast
  then have "n - length l1 < n - length l \<or> rh_shutdown rh l" using measure_log [OF assms] by auto
  then show ?case using less [of l1] r by (subst bridge_relay.simps) (auto simp: relay_calls)
qed

lemma bridge_loop_stops:
  assumes "\<forall>l. n \<le> length l \<longrightarrow> rh_shutdown rh l"
  shows "\<exists>r. bridge_loop rh url c l = Some r"
proof (induction "n - length l" arbitrary: c l rule: less_induct)
  case less
  show ?case
  proof (cases "rh_shutdown rh l")
    case True
    then show ?thesis by (auto simp: bridge_loop_steps)
  next
    case False
    let ?l = "l @ [CheckedShutdown False]" let ?c = "?l @ [ConnectedWs url (rh_connect rh ?l url)]"
    obtain nx c1 l1 where b: "bridge_relay rh c ?c = Some (nx, c1, l1)"
      using bridge_relay_stops [OF assms, of c ?c] by auto
    then obtain es where "l1 = ?c @ es" using bridge_relay_relays [OF b] by (auto simp: bridge_step_def)
    then have "\<exists>fs. bridge_close rh l1 = l @ fs \<and> fs \<noteq> []" by (auto simp: bridge_close_def relay_calls)
    moreover have "\<exists>r. bridge_loop rh url c' (l @ fs) = Some r" if "fs \<noteq> []" for c' fs
      using less [OF measure_log [OF assms False]] that by (cases fs) auto
    ultimately show ?thesis using False b
      by (subst bridge_loop.simps) (auto simp: relay_calls connect_ws_def)
  qed
qed

lemma relays_stop:
  assumes "\<forall>l. n \<le> length l \<longrightarrow> rh_shutdown rh l"
  shows "\<exists>l'. handle_ws_client rh wg l = Some l'" "\<exists>l'. run_ws_proxy rh addr wg_port l = Some l'"
    "\<exists>r. run_ws_bridge rh port url l = Some r"
  using proxy_loop_stops [OF assms] accept_loop_stops [OF assms] bridge_loop_stops [OF assms]
  by (auto simp: handle_ws_client_def run_ws_proxy_def run_ws_bridge_def relay_calls)

end

