(* ===== verification/Event_Poll.thy ===== *)
theory Event_Poll
  imports Prelude
begin

text \<open>
  The event queue of the device on Linux (\<open>device/epoll.rs\<close>) and the threads that wait on it
  (\<open>DeviceHandle::event_loop\<close> of \<open>device/mod.rs\<close>).  Events live in boxes on a heap, the
  queue maps descriptors to boxes, and the kernel keeps a pointer to the box of each descriptor
  it watches; a thread holds a guard on the box of the event it handles.  The kernel is modelled
  by what its manual pages say of \<open>epoll\<close> and \<open>eventfd\<close>: a descriptor can be added once, a
  one-shot entry is disarmed when it is delivered, and a modification arms it again.  The
  outcomes of the other system calls are arguments.  \<open>None\<close> is a panic or an access to a
  freed box.
\<close>

section \<open>State\<close>

record interest =
  in_read :: bool
  in_write :: bool
  in_edge :: bool
  in_oneshot :: bool

record 'h poll_event =
  ev_interest :: interest
  ev_fd :: nat
  ev_handler :: 'h
  ev_notifier :: bool
  ev_needs_read :: bool

record kernel_entry =
  ke_interest :: interest
  ke_data :: nat
  ke_armed :: bool

text \<open>The guards hold the address of a box, and whether the kernel reported the end of the file.\<close>

record 'h event_poll =
  ep_boxes :: "nat \<Rightarrow> 'h poll_event option"
  ep_fresh :: nat
  ep_events :: "nat option list"
  ep_epoll :: "nat \<Rightarrow> kernel_entry option"
  ep_count :: "nat \<Rightarrow> int"
  ep_guards :: "nat \<Rightarrow> (nat \<times> bool) option"

definition event_poll_new :: "'h event_poll" where
  "event_poll_new = \<lparr>ep_boxes = Map.empty, ep_fresh = 0, ep_events = [], ep_epoll = Map.empty, ep_count = \<lambda>_. 0,
     ep_guards = Map.empty\<rparr>"

text \<open>The box registered for a descriptor.\<close>

definition event_at :: "'h event_poll \<Rightarrow> nat \<Rightarrow> nat option" where
  "event_at ep fd = (if fd < length (ep_events ep) then ep_events ep ! fd else None)"

section \<open>Registration\<close>

definition epoll_del :: "nat \<Rightarrow> 'h event_poll \<Rightarrow> 'h event_poll" where
  "epoll_del fd ep = ep\<lparr>ep_epoll := (ep_epoll ep)(fd := None)\<rparr>"

definition drop_box :: "nat \<Rightarrow> 'h event_poll \<Rightarrow> 'h event_poll" where
  "drop_box p ep = ep\<lparr>ep_boxes := (ep_boxes ep)(p := None)\<rparr>"

definition insert_at :: "'h event_poll \<Rightarrow> nat \<Rightarrow> nat \<Rightarrow> 'h event_poll" where
  "insert_at ep index p = (let
     evs = ep_events ep @ replicate (Suc index - length (ep_events ep)) None;
     ep = (case evs ! index of Some q \<Rightarrow> epoll_del index (drop_box q ep) | None \<Rightarrow> ep)
   in ep\<lparr>ep_events := evs[index := Some p]\<rparr>)"

text \<open>\<open>EPOLL_CTL_ADD\<close> fails for a descriptor that is watched already, or for other reasons.\<close>

definition epoll_add :: "bool \<Rightarrow> nat \<Rightarrow> kernel_entry \<Rightarrow> 'h event_poll \<Rightarrow> bool \<times> 'h event_poll" where
  "epoll_add ok fd k ep = (if ok \<and> ep_epoll ep fd = None then (True, ep\<lparr>ep_epoll := (ep_epoll ep)(fd \<mapsto> k)\<rparr>) else (False, ep))"

definition register_event :: "bool \<Rightarrow> 'h poll_event \<Rightarrow> 'h event_poll \<Rightarrow> (unit + nat) \<times> 'h event_poll" where
  "register_event ok ev ep = (let
     p = ep_fresh ep;
     ep = ep\<lparr>ep_boxes := (ep_boxes ep)(p \<mapsto> ev), ep_fresh := Suc p\<rparr>;
     ep = insert_at ep (ev_fd ev) p
   in case epoll_add ok (ev_fd ev) \<lparr>ke_interest = ev_interest ev, ke_data = p, ke_armed = True\<rparr> ep of (added, ep) \<Rightarrow>
     (if added then Inr (ev_fd ev) else Inl (), ep))"

definition read_once :: interest where "read_once = \<lparr>in_read = True, in_write = False, in_edge = False, in_oneshot = True\<rparr>"

definition new_event :: "bool \<Rightarrow> nat \<Rightarrow> 'h \<Rightarrow> 'h event_poll \<Rightarrow> (unit + nat) \<times> 'h event_poll" where
  "new_event ok trigger handler = register_event ok \<lparr>ev_interest = read_once, ev_fd = trigger, ev_handler = handler,
     ev_notifier = False, ev_needs_read = False\<rparr>"

definition new_write_event :: "bool \<Rightarrow> nat \<Rightarrow> 'h \<Rightarrow> 'h event_poll \<Rightarrow> (unit + nat) \<times> 'h event_poll" where
  "new_write_event ok trigger handler = register_event ok
     \<lparr>ev_interest = \<lparr>in_read = False, in_write = True, in_edge = True, in_oneshot = True\<rparr>, ev_fd = trigger,
      ev_handler = handler, ev_notifier = False, ev_needs_read = False\<rparr>"

text \<open>The descriptors of timers, notifiers and signals come from the kernel, if it has one.\<close>

definition new_periodic_event ::
  "nat option \<Rightarrow> nat option \<Rightarrow> bool \<Rightarrow> bool \<Rightarrow> 'h \<Rightarrow> 'h event_poll \<Rightarrow> (unit + nat) \<times> 'h event_poll" where
  "new_periodic_event boottime monotonic set_ok ok handler ep =
     (case (case boottime of Some fd \<Rightarrow> Some fd | None \<Rightarrow> monotonic) of
        None \<Rightarrow> (Inl (), ep)
      | Some tfd \<Rightarrow> if \<not> set_ok then (Inl (), ep)
          else register_event ok \<lparr>ev_interest = read_once, ev_fd = tfd, ev_handler = handler, ev_notifier = False,
            ev_needs_read = True\<rparr> ep)"

definition new_notifier :: "nat option \<Rightarrow> bool \<Rightarrow> 'h \<Rightarrow> 'h event_poll \<Rightarrow> (unit + nat) \<times> 'h event_poll" where
  "new_notifier efd ok handler ep = (case efd of
       None \<Rightarrow> (Inl (), ep)
     | Some fd \<Rightarrow> register_event ok \<lparr>ev_interest = \<lparr>in_read = True, in_write = False, in_edge = False, in_oneshot = False\<rparr>,
         ev_fd = fd, ev_handler = handler, ev_notifier = True, ev_needs_read = False\<rparr> (ep\<lparr>ep_count := (ep_count ep)(fd := 0)\<rparr>))"

definition new_signal_event :: "nat option \<Rightarrow> bool \<Rightarrow> 'h \<Rightarrow> 'h event_poll \<Rightarrow> (unit + nat) \<times> 'h event_poll" where
  "new_signal_event sfd ok handler ep = (case sfd of
       None \<Rightarrow> (Inl (), ep)
     | Some fd \<Rightarrow> register_event ok \<lparr>ev_interest = read_once, ev_fd = fd, ev_handler = handler, ev_notifier = False,
         ev_needs_read = True\<rparr> ep)"

section \<open>Waiting\<close>

text \<open>What the kernel may deliver: an armed entry; a notifier only while its counter is not zero.\<close>

definition deliverable :: "'h event_poll \<Rightarrow> nat \<Rightarrow> bool" where
  "deliverable ep fd \<longleftrightarrow> (case ep_epoll ep fd of None \<Rightarrow> False
     | Some k \<Rightarrow> ke_armed k \<and>
        (case ep_boxes ep (ke_data k) of Some e \<Rightarrow> ev_notifier e \<longrightarrow> 0 < ep_count ep fd | None \<Rightarrow> True))"

text \<open>\<open>wait\<close>: the guard of the event, and whether the descriptor has hung up.\<close>

definition poll_wait :: "'h event_poll \<Rightarrow> nat \<Rightarrow> nat \<Rightarrow> bool \<Rightarrow> 'h event_poll option" where
  "poll_wait ep t fd hup = (case ep_epoll ep fd of
       None \<Rightarrow> None
     | Some k \<Rightarrow> Some (ep\<lparr>ep_epoll := (ep_epoll ep)(fd \<mapsto> k\<lparr>ke_armed := ke_armed k \<and> \<not> in_oneshot (ke_interest k)\<rparr>),
         ep_guards := (ep_guards ep)(t \<mapsto> (ke_data k, hup))\<rparr>))"

text \<open>The handler of a guard; reading a freed box is undefined.\<close>

definition guard_event :: "'h event_poll \<Rightarrow> nat \<Rightarrow> 'h poll_event option" where
  "guard_event ep t = (case ep_guards ep t of Some (p, _) \<Rightarrow> ep_boxes ep p | None \<Rightarrow> None)"

text \<open>\<open>EPOLL_CTL_MOD\<close> changes a watched descriptor; its error is ignored.\<close>

definition guard_drop :: "'h event_poll \<Rightarrow> nat \<Rightarrow> 'h event_poll option" where
  "guard_drop ep t = (case ep_guards ep t of None \<Rightarrow> None
     | Some (p, _) \<Rightarrow> (case ep_boxes ep p of None \<Rightarrow> None
       | Some e \<Rightarrow> Some (ep\<lparr>ep_guards := (ep_guards ep)(t := None),
           ep_epoll := (case ep_epoll ep (ev_fd e) of None \<Rightarrow> ep_epoll ep
             | Some _ \<Rightarrow> (ep_epoll ep)(ev_fd e \<mapsto> \<lparr>ke_interest = ev_interest e, ke_data = p, ke_armed = True\<rparr>))\<rparr>)))"

definition clear_event_by_fd :: "'h event_poll \<Rightarrow> nat \<Rightarrow> 'h event_poll option" where
  "clear_event_by_fd ep index = (if length (ep_events ep) \<le> index then None
     else (case ep_events ep ! index of
         None \<Rightarrow> Some ep
       | Some q \<Rightarrow> Some (epoll_del index (drop_box q (ep\<lparr>ep_events := (ep_events ep)[index := None]\<rparr>)))))"

text \<open>The guard is forgotten after its event was removed.\<close>

definition guard_cancel :: "'h event_poll \<Rightarrow> nat \<Rightarrow> 'h event_poll option" where
  "guard_cancel ep t = do {
     e \<leftarrow> guard_event ep t;
     ep \<leftarrow> clear_event_by_fd ep (ev_fd e);
     Some (ep\<lparr>ep_guards := (ep_guards ep)(t := None)\<rparr>) }"

definition notify_writable :: "'h event_poll \<Rightarrow> nat \<Rightarrow> bool \<Rightarrow> 'h event_poll option" where
  "notify_writable ep t enabled = (case ep_guards ep t of None \<Rightarrow> None
     | Some (p, _) \<Rightarrow> (case ep_boxes ep p of None \<Rightarrow> None
       | Some e \<Rightarrow> Some (ep\<lparr>ep_boxes := (ep_boxes ep)(p \<mapsto> e\<lparr>ev_interest :=
           \<lparr>in_read = True, in_write = enabled, in_edge = enabled, in_oneshot = True\<rparr>\<rparr>)\<rparr>)))"

section \<open>Notifications\<close>

text \<open>The notifier of a reference; the panics of indexing, \<open>expect\<close> and the explicit one.\<close>

definition notifier_at :: "'h event_poll \<Rightarrow> nat \<Rightarrow> 'h poll_event option" where
  "notifier_at ep fd = do {
     p \<leftarrow> event_at ep fd;
     e \<leftarrow> ep_boxes ep p;
     if ev_notifier e then Some e else None }"

text \<open>A write that would take the counter over its maximum fails, and the error is ignored.\<close>

definition trigger_notification :: "'h event_poll \<Rightarrow> nat \<Rightarrow> 'h event_poll option" where
  "trigger_notification ep fd = map_option (\<lambda>_. if ep_count ep fd + 18446744073709551614 \<le> 18446744073709551614
     then ep\<lparr>ep_count := (ep_count ep)(fd := ep_count ep fd + 18446744073709551614)\<rparr> else ep) (notifier_at ep fd)"

definition stop_notification :: "'h event_poll \<Rightarrow> nat \<Rightarrow> 'h event_poll option" where
  "stop_notification ep fd = map_option (\<lambda>_. ep\<lparr>ep_count := (ep_count ep)(fd := 0)\<rparr>) (notifier_at ep fd)"

section \<open>What the operations change\<close>

lemma event_at_insert [simp]: "event_at (insert_at ep i p) fd = (if fd = i then Some p else event_at ep fd)"
  by (auto simp: event_at_def insert_at_def Let_def epoll_del_def drop_box_def nth_append nth_list_update split: option.split)

lemma insert_at_fields [simp]:
  "ep_boxes (insert_at ep i p) = (case event_at ep i of Some q \<Rightarrow> (ep_boxes ep)(q := None) | None \<Rightarrow> ep_boxes ep)"
  "ep_epoll (insert_at ep i p) = (case event_at ep i of Some q \<Rightarrow> (ep_epoll ep)(i := None) | None \<Rightarrow> ep_epoll ep)"
  "ep_guards (insert_at ep i p) = ep_guards ep" "ep_fresh (insert_at ep i p) = ep_fresh ep" "ep_count (insert_at ep i p) = ep_count ep"
  by (auto simp: event_at_def insert_at_def Let_def epoll_del_def drop_box_def nth_append split: option.split)

lemma event_at_update [simp]:
  "event_at (ep\<lparr>ep_boxes := bs\<rparr>) = event_at ep" "event_at (ep\<lparr>ep_fresh := n\<rparr>) = event_at ep"
  "event_at (ep\<lparr>ep_epoll := k\<rparr>) = event_at ep" "event_at (ep\<lparr>ep_count := c\<rparr>) = event_at ep"
  "event_at (ep\<lparr>ep_guards := g\<rparr>) = event_at ep"
  by (auto simp: event_at_def fun_eq_iff)

lemma clear_event_fields:
  assumes "clear_event_by_fd ep i = Some ep'"
  shows "event_at ep' = (event_at ep)(i := None)"
    "ep_boxes ep' = (case event_at ep i of Some q \<Rightarrow> (ep_boxes ep)(q := None) | None \<Rightarrow> ep_boxes ep)"
    "ep_epoll ep' = (case event_at ep i of Some q \<Rightarrow> (ep_epoll ep)(i := None) | None \<Rightarrow> ep_epoll ep)"
    "ep_guards ep' = ep_guards ep" "ep_fresh ep' = ep_fresh ep" "ep_count ep' = ep_count ep"
  using assms
  by (auto simp: clear_event_by_fd_def event_at_def epoll_del_def drop_box_def fun_eq_iff nth_list_update split: if_splits option.splits)

section \<open>Steps of the threads\<close>

text \<open>No thread holds a guard on the event registered for a descriptor.  The code keeps this
  where it registers or clears: a handler owns its descriptor, so the kernel does not give the
  number out again before the event is removed, and sockets are cleared under the write
  lock, when the other threads have left their handlers.\<close>

definition unguarded :: "'h event_poll \<Rightarrow> nat \<Rightarrow> bool" where
  "unguarded ep fd \<longleftrightarrow> (\<forall>t p b. ep_guards ep t = Some (p, b) \<longrightarrow> event_at ep fd \<noteq> Some p)"

inductive poll_step :: "'h event_poll \<Rightarrow> 'h event_poll \<Rightarrow> bool" where
  step_event: "unguarded ep fd \<Longrightarrow> new_event ok fd f ep = (r, ep') \<Longrightarrow> poll_step ep ep'"
| step_write_event: "unguarded ep fd \<Longrightarrow> new_write_event ok fd f ep = (r, ep') \<Longrightarrow> poll_step ep ep'"
| step_periodic: "\<forall>fd \<in> set_option boot \<union> set_option mtime. unguarded ep fd \<Longrightarrow>
    new_periodic_event boot mtime set_ok ok f ep = (r, ep') \<Longrightarrow> poll_step ep ep'"
| step_notifier: "\<forall>fd \<in> set_option efd. unguarded ep fd \<Longrightarrow> new_notifier efd ok f ep = (r, ep') \<Longrightarrow> poll_step ep ep'"
| step_signal: "\<forall>fd \<in> set_option sfd. unguarded ep fd \<Longrightarrow> new_signal_event sfd ok f ep = (r, ep') \<Longrightarrow> poll_step ep ep'"
| step_wait: "ep_guards ep t = None \<Longrightarrow> deliverable ep fd \<Longrightarrow> notifier_at ep fd = None \<Longrightarrow>
    poll_wait ep t fd True = Some ep' \<Longrightarrow> poll_step ep ep'"
| step_wait_ok: "ep_guards ep t = None \<Longrightarrow> deliverable ep fd \<Longrightarrow> poll_wait ep t fd False = Some ep' \<Longrightarrow> poll_step ep ep'"
| step_drop: "guard_drop ep t = Some ep' \<Longrightarrow> poll_step ep ep'"
| step_cancel: "ep_guards ep t = Some (p, True) \<Longrightarrow> guard_cancel ep t = Some ep' \<Longrightarrow> poll_step ep ep'"
| step_writable: "guard_event ep t = Some e \<Longrightarrow> \<not> ev_notifier e \<Longrightarrow> notify_writable ep t b = Some ep' \<Longrightarrow> poll_step ep ep'"
| step_clear: "unguarded ep fd \<Longrightarrow> clear_event_by_fd ep fd = Some ep' \<Longrightarrow> poll_step ep ep'"
| step_trigger: "trigger_notification ep fd = Some ep' \<Longrightarrow> poll_step ep ep'"
| step_stop: "stop_notification ep fd = Some ep' \<Longrightarrow> poll_step ep ep'"

inductive poll_reach :: "'h event_poll \<Rightarrow> bool" where
  reach_new: "poll_reach event_poll_new"
| reach_step: "poll_reach ep \<Longrightarrow> poll_step ep ep' \<Longrightarrow> poll_reach ep'"

text \<open>The invariant: registered events live under their descriptor, the kernel watches registered
  events only, guards are on registered events, and an event that is not a notifier has one
  guard at most and is disarmed while it has.\<close>

definition poll_inv :: "'h event_poll \<Rightarrow> bool" where
  "poll_inv ep \<longleftrightarrow>
    (\<forall>fd p. event_at ep fd = Some p \<longrightarrow> (\<exists>e. ep_boxes ep p = Some e \<and> ev_fd e = fd)) \<and>
    (\<forall>fd k. ep_epoll ep fd = Some k \<longrightarrow> event_at ep fd = Some (ke_data k)) \<and>
    (\<forall>t p b. ep_guards ep t = Some (p, b) \<longrightarrow> (\<exists>e. ep_boxes ep p = Some e \<and> event_at ep (ev_fd e) = Some p)) \<and>
    (\<forall>p e. ep_boxes ep p = Some e \<longrightarrow> p < ep_fresh ep \<and> in_oneshot (ev_interest e) = (\<not> ev_notifier e)) \<and>
    (\<forall>fd k e. ep_epoll ep fd = Some k \<longrightarrow> ep_boxes ep (ke_data k) = Some e \<longrightarrow> in_oneshot (ke_interest k) = (\<not> ev_notifier e)) \<and>
    (\<forall>t p b e k. ep_guards ep t = Some (p, b) \<longrightarrow> ep_boxes ep p = Some e \<longrightarrow> \<not> ev_notifier e \<longrightarrow>
      ep_epoll ep (ev_fd e) = Some k \<longrightarrow> \<not> ke_armed k) \<and>
    (\<forall>t u p b c e. ep_guards ep t = Some (p, b) \<longrightarrow> ep_guards ep u = Some (p, c) \<longrightarrow> ep_boxes ep p = Some e \<longrightarrow>
      \<not> ev_notifier e \<longrightarrow> t = u) \<and>
    (\<forall>t p e. ep_guards ep t = Some (p, True) \<longrightarrow> ep_boxes ep p = Some e \<longrightarrow> \<not> ev_notifier e)"

lemma poll_invD:
  assumes "poll_inv ep"
  shows "event_at ep fd = Some p \<Longrightarrow> \<exists>e. ep_boxes ep p = Some e \<and> ev_fd e = fd"
    "ep_epoll ep fd = Some k \<Longrightarrow> event_at ep fd = Some (ke_data k)"
    "ep_guards ep t = Some (p, b) \<Longrightarrow> \<exists>e. ep_boxes ep p = Some e \<and> event_at ep (ev_fd e) = Some p"
    "ep_boxes ep p = Some e \<Longrightarrow> p < ep_fresh ep" "ep_boxes ep p = Some e \<Longrightarrow> in_oneshot (ev_interest e) = (\<not> ev_notifier e)"
    "ep_epoll ep fd = Some k \<Longrightarrow> ep_boxes ep (ke_data k) = Some e \<Longrightarrow> in_oneshot (ke_interest k) = (\<not> ev_notifier e)"
    "ep_guards ep t = Some (p, b) \<Longrightarrow> ep_boxes ep p = Some e \<Longrightarrow> \<not> ev_notifier e \<Longrightarrow> ep_epoll ep (ev_fd e) = Some k \<Longrightarrow> \<not> ke_armed k"
    "ep_guards ep t = Some (p, b) \<Longrightarrow> ep_guards ep u = Some (p, c) \<Longrightarrow> ep_boxes ep p = Some e \<Longrightarrow> \<not> ev_notifier e \<Longrightarrow> t = u"
    "ep_guards ep t = Some (p, True) \<Longrightarrow> ep_boxes ep p = Some e \<Longrightarrow> \<not> ev_notifier e"
  by (insert assms, unfold poll_inv_def) metis+

lemma register_inv:
  assumes "poll_inv ep" "unguarded ep (ev_fd ev)" "in_oneshot (ev_interest ev) = (\<not> ev_notifier ev)"
    and "register_event ok ev ep = (r, ep')"
  shows "poll_inv ep'"
proof -
  note I = poll_invD [OF assms(1)]
  let ?fd = "ev_fd ev" let ?n = "ep_fresh ep"
  define bs where "bs = (case event_at ep ?fd of Some q \<Rightarrow> (ep_boxes ep)(?n \<mapsto> ev, q := None) | None \<Rightarrow> (ep_boxes ep)(?n \<mapsto> ev))"
  have new: "ep_boxes ep ?n = None" using I(4) [of ?n] by (cases "ep_boxes ep ?n") auto
  have q: "event_at ep fd = Some q \<Longrightarrow> q \<noteq> ?n" for fd q using I(1) [of fd q] I(4) [of q] by auto
  have bs_new: "bs ?n = Some ev" using q by (auto simp: bs_def split: option.split)
  have bs_old: "bs p = Some e \<longleftrightarrow> (if p = ?n then e = ev else ep_boxes ep p = Some e \<and> event_at ep ?fd \<noteq> Some p)" for p e
    using q new by (auto simp: bs_def split: option.split)
  have k: "ep_epoll ep ?fd = None" if "event_at ep ?fd = None" using I(2) [of ?fd] that by (cases "ep_epoll ep ?fd") auto
  have ep': "ep_boxes ep' = bs" "event_at ep' = (event_at ep)(?fd \<mapsto> ?n)" "ep_fresh ep' = Suc ?n" "ep_guards ep' = ep_guards ep"
    "ep_epoll ep' = (ep_epoll ep)(?fd := (if ok then Some \<lparr>ke_interest = ev_interest ev, ke_data = ?n, ke_armed = True\<rparr> else None))"
    using assms(4) k by (auto simp: register_event_def Let_def epoll_add_def bs_def fun_eq_iff split: if_splits option.splits)
  have g: "p \<noteq> ?n" "event_at ep ?fd \<noteq> Some p" if "ep_guards ep t = Some (p, b)" for t p b
    using I(3) [OF that] I(4) [of p] assms(2) that by (auto simp: unguarded_def)
  have reg: "event_at ep fd = Some p \<Longrightarrow> fd \<noteq> ?fd \<Longrightarrow> event_at ep ?fd \<noteq> Some p" for fd p using I(1) [of fd p] I(1) [of ?fd p] by auto
  show ?thesis unfolding poll_inv_def ep'
  proof (intro conjI allI impI, goal_cases)
    case (1 fd p)
    then show ?case using I(1) [of fd p] bs_new bs_old [of p] reg q by (auto split: if_splits)
  next
    case (2 fd k)
    then show ?case using I(2) by (auto split: if_splits)
  next
    case (3 t p b)
    obtain e where "ep_boxes ep p = Some e" "event_at ep (ev_fd e) = Some p" using I(3) [OF 3] by blast
    then show ?case using g [OF 3] bs_old [of p e] by (intro exI [of _ e]) auto
  next
    case (4 p e)
    then show ?case using I(4) [of p e] bs_old [of p e] by (auto split: if_splits)
  next
    case (5 p e)
    then show ?case using I(5) [of p e] bs_old [of p e] assms(3) by (auto split: if_splits)
  next
    case (6 fd k e)
    then show ?case using I(6) [of fd k e] bs_old [of "ke_data k" e] assms(3) I(2) [of fd k] q by (auto split: if_splits)
  next
    case (7 t p b e k)
    then show ?case using I(7) [of t p b e k] I(3) [of t p b] g [of t p b] bs_old [of p e] by (auto split: if_splits)
  next
    case (8 t u p b c e)
    then show ?case using I(8) [of t p b u c e] g [of t p b] bs_old [of p e] by auto
  next
    case (9 t p e)
    then show ?case using I(9) [of t p e] g [of t p True] bs_old [of p e] by auto
  qed
qed

lemma wait_inv:
  assumes "poll_inv ep" "ep_guards ep t = None" "deliverable ep fd" "poll_wait ep t fd hup = Some ep'" "hup \<Longrightarrow> notifier_at ep fd = None"
  shows "poll_inv ep'"
proof -
  note I = poll_invD [OF assms(1)]
  obtain k where k: "ep_epoll ep fd = Some k" "ke_armed k" using assms(3) by (auto simp: deliverable_def split: option.splits)
  obtain e where e: "ep_boxes ep (ke_data k) = Some e" "ev_fd e = fd" "event_at ep fd = Some (ke_data k)" using I(1,2) k(1) by metis
  have free: "ev_notifier e" if "ep_guards ep u = Some (ke_data k, b)" for u b
    using I(7) [OF that e(1)] k e by auto
  have ep': "ep' = ep\<lparr>ep_epoll := (ep_epoll ep)(fd \<mapsto> k\<lparr>ke_armed := ev_notifier e\<rparr>), ep_guards := (ep_guards ep)(t \<mapsto> (ke_data k, hup))\<rparr>"
    using assms(4) k I(6) [OF k(1) e(1)] by (auto simp: poll_wait_def)
  have h: "hup \<Longrightarrow> \<not> ev_notifier e" using assms(5) e by (auto simp: notifier_at_def)
  show ?thesis unfolding poll_inv_def ep'
    using I e k h free by (auto split: if_splits) (metis+)?
qed

lemma drop_inv:
  assumes "poll_inv ep" "guard_drop ep t = Some ep'"
  shows "poll_inv ep'"
proof -
  note I = poll_invD [OF assms(1)]
  obtain p b e where g: "ep_guards ep t = Some (p, b)" "ep_boxes ep p = Some e"
    using assms(2) by (auto simp: guard_drop_def split: option.splits)
  then have at: "event_at ep (ev_fd e) = Some p" using I(3) by force
  let ?k = "\<lparr>ke_interest = ev_interest e, ke_data = p, ke_armed = True\<rparr>"
  have ep': "ep' = ep\<lparr>ep_guards := (ep_guards ep)(t := None),
      ep_epoll := (if ep_epoll ep (ev_fd e) = None then ep_epoll ep else (ep_epoll ep)(ev_fd e \<mapsto> ?k))\<rparr>"
    using assms(2) g by (auto simp: guard_drop_def split: option.splits)
  have other: "u = t" if "ep_guards ep u = Some (p, c)" "\<not> ev_notifier e" for u c using I(8) [OF g(1) that(1) g(2)] that(2) by simp
  have same: "q = p" if "ep_boxes ep q = Some e'" "event_at ep (ev_fd e') = Some q" "ev_fd e' = ev_fd e" for q e'
    using that at by simp
  show ?thesis unfolding poll_inv_def ep'
  proof (intro conjI allI impI, goal_cases)
    case (7 u q c e' k)
    then have u: "ep_guards ep u = Some (q, c)" "ep_boxes ep q = Some e'" "u \<noteq> t" by (auto split: if_splits)
    have "event_at ep (ev_fd e') = Some q" using I(3) [OF u(1)] u(2) by auto
    then have "ev_fd e' = ev_fd e \<Longrightarrow> q = p \<and> e' = e" using same [OF u(2)] u(2) g(2) by auto
    then have "ev_fd e' \<noteq> ev_fd e" using other [of u c] u 7 by auto
    then show ?case using I(7) [OF u(1,2)] 7 by (auto split: if_splits)
  qed (use I g at in \<open>auto split: if_splits\<close>)
qed

lemma clear_inv:
  assumes "poll_inv ep" "clear_event_by_fd ep fd = Some ep'"
    and "\<And>u q b. ep_guards ep u = Some (q, b) \<Longrightarrow> u \<noteq> t \<Longrightarrow> event_at ep fd \<noteq> Some q"
    and "ep'' = ep'\<lparr>ep_guards := (ep_guards ep')(t := None)\<rparr> \<or> ep'' = ep' \<and> unguarded ep fd"
  shows "poll_inv ep''"
proof -
  note I = poll_invD [OF assms(1)] and f = clear_event_fields [OF assms(2)]
  have boxes: "ep_boxes ep' p = Some e \<longleftrightarrow> ep_boxes ep p = Some e \<and> event_at ep fd \<noteq> Some p" for p e
    by (auto simp: f split: option.splits)
  have epoll: "ep_epoll ep' i = Some k \<longleftrightarrow> ep_epoll ep i = Some k \<and> i \<noteq> fd" for i k
    using I(2) [of fd k] by (auto simp: f split: option.splits)
  have at: "event_at ep'' = (event_at ep)(fd := None)" "ep_boxes ep'' = ep_boxes ep'" "ep_epoll ep'' = ep_epoll ep'" "ep_fresh ep'' = ep_fresh ep"
    using assms(4) f by auto
  have guards: "ep_guards ep u = Some (q, b) \<and> event_at ep fd \<noteq> Some q" if "ep_guards ep'' u = Some (q, b)" for u q b
    using assms(4)
  proof (elim disjE conjE)
    assume "ep'' = ep'\<lparr>ep_guards := (ep_guards ep')(t := None)\<rparr>"
    then show ?thesis using that assms(3) [of u q b] f(4) by (auto split: if_splits)
  next
    assume "ep'' = ep'" "unguarded ep fd"
    then show ?thesis using that f(4) unfolding unguarded_def by metis
  qed
  have reg: "event_at ep i = Some p \<Longrightarrow> i \<noteq> fd \<Longrightarrow> event_at ep fd \<noteq> Some p" for i p
    using I(1) [of i p] I(1) [of fd p] by auto
  show ?thesis unfolding poll_inv_def at
  proof (intro conjI allI impI, goal_cases)
    case (1 i p)
    then show ?case using I(1) [of i p] reg boxes by (auto split: if_splits)
  next
    case (2 i k)
    then show ?case using I(2) [of i k] epoll by auto
  next
    case (3 u q b)
    obtain e where "ep_boxes ep q = Some e" "event_at ep (ev_fd e) = Some q" using I(3) guards [OF 3] by blast
    then show ?case using guards [OF 3] boxes by (intro exI [of _ e]) auto
  next
    case (4 p e)
    then show ?case using I(4) boxes by auto
  next
    case (5 p e)
    then show ?case using I(5) boxes by auto
  next
    case (6 i k e)
    then show ?case using I(6) boxes epoll by auto
  next
    case (7 u q b e k)
    then show ?case using I(7) guards boxes epoll by blast
  next
    case (8 u v q b c e)
    then show ?case using I(8) guards boxes by blast
  next
    case (9 u q e)
    then show ?case using I(9) guards boxes by blast
  qed
qed

lemma cancel_inv:
  assumes "poll_inv ep" "ep_guards ep t = Some (p, True)" "guard_cancel ep t = Some ep'"
  shows "poll_inv ep'"
proof -
  note I = poll_invD [OF assms(1)]
  obtain e ep1 where e: "ep_boxes ep p = Some e" "clear_event_by_fd ep (ev_fd e) = Some ep1"
    "ep' = ep1\<lparr>ep_guards := (ep_guards ep1)(t := None)\<rparr>"
    using assms(2,3) clear_event_fields(4) by (fastforce simp: guard_cancel_def guard_event_def split: bind_splits)
  have at: "event_at ep (ev_fd e) = Some p" "\<not> ev_notifier e" using I(3) [OF assms(2)] e(1) I(9) [OF assms(2)] by auto
  have "event_at ep (ev_fd e) \<noteq> Some q" if "ep_guards ep u = Some (q, b)" "u \<noteq> t" for u q b
    using I(8) [of u q b t True e] that assms(2) e(1) at by auto
  then show ?thesis using clear_inv [OF assms(1) e(2), of t ep'] e(3) by blast
qed

lemma writable_inv:
  assumes "poll_inv ep" "guard_event ep t = Some e" "\<not> ev_notifier e" "notify_writable ep t b = Some ep'"
  shows "poll_inv ep'"
proof -
  note I = poll_invD [OF assms(1)]
  obtain p c where p: "ep_guards ep t = Some (p, c)" "ep_boxes ep p = Some e" "p < ep_fresh ep"
    using assms(2) I(4) by (auto simp: guard_event_def split: option.splits)
  let ?e = "e\<lparr>ev_interest := \<lparr>in_read = True, in_write = b, in_edge = b, in_oneshot = True\<rparr>\<rparr>"
  have ep': "ep' = ep\<lparr>ep_boxes := (ep_boxes ep)(p \<mapsto> ?e)\<rparr>" using assms(4) p by (auto simp: notify_writable_def)
  have box: "((ep_boxes ep)(p \<mapsto> ?e)) q = Some d \<Longrightarrow> \<exists>d'. ep_boxes ep q = Some d' \<and> ev_fd d' = ev_fd d \<and> ev_notifier d' = ev_notifier d"
    for q d using p by (auto split: if_splits)
  have box': "ep_boxes ep q = Some d \<Longrightarrow> \<exists>d'. ((ep_boxes ep)(p \<mapsto> ?e)) q = Some d' \<and> ev_fd d' = ev_fd d" for q d
    using p by (auto split: if_splits)
  show ?thesis unfolding poll_inv_def ep'
  proof (intro conjI allI impI, goal_cases)
    case (1 i q) then show ?case using I(1) [of i q] box' [of q] by auto
  next
    case (2 i k) then show ?case using I(2) by auto
  next
    case (3 u q c)
    then obtain d where "ep_boxes ep q = Some d" "event_at ep (ev_fd d) = Some q" using I(3) [of u q c] by auto
    then show ?case using box' [of q d] by auto
  next
    case (4 q d) then show ?case using I(4) p by (auto split: if_splits)
  next
    case (5 q d) then show ?case using I(5) assms(3) by (auto split: if_splits)
  next
    case (6 i k d) then show ?case using I(6) [of i k] box [of "ke_data k" d] by auto
  next
    case (7 u q c d k) then show ?case using I(7) [of u q c] box [of q d] by auto
  next
    case (8 u v q c c' d) then show ?case using I(8) [of u q c v c'] box [of q d] by auto
  next
    case (9 u q d) then show ?case using I(9) [of u q] box [of q d] by auto
  qed
qed

lemma count_inv [simp]: "poll_inv (ep\<lparr>ep_count := c\<rparr>) = poll_inv ep" by (simp add: poll_inv_def)

lemma step_inv: "poll_step ep ep' \<Longrightarrow> poll_inv ep \<Longrightarrow> poll_inv ep'"
proof (induction rule: poll_step.induct)
  case (step_event ep fd ok f r ep')
  then show ?case by (intro register_inv [of ep _ ok r ep']) (auto simp: new_event_def read_once_def)
next
  case (step_write_event ep fd ok f r ep')
  then show ?case by (intro register_inv [of ep _ ok r ep']) (auto simp: new_write_event_def)
next
  case (step_periodic boot mtime ep set_ok ok f r ep')
  then show ?case
    by (auto simp: new_periodic_event_def read_once_def split: option.splits if_splits elim!: register_inv [rotated -1])
next
  case (step_notifier efd ep ok f r ep')
  then show ?case
    by (auto simp: new_notifier_def unguarded_def split: option.splits elim!: register_inv [rotated -1])
next
  case (step_signal sfd ep ok f r ep')
  then show ?case
    by (auto simp: new_signal_event_def read_once_def split: option.splits elim!: register_inv [rotated -1])
next
  case (step_wait ep t fd ep')
  then show ?case using wait_inv by blast
next
  case (step_wait_ok ep t fd ep')
  then show ?case using wait_inv by blast
next
  case (step_clear ep fd ep')
  then show ?case using clear_inv [of ep fd ep' 0 ep'] by (auto simp: unguarded_def)
qed (auto simp: trigger_notification_def stop_notification_def intro: drop_inv cancel_inv writable_inv)

lemma reach_inv: "poll_reach ep \<Longrightarrow> poll_inv ep"
proof (induction rule: poll_reach.induct)
  case reach_new
  show ?case by (simp add: poll_inv_def event_poll_new_def event_at_def)
next
  case (reach_step ep ep')
  then show ?case using step_inv by blast
qed

section \<open>Properties\<close>


text \<open>Two threads: one waits for a socket and gets it, the other waits for a notifier.\<close>

definition two_events :: "nat event_poll" where
  "two_events = (let ep = snd (new_event True 3 7 event_poll_new); ep = snd (new_notifier (Some 4) True 8 ep);
     ep = the (trigger_notification ep 4); ep = the (poll_wait ep 0 3 False) in the (poll_wait ep 1 4 False))"

lemma register_guards [simp]: "ep_guards (snd (register_event ok ev ep)) = ep_guards ep"
  by (simp add: register_event_def Let_def epoll_add_def)

lemma two_events_reach: "poll_reach two_events"
proof -
  let ?a = "snd (new_event True 3 (7 :: nat) event_poll_new)" let ?b = "snd (new_notifier (Some 4) True 8 ?a)"
  let ?c = "the (trigger_notification ?b 4)" let ?d = "the (poll_wait ?c 0 3 False)"
  have g: "ep_guards event_poll_new = Map.empty" "ep_guards ?a = Map.empty"
    by (simp_all add: event_poll_new_def new_event_def)
  have s: "x = Some (the x)" if "\<not> Option.is_none x" for x :: "nat event_poll option"
    using that by (cases x) auto
  have "poll_step event_poll_new ?a"
    by (rule step_event [OF _ surjective_pairing]) (simp add: unguarded_def g)
  moreover have "poll_step ?a ?b"
    by (rule step_notifier [OF _ surjective_pairing]) (simp add: unguarded_def g)
  moreover have "poll_step ?b ?c" by (rule step_trigger, rule s) code_simp
  moreover have "poll_step ?c ?d" by (rule step_wait_ok [of _ 0 3], code_simp, code_simp, rule s) code_simp
  moreover have "poll_step ?d (the (poll_wait ?d 1 4 False))"
    by (rule step_wait_ok [of _ 1 4], code_simp, code_simp, rule s) code_simp
  ultimately have "poll_reach (the (poll_wait ?d 1 4 False))" using reach_new reach_step by metis
  then show ?thesis by (simp only: two_events_def Let_def)
qed


text \<open>Registering a descriptor again while its old handler runs breaks this: the other thread
  reads a freed box when it releases its guard.\<close>

lemma override_frees_handler:
  "let ep = the (poll_wait (snd (new_event True 3 (7 :: nat) event_poll_new)) 0 3 False);
       ep' = snd (new_event True 3 8 ep)
   in ep_guards ep' 0 \<noteq> None \<and> guard_event ep' 0 = None \<and> guard_drop ep' 0 = None"
  by code_simp

end

