(* ===== verification/Event_Loop.thy ===== *)
theory Event_Loop
  imports Event_Poll
begin

text \<open>
  The threads of the device on its event queue (\<open>DeviceHandle::event_loop\<close> of
  \<open>device/mod.rs\<close>): each takes the read lock, waits for events and runs their handlers, until a
  handler says to yield or to exit.  What a handler does to the queue while it runs is a step of
  its own.  The lock itself is modelled in \<open>Dev_Lock\<close>.
\<close>

section \<open>Threads\<close>

datatype action = ContinueLoop | YieldLock | ExitLoop

datatype 'h loop_handler = YieldNotice | ExitNotice | Device 'h

text \<open>What a handler may answer.\<close>

fun answers :: "'h loop_handler \<Rightarrow> action set" where
  "answers YieldNotice = {YieldLock}"
| "answers ExitNotice = {ExitLoop}"
| "answers (Device h) = UNIV"

datatype phase = WantLock | Polling | Handling | Left

record 'h device_threads =
  dt_queue :: "'h loop_handler event_poll"
  dt_phase :: "nat \<Rightarrow> phase"
  dt_yield :: nat
  dt_exit :: nat
  dt_uapi :: "nat option"

definition register_notifiers :: "nat option \<Rightarrow> nat option \<Rightarrow> bool \<Rightarrow> bool \<Rightarrow> 'h loop_handler event_poll \<Rightarrow>
    (unit + (nat \<times> nat)) \<times> 'h loop_handler event_poll" where
  "register_notifiers yield_fd exit_fd ok ok' ep = (case new_notifier yield_fd ok YieldNotice ep of
       (Inl u, ep) \<Rightarrow> (Inl u, ep)
     | (Inr y, ep) \<Rightarrow> (case new_notifier exit_fd ok' ExitNotice ep of
         (Inl u, ep) \<Rightarrow> (Inl u, ep)
       | (Inr x, ep) \<Rightarrow> (Inr (y, x), ep)))"

definition trigger_yield :: "'h device_threads \<Rightarrow> 'h loop_handler event_poll option" where
  "trigger_yield d = trigger_notification (dt_queue d) (dt_yield d)"

definition cancel_yield :: "'h device_threads \<Rightarrow> 'h loop_handler event_poll option" where
  "cancel_yield d = stop_notification (dt_queue d) (dt_yield d)"

definition trigger_exit :: "'h device_threads \<Rightarrow> 'h loop_handler event_poll option" where
  "trigger_exit d = trigger_notification (dt_queue d) (dt_exit d)"

definition at_phase :: "'h device_threads \<Rightarrow> nat \<Rightarrow> phase \<Rightarrow> 'h loop_handler event_poll \<Rightarrow> 'h device_threads" where
  "at_phase d t ph ep = d\<lparr>dt_queue := ep, dt_phase := (dt_phase d)(t := ph)\<rparr>"

text \<open>After a handler: the guard is dropped at the end of the arm, in an exit after the notice.\<close>

definition loop_action :: "'h device_threads \<Rightarrow> nat \<Rightarrow> action \<Rightarrow> 'h device_threads option" where
  "loop_action d t a = (case a of
       ContinueLoop \<Rightarrow> map_option (at_phase d t Polling) (guard_drop (dt_queue d) t)
     | YieldLock \<Rightarrow> map_option (at_phase d t WantLock) (guard_drop (dt_queue d) t)
     | ExitLoop \<Rightarrow> do {
         ep \<leftarrow> trigger_exit d;
         ep \<leftarrow> guard_drop ep t;
         Some (at_phase d t Left ep) })"

text \<open>The end of a file ends the thread when it is the configuration descriptor.\<close>

definition loop_eof :: "'h device_threads \<Rightarrow> nat \<Rightarrow> 'h device_threads option" where
  "loop_eof d t = do {
     e \<leftarrow> guard_event (dt_queue d) t;
     if dt_uapi d = Some (ev_fd e) then loop_action d t ExitLoop
     else map_option (at_phase d t Polling) (guard_cancel (dt_queue d) t) }"

text \<open>The steps; the last four are what handlers and the handle of the device do to the queue
  meanwhile.  Nobody removes the exit notice or resets it.\<close>

inductive loop_step :: "'h device_threads \<Rightarrow> 'h device_threads \<Rightarrow> bool" where
  loop_lock: "dt_phase d t = WantLock \<Longrightarrow> loop_step d (at_phase d t Polling (dt_queue d))"
| loop_wait: "dt_phase d t = Polling \<Longrightarrow> deliverable (dt_queue d) fd \<Longrightarrow> poll_wait (dt_queue d) t fd False = Some ep \<Longrightarrow>
    loop_step d (at_phase d t Handling ep)"
| loop_wait_eof: "dt_phase d t = Polling \<Longrightarrow> deliverable (dt_queue d) fd \<Longrightarrow> notifier_at (dt_queue d) fd = None \<Longrightarrow>
    poll_wait (dt_queue d) t fd True = Some ep \<Longrightarrow> loop_eof (at_phase d t Handling ep) t = Some d' \<Longrightarrow> loop_step d d'"
| loop_handled: "dt_phase d t = Handling \<Longrightarrow> guard_event (dt_queue d) t = Some e \<Longrightarrow> a \<in> answers (ev_handler e) \<Longrightarrow>
    loop_action d t a = Some d' \<Longrightarrow> loop_step d d'"
| env_register: "unguarded (dt_queue d) (ev_fd ev) \<Longrightarrow> in_oneshot (ev_interest ev) = (\<not> ev_notifier ev) \<Longrightarrow> ev_fd ev \<noteq> dt_exit d \<Longrightarrow>
    register_event ok ev (dt_queue d) = (r, ep) \<Longrightarrow> loop_step d (d\<lparr>dt_queue := ep\<rparr>)"
| env_clear: "unguarded (dt_queue d) fd \<Longrightarrow> fd \<noteq> dt_exit d \<Longrightarrow> clear_event_by_fd (dt_queue d) fd = Some ep \<Longrightarrow>
    loop_step d (d\<lparr>dt_queue := ep\<rparr>)"
| env_trigger: "trigger_yield d = Some ep \<or> trigger_exit d = Some ep \<Longrightarrow> loop_step d (d\<lparr>dt_queue := ep\<rparr>)"
| env_cancel: "cancel_yield d = Some ep \<Longrightarrow> loop_step d (d\<lparr>dt_queue := ep\<rparr>)"

text \<open>The threads start after the queue was set up with both notices.\<close>

definition threads_start :: "'h device_threads \<Rightarrow> bool" where
  "threads_start d \<longleftrightarrow> (\<exists>ep yfd xfd ok ok'. poll_reach ep \<and> ep_guards ep = Map.empty \<and>
     register_notifiers yfd xfd ok ok' ep = (Inr (dt_yield d, dt_exit d), dt_queue d) \<and> dt_yield d \<noteq> dt_exit d \<and>
     (\<forall>t. dt_phase d t = WantLock))"

inductive threads_reach :: "'h device_threads \<Rightarrow> bool" where
  threads_init: "threads_start d \<Longrightarrow> threads_reach d"
| threads_step: "threads_reach d \<Longrightarrow> loop_step d d' \<Longrightarrow> threads_reach d'"

section \<open>Invariant\<close>

text \<open>The exit notice stays registered and armed, and once a thread has left it stays set.\<close>

definition exit_armed :: "'h loop_handler event_poll \<Rightarrow> nat \<Rightarrow> bool" where
  "exit_armed ep x \<longleftrightarrow> (\<exists>p e k. event_at ep x = Some p \<and> ep_boxes ep p = Some e \<and> ev_notifier e \<and> ev_handler e = ExitNotice \<and>
     ep_epoll ep x = Some k \<and> ke_data k = p \<and> ke_armed k)"

definition threads_inv :: "'h device_threads \<Rightarrow> bool" where
  "threads_inv d \<longleftrightarrow> poll_inv (dt_queue d) \<and> exit_armed (dt_queue d) (dt_exit d) \<and> 0 \<le> ep_count (dt_queue d) (dt_exit d) \<and> dt_yield d \<noteq> dt_exit d \<and>
     (\<forall>t. ep_guards (dt_queue d) t \<noteq> None \<longleftrightarrow> dt_phase d t = Handling) \<and>
     ((\<exists>t. dt_phase d t = Left) \<longrightarrow> 0 < ep_count (dt_queue d) (dt_exit d))"

lemma exit_armedI:
  assumes "exit_armed ep x" "event_at ep' x = event_at ep x" "\<And>p. event_at ep x = Some p \<Longrightarrow> ep_boxes ep' p = ep_boxes ep p"
    and "ep_epoll ep' x = ep_epoll ep x"
  shows "exit_armed ep' x"
proof -
  obtain p e k where "event_at ep x = Some p" "ep_boxes ep p = Some e" "ev_notifier e" "ev_handler e = ExitNotice"
    "ep_epoll ep x = Some k" "ke_data k = p" "ke_armed k" using assms(1) unfolding exit_armed_def by blast
  then show ?thesis using assms(2,3,4) unfolding exit_armed_def by (intro exI [of _ p] exI [of _ e] exI [of _ k]) simp
qed

lemma other_box:
  assumes "poll_inv ep" "event_at ep x = Some p" "event_at ep fd = Some q" "fd \<noteq> x"
  shows "p \<noteq> q"
  using poll_invD(1) [OF assms(1,2)] poll_invD(1) [OF assms(1,3)] assms(4) by auto

lemma register_exit:
  assumes "poll_inv ep" "exit_armed ep x" "ev_fd ev \<noteq> x" "register_event ok ev ep = (r, ep')"
  shows "exit_armed ep' x \<and> ep_count ep' = ep_count ep \<and> ep_guards ep' = ep_guards ep"
proof -
  have "p \<noteq> ep_fresh ep" if "event_at ep x = Some p" for p using poll_invD(1) [OF assms(1) that] poll_invD(4) [OF assms(1)] by fastforce
  moreover note other_box [OF assms(1) _ _ assms(3)]
  ultimately have "exit_armed ep' x"
    using assms(3,4) by (intro exit_armedI [OF assms(2)])
      (auto simp: register_event_def Let_def epoll_add_def split: if_splits option.splits)
  then show ?thesis using assms(4) by (auto simp: register_event_def Let_def epoll_add_def split: if_splits)
qed

lemma clear_exit:
  assumes "poll_inv ep" "exit_armed ep x" "fd \<noteq> x" "clear_event_by_fd ep fd = Some ep'"
  shows "exit_armed ep' x"
  using assms(3) other_box [OF assms(1) _ _ assms(3)]
  by (intro exit_armedI [OF assms(2)]) (auto simp: clear_event_fields [OF assms(4)] split: option.splits)

lemma wait_exit:
  assumes "poll_inv ep" "exit_armed ep x" "poll_wait ep t fd hup = Some ep'"
  shows "exit_armed ep' x \<and> ep_count ep' = ep_count ep \<and> (\<exists>p. ep_guards ep' = (ep_guards ep)(t \<mapsto> (p, hup)))"
proof -
  obtain k where k: "ep_epoll ep fd = Some k"
    "ep' = ep\<lparr>ep_epoll := (ep_epoll ep)(fd \<mapsto> k\<lparr>ke_armed := ke_armed k \<and> \<not> in_oneshot (ke_interest k)\<rparr>),
       ep_guards := (ep_guards ep)(t \<mapsto> (ke_data k, hup))\<rparr>"
    using assms(3) by (auto simp: poll_wait_def split: option.splits)
  have "k\<lparr>ke_armed := ke_armed k \<and> \<not> in_oneshot (ke_interest k)\<rparr> = k" if fd: "fd = x"
  proof -
    obtain e where "ep_boxes ep (ke_data k) = Some e" "ev_notifier e" "ke_armed k"
      using assms(2) k(1) unfolding fd by (auto simp: exit_armed_def)
    then show ?thesis using poll_invD(6) [OF assms(1) k(1)] by (cases k) auto
  qed
  then have "ep_epoll ep' x = ep_epoll ep x" using k by auto
  then show ?thesis using exit_armedI [OF assms(2), of ep'] k(2) by auto
qed

lemma drop_exit:
  assumes "poll_inv ep" "exit_armed ep x" "guard_drop ep t = Some ep'"
  shows "exit_armed ep' x \<and> ep_count ep' = ep_count ep \<and> ep_guards ep' = (ep_guards ep)(t := None)"
proof -
  obtain p b e where g: "ep_guards ep t = Some (p, b)" "ep_boxes ep p = Some e"
    using assms(3) by (auto simp: guard_drop_def split: option.splits)
  then have at: "event_at ep (ev_fd e) = Some p" using poll_invD(3) [OF assms(1) g(1)] by auto
  have ep': "ep' = ep\<lparr>ep_guards := (ep_guards ep)(t := None), ep_epoll := (if ep_epoll ep (ev_fd e) = None then ep_epoll ep
      else (ep_epoll ep)(ev_fd e \<mapsto> \<lparr>ke_interest = ev_interest e, ke_data = p, ke_armed = True\<rparr>))\<rparr>"
    using assms(3) g by (auto simp: guard_drop_def split: option.splits)
  show ?thesis using assms(2) at unfolding exit_armed_def ep' by (cases "ev_fd e = x") auto
qed

lemma cancel_exit:
  assumes "poll_inv ep" "exit_armed ep x" "ep_guards ep t = Some (p, True)" "guard_cancel ep t = Some ep'"
  shows "exit_armed ep' x \<and> ep_count ep' = ep_count ep \<and> ep_guards ep' = (ep_guards ep)(t := None)"
proof -
  obtain e ep1 where e: "ep_boxes ep p = Some e" "clear_event_by_fd ep (ev_fd e) = Some ep1"
    "ep' = ep1\<lparr>ep_guards := (ep_guards ep1)(t := None)\<rparr>"
    using assms(3,4) by (auto simp: guard_cancel_def guard_event_def split: bind_splits)
  have "event_at ep (ev_fd e) = Some p" "\<not> ev_notifier e" using poll_invD(3,9) [OF assms(1) assms(3)] e(1) by auto
  then have "ev_fd e \<noteq> x" using assms(2) e(1) by (auto simp: exit_armed_def)
  from clear_exit [OF assms(1,2) this e(2)] show ?thesis
    using e(3) clear_event_fields(4,6) [OF e(2)] by (auto simp: exit_armed_def)
qed

lemma count_exit [simp]: "exit_armed (ep\<lparr>ep_count := c\<rparr>) x = exit_armed ep x"
  by (simp add: exit_armed_def)

lemma trigger_exit_set:
  assumes "trigger_notification ep fd = Some ep'" "0 \<le> ep_count ep x"
  shows "\<exists>c. ep' = ep\<lparr>ep_count := c\<rparr> \<and> 0 \<le> c x \<and> (0 < ep_count ep x \<longrightarrow> 0 < c x) \<and> (fd = x \<longrightarrow> 0 < c x)"
proof (cases "ep_count ep fd \<le> 0")
  case True
  then show ?thesis using assms
    by (intro exI [of _ "(ep_count ep)(fd := ep_count ep fd + 18446744073709551614)"]) (auto simp: trigger_notification_def)
next
  case False
  then show ?thesis using assms by (intro exI [of _ "ep_count ep"]) (auto simp: trigger_notification_def)
qed

lemma loop_action_inv:
  assumes "poll_inv (dt_queue d)" "exit_armed (dt_queue d) (dt_exit d)" "0 \<le> ep_count (dt_queue d) (dt_exit d)"
    and "dt_yield d \<noteq> dt_exit d" "\<forall>u. u \<noteq> t \<longrightarrow> (ep_guards (dt_queue d) u \<noteq> None \<longleftrightarrow> dt_phase d u = Handling)"
    and "(\<exists>t. dt_phase d t = Left) \<longrightarrow> 0 < ep_count (dt_queue d) (dt_exit d)" "loop_action d t a = Some d'"
  shows "threads_inv d' \<and> dt_exit d' = dt_exit d"
proof -
  have drop: "threads_inv (at_phase d t ph ep') \<and> dt_exit (at_phase d t ph ep') = dt_exit d"
    if "guard_drop ep t = Some ep'" "ep = dt_queue d\<lparr>ep_count := c\<rparr>" "0 \<le> c (dt_exit d)" "0 < ep_count (dt_queue d) (dt_exit d) \<longrightarrow> 0 < c (dt_exit d)"
      "ph = Left \<longrightarrow> 0 < c (dt_exit d)" "ph \<noteq> Handling" for ep ep' c ph
    using drop_inv [OF _ that(1)] drop_exit [OF _ _ that(1), of "dt_exit d"] that assms
    by (auto simp: threads_inv_def at_phase_def)
  have same: "dt_queue d = dt_queue d\<lparr>ep_count := ep_count (dt_queue d)\<rparr>" by simp
  show ?thesis
  proof (cases a)
    case ContinueLoop
    then show ?thesis using assms(3,6,7) drop [OF _ same, of _ Polling] by (auto simp: loop_action_def)
  next
    case YieldLock
    then show ?thesis using assms(3,6,7) drop [OF _ same, of _ WantLock] by (auto simp: loop_action_def)
  next
    case ExitLoop
    then obtain ep ep' where e: "trigger_notification (dt_queue d) (dt_exit d) = Some ep" "guard_drop ep t = Some ep'" "d' = at_phase d t Left ep'"
      using assms(7) by (auto simp: loop_action_def trigger_exit_def split: bind_splits)
    obtain c where "ep = dt_queue d\<lparr>ep_count := c\<rparr>" "0 \<le> c (dt_exit d)" "0 < c (dt_exit d)"
      using trigger_exit_set [OF e(1) assms(3)] by auto
    then show ?thesis using drop [OF e(2), of c Left] e(3) by auto
  qed
qed

lemma stop_exit:
  assumes "stop_notification ep fd = Some ep'" "fd \<noteq> x"
  shows "\<exists>c. ep' = ep\<lparr>ep_count := c\<rparr> \<and> c x = ep_count ep x"
  using assms by (auto simp: stop_notification_def)

lemma no_guard:
  assumes "threads_inv d" "dt_phase d t = Polling"
  shows "ep_guards (dt_queue d) t = None"
proof -
  have "ep_guards (dt_queue d) t \<noteq> None \<longleftrightarrow> dt_phase d t = Handling" using assms(1) unfolding threads_inv_def by blast
  moreover have "dt_phase d t \<noteq> Handling" using assms(2) by simp
  ultimately show ?thesis by blast
qed

lemma loop_step_inv: "loop_step d d' \<Longrightarrow> threads_inv d \<Longrightarrow> threads_inv d'"
proof (induction rule: loop_step.induct)
  case (loop_lock d t)
  then show ?case by (auto simp: threads_inv_def at_phase_def)
next
  case (loop_wait d t fd ep)
  then have I: "poll_inv (dt_queue d)" "exit_armed (dt_queue d) (dt_exit d)" "ep_guards (dt_queue d) t = None"
    using no_guard by (auto simp: threads_inv_def)
  show ?case
    using wait_inv [OF I(1,3) loop_wait(2,3)] wait_exit [OF I(1,2) loop_wait(3)] loop_wait by (auto simp: threads_inv_def at_phase_def)
next
  case (loop_wait_eof d t fd ep d')
  then have I: "poll_inv (dt_queue d)" "exit_armed (dt_queue d) (dt_exit d)" "ep_guards (dt_queue d) t = None"
    using no_guard by (auto simp: threads_inv_def)
  let ?d = "at_phase d t Handling ep"
  have w: "poll_inv ep" "exit_armed ep (dt_exit d)" "ep_count ep = ep_count (dt_queue d)"
    using wait_inv [OF I(1,3) loop_wait_eof(2,4)] wait_exit [OF I(1,2) loop_wait_eof(4)] loop_wait_eof(3) by auto
  obtain p where g: "ep_guards ep = (ep_guards (dt_queue d))(t \<mapsto> (p, True))" using wait_exit [OF I(1,2) loop_wait_eof(4)] by blast
  have d: "dt_queue ?d = ep" "dt_exit ?d = dt_exit d" "dt_yield ?d = dt_yield d" "dt_uapi ?d = dt_uapi d" by (simp_all add: at_phase_def)
  obtain e where e: "guard_event ep t = Some e" using loop_wait_eof(5) d by (auto simp: loop_eof_def split: bind_splits)
  show ?case
  proof (cases "dt_uapi d = Some (ev_fd e)")
    case True
    then have "loop_action ?d t ExitLoop = Some d'" using loop_wait_eof(5) e d by (simp add: loop_eof_def)
    moreover have "(\<exists>u. dt_phase ?d u = Left) \<longrightarrow> 0 < ep_count ep (dt_exit d)"
      using loop_wait_eof(6) w(3) unfolding threads_inv_def at_phase_def by auto
    moreover have "\<forall>u. u \<noteq> t \<longrightarrow> (ep_guards ep u \<noteq> None \<longleftrightarrow> dt_phase ?d u = Handling)"
      using loop_wait_eof(6) g unfolding threads_inv_def at_phase_def by auto
    moreover have "0 \<le> ep_count ep (dt_exit d)" "dt_yield d \<noteq> dt_exit d" using loop_wait_eof(6) w(3) unfolding threads_inv_def by auto
    ultimately show ?thesis using loop_action_inv [of ?d t ExitLoop d', unfolded d] w by blast
  next
    case False
    then obtain ep' where c: "guard_cancel ep t = Some ep'" "d' = at_phase ?d t Polling ep'"
      using loop_wait_eof(5) e d by (auto simp: loop_eof_def)
    have gt: "ep_guards ep t = Some (p, True)" using g by simp
    show ?thesis using cancel_inv [OF w(1) gt c(1)] cancel_exit [OF w(1,2) gt c(1)] loop_wait_eof(1,6) w g c(2)
      by (auto simp: threads_inv_def at_phase_def)
  qed
next
  case (loop_handled d t e a d')
  then show ?case using loop_action_inv [of d t a d'] by (auto simp: threads_inv_def)
next
  case (env_register d ev ok r ep)
  then show ?case using register_inv [OF _ env_register(1,2,4)] register_exit [OF _ _ env_register(3,4)] by (auto simp: threads_inv_def)
next
  case (env_clear d fd ep)
  then show ?case
    using clear_inv [OF _ env_clear(3), of 0 ep] clear_exit [OF _ _ env_clear(2,3)] clear_event_fields(4,6) [OF env_clear(3)]
    by (auto simp: threads_inv_def unguarded_def)
next
  case (env_trigger d ep)
  then obtain fd where "trigger_notification (dt_queue d) fd = Some ep" by (auto simp: trigger_yield_def trigger_exit_def)
  from trigger_exit_set [OF this, of "dt_exit d"] show ?case using env_trigger(2) by (auto simp: threads_inv_def)
next
  case (env_cancel d ep)
  then have "stop_notification (dt_queue d) (dt_yield d) = Some ep" "dt_yield d \<noteq> dt_exit d" by (auto simp: cancel_yield_def threads_inv_def)
  from stop_exit [OF this] show ?case using env_cancel(2) by (auto simp: threads_inv_def)
qed

lemma new_notifier_armed:
  assumes "poll_inv ep" "ep_guards ep = Map.empty" "new_notifier (Some x) ok ExitNotice ep = (Inr y, ep')"
  shows "poll_inv ep' \<and> exit_armed ep' x \<and> y = x \<and> ep_count ep' x = 0 \<and> ep_guards ep' = Map.empty"
proof -
  let ?ev = "\<lparr>ev_interest = \<lparr>in_read = True, in_write = False, in_edge = False, in_oneshot = False\<rparr>,
     ev_fd = x, ev_handler = ExitNotice :: 'a loop_handler, ev_notifier = True, ev_needs_read = False\<rparr>"
  have r: "register_event ok ?ev (ep\<lparr>ep_count := (ep_count ep)(x := 0)\<rparr>) = (Inr y, ep')"
    using assms(3) by (simp add: new_notifier_def)
  have "poll_inv ep'" using register_inv [OF _ _ _ r] assms(1,2) by (simp add: unguarded_def)
  moreover have "q \<noteq> ep_fresh ep" if "event_at ep x = Some q" for q
    using poll_invD(1) [OF assms(1) that] poll_invD(4) [OF assms(1)] by fastforce
  ultimately show ?thesis using r assms(2)
    by (auto simp: register_event_def Let_def epoll_add_def exit_armed_def split: if_splits option.splits)
qed

lemma threads_reach_inv: "threads_reach d \<Longrightarrow> threads_inv d"
proof (induction rule: threads_reach.induct)
  case (threads_init d)
  then obtain ep yfd xfd ok ok' where s: "poll_reach ep" "ep_guards ep = Map.empty" "dt_yield d \<noteq> dt_exit d" "\<forall>t. dt_phase d t = WantLock"
    "register_notifiers yfd xfd ok ok' ep = (Inr (dt_yield d, dt_exit d), dt_queue d)" by (auto simp: threads_start_def)
  then obtain ep1 x where 1: "new_notifier yfd ok YieldNotice ep = (Inr (dt_yield d), ep1)" "xfd = Some x"
    "new_notifier (Some x) ok' ExitNotice ep1 = (Inr (dt_exit d), dt_queue d)"
    by (cases xfd) (auto simp: register_notifiers_def new_notifier_def [of None] split: prod.splits sum.splits)
  have "poll_step ep ep1" by (rule step_notifier [OF _ 1(1)]) (simp add: unguarded_def s(2))
  then have "poll_inv ep1" using reach_inv [OF reach_step [OF s(1)]] by blast
  moreover have "ep_guards ep1 = Map.empty" using 1(1) s(2) register_guards [of ok] by (auto simp: new_notifier_def split: option.splits dest!: arg_cong [where f = snd])
  ultimately show ?case using new_notifier_armed [OF _ _ 1(3)] s(3,4) by (auto simp: threads_inv_def)
next
  case (threads_step d d')
  then show ?case using loop_step_inv by blast
qed

section \<open>Properties\<close>

text \<open>C21: an exit reaches every thread.  Once one thread has left its loop, in every later state the
  exit notice is ready, so each thread that polls can take it and leave; a thread that has
  left never comes back, and no step ever makes a thread read a freed handler.\<close>

theorem exit_reaches_all:
  assumes "threads_reach d" "dt_phase d t = Left" "loop_step\<^sup>*\<^sup>* d d'"
  shows "dt_phase d' t = Left \<and> deliverable (dt_queue d') (dt_exit d') \<and>
    (\<forall>u. dt_phase d' u = Polling \<longrightarrow> (\<exists>d1 d2. loop_step d' d1 \<and> loop_step d1 d2 \<and> dt_phase d2 u = Left)) \<and>
    (\<forall>u. dt_phase d' u = Handling \<longrightarrow> guard_event (dt_queue d') u \<noteq> None)"
proof -
  have "threads_inv d' \<and> dt_phase d' t = Left" using assms(3,1,2)
  proof (induction rule: rtranclp_induct)
    case base
    then show ?case using threads_reach_inv by blast
  next
    case (step d1 d2)
    then have i: "threads_inv d1" "dt_phase d1 t = Left" by auto
    have "dt_phase d2 t = Left" using step(2) i(2)
      by (induction rule: loop_step.induct)
        (auto simp: at_phase_def loop_action_def loop_eof_def split: action.splits bind_splits if_splits)
    then show ?case using loop_step_inv [OF step(2) i(1)] by blast
  qed
  then have I: "threads_inv d'" and l: "dt_phase d' t = Left" by auto
  then obtain p e k where x: "event_at (dt_queue d') (dt_exit d') = Some p" "ep_boxes (dt_queue d') p = Some e" "ev_notifier e"
    "ev_handler e = ExitNotice" "ep_epoll (dt_queue d') (dt_exit d') = Some k" "ke_data k = p" "ke_armed k"
    by (auto simp: threads_inv_def exit_armed_def)
  have c: "0 < ep_count (dt_queue d') (dt_exit d')" using I l unfolding threads_inv_def by blast
  have del: "deliverable (dt_queue d') (dt_exit d')" using x c by (simp add: deliverable_def)
  have poll: "poll_inv (dt_queue d')" using I by (simp add: threads_inv_def)
  have leave: "\<exists>d1 d2. loop_step d' d1 \<and> loop_step d1 d2 \<and> dt_phase d2 u = Left" if u: "dt_phase d' u = Polling" for u
  proof -
    obtain ep where w: "poll_wait (dt_queue d') u (dt_exit d') False = Some ep" using x by (simp add: poll_wait_def)
    let ?d = "at_phase d' u Handling ep"
    note s = loop_wait [OF u del w]
    have "guard_event ep u = Some e" using w x by (auto simp: poll_wait_def guard_event_def)
    then have g: "guard_event (dt_queue ?d) u = Some e" by (simp add: at_phase_def)
    have "notifier_at ep (dt_exit d') = Some e" using w x by (auto simp: poll_wait_def notifier_at_def)
    then obtain ep2 where t2: "trigger_exit ?d = Some ep2" by (simp add: trigger_exit_def trigger_notification_def at_phase_def)
    then have "\<exists>c. ep2 = ep\<lparr>ep_count := c\<rparr>"
      by (auto simp: trigger_exit_def trigger_notification_def at_phase_def split: if_splits intro: exI [of _ "ep_count ep"])
    then have "guard_event ep2 u = Some e" using g by (auto simp: at_phase_def guard_event_def split: option.splits)
    then obtain ep3 where "guard_drop ep2 u = Some ep3" by (auto simp: guard_event_def guard_drop_def split: option.splits)
    then have "loop_action ?d u ExitLoop = Some (at_phase ?d u Left ep3)" using t2 by (simp add: loop_action_def)
    with loop_handled [OF _ g _ this] have "loop_step ?d (at_phase ?d u Left ep3)" using x(4) by (simp add: at_phase_def)
    then show ?thesis using s by (intro exI conjI) (auto simp: at_phase_def)
  qed
  have "guard_event (dt_queue d') u \<noteq> None" if "dt_phase d' u = Handling" for u
  proof -
    have "ep_guards (dt_queue d') u \<noteq> None" using I that unfolding threads_inv_def by blast
    then show ?thesis using poll_invD(3) [OF poll] by (fastforce simp: guard_event_def)
  qed
  then show ?thesis using l del leave by blast
qed

text \<open>Two threads; the device is told to exit, and the first of them leaves.\<close>

definition start_threads :: "nat device_threads" where
  "start_threads = \<lparr>dt_queue = snd (register_notifiers (Some 0) (Some 1) True True event_poll_new), dt_phase = \<lambda>_. WantLock,
     dt_yield = 0, dt_exit = 1, dt_uapi = None\<rparr>"

definition both_polling :: "nat device_threads" where
  "both_polling = (let d = start_threads; d = at_phase d 0 Polling (dt_queue d) in at_phase d 1 Polling (dt_queue d))"

definition told_to_exit :: "nat device_threads" where
  "told_to_exit = both_polling\<lparr>dt_queue := the (trigger_exit both_polling)\<rparr>"

definition taking_notice :: "nat device_threads" where
  "taking_notice = at_phase told_to_exit 0 Handling (the (poll_wait (dt_queue told_to_exit) 0 1 False))"

lemma taking_notice_reach: "threads_reach taking_notice"
proof -
  let ?d1 = "at_phase start_threads 0 Polling (dt_queue start_threads)"
  have s: "x = Some (the x)" if "\<not> Option.is_none x" for x :: "'b option" using that by (cases x) auto
  have "fst (register_notifiers (Some 0) (Some 1) True True (event_poll_new :: nat loop_handler event_poll)) = Inr (0, 1)" by code_simp
  then have "register_notifiers (Some 0) (Some 1) True True event_poll_new = (Inr (0, 1), dt_queue start_threads)"
    by (simp add: start_threads_def prod_eq_iff)
  moreover have "ep_guards (event_poll_new :: nat loop_handler event_poll) = Map.empty" by (simp add: event_poll_new_def)
  ultimately have "threads_start start_threads"
    unfolding threads_start_def using reach_new
    by (intro exI [of _ event_poll_new] exI [of _ "Some 0"] exI [of _ "Some 1"] exI [of _ True]) (simp add: start_threads_def)
  then have 0: "threads_reach start_threads" by (rule threads_init)
  have "loop_step start_threads ?d1" by (rule loop_lock) (simp add: start_threads_def)
  moreover have "loop_step ?d1 both_polling"
    unfolding both_polling_def Let_def by (rule loop_lock) (simp add: start_threads_def at_phase_def)
  moreover have "loop_step both_polling told_to_exit"
    unfolding told_to_exit_def by (rule env_trigger, rule disjI2, rule s) code_simp
  moreover have "loop_step told_to_exit taking_notice"
    unfolding taking_notice_def by (rule loop_wait [of _ _ 1], code_simp, code_simp, rule s) code_simp
  ultimately show ?thesis using 0 threads_step by metis
qed

theorem exit_reaches_all_witness:
  "\<exists>d :: nat device_threads. threads_reach d \<and> dt_phase d 0 = Left \<and> dt_phase d 1 = Polling \<and>
    (\<exists>d1 d2. loop_step d d1 \<and> loop_step d1 d2 \<and> dt_phase d2 1 = Left)"
proof -
  let ?d = "taking_notice"
  have "map_option ev_handler (guard_event (dt_queue ?d) 0) = Some ExitNotice" by code_simp
  then obtain e where e: "guard_event (dt_queue ?d) 0 = Some e" "ev_handler e = ExitNotice" by auto
  have "map_option (\<lambda>d. (dt_phase d 0, dt_phase d 1)) (loop_action ?d 0 ExitLoop) = Some (Left, Polling)" by code_simp
  then obtain d where d: "loop_action ?d 0 ExitLoop = Some d" "dt_phase d 0 = Left" "dt_phase d 1 = Polling" by auto
  have "dt_phase ?d 0 = Handling" by code_simp
  from loop_handled [OF this e(1) _ d(1)] have "threads_reach d" using e(2) taking_notice_reach threads_step by auto
  note reach = this
  have "\<forall>u. dt_phase d u = Polling \<longrightarrow> (\<exists>d1 d2. loop_step d d1 \<and> loop_step d1 d2 \<and> dt_phase d2 u = Left)"
    using exit_reaches_all [OF reach d(2) rtranclp.rtrancl_refl] by blast
  then show ?thesis using d reach by blast
qed

end

