(* ===== verification/Client_Sys.thy ===== *)
theory Client_Sys
  imports Registration
begin

text \<open>
  The operating system as the desktop client (\<open>client/src-tauri/src/vpn.rs\<close>) uses it:
  programs it runs, processes it starts, files, sockets, clocks, HTTP requests and events for
  the user interface.  Every interaction is an event of a history, with the answer it got;
  a \<open>host\<close> answers as any function of the history so far, so that its answers may change
  over time.  Operations take the host and the history and return the longer history.
  Also here: the operations on text of the standard library that the client uses.
\<close>

section \<open>Events\<close>

datatype platform = MacOS | Linux | OtherUnix | NonUnix

text \<open>A finished program: its exit status and its output, decoded as UTF-8.\<close>

record cmd_output =
  out_ok :: bool
  out_stdout :: bytes
  out_stderr :: bytes

datatype piped = SpawnFailed bytes | StdinFailed bytes | WaitFailed bytes | Finished cmd_output

datatype child_state = Running | Exited bool | Unknown

datatype exchange = NoConnection bytes | WriteFailed bytes | ReadFailed bytes | Answered bytes

text \<open>HTTP requests: the JSON bodies are kept as their contents.\<close>

datatype http_call = HealthCall | RegisterCall bytes "bytes option" | BalancesCall nat bytes

datatype http_reply = NotSent bytes | Replied nat bytes

text \<open>Events for the user interface.\<close>

datatype vpn_status = Disconnected | Connecting | Connected | Disconnecting | Error

record vpn_state_event =
  vs_status :: vpn_status
  vs_assigned_ip :: "bytes option"
  vs_error :: "bytes option"

record health_event =
  he_connected :: bool
  he_process_alive :: bool
  he_handshake_age_secs :: "nat option"

datatype ui_event = VpnState vpn_state_event | VpnHealth health_event

datatype event =
    Ran "bytes list" "bytes + cmd_output"
  | RanPiped "bytes list" bytes piped
  | Spawned "bytes list" "bytes + nat"
  | Polled nat child_state
  | Reaped nat
  | Asked bytes bool
  | ReadFile bytes "bytes + bytes"
  | WroteFile bytes bytes "bytes option"
  | RemovedFile bytes
  | ListedDir bytes "bytes list option"
  | MadeDir bytes
  | DrewKey bytes
  | Slept nat
  | ReadClock nat
  | ReadTime "nat option"
  | Exchanged bytes bytes exchange
  | Requested bytes http_call http_reply
  | Emitted ui_event
  | OpenedUrl bytes "bytes option"
  | StartedHealth bytes u32
  | CancelledHealth

type_synonym history = "event list"

record host =
  ho_platform :: platform
  ho_env :: environ
  ho_manifest :: bytes
  ho_home :: "bytes option"
  ho_run :: "history \<Rightarrow> bytes list \<Rightarrow> bytes + cmd_output"
  ho_pipe :: "history \<Rightarrow> bytes list \<Rightarrow> bytes \<Rightarrow> piped"
  ho_spawn :: "history \<Rightarrow> bytes list \<Rightarrow> bytes + nat"
  ho_poll :: "history \<Rightarrow> nat \<Rightarrow> child_state"
  ho_pid :: "nat \<Rightarrow> u32"
  ho_exists :: "history \<Rightarrow> bytes \<Rightarrow> bool"
  ho_read :: "history \<Rightarrow> bytes \<Rightarrow> bytes + bytes"
  ho_write :: "history \<Rightarrow> bytes \<Rightarrow> bytes \<Rightarrow> bytes option"
  ho_list :: "history \<Rightarrow> bytes \<Rightarrow> bytes list option"
  ho_random :: "history \<Rightarrow> bytes"
  ho_clock :: "history \<Rightarrow> nat"
  ho_time :: "history \<Rightarrow> nat option"
  ho_exchange :: "history \<Rightarrow> bytes \<Rightarrow> bytes \<Rightarrow> exchange"
  ho_http :: "history \<Rightarrow> bytes \<Rightarrow> http_call \<Rightarrow> http_reply"
  ho_http_client :: "history \<Rightarrow> bytes option"
  ho_status_text :: "nat \<Rightarrow> bytes"
  ho_open :: "history \<Rightarrow> bytes \<Rightarrow> bytes option"
  ho_clone :: "history \<Rightarrow> bytes option"
  ho_debug :: "bytes \<Rightarrow> bytes"
  ho_b64_decode :: "bytes \<Rightarrow> bytes + bytes"
  ho_b64_encode :: "bytes \<Rightarrow> bytes"
  ho_hex_encode :: "bytes \<Rightarrow> bytes"
  ho_public_key :: "bytes \<Rightarrow> bytes"

section \<open>Interactions\<close>

text \<open>\<open>Command::output\<close> and \<open>Command::status\<close>: the arguments start with the program.\<close>

definition run :: "host \<Rightarrow> bytes list \<Rightarrow> history \<Rightarrow> (bytes + cmd_output) \<times> history" where
  "run ho argv h = (let r = ho_run ho h argv in (r, h @ [Ran argv r]))"

definition run_ok :: "host \<Rightarrow> bytes list \<Rightarrow> history \<Rightarrow> bool \<times> history" where
  "run_ok ho argv h = (case run ho argv h of (r, h) \<Rightarrow> (case r of Inr out \<Rightarrow> out_ok out | Inl _ \<Rightarrow> False, h))"

definition run_piped :: "host \<Rightarrow> bytes list \<Rightarrow> bytes \<Rightarrow> history \<Rightarrow> piped \<times> history" where
  "run_piped ho argv input h = (let r = ho_pipe ho h argv input in (r, h @ [RanPiped argv input r]))"

definition spawn :: "host \<Rightarrow> bytes list \<Rightarrow> history \<Rightarrow> (bytes + nat) \<times> history" where
  "spawn ho argv h = (let r = ho_spawn ho h argv in (r, h @ [Spawned argv r]))"

definition try_wait :: "host \<Rightarrow> nat \<Rightarrow> history \<Rightarrow> child_state \<times> history" where
  "try_wait ho child h = (let r = ho_poll ho h child in (r, h @ [Polled child r]))"

definition path_exists :: "host \<Rightarrow> bytes \<Rightarrow> history \<Rightarrow> bool \<times> history" where
  "path_exists ho path h = (let r = ho_exists ho h path in (r, h @ [Asked path r]))"

definition read_file :: "host \<Rightarrow> bytes \<Rightarrow> history \<Rightarrow> (bytes + bytes) \<times> history" where
  "read_file ho path h = (let r = ho_read ho h path in (r, h @ [ReadFile path r]))"

definition write_file :: "host \<Rightarrow> bytes \<Rightarrow> bytes \<Rightarrow> history \<Rightarrow> bytes option \<times> history" where
  "write_file ho path contents h = (let r = ho_write ho h path contents in (r, h @ [WroteFile path contents r]))"

definition list_dir :: "host \<Rightarrow> bytes \<Rightarrow> history \<Rightarrow> bytes list option \<times> history" where
  "list_dir ho path h = (let r = ho_list ho h path in (r, h @ [ListedDir path r]))"

definition instant_now :: "host \<Rightarrow> history \<Rightarrow> nat \<times> history" where
  "instant_now ho h = (let t = ho_clock ho h in (t, h @ [ReadClock t]))"

definition unix_time :: "host \<Rightarrow> history \<Rightarrow> nat option \<times> history" where
  "unix_time ho h = (let t = ho_time ho h in (t, h @ [ReadTime t]))"

definition exchange_on :: "host \<Rightarrow> bytes \<Rightarrow> bytes \<Rightarrow> history \<Rightarrow> exchange \<times> history" where
  "exchange_on ho path payload h = (let r = ho_exchange ho h path payload in (r, h @ [Exchanged path payload r]))"

definition http_exchange :: "host \<Rightarrow> bytes \<Rightarrow> http_call \<Rightarrow> history \<Rightarrow> http_reply \<times> history" where
  "http_exchange ho url call h = (let r = ho_http ho h url call in (r, h @ [Requested url call r]))"

definition sleep :: "nat \<Rightarrow> history \<Rightarrow> history" where "sleep ms h = h @ [Slept ms]"

text \<open>The operator \<open>?\<close> between two operations.\<close>

definition then_ok :: "(bytes + 'a) \<times> history \<Rightarrow> ('a \<Rightarrow> history \<Rightarrow> (bytes + 'b) \<times> history) \<Rightarrow> (bytes + 'b) \<times> history" where
  "then_ok p k = (case p of (r, h) \<Rightarrow> case r of Inl e \<Rightarrow> (Inl e, h) | Inr x \<Rightarrow> k x h)"

text \<open>Every interaction adds one event.\<close>

lemmas interactions = run_def run_ok_def run_piped_def spawn_def try_wait_def path_exists_def read_file_def
  write_file_def list_dir_def instant_now_def unix_time_def exchange_on_def http_exchange_def

section \<open>Text\<close>

definition lits :: "string list \<Rightarrow> bytes list" where "lits = map ascii"

definition starts_with :: "bytes \<Rightarrow> bytes \<Rightarrow> bool" where "starts_with p s \<longleftrightarrow> take (length p) s = p"

definition ends_with :: "bytes \<Rightarrow> bytes \<Rightarrow> bool" where
  "ends_with p s \<longleftrightarrow> length p \<le> length s \<and> drop (length s - length p) s = p"

fun has_infix :: "bytes \<Rightarrow> bytes \<Rightarrow> bool" where
  "has_infix p [] = (p = [])"
| "has_infix p (c # cs) = (starts_with p (c # cs) \<or> has_infix p cs)"

definition strip_prefix :: "bytes \<Rightarrow> bytes \<Rightarrow> bytes option" where
  "strip_prefix p s = (if starts_with p s then Some (drop (length p) s) else None)"

text \<open>\<open>trim_end_matches\<close>: every copy of a suffix is removed.\<close>

function trim_end_matches :: "bytes \<Rightarrow> bytes \<Rightarrow> bytes" where
  "trim_end_matches p s = (if p \<noteq> [] \<and> ends_with p s then trim_end_matches p (take (length s - length p) s) else s)"
  by pat_completeness auto
termination by (relation "measure (length \<circ> snd)") (auto simp: ends_with_def intro!: diff_less)

declare trim_end_matches.simps [simp del]

text \<open>\<open>str::lines\<close>: a line ends with a line feed, or with a carriage return and a line feed.\<close>

definition chop_eol :: "bytes \<Rightarrow> bytes" where
  "chop_eol l = (if l \<noteq> [] \<and> last l = 10
     then (let b = butlast l in if b \<noteq> [] \<and> last b = 13 then butlast b else b) else l)"

definition str_lines :: "bytes \<Rightarrow> bytes list" where "str_lines s = map chop_eol (stream_lines s)"

text \<open>\<open>split_whitespace\<close>.\<close>

function take_word :: "bytes \<Rightarrow> bytes \<times> bytes" where
  "take_word s = (if s = [] \<or> 0 < ws_head s then ([], s)
     else case take_word (tl s) of (w, rest) \<Rightarrow> (hd s # w, rest))"
  by pat_completeness auto
termination by (relation "measure length") auto

declare take_word.simps [simp del]

lemma take_word_length: "length (snd (take_word s)) \<le> length s"
proof (induction s rule: take_word.induct)
  case (1 s)
  then show ?case by (subst take_word.simps) (auto split: prod.splits)
qed

lemma take_word_shorter: "s \<noteq> [] \<Longrightarrow> ws_head s = 0 \<Longrightarrow> length (snd (take_word s)) < length s"
  using take_word_length [of "tl s"] by (subst take_word.simps) (cases s; auto split: prod.splits)

lemma trim_start_length: "length (trim_start s) \<le> length s"
proof (induction s rule: trim_start.induct)
  case (1 s)
  then show ?case by (subst trim_start.simps) (simp only: split: if_splits, fastforce)
qed

lemma trim_start_head: "trim_start s = [] \<or> ws_head (trim_start s) = 0"
proof (induction s rule: trim_start.induct)
  case (1 s)
  then show ?case by (subst (1 2) trim_start.simps) auto
qed

function split_ws :: "bytes \<Rightarrow> bytes list" where
  "split_ws s = (let t = trim_start s in
     if t = [] then [] else case take_word t of (w, rest) \<Rightarrow> w # split_ws rest)"
  by pat_completeness auto
termination
proof (relation "measure length", goal_cases)
  case (2 s t w rest)
  then have "length rest < length t" using take_word_shorter [of t] trim_start_head [of s] by (metis snd_conv)
  then show ?case using 2(1) trim_start_length [of s] by simp
qed simp

declare split_ws.simps [simp del]

text \<open>The last characters of a text: \<open>chars().rev().take(n)\<close>, reversed back.\<close>

fun take_back :: "nat \<Rightarrow> bytes \<Rightarrow> bytes" where
  "take_back 0 r = []"
| "take_back (Suc n) r = takeWhile is_continuation r @
     (case dropWhile is_continuation r of [] \<Rightarrow> [] | c # cs \<Rightarrow> c # take_back n cs)"

definition last_chars :: "nat \<Rightarrow> bytes \<Rightarrow> bytes" where "last_chars n s = rev (take_back n (rev s))"

text \<open>\<open>str::replace\<close> of one character.\<close>

definition replace_byte :: "u8 \<Rightarrow> bytes \<Rightarrow> bytes \<Rightarrow> bytes" where
  "replace_byte c by = concat \<circ> map (\<lambda>x. if x = c then by else [x])"

definition format_list :: "(bytes \<Rightarrow> bytes) \<Rightarrow> bytes list \<Rightarrow> bytes" where
  "format_list show xs = 91 # concat (case xs of [] \<Rightarrow> [] | x # ys \<Rightarrow> show x # map (\<lambda>y. ascii '', '' @ show y) ys) @ [93]"

end
