(* ===== verification/Startup.thy ===== *)
theory Startup
  imports Client_Sys
begin

text \<open>
  Starting the tunnel process (\<open>boringtun-cli/src/main.rs\<close>) and giving up its privileges
  (\<open>device/drop_privileges.rs\<close>), with the check of the interface name (\<open>device/tun_darwin.rs\<close>).
  The command line is what the \<open>clap\<close> library makes of it, with defaults and environment
  applied.  User and group ids follow the manual pages of \<open>setuid\<close> and \<open>setgid\<close>; whether other
  calls succeed is an argument.  What starts is an event of a log.
\<close>

section \<open>Privileges\<close>

record credentials =
  cr_uid :: u32
  cr_euid :: u32
  cr_suid :: u32
  cr_gid :: u32
  cr_egid :: u32
  cr_sgid :: u32
  cr_groups :: "u32 list"

text \<open>A privileged process sets all three ids, another one its effective id to its real or
  saved one.  The supplementary groups stay.\<close>

definition setgid :: "u32 \<Rightarrow> credentials \<Rightarrow> bool \<times> credentials" where
  "setgid g c = (if cr_euid c = 0 then (True, c\<lparr>cr_gid := g, cr_egid := g, cr_sgid := g\<rparr>)
     else if g = cr_gid c \<or> g = cr_sgid c then (True, c\<lparr>cr_egid := g\<rparr>)
     else (False, c))"

definition setuid :: "u32 \<Rightarrow> credentials \<Rightarrow> bool \<times> credentials" where
  "setuid u c = (if cr_euid c = 0 then (True, c\<lparr>cr_uid := u, cr_euid := u, cr_suid := u\<rparr>)
     else if u = cr_uid c \<or> u = cr_suid c then (True, c\<lparr>cr_euid := u\<rparr>)
     else (False, c))"

text \<open>The ids of the user who logged in are looked up first.  The two calls at the end try to
  become root again; the second is made only if the first fails.\<close>

definition drop_privileges :: "(u32 \<times> u32) option \<Rightarrow> credentials \<Rightarrow> (unit + unit) \<times> credentials" where
  "drop_privileges saved_ids c = (case saved_ids of None \<Rightarrow> (Inl (), c)
     | Some (saved_uid, saved_gid) \<Rightarrow>
     (case setgid saved_gid c of (ok, c) \<Rightarrow> if \<not> ok then (Inl (), c)
      else (case setuid saved_uid c of (ok, c) \<Rightarrow> if \<not> ok then (Inl (), c)
      else (case setgid 0 c of (back, c) \<Rightarrow> if back then (Inl (), c)
      else (case setuid 0 c of (back, c) \<Rightarrow> if back then (Inl (), c) else (Inr (), c))))))"

section \<open>Interface names\<close>

text \<open>The number after \<open>utun\<close>, plus one, wraps at 32 bits; zero asks for a free number.\<close>

definition parse_utun_name :: "bytes \<Rightarrow> u32 option" where
  "parse_utun_name name = (if \<not> starts_with (ascii ''utun'') name then None
     else (let idx = drop 4 name in if idx = [] then Some 0 else map_option (\<lambda>x. x + 1) (parse_u32 idx)))"

definition check_tun_name :: "bool \<Rightarrow> bytes \<Rightarrow> bool" where
  "check_tun_name macos name \<longleftrightarrow> (if macos then parse_utun_name name \<noteq> None else True)"

section \<open>Command line\<close>

record cli_args =
  ca_interface :: bytes
  ca_foreground :: bool
  ca_threads :: bytes
  ca_uapi_fd :: bytes
  ca_tun_fd :: bytes
  ca_keep_privileges :: bool
  ca_unconnected_udp :: bool
  ca_single_queue :: bool
  ca_ws_bind :: "bytes option"
  ca_ws_connect :: "bytes option"
  ca_ws_local_port :: "bytes option"

text \<open>\<open>from_str\<close> of a signed integer of a number of bits.\<close>

definition parse_int :: "nat \<Rightarrow> bytes \<Rightarrow> int option" where
  "parse_int bits s = (case s of
       [] \<Rightarrow> None
     | c # cs \<Rightarrow> if c = 45 then (if cs = [] \<or> hd cs = 43 then None
           else map_option (\<lambda>n. - int n) (parse_uint (2 ^ (bits - 1) + 1) cs))
         else map_option int (parse_uint (2 ^ (bits - 1)) s))"

record start_config =
  dc_n_threads :: nat
  dc_uapi_fd :: int
  dc_use_connected_socket :: bool
  dc_use_multi_queue :: bool

text \<open>The name of the interface and the configuration, or \<open>None\<close> when a value does not parse and
  the process exits.  A descriptor of an existing interface takes the place of its name.\<close>

definition cli_config :: "bool \<Rightarrow> cli_args \<Rightarrow> (bytes \<times> start_config) option" where
  "cli_config macos args = (if \<not> check_tun_name macos (ca_interface args) then None
     else do {
       uapi_fd \<leftarrow> (if macos then Some (- 1) else parse_int 32 (ca_uapi_fd args));
       tun_fd \<leftarrow> parse_int 64 (ca_tun_fd args);
       n_threads \<leftarrow> parse_uint 18446744073709551616 (ca_threads args);
       Some (if 0 \<le> tun_fd then ca_tun_fd args else ca_interface args,
         \<lparr>dc_n_threads = n_threads, dc_uapi_fd = uapi_fd, dc_use_connected_socket = \<not> ca_unconnected_udp args,
          dc_use_multi_queue = \<not> ca_single_queue args\<rparr>) })"

section \<open>Starting\<close>

datatype start_event =
    CreatedLog bool
  | Daemonized bool
  | MadeDevice bytes start_config bool
  | Dropped bool
  | NotifiedParent u8
  | InitServer bytes u16 bool
  | StartedHttp bytes bytes registration_state
  | StartedReaper
  | StartedWsProxy bytes u16
  | StartedWsBridge u16 bytes
  | Waiting

datatype start_end = ExitCode nat | Panicked | Returned

record start_host =
  st_macos :: bool
  st_env :: environ
  st_hex_decode :: "bytes \<Rightarrow> bytes option"
  st_pair_ok :: bool
  st_log_ok :: bool
  st_daemon_ok :: bool
  st_device_ok :: "bytes \<Rightarrow> start_config \<Rightarrow> bool"
  st_saved_ids :: "(u32 \<times> u32) option"
  st_send_ok :: "u8 \<Rightarrow> bool"
  st_sockets :: "bytes list option"
  st_init_ok :: "bytes \<Rightarrow> u16 \<Rightarrow> bool"
  st_spawn_ok :: "string \<Rightarrow> bool"

type_synonym started = "start_event list \<times> credentials"

text \<open>A stage ends the process or goes on with a value.\<close>

definition stage :: "(start_end + 'a) \<times> started \<Rightarrow> ('a \<Rightarrow> started \<Rightarrow> (start_end + 'b) \<times> started) \<Rightarrow> (start_end + 'b) \<times> started" where
  "stage p k = (case p of (Inl e, s) \<Rightarrow> (Inl e, s) | (Inr x, s) \<Rightarrow> k x s)"

definition log_event :: "start_event \<Rightarrow> started \<Rightarrow> started" where "log_event e s = (fst s @ [e], snd s)"

definition background :: "start_host \<Rightarrow> cli_args \<Rightarrow> started \<Rightarrow> (start_end + unit) \<times> started" where
  "background sh args s = (if ca_foreground args then (Inr (), s)
     else (let s = log_event (CreatedLog (st_log_ok sh)) s in
       if \<not> st_log_ok sh then (Inl Panicked, s)
       else (let s = log_event (Daemonized (st_daemon_ok sh)) s in
         if \<not> st_daemon_ok sh then (Inl (ExitCode 1), s) else (Inr (), s))))"

text \<open>The byte for the parent; a failing send panics.\<close>

definition notify_parent :: "start_host \<Rightarrow> u8 \<Rightarrow> started \<Rightarrow> (start_end + unit) \<times> started" where
  "notify_parent sh b s = (if st_send_ok sh b then (Inr (), log_event (NotifiedParent b) s) else (Inl Panicked, s))"

definition start_failed :: "start_host \<Rightarrow> started \<Rightarrow> (start_end + unit) \<times> started" where
  "start_failed sh s = stage (notify_parent sh 0 s) (\<lambda>_ s. (Inl (ExitCode 1), s))"

definition make_device :: "start_host \<Rightarrow> cli_args \<Rightarrow> bytes \<Rightarrow> start_config \<Rightarrow> started \<Rightarrow> (start_end + unit) \<times> started" where
  "make_device sh args tun_name cfg s = (let ok = st_device_ok sh tun_name cfg; s = log_event (MadeDevice tun_name cfg ok) s in
     if \<not> ok then start_failed sh s
     else stage (if ca_keep_privileges args then (Inr (), s)
         else (case drop_privileges (st_saved_ids sh) (snd s) of (r, c) \<Rightarrow>
           let s = log_event (Dropped (r = Inr ())) (fst s, c) in
           if r = Inr () then (Inr (), s) else start_failed sh s))
       (\<lambda>_ s. notify_parent sh 1 s))"

text \<open>What the parent prints and its exit code, from the byte it received.\<close>

definition parent_exit :: "u8 option \<Rightarrow> nat" where "parent_exit b = (if b = Some 1 then 0 else 1)"

section \<open>Servers\<close>

definition env_flag :: "environ \<Rightarrow> string \<Rightarrow> bool \<Rightarrow> bool" where
  "env_flag env var dflt = (case env var of Some v \<Rightarrow> v = ascii ''1'' \<or> ascii_lower v = ascii ''true'' | None \<Rightarrow> dflt)"

text \<open>The interface of the first socket whose name starts with a hint.\<close>

definition find_uapi_interface :: "bytes list option \<Rightarrow> bytes \<Rightarrow> bytes option" where
  "find_uapi_interface dir hint = Option.bind dir (\<lambda>names. map_option (trim_end_matches (ascii ''.sock''))
     (List.find (\<lambda>name. starts_with hint name \<and> ends_with (ascii ''.sock'') name) names))"

definition wg_port :: "environ \<Rightarrow> u16" where
  "wg_port env = (case Option.bind (env ''BT_WG_PORT'') parse_u16 of Some p \<Rightarrow> p | None \<Rightarrow> 51820)"

definition snapshot_of :: "payment_config \<Rightarrow> payment_config_snapshot" where
  "snapshot_of c = \<lparr>sn_chain_id = pc_chain_id c, sn_gateway_wallet = pc_gateway_wallet c, sn_usdc_contract = pc_usdc_contract c,
     sn_amount_per_quota = pc_amount_per_quota c, sn_quota_bytes = pc_quota_bytes c\<rparr>"

definition spawn_thread :: "start_host \<Rightarrow> string \<Rightarrow> start_event \<Rightarrow> started \<Rightarrow> (start_end + unit) \<times> started" where
  "spawn_thread sh name e s = (if st_spawn_ok sh name then (Inr (), log_event e s) else (Inl Panicked, s))"

definition registration_enabled :: "environ \<Rightarrow> bool" where
  "registration_enabled env \<longleftrightarrow> env ''BT_HTTP_BIND'' \<noteq> None \<or> env_flag env ''BT_REGISTRATION_API'' (env_flag env ''BT_PAYMENT_SERVER'' False)"

definition arg_or_env :: "environ \<Rightarrow> string \<Rightarrow> bytes option \<Rightarrow> bytes" where
  "arg_or_env env var arg = (case env var of Some v \<Rightarrow> v | None \<Rightarrow> (case arg of Some v \<Rightarrow> v | None \<Rightarrow> []))"

definition start_registration :: "start_host \<Rightarrow> cli_args \<Rightarrow> bytes \<Rightarrow> started \<Rightarrow> (start_end + unit) \<times> started" where
  "start_registration sh args tun_name s = (let env = st_env sh in
     if \<not> registration_enabled env then (Inr (), s)
     else (case payment_config_default (st_hex_decode sh) env of
         None \<Rightarrow> (Inl Panicked, s)
       | Some payment_config \<Rightarrow> (let
           bind_addr = env_or env ''BT_HTTP_BIND'' (ascii ''0.0.0.0:8080'');
           public_ip = env_or env ''BT_PUBLIC_IP'' (ascii ''127.0.0.1'');
           actual = (case find_uapi_interface (st_sockets sh) tun_name of Some n \<Rightarrow> n | None \<Rightarrow> tun_name);
           s = log_event (InitServer actual (wg_port env) (st_init_ok sh actual (wg_port env))) s;
           state = registration_new (st_hex_decode sh) env [10, 0, 0] (snapshot_of payment_config) public_ip;
           ws_bind = arg_or_env env ''BT_WS_BIND'' (ca_ws_bind args) in
         stage (spawn_thread sh ''http-api'' (StartedHttp actual bind_addr state) s) (\<lambda>_ s.
         stage (spawn_thread sh ''peer-reaper'' StartedReaper s) (\<lambda>_ s.
         if ws_bind = [] then (Inr (), s)
         else spawn_thread sh ''ws-proxy'' (StartedWsProxy ws_bind (wg_port env)) s)))))"

definition start_bridge :: "start_host \<Rightarrow> cli_args \<Rightarrow> started \<Rightarrow> (start_end + unit) \<times> started" where
  "start_bridge sh args s = (let env = st_env sh; url = arg_or_env env ''BT_WS_CONNECT'' (ca_ws_connect args) in
     if url = [] then (Inr (), s)
     else (let port = (case Option.bind (env ''BT_WS_LOCAL_PORT'') parse_u16 of Some p \<Rightarrow> p
         | None \<Rightarrow> (case Option.bind (ca_ws_local_port args) parse_u16 of Some p \<Rightarrow> p | None \<Rightarrow> 51821)) in
       spawn_thread sh ''ws-bridge'' (StartedWsBridge port url) s))"

definition cli_main :: "start_host \<Rightarrow> cli_args \<Rightarrow> started \<Rightarrow> start_end \<times> started" where
  "cli_main sh args s = (case (case cli_config (st_macos sh) args of
       None \<Rightarrow> (Inl (ExitCode 2), s)
     | Some (tun_name, cfg) \<Rightarrow>
         if \<not> st_pair_ok sh then (Inl Panicked, s)
         else stage (background sh args s) (\<lambda>_ s.
           stage (make_device sh args tun_name cfg s) (\<lambda>_ s.
           stage (start_registration sh args tun_name s) (\<lambda>_ s.
           stage (start_bridge sh args s) (\<lambda>_ s. (Inr (), log_event Waiting s))))))
     of (Inl e, s) \<Rightarrow> (e, s) | (Inr _, s) \<Rightarrow> (Returned, s))"

section \<open>No way back\<close>

text \<open>No user or group id of the process is root.\<close>

definition rootless :: "credentials \<Rightarrow> bool" where
  "rootless c \<longleftrightarrow> cr_uid c \<noteq> 0 \<and> cr_euid c \<noteq> 0 \<and> cr_suid c \<noteq> 0 \<and> cr_gid c \<noteq> 0 \<and> cr_egid c \<noteq> 0 \<and> cr_sgid c \<noteq> 0"

datatype id_call = SetUid u32 | SetGid u32

fun id_calls :: "id_call list \<Rightarrow> credentials \<Rightarrow> credentials" where
  "id_calls [] c = c"
| "id_calls (SetUid u # cs) c = id_calls cs (snd (setuid u c))"
| "id_calls (SetGid g # cs) c = id_calls cs (snd (setgid g c))"

lemma rootless_calls: "rootless c \<Longrightarrow> rootless (id_calls cs c)"
  by (induction cs c rule: id_calls.induct) (auto simp: rootless_def setuid_def setgid_def)

lemma drop_privileges_rootless:
  assumes "drop_privileges saved_ids c = (Inr u, c')"
  shows "rootless c'"
proof -
  obtain u g where s: "saved_ids = Some (u, g)" using assms by (cases saved_ids) (auto simp: drop_privileges_def)
  obtain c1 where 1: "setgid g c = (True, c1)" using assms s by (auto simp: drop_privileges_def split: prod.splits if_splits)
  obtain c2 where 2: "setuid u c1 = (True, c2)" using assms s 1 by (auto simp: drop_privileges_def split: prod.splits if_splits)
  have 3: "setgid 0 c2 = (False, c2)" "setuid 0 c2 = (False, c2)" "c' = c2"
    using assms s 1 2 by (auto simp: drop_privileges_def setgid_def setuid_def split: if_splits)
  show ?thesis using 1 2 3 by (auto simp: rootless_def setgid_def setuid_def split: if_splits)
qed

text \<open>The supplementary groups of the caller, often those of root, are kept.\<close>

lemma drop_privileges_keeps_groups:
  "cr_groups (snd (drop_privileges saved_ids c)) = cr_groups c"
  by (cases saved_ids) (auto simp: drop_privileges_def setgid_def setuid_def)

section \<open>Order of the start\<close>

fun told :: "start_event \<Rightarrow> u8 list" where
  "told (NotifiedParent b) = [b]"
| "told _ = []"

fun serves :: "start_event \<Rightarrow> bool" where
  "serves (InitServer n p ok) = True"
| "serves (StartedHttp n b st) = True"
| "serves StartedReaper = True"
| "serves (StartedWsProxy b p) = True"
| "serves (StartedWsBridge p u) = True"
| "serves Waiting = True"
| "serves _ = False"

definition parent_told :: "start_event list \<Rightarrow> u8 list" where "parent_told l = concat (map told l)"

lemma parent_told_simps [simp]: "parent_told [] = []" "parent_told (l @ m) = parent_told l @ parent_told m" "parent_told (e # l) = told e @ parent_told l"
  by (simp_all add: parent_told_def)

text \<open>What the stages add to the log.\<close>

definition only_serves :: "(start_end + 'a) \<times> started \<Rightarrow> started \<Rightarrow> bool" where
  "only_serves p s \<longleftrightarrow> (\<exists>es. fst (snd p) = fst s @ es \<and> snd (snd p) = snd s \<and> parent_told es = []) \<and> fst p \<noteq> Inl Returned"

lemma only_serves_stage:
  assumes "only_serves p s" "\<And>x s'. only_serves (k x s') s'"
  shows "only_serves (stage p k) s"
proof -
  obtain r s1 where p: "p = (r, s1)" by (cases p)
  obtain es where es: "fst s1 = fst s @ es" "snd s1 = snd s" "parent_told es = []" "r \<noteq> Inl Returned"
    using assms(1) p by (auto simp: only_serves_def)
  show ?thesis
  proof (cases r)
    case (Inl e)
    then show ?thesis using es p by (auto simp: only_serves_def stage_def)
  next
    case (Inr x)
    obtain fs where "fst (snd (k x s1)) = fst s1 @ fs" "snd (snd (k x s1)) = snd s1" "parent_told fs = []" "fst (k x s1) \<noteq> Inl Returned"
      using assms(2) [of x s1] by (auto simp: only_serves_def)
    then show ?thesis using es p Inr by (auto simp: only_serves_def stage_def)
  qed
qed

lemma only_serves_spawn: "told e = [] \<Longrightarrow> only_serves (spawn_thread sh n e s) s"
  by (auto simp: only_serves_def spawn_thread_def log_event_def)

lemma only_serves_registration: "only_serves (start_registration sh args tun s) s"
proof (cases "registration_enabled (st_env sh)")
  case False
  then show ?thesis by (simp add: start_registration_def only_serves_def)
next
  case True
  let ?env = "st_env sh" let ?n = "case find_uapi_interface (st_sockets sh) tun of Some n \<Rightarrow> n | None \<Rightarrow> tun"
  let ?s = "log_event (InitServer ?n (wg_port ?env) (st_init_ok sh ?n (wg_port ?env))) s"
  have "only_serves (start_registration sh args tun s) ?s" if "payment_config_default (st_hex_decode sh) ?env \<noteq> None"
    using True that by (auto simp: start_registration_def Let_def only_serves_def [of "(Inr (), _)"]
        intro!: only_serves_stage only_serves_spawn split: option.splits)
  then show ?thesis using True
    by (cases "payment_config_default (st_hex_decode sh) ?env") (auto simp: only_serves_def log_event_def start_registration_def)
qed

lemma only_serves_bridge: "only_serves (start_bridge sh args s) s"
  by (auto simp: start_bridge_def Let_def only_serves_def [of "(Inr (), _)"] intro: only_serves_spawn)

lemma background_log:
  assumes "background sh args s = (r, s')"
  shows "\<exists>es. fst s' = fst s @ es \<and> snd s' = snd s \<and> parent_told es = [] \<and> filter serves es = [] \<and> r \<noteq> Inl Returned"
  using assms by (auto simp: background_def log_event_def Let_def split: if_splits)

lemma make_device_log:
  assumes "make_device sh args n cfg s = (r, s')"
  shows "\<exists>es. fst s' = fst s @ es \<and> filter serves es = [] \<and>
    (r = Inr () \<and> parent_told es = [1] \<and> st_device_ok sh n cfg \<and> (ca_keep_privileges args \<or> rootless (snd s')) \<or>
     r = Inl (ExitCode 1) \<and> parent_told es = [0] \<or> r = Inl Panicked \<and> parent_told es = [])"
proof (cases "st_device_ok sh n cfg")
  case False
  then show ?thesis using assms by (auto simp: make_device_def start_failed_def notify_parent_def stage_def log_event_def Let_def split: if_splits)
next
  case ok: True
  show ?thesis
  proof (cases "ca_keep_privileges args")
    case True
    then show ?thesis using ok assms by (auto simp: make_device_def notify_parent_def stage_def log_event_def Let_def split: if_splits)
  next
    case False
    obtain d c where d: "drop_privileges (st_saved_ids sh) (snd s) = (d, c)" by fastforce
    then have "d = Inr () \<Longrightarrow> rootless c" using drop_privileges_rootless by blast
    then show ?thesis using ok False assms d
      by (auto simp: make_device_def start_failed_def notify_parent_def stage_def log_event_def Let_def split: if_splits)
  qed
qed

text \<open>C19: nothing is served with root privileges by accident.  The parent is told at most once how
  the start went.  It is told 1 exactly when the device was made and the privileges were
  dropped or asked to be kept, and only then anything is served; after 0 the process exits
  with code 1.  If the privileges were dropped, no later call can bring back a root id.\<close>

theorem served_unprivileged:
  assumes "cli_main sh args ([], c) = (r, lg, c')"
  shows "(parent_told lg = [] \<and> filter serves lg = [] \<and> r \<noteq> Returned \<or>
     parent_told lg = [0] \<and> filter serves lg = [] \<and> r = ExitCode 1 \<or>
     parent_told lg = [1] \<and> (\<exists>name cfg. cli_config (st_macos sh) args = Some (name, cfg) \<and> st_device_ok sh name cfg)) \<and>
    (parent_told lg = [1] \<and> \<not> ca_keep_privileges args \<longrightarrow> (\<forall>calls. rootless (id_calls calls c')))"
proof (cases "cli_config (st_macos sh) args")
  case None
  then show ?thesis using assms by (auto simp: cli_main_def)
next
  case (Some nc)
  obtain name cfg where nc: "nc = (name, cfg)" by fastforce
  show ?thesis
  proof (cases "st_pair_ok sh")
    case False
    then show ?thesis using assms Some nc by (simp add: cli_main_def)
  next
    case True
    let ?rest = "\<lambda>(_ :: unit) s. stage (start_registration sh args name s) (\<lambda>_ s. stage (start_bridge sh args s) (\<lambda>_ s. (Inr (), log_event Waiting s)))"
    have rest: "only_serves (?rest u s) s" for u s
      by (intro only_serves_stage only_serves_registration only_serves_bridge) (simp add: only_serves_def log_event_def)
    obtain r1 s1 where b: "background sh args ([], c) = (r1, s1)" by (cases "background sh args ([], c)")
    note B = background_log [OF b]
    obtain r2 s2 where m: "make_device sh args name cfg s1 = (r2, s2)" by (cases "make_device sh args name cfg s1")
    note M = make_device_log [OF m]
    have main: "(case stage (stage (r1, s1) (\<lambda>_ s. make_device sh args name cfg s)) ?rest of (Inl e, s) \<Rightarrow> (e, s) | (Inr _, s) \<Rightarrow> (Returned, s)) = (r, lg, c')"
      using assms Some nc True b by (cases r1) (simp_all add: cli_main_def stage_def)
    show ?thesis
    proof (cases r1)
      case (Inl e)
      then show ?thesis using main B by (auto simp: stage_def)
    next
      case 1: (Inr u)
      show ?thesis
      proof (cases r2)
        case (Inl e)
        then show ?thesis using main 1 B M m by (auto simp: stage_def)
      next
        case (Inr u2)
        obtain es where es: "fst s1 = es" "parent_told es = []" using B by auto
        obtain ms where ms: "fst s2 = fst s1 @ ms" "parent_told ms = [1]" "st_device_ok sh name cfg"
          "ca_keep_privileges args \<or> rootless (snd s2)" using M Inr by auto
        obtain r3 s3 where rs: "?rest () s2 = (r3, s3)" by (cases "?rest () s2")
        obtain fs where fs: "fst s3 = fst s2 @ fs" "snd s3 = snd s2" "parent_told fs = []" using rest [of s2] rs by (auto simp: only_serves_def)
        have "stage (stage (r1, s1) (\<lambda>_ s. make_device sh args name cfg s)) ?rest = ?rest u2 s2"
          using 1 Inr m by (simp add: stage_def)
        then have "lg = fst s3" "c' = snd s3" using main rs by (auto split: sum.splits)
        then show ?thesis using es ms fs Some nc rootless_calls by auto
      qed
    qed
  qed
qed

definition tux_start :: start_host where
  "tux_start = \<lparr>st_macos = False, st_env = (\<lambda>v. if v = ''BT_WS_CONNECT'' then Some (ascii ''ws'') else None), st_hex_decode = \<lambda>_. None,
     st_pair_ok = True, st_log_ok = True, st_daemon_ok = True, st_device_ok = \<lambda>_ _. True, st_saved_ids = Some (1000, 1000),
     st_send_ok = \<lambda>_. True, st_sockets = None, st_init_ok = \<lambda>_ _. True, st_spawn_ok = \<lambda>_. True\<rparr>"

definition tux_args :: cli_args where
  "tux_args = \<lparr>ca_interface = ascii ''wg0'', ca_foreground = False, ca_threads = ascii ''4'', ca_uapi_fd = ascii ''-1'',
     ca_tun_fd = ascii ''-1'', ca_keep_privileges = False, ca_unconnected_udp = False, ca_single_queue = False,
     ca_ws_bind = Some [], ca_ws_connect = Some [], ca_ws_local_port = Some (ascii ''51821'')\<rparr>"

definition root :: credentials where
  "root = \<lparr>cr_uid = 0, cr_euid = 0, cr_suid = 0, cr_gid = 0, cr_egid = 0, cr_sgid = 0, cr_groups = [0]\<rparr>"

theorem served_unprivileged_witness:
  "\<exists>lg c'. cli_main tux_start tux_args ([], root) = (Returned, lg, c') \<and> parent_told lg = [1] \<and>
    StartedWsBridge 51821 (ascii ''ws'') \<in> set lg \<and> rootless (id_calls [SetUid 0, SetGid 0, SetUid 1000] c')"
proof -
  let ?cfg = "\<lparr>dc_n_threads = 4, dc_uapi_fd = - 1, dc_use_connected_socket = True, dc_use_multi_queue = True\<rparr>"
  have t: "cli_config False tux_args = Some (ascii ''wg0'', ?cfg)"
    by (simp add: cli_config_def check_tun_name_def tux_args_def parse_int_def parse_uint_def ascii_def)
  have e: "ascii s = [] \<longleftrightarrow> s = []" for s by (simp add: ascii_def)
  have p: "parse_u16 (ascii ''51821'') = Some 51821" by (simp add: parse_u16_def parse_uint_def ascii_def)
  have d: "drop_privileges (Some (1000, 1000)) root =
      (Inr (), root\<lparr>cr_uid := 1000, cr_euid := 1000, cr_suid := 1000, cr_gid := 1000, cr_egid := 1000, cr_sgid := 1000\<rparr>)"
    by (simp add: drop_privileges_def setgid_def setuid_def root_def)
  let ?c = "root\<lparr>cr_uid := 1000, cr_euid := 1000, cr_suid := 1000, cr_gid := 1000, cr_egid := 1000, cr_sgid := 1000\<rparr>"
  let ?l = "[CreatedLog True, Daemonized True, MadeDevice (ascii ''wg0'') ?cfg True, Dropped True, NotifiedParent 1]"
  let ?b = "StartedWsBridge 51821 (ascii ''ws'')"
  have "background tux_start tux_args ([], root) = (Inr (), [CreatedLog True, Daemonized True], root)"
    by (simp add: background_def tux_start_def tux_args_def log_event_def)
  moreover have "make_device tux_start tux_args (ascii ''wg0'') ?cfg ([CreatedLog True, Daemonized True], root) = (Inr (), ?l, ?c)"
    using d by (simp add: make_device_def tux_start_def tux_args_def log_event_def notify_parent_def stage_def)
  moreover have "start_registration tux_start tux_args (ascii ''wg0'') (?l, ?c) = (Inr (), ?l, ?c)"
    by (simp add: start_registration_def registration_enabled_def env_flag_def tux_start_def)
  moreover have "start_bridge tux_start tux_args (?l, ?c) = (Inr (), ?l @ [?b], ?c)"
    using e p by (simp add: start_bridge_def arg_or_env_def tux_start_def tux_args_def spawn_thread_def log_event_def)
  moreover have "st_macos tux_start = False" "st_pair_ok tux_start" by (simp_all add: tux_start_def)
  ultimately have m: "cli_main tux_start tux_args ([], root) = (Returned, ?l @ [?b, Waiting], ?c)"
    using t by (simp add: cli_main_def stage_def log_event_def)
  have x: "parent_told (?l @ [?b, Waiting]) = [1]" "?b \<in> set (?l @ [?b, Waiting])" by simp_all
  have "\<not> ca_keep_privileges tux_args" by (simp add: tux_args_def)
  with served_unprivileged [OF m] x(1) have "\<forall>calls. rootless (id_calls calls ?c)" by blast
  then show ?thesis using m x by blast
qed

end

