(* ===== verification/Client_Admin.thy ===== *)
theory Client_Admin
  imports Client_Sys
begin

text \<open>
  Privileged commands of the desktop client (\<open>client/src-tauri/src/vpn.rs\<close>): \<open>sudo -n\<close>, and
  on macOS the administrator prompt of \<open>osascript\<close>, whose script holds a shell command inside
  an AppleScript string.  \<open>admin_runs\<close> says which program and arguments the shell starts.
\<close>

section \<open>Quoting\<close>

definition SUDO_HINT :: bytes where
  "SUDO_HINT = ascii ''Admin access needed for VPN tunnel. Approve the macOS password prompt when connecting.''"

definition safe_char :: "u8 \<Rightarrow> bool" where
  "safe_char c \<longleftrightarrow> 48 \<le> c \<and> c \<le> 57 \<or> 65 \<le> c \<and> c \<le> 90 \<or> 97 \<le> c \<and> c \<le> 122 \<or> c \<in> set (ascii ''/._-:'')"

definition shlex_quote :: "bytes \<Rightarrow> bytes" where
  "shlex_quote s = (if s = [] then [39, 39]
     else if \<forall>c \<in> set s. safe_char c then s
     else [39] @ replace_byte 39 [39, 92, 39, 39] s @ [39])"

definition applescript_escape :: "bytes \<Rightarrow> bytes" where
  "applescript_escape cmd = replace_byte 34 [92, 34] (replace_byte 92 [92, 92] cmd)"

definition admin_script :: "bytes \<Rightarrow> bytes" where
  "admin_script cmd = ascii ''do shell script \"'' @ applescript_escape cmd @ ascii ''\" with administrator privileges''"

definition admin_binary :: "bytes list \<Rightarrow> bytes option" where
  "admin_binary args = (case args of [] \<Rightarrow> None
     | a # _ \<Rightarrow> if a = ascii ''route'' then Some (ascii ''/sbin/route'')
         else if a = ascii ''ifconfig'' then Some (ascii ''/sbin/ifconfig'')
         else if a = ascii ''networksetup'' then Some (ascii ''/usr/sbin/networksetup'')
         else if a = ascii ''kill'' then Some (ascii ''/bin/kill'')
         else if a = ascii ''pkill'' then Some (ascii ''/usr/bin/pkill'')
         else if a = ascii ''nc'' then Some (ascii ''/usr/bin/nc'')
         else None)"

definition admin_command :: "bytes \<Rightarrow> bytes list \<Rightarrow> bytes" where
  "admin_command bin args = bin @ concat (map (\<lambda>arg. 32 # shlex_quote arg) (tl args))"

section \<open>Running\<close>

definition osascript :: "host \<Rightarrow> bytes \<Rightarrow> history \<Rightarrow> (bytes + bytes) \<times> history" where
  "osascript ho script h = (case run ho [ascii ''osascript'', ascii ''-e'', script] h of (r, h) \<Rightarrow>
     (case r of Inl e \<Rightarrow> Inl (ascii ''Failed to request admin access: '' @ e)
      | Inr out \<Rightarrow> if out_ok out then Inr (out_stdout out)
          else if has_infix (ascii ''User canceled'') (out_stderr out) \<or> has_infix (ascii ''-128'') (out_stderr out)
          then Inl (ascii ''Admin password prompt was cancelled.'')
          else Inl (SUDO_HINT @ ascii '' ('' @ out_stderr out @ ascii '')''), h))"

definition run_as_admin_macos :: "host \<Rightarrow> bytes list \<Rightarrow> history \<Rightarrow> (bytes + unit) \<times> history" where
  "run_as_admin_macos ho args h = (case admin_binary args of
       None \<Rightarrow> (Inl (SUDO_HINT @ ascii '' (unsupported privileged command: '' @
         (case args of a # _ \<Rightarrow> a | [] \<Rightarrow> ascii ''?'') @ ascii '')''), h)
     | Some bin \<Rightarrow> (case osascript ho (admin_script (admin_command bin args)) h of
         (r, h) \<Rightarrow> (map_sum id (\<lambda>_. ()) r, h)))"

definition run_sudo_n :: "host \<Rightarrow> bytes list \<Rightarrow> history \<Rightarrow> (bytes + unit) \<times> history" where
  "run_sudo_n ho args h = (case run ho (lits [''sudo'', ''-n''] @ args) h of (r, h) \<Rightarrow>
     (case r of
        Inl e \<Rightarrow> Inl (ascii ''Failed to run sudo '' @ format_list (ho_debug ho) args @ ascii '': '' @ e)
      | Inr out \<Rightarrow> if out_ok out then Inr ()
          else (let msg = trim (out_stderr out) in
            if msg = [] \<or> has_infix (ascii ''password'') msg \<or> has_infix (ascii ''askpass'') msg
            then Inl SUDO_HINT
            else Inl (ascii ''Command failed: sudo '' @ join_with 32 args @ [32, 0xE2, 0x80, 0x94, 32] @ msg)), h))"

definition run_sudo :: "host \<Rightarrow> bytes list \<Rightarrow> history \<Rightarrow> (bytes + unit) \<times> history" where
  "run_sudo ho args h = (case run_sudo_n ho args h of
       (Inr u, h) \<Rightarrow> (Inr u, h)
     | (Inl e, h) \<Rightarrow> if e \<noteq> SUDO_HINT then (Inl e, h)
         else if ho_platform ho = MacOS then run_as_admin_macos ho args h
         else (Inl SUDO_HINT, h))"

definition sudo_noninteractive_ok :: "host \<Rightarrow> history \<Rightarrow> bool \<times> history" where
  "sudo_noninteractive_ok ho = run_ok ho (lits [''sudo'', ''-n'', ''true''])"

definition is_macos_admin_user :: "host \<Rightarrow> history \<Rightarrow> bool \<times> history" where
  "is_macos_admin_user ho h = (if ho_platform ho \<noteq> MacOS then (False, h)
     else (case run ho (lits [''id'', ''-Gn'']) h of (r, h) \<Rightarrow>
       (case r of Inr out \<Rightarrow> out_ok out \<and> ascii ''admin'' \<in> set (split_ws (out_stdout out)) | Inl _ \<Rightarrow> False, h)))"

definition check_sudo_available :: "host \<Rightarrow> history \<Rightarrow> bool \<times> history" where
  "check_sudo_available ho h = (case sudo_noninteractive_ok ho h of (ok, h) \<Rightarrow>
     if ok then (True, h)
     else if ho_platform ho = MacOS then is_macos_admin_user ho h
     else (False, h))"

section \<open>What the shell starts\<close>

text \<open>Words of a POSIX shell command of plain characters, blanks, backslashes and single quotes:
  \<open>None\<close> for any other character outside quotes.  The flag says whether a quote is open,
  the option holds the word being read.\<close>

fun sh_words :: "bool \<Rightarrow> bytes option \<Rightarrow> bytes \<Rightarrow> bytes list option" where
  "sh_words q w [] = (if q then None else Some (case w of None \<Rightarrow> [] | Some v \<Rightarrow> [v]))"
| "sh_words q w (c # cs) = (let v = (case w of None \<Rightarrow> [] | Some v \<Rightarrow> v) in
     if q then (if c = 39 then sh_words False (Some v) cs else sh_words True (Some (v @ [c])) cs)
     else if c = 39 then sh_words True (Some v) cs
     else if c = 92 then (case cs of d # ds \<Rightarrow> sh_words False (Some (v @ [d])) ds | [] \<Rightarrow> None)
     else if c = 32 then (case w of None \<Rightarrow> sh_words False None cs | Some v \<Rightarrow> map_option (Cons v) (sh_words False None cs))
     else if safe_char c then sh_words False (Some (v @ [c])) cs
     else None)"

text \<open>An AppleScript string: its value and the text after the closing quote.\<close>

fun applescript_string :: "bytes \<Rightarrow> (bytes \<times> bytes) option" where
  "applescript_string [] = None"
| "applescript_string (c # cs) =
     (if c = 34 then Some ([], cs)
      else if c = 92 then (case cs of
          d # ds \<Rightarrow> if d = 34 \<or> d = 92 then map_option (\<lambda>(s, rest). (d # s, rest)) (applescript_string ds) else None
        | [] \<Rightarrow> None)
      else map_option (\<lambda>(s, rest). (c # s, rest)) (applescript_string cs))"

definition admin_runs :: "bytes \<Rightarrow> bytes list option" where
  "admin_runs script = (case strip_prefix (ascii ''do shell script \"'') script of None \<Rightarrow> None
     | Some s \<Rightarrow> (case applescript_string s of
         Some (cmd, rest) \<Rightarrow> if rest = ascii '' with administrator privileges'' then sh_words False None cmd else None
       | None \<Rightarrow> None))"

lemma applescript_string_escape: "applescript_string (applescript_escape cmd @ 34 # rest) = Some (cmd, rest)"
  by (induction cmd) (auto simp: applescript_escape_def replace_byte_def)

lemma not_safe_char [simp]: "\<not> safe_char 39" "\<not> safe_char 92" "\<not> safe_char 32"
  by (simp_all add: safe_char_def ascii_def)

lemma sh_words_safe:
  "\<forall>c \<in> set s. safe_char c \<Longrightarrow> sh_words False (Some v) (s @ rest) = sh_words False (Some (v @ s)) rest"
proof (induction s arbitrary: v)
  case (Cons c cs)
  then have "c \<noteq> 39" "c \<noteq> 92" "c \<noteq> 32" by auto
  then show ?case using Cons by simp
qed simp

lemma sh_words_quoted:
  "sh_words True (Some v) (replace_byte 39 [39, 92, 39, 39] s @ 39 # rest) = sh_words False (Some (v @ s)) rest"
  by (induction s arbitrary: v) (auto simp: replace_byte_def)

lemma sh_words_quote: "sh_words False None (shlex_quote s @ rest) = sh_words False (Some s) rest"
proof (cases "s \<noteq> [] \<and> (\<forall>c \<in> set s. safe_char c)")
  case True
  then obtain c cs where s: "s = c # cs" "safe_char c" "\<forall>c \<in> set cs. safe_char c" by (cases s) auto
  then have "c \<noteq> 39" "c \<noteq> 92" "c \<noteq> 32" by auto
  then have "sh_words False None (s @ rest) = sh_words False (Some [c]) (cs @ rest)" using s by simp
  then show ?thesis using True s sh_words_safe [of cs "[c]" rest] by (simp add: shlex_quote_def)
next
  case False
  then show ?thesis using sh_words_quoted [of "[]" s rest] by (auto simp: shlex_quote_def)
qed

lemma sh_words_args:
  "sh_words False (Some w) (concat (map (\<lambda>arg. 32 # shlex_quote arg) args)) = Some (w # args)"
proof (induction args arbitrary: w)
  case (Cons a args)
  then show ?case using sh_words_quote [of a] by simp
qed simp

lemma strip_prefix_append [simp]: "strip_prefix p (p @ s) = Some s"
  by (simp add: strip_prefix_def starts_with_def)

lemma admin_runs_command:
  assumes "bin \<noteq> []" "\<forall>c \<in> set bin. safe_char c"
  shows "admin_runs (admin_script (admin_command bin args)) = Some (bin # tl args)"
proof -
  have "shlex_quote bin = bin" using assms by (simp add: shlex_quote_def)
  then have "sh_words False None (admin_command bin args) = Some (bin # tl args)"
    using sh_words_quote [of bin] sh_words_args [of bin "tl args"] by (simp add: admin_command_def)
  moreover have "applescript_string (applescript_escape (admin_command bin args) @ ascii ''\" with administrator privileges'')
      = Some (admin_command bin args, ascii '' with administrator privileges'')"
    using applescript_string_escape [of "admin_command bin args" "ascii '' with administrator privileges''"] by (simp add: ascii_def)
  ultimately show ?thesis by (simp only: admin_runs_def admin_script_def strip_prefix_append) simp
qed

lemma admin_binary_plain: "admin_binary args = Some bin \<Longrightarrow> bin \<noteq> [] \<and> (\<forall>c \<in> set bin. safe_char c)"
  by (auto simp: admin_binary_def safe_char_def ascii_def split: list.splits if_splits)

section \<open>Privileged changes\<close>

text \<open>The commands a history ran with \<open>sudo -n\<close> (whether they succeeded or not), the entries it
  gave to \<open>resolvconf\<close>, and the contents it wrote to \<open>/etc/resolv.conf\<close>.\<close>

datatype change = Sudo "bytes list" | Resolv bytes

definition resolv_conf :: bytes where "resolv_conf = ascii ''/etc/resolv.conf''"

fun change_of :: "event \<Rightarrow> change list" where
  "change_of (Ran argv r) = (if take 2 argv = lits [''sudo'', ''-n''] then [Sudo (drop 2 argv)] else [])"
| "change_of (RanPiped argv input r) =
     (if take 3 argv = lits [''sudo'', ''-n'', ''resolvconf''] then [Sudo (drop 2 argv)] else [])"
| "change_of (WroteFile path contents r) = (if path = resolv_conf then [Resolv contents] else [])"
| "change_of _ = []"

definition changes :: "history \<Rightarrow> change list" where "changes h = concat (map change_of h)"

lemma changes_append [simp]: "changes (h @ es) = changes h @ changes es"
  by (simp add: changes_def)

lemma changes_one [simp]: "changes [e] = change_of e" "changes [] = []"
  by (simp_all add: changes_def)

named_theorems quiet \<open>operations that change nothing\<close>

lemma changes_run: "run ho argv h = (r, h') \<Longrightarrow>
    changes h' = changes h @ (if take 2 argv = lits [''sudo'', ''-n''] then [Sudo (drop 2 argv)] else [])"
  by (auto simp: run_def Let_def)

lemma changes_run_ok: "run_ok ho argv h = (r, h') \<Longrightarrow>
    changes h' = changes h @ (if take 2 argv = lits [''sudo'', ''-n''] then [Sudo (drop 2 argv)] else [])"
  by (auto simp: run_ok_def run_def Let_def)

lemma osascript_quiet [quiet]: "osascript ho script h = (r, h') \<Longrightarrow> changes h' = changes h"
  by (auto simp: osascript_def run_def Let_def lits_def ascii_def)

lemma run_as_admin_quiet [quiet]: "run_as_admin_macos ho args h = (r, h') \<Longrightarrow> changes h' = changes h"
  unfolding run_as_admin_macos_def
  by (cases "admin_binary args") (auto split: prod.splits dest: osascript_quiet)

lemma changes_run_sudo_n: "run_sudo_n ho args h = (r, h') \<Longrightarrow> changes h' = changes h @ [Sudo args]"
  by (clarsimp simp: run_sudo_n_def run_def Let_def lits_def)

lemma changes_run_sudo:
  assumes "run_sudo ho args h = (r, h')"
  shows "changes h' = changes h @ [Sudo args]"
proof (cases "run_sudo_n ho args h")
  case (Pair s h1)
  note 1 = changes_run_sudo_n [OF Pair]
  have "h' = h1 \<or> run_as_admin_macos ho args h1 = (r, h')"
    using assms by (simp add: run_sudo_def Pair split: sum.splits if_splits)
  then show ?thesis using 1 run_as_admin_quiet by metis
qed

lemma quiet_ops [quiet]:
  "path_exists ho path h = (b, h') \<Longrightarrow> changes h' = changes h"
  "read_file ho path h = (x, h') \<Longrightarrow> changes h' = changes h"
  "list_dir ho path h = (l, h') \<Longrightarrow> changes h' = changes h"
  "instant_now ho h = (t, h') \<Longrightarrow> changes h' = changes h"
  "unix_time ho h = (u, h') \<Longrightarrow> changes h' = changes h"
  "exchange_on ho path payload h = (y, h') \<Longrightarrow> changes h' = changes h"
  "http_exchange ho url call h = (z, h') \<Longrightarrow> changes h' = changes h"
  "spawn ho argv h = (c, h') \<Longrightarrow> changes h' = changes h"
  "try_wait ho child h = (s, h') \<Longrightarrow> changes h' = changes h"
  "path \<noteq> resolv_conf \<Longrightarrow> write_file ho path contents h = (w, h') \<Longrightarrow> changes h' = changes h"
  by (auto simp: interactions Let_def)

end
