(* ===== verification/Client_Net.thy ===== *)
theory Client_Net
  imports Client_Admin
begin

text \<open>
  The network of the client machine (\<open>client/src-tauri/src/vpn.rs\<close>): the address of the
  interface, routes, the default gateway, DNS, readiness and removal of the interface, on
  macOS and on Linux, and what each of them changes.
\<close>

section \<open>Configuration\<close>

definition split_tunnel_enabled :: "host \<Rightarrow> bool" where
  "split_tunnel_enabled ho \<longleftrightarrow> (case ho_env ho ''XELT_SPLIT_TUNNEL'' of
     Some v \<Rightarrow> v \<in> set (lits [''1'', ''true'', ''TRUE'']) | None \<Rightarrow> False)"

definition is_loopback_server :: "bytes \<Rightarrow> bool" where
  "is_loopback_server ip \<longleftrightarrow> trim ip \<in> set (lits [''127.0.0.1'', ''localhost'', ''::1''])"

definition use_split_tunnel :: "host \<Rightarrow> bytes \<Rightarrow> bool" where
  "use_split_tunnel ho server_ip \<longleftrightarrow> split_tunnel_enabled ho \<or> is_loopback_server server_ip"

definition VPN_SUBNET :: bytes where "VPN_SUBNET = ascii ''10.0.0.0/24''"

definition SERVER_IP :: "host \<Rightarrow> bytes" where "SERVER_IP ho = env_or (ho_env ho) ''XELT_SERVER_IP'' (ascii ''204.168.211.96'')"
definition GATEWAY_API :: "host \<Rightarrow> bytes" where
  "GATEWAY_API ho = env_or (ho_env ho) ''XELT_GATEWAY_API'' (ascii ''https://gateway-api-testnet.circle.com'')"

text \<open>The addresses that the tunnel accepts.\<close>

definition tunnel_allowed_ips :: "host \<Rightarrow> bytes" where
  "tunnel_allowed_ips ho = (if split_tunnel_enabled ho then VPN_SUBNET else ascii ''0.0.0.0/0'')"

section \<open>Sequences of privileged commands\<close>

text \<open>Each with \<open>?\<close>, and each with its result ignored.\<close>

fun run_all :: "host \<Rightarrow> bytes list list \<Rightarrow> history \<Rightarrow> (bytes + unit) \<times> history" where
  "run_all ho [] h = (Inr (), h)"
| "run_all ho (c # cs) h = then_ok (run_sudo ho c h) (\<lambda>_ h. run_all ho cs h)"

fun try_all :: "host \<Rightarrow> bytes list list \<Rightarrow> history \<Rightarrow> history" where
  "try_all ho [] h = h"
| "try_all ho (c # cs) h = try_all ho cs (snd (run_sudo ho c h))"

section \<open>Interface address\<close>

definition ip_cidr :: "bytes \<Rightarrow> bytes" where
  "ip_cidr assigned = (if 47 \<in> set assigned then assigned else assigned @ ascii ''/32'')"

definition interface_commands :: "host \<Rightarrow> bytes \<Rightarrow> bytes \<Rightarrow> bytes \<Rightarrow> bytes list list" where
  "interface_commands ho iface ip_bare assigned = (case ho_platform ho of
       MacOS \<Rightarrow> [[ascii ''ifconfig'', iface, ip_bare, ip_bare, ascii ''up'']]
     | Linux \<Rightarrow> [lits [''ip'', ''addr'', ''add''] @ [ip_cidr assigned, ascii ''dev'', iface],
         lits [''ip'', ''link'', ''set''] @ [iface, ascii ''up'']]
     | _ \<Rightarrow> [])"

definition supported :: "host \<Rightarrow> bool" where "supported ho \<longleftrightarrow> ho_platform ho \<in> {MacOS, Linux}"

definition configure_interface_ip :: "host \<Rightarrow> bytes \<Rightarrow> bytes \<Rightarrow> bytes \<Rightarrow> history \<Rightarrow> (bytes + unit) \<times> history" where
  "configure_interface_ip ho iface ip_bare assigned h =
     (if supported ho then run_all ho (interface_commands ho iface ip_bare assigned) h
      else (Inl (ascii ''Unsupported platform''), h))"

section \<open>Routing\<close>

text \<open>A line \<open>name: value\<close> of a report.\<close>

fun line_value :: "bytes \<Rightarrow> bytes list \<Rightarrow> bytes option" where
  "line_value name [] = None"
| "line_value name (line # ls) = (case strip_prefix name (trim line) of
     Some value \<Rightarrow> Some (trim value) | None \<Rightarrow> line_value name ls)"

definition get_default_interface :: "host \<Rightarrow> history \<Rightarrow> (bytes + bytes) \<times> history" where
  "get_default_interface ho h = (case run ho (lits [''route'', ''-n'', ''get'', ''default'']) h of (r, h) \<Rightarrow>
     (case r of Inl e \<Rightarrow> Inl (ascii ''route -n get default failed: '' @ e)
      | Inr out \<Rightarrow> (case line_value (ascii ''interface:'') (str_lines (out_stdout out)) of
          Some v \<Rightarrow> Inr v | None \<Rightarrow> Inl (ascii ''Could not determine default interface'')), h))"

definition get_default_gateway_macos :: "host \<Rightarrow> history \<Rightarrow> (bytes + bytes) \<times> history" where
  "get_default_gateway_macos ho h =
       (case run ho (lits [''route'', ''-n'', ''get'', ''default'']) h of (r, h) \<Rightarrow>
         (case r of Inl e \<Rightarrow> Inl (ascii ''route -n get default failed: '' @ e)
          | Inr out \<Rightarrow> (case line_value (ascii ''gateway:'') (str_lines (out_stdout out)) of
              Some v \<Rightarrow> Inr v | None \<Rightarrow> Inl (ascii ''Could not determine default gateway'')), h))"

definition get_default_gateway_linux :: "host \<Rightarrow> history \<Rightarrow> (bytes + bytes) \<times> history" where
  "get_default_gateway_linux ho h =
       (case run ho (lits [''ip'', ''route'', ''show'', ''default'']) h of (r, h) \<Rightarrow>
         (case r of Inl e \<Rightarrow> Inl (ascii ''ip route show default failed: '' @ e)
          | Inr out \<Rightarrow> (case split_ws (out_stdout out) of
              a # b # c # _ \<Rightarrow> if a = ascii ''default'' \<and> b = ascii ''via'' then Inr c
                else Inl (ascii ''Could not determine default gateway'')
            | _ \<Rightarrow> Inl (ascii ''Could not determine default gateway'')), h))"

definition get_default_gateway :: "host \<Rightarrow> history \<Rightarrow> (bytes + bytes) \<times> history" where
  "get_default_gateway ho h = (case ho_platform ho of
       MacOS \<Rightarrow> get_default_gateway_macos ho h
     | Linux \<Rightarrow> get_default_gateway_linux ho h
     | _ \<Rightarrow> (Inl (ascii ''Unsupported platform''), h))"

definition tunnel_commands :: "host \<Rightarrow> bytes \<Rightarrow> bytes \<Rightarrow> bytes \<Rightarrow> bytes list list" where
  "tunnel_commands ho iface server_ip original_gw = (case ho_platform ho of
       MacOS \<Rightarrow> (if use_split_tunnel ho server_ip
         then [lits [''route'', ''add'', ''-net''] @ [VPN_SUBNET, ascii ''-interface'', iface]]
         else [lits [''route'', ''add'', ''-host''] @ [server_ip, original_gw],
           lits [''route'', ''add'', ''-net'', ''0.0.0.0/1'', ''-interface''] @ [iface],
           lits [''route'', ''add'', ''-net'', ''128.0.0.0/1'', ''-interface''] @ [iface]])
     | Linux \<Rightarrow> (if use_split_tunnel ho server_ip
         then [lits [''ip'', ''route'', ''add''] @ [VPN_SUBNET, ascii ''dev'', iface]]
         else [lits [''wg'', ''set''] @ [iface] @ lits [''fwmark'', ''51820''],
           lits [''ip'', ''rule'', ''add'', ''not'', ''fwmark'', ''51820'', ''table'', ''51820''],
           lits [''ip'', ''route'', ''add'', ''default'', ''dev''] @ [iface] @ lits [''table'', ''51820''],
           lits [''ip'', ''rule'', ''add'', ''table'', ''main'', ''suppress_prefixlength'', ''0'']])
     | _ \<Rightarrow> [])"

definition configure_full_tunnel :: "host \<Rightarrow> bytes \<Rightarrow> bytes \<Rightarrow> bytes \<Rightarrow> history \<Rightarrow> (bytes + unit) \<times> history" where
  "configure_full_tunnel ho iface server_ip original_gw h =
     (if supported ho then
        (let h = (if ho_platform ho = MacOS \<and> \<not> use_split_tunnel ho server_ip then snd (get_default_interface ho h) else h) in
         run_all ho (tunnel_commands ho iface server_ip original_gw) h)
      else (Inl (ascii ''Unsupported platform''), h))"

definition teardown_route_commands :: "host \<Rightarrow> bytes \<Rightarrow> bytes \<Rightarrow> bytes list list" where
  "teardown_route_commands ho iface server_ip = (case ho_platform ho of
       MacOS \<Rightarrow> [lits [''route'', ''delete'', ''-net''] @ [VPN_SUBNET, ascii ''-interface'', iface],
         lits [''route'', ''delete'', ''-net'', ''0.0.0.0/1'', ''-interface''] @ [iface],
         lits [''route'', ''delete'', ''-net'', ''128.0.0.0/1'', ''-interface''] @ [iface],
         lits [''route'', ''delete'', ''-host''] @ [server_ip]]
     | Linux \<Rightarrow> [lits [''ip'', ''route'', ''del''] @ [VPN_SUBNET, ascii ''dev'', iface],
         lits [''ip'', ''rule'', ''delete'', ''not'', ''fwmark'', ''51820'', ''table'', ''51820''],
         lits [''ip'', ''rule'', ''delete'', ''table'', ''main'', ''suppress_prefixlength'', ''0''],
         lits [''ip'', ''route'', ''flush'', ''table'', ''51820'']]
     | _ \<Rightarrow> [])"

definition teardown_routes :: "host \<Rightarrow> bytes \<Rightarrow> bytes \<Rightarrow> bytes \<Rightarrow> history \<Rightarrow> history" where
  "teardown_routes ho iface server_ip original_gw = try_all ho (teardown_route_commands ho iface server_ip)"

section \<open>DNS\<close>

text \<open>The state saved before connecting: a network service and its servers, or the contents of
  \<open>/etc/resolv.conf\<close>.\<close>

datatype original_dns = MacDns bytes "bytes list" | LinuxDns bytes | NoDns

text \<open>The service of a device in the list of hardware ports.\<close>

fun service_of :: "bytes \<Rightarrow> bytes \<Rightarrow> bytes list \<Rightarrow> bytes option" where
  "service_of iface current [] = None"
| "service_of iface current (line # ls) =
     (let current = (case strip_prefix (ascii ''Hardware Port: '') line of Some name \<Rightarrow> name | None \<Rightarrow> current) in
      case strip_prefix (ascii ''Device: '') line of
        Some dev \<Rightarrow> if trim dev = iface then Some current else service_of iface current ls
      | None \<Rightarrow> service_of iface current ls)"

definition get_primary_network_service :: "host \<Rightarrow> history \<Rightarrow> (bytes + bytes) \<times> history" where
  "get_primary_network_service ho h = (case run ho (lits [''route'', ''-n'', ''get'', ''default'']) h of (r, h) \<Rightarrow>
     (case r of Inl e \<Rightarrow> (Inl (ascii ''route failed: '' @ e), h)
      | Inr out \<Rightarrow> (case line_value (ascii ''interface:'') (str_lines (out_stdout out)) of
          None \<Rightarrow> (Inl (ascii ''Could not find default interface''), h)
        | Some iface \<Rightarrow> (case run ho (lits [''networksetup'', ''-listallhardwareports'']) h of (r, h) \<Rightarrow>
            (case r of Inl e \<Rightarrow> Inl (ascii ''networksetup failed: '' @ e)
             | Inr out \<Rightarrow> (case service_of iface [] (str_lines (out_stdout out)) of
                 Some service \<Rightarrow> Inr service | None \<Rightarrow> Inr (ascii ''Wi-Fi'')), h)))))"

definition save_original_dns_macos :: "host \<Rightarrow> history \<Rightarrow> (bytes + original_dns) \<times> history" where
  "save_original_dns_macos ho h =
       then_ok (get_primary_network_service ho h) (\<lambda>service h.
         case run ho (lits [''networksetup'', ''-getdnsservers''] @ [service]) h of (r, h) \<Rightarrow>
           (case r of Inl e \<Rightarrow> Inl (ascii ''networksetup -getdnsservers failed: '' @ e)
            | Inr out \<Rightarrow> (let text = trim (out_stdout out) in
                Inr (MacDns service (if has_infix (ascii ''any DNS Servers set'') text then [] else map trim (str_lines text)))), h))"

definition save_original_dns_linux :: "host \<Rightarrow> history \<Rightarrow> (bytes + original_dns) \<times> history" where
  "save_original_dns_linux ho h =
       (case read_file ho resolv_conf h of (r, h) \<Rightarrow>
         (Inr (LinuxDns (case r of Inr content \<Rightarrow> content | Inl _ \<Rightarrow> [])), h))"

definition save_original_dns :: "host \<Rightarrow> history \<Rightarrow> (bytes + original_dns) \<times> history" where
  "save_original_dns ho h = (case ho_platform ho of
       MacOS \<Rightarrow> save_original_dns_macos ho h
     | Linux \<Rightarrow> save_original_dns_linux ho h
     | _ \<Rightarrow> (Inr NoDns, h))"

text \<open>\<open>resolvconf\<close> is started and not waited for, and a failure to write its input is ignored.\<close>

definition vpn_resolv_conf :: bytes where
  "vpn_resolv_conf = ascii ''# Set by Xelt'' @ [10] @ ascii ''nameserver 1.1.1.1'' @ [10] @ ascii ''nameserver 8.8.8.8'' @ [10]"

definition resolvconf_input :: bytes where
  "resolvconf_input = ascii ''nameserver 1.1.1.1'' @ [10] @ ascii ''nameserver 8.8.8.8'' @ [10]"

definition set_vpn_dns_macos :: "host \<Rightarrow> history \<Rightarrow> (bytes + unit) \<times> history" where
  "set_vpn_dns_macos ho h =
       then_ok (get_primary_network_service ho h) (\<lambda>service h.
         run_sudo ho (lits [''networksetup'', ''-setdnsservers''] @ [service] @ lits [''1.1.1.1'', ''8.8.8.8'']) h)"

definition set_vpn_dns_linux :: "host \<Rightarrow> history \<Rightarrow> (bytes + unit) \<times> history" where
  "set_vpn_dns_linux ho h =
       (case run_ok ho (lits [''which'', ''resolvconf'']) h of (available, h) \<Rightarrow>
         if available then
           (case run_piped ho (lits [''sudo'', ''-n'', ''resolvconf'', ''-a'', ''tun.xelt'']) resolvconf_input h of (r, h) \<Rightarrow>
             (case r of SpawnFailed e \<Rightarrow> Inl (ascii ''resolvconf failed: '' @ e) | _ \<Rightarrow> Inr (), h))
         else (case write_file ho resolv_conf vpn_resolv_conf h of (r, h) \<Rightarrow>
             (case r of Some e \<Rightarrow> Inl (ascii ''Failed to write resolv.conf: '' @ e) | None \<Rightarrow> Inr (), h)))"

definition set_vpn_dns :: "host \<Rightarrow> history \<Rightarrow> (bytes + unit) \<times> history" where
  "set_vpn_dns ho h = (case ho_platform ho of
       MacOS \<Rightarrow> set_vpn_dns_macos ho h
     | Linux \<Rightarrow> set_vpn_dns_linux ho h
     | _ \<Rightarrow> (Inr (), h))"

definition restore_dns_macos :: "host \<Rightarrow> bytes \<Rightarrow> bytes list \<Rightarrow> history \<Rightarrow> (bytes + unit) \<times> history" where
  "restore_dns_macos ho service servers h = run_sudo ho (lits [''networksetup'', ''-setdnsservers''] @ [service] @
     (if servers = [] then [ascii ''Empty''] else servers)) h"

definition restore_dns_linux :: "host \<Rightarrow> bytes \<Rightarrow> history \<Rightarrow> (bytes + unit) \<times> history" where
  "restore_dns_linux ho backup h = (if backup = [] then (Inr (), h)
     else (case write_file ho resolv_conf backup h of (r, h) \<Rightarrow>
       (case r of Some e \<Rightarrow> Inl (ascii ''Failed to restore resolv.conf: '' @ e) | None \<Rightarrow> Inr (), h)))"

definition restore_dns :: "host \<Rightarrow> original_dns \<Rightarrow> history \<Rightarrow> (bytes + unit) \<times> history" where
  "restore_dns ho dns h = (case dns of
       MacDns service servers \<Rightarrow> restore_dns_macos ho service servers h
     | LinuxDns backup \<Rightarrow> restore_dns_linux ho backup h
     | NoDns \<Rightarrow> (Inr (), h))"

definition restore_dns_best_effort_macos :: "host \<Rightarrow> history \<Rightarrow> (bytes + unit) \<times> history" where
  "restore_dns_best_effort_macos ho h = (case get_primary_network_service ho h of (r, h) \<Rightarrow>
     run_sudo ho (lits [''networksetup'', ''-setdnsservers''] @
       [case r of Inr service \<Rightarrow> service | Inl _ \<Rightarrow> ascii ''Wi-Fi'', ascii ''Empty'']) h)"

definition restore_dns_best_effort_linux :: "host \<Rightarrow> history \<Rightarrow> (bytes + unit) \<times> history" where
  "restore_dns_best_effort_linux ho h =
     (case run_ok ho (lits [''sudo'', ''-n'', ''resolvconf'', ''-d'', ''tun.xelt'']) h of (_, h) \<Rightarrow> (Inr (), h))"

definition restore_dns_best_effort :: "host \<Rightarrow> history \<Rightarrow> (bytes + unit) \<times> history" where
  "restore_dns_best_effort ho h = (case ho_platform ho of
       MacOS \<Rightarrow> restore_dns_best_effort_macos ho h
     | Linux \<Rightarrow> restore_dns_best_effort_linux ho h
     | _ \<Rightarrow> (Inr (), h))"

lemmas platform_defs = get_default_gateway_macos_def get_default_gateway_linux_def
  save_original_dns_macos_def save_original_dns_linux_def set_vpn_dns_macos_def set_vpn_dns_linux_def
  restore_dns_macos_def restore_dns_linux_def restore_dns_best_effort_macos_def restore_dns_best_effort_linux_def

section \<open>Interface\<close>

definition interface_exists :: "host \<Rightarrow> bytes \<Rightarrow> history \<Rightarrow> bool \<times> history" where
  "interface_exists ho iface h = (case ho_platform ho of
       MacOS \<Rightarrow> run_ok ho [ascii ''ifconfig'', iface] h
     | Linux \<Rightarrow> path_exists ho (ascii ''/sys/class/net/'' @ iface) h
     | _ \<Rightarrow> (False, h))"

text \<open>The loop polls until the interface exists or the time is over; \<open>None\<close> when it never ends.
  Times are in nanoseconds.\<close>

partial_function (option) poll_interface :: "host \<Rightarrow> bytes \<Rightarrow> nat \<Rightarrow> nat \<Rightarrow> history \<Rightarrow> ((bytes + unit) \<times> history) option" where
  "poll_interface ho iface start timeout h = (case interface_exists ho iface h of (found, h) \<Rightarrow>
     if found then Some (Inr (), h)
     else (case instant_now ho h of (now, h) \<Rightarrow>
       if timeout < now - start then Some (Inl (ascii ''Interface '' @ iface @ ascii '' not ready after '' @
           dec_of_nat (timeout div 1000000000) @ ascii ''s''), h)
       else poll_interface ho iface start timeout (sleep 100 h)))"

definition wait_for_interface :: "host \<Rightarrow> bytes \<Rightarrow> nat \<Rightarrow> history \<Rightarrow> ((bytes + unit) \<times> history) option" where
  "wait_for_interface ho iface timeout h = (case instant_now ho h of (start, h) \<Rightarrow> poll_interface ho iface start timeout h)"

definition teardown_interface_commands :: "host \<Rightarrow> bytes \<Rightarrow> bytes list list" where
  "teardown_interface_commands ho iface = (case ho_platform ho of
       MacOS \<Rightarrow> [[ascii ''ifconfig'', iface, ascii ''down''], [ascii ''ifconfig'', iface, ascii ''destroy'']]
     | Linux \<Rightarrow> [lits [''ip'', ''link'', ''delete''] @ [iface]]
     | _ \<Rightarrow> [])"

definition teardown_interface :: "host \<Rightarrow> bytes \<Rightarrow> history \<Rightarrow> history" where
  "teardown_interface ho iface = try_all ho (teardown_interface_commands ho iface)"

end
