(* ===== verification/Client_Uapi.thy ===== *)
theory Client_Uapi
  imports Client_Net
begin

text \<open>
  How the desktop client talks to the tunnel process (\<open>client/src-tauri/src/vpn.rs\<close>): it finds
  the configuration socket, sends the configuration of the peer (through \<open>sudo nc\<close>, directly, or
  with the \<open>wg\<close> tool), and reads the age of the last handshake.
\<close>

section \<open>The socket\<close>

definition UAPI_SOCK_DIR :: bytes where "UAPI_SOCK_DIR = ascii ''/var/run/wireguard''"

definition socket_path :: "bytes \<Rightarrow> bytes" where "socket_path iface = UAPI_SOCK_DIR @ [47] @ iface @ ascii ''.sock''"

definition boringtun_log :: bytes where "boringtun_log = ascii ''/tmp/boringtun.log''"

definition wg_key_b64_to_hex :: "host \<Rightarrow> bytes \<Rightarrow> bytes + bytes" where
  "wg_key_b64_to_hex ho b64 = (case ho_b64_decode ho (trim b64) of
       Inl e \<Rightarrow> Inl (ascii ''invalid WireGuard key (base64): '' @ e)
     | Inr bytes \<Rightarrow> if length bytes \<noteq> 32 then Inl (ascii ''invalid WireGuard key length: '' @ dec_of_nat (length bytes))
         else Inr (ho_hex_encode ho bytes))"

definition find_uapi_socket_for_hint :: "host \<Rightarrow> bytes \<Rightarrow> history \<Rightarrow> bytes option \<times> history" where
  "find_uapi_socket_for_hint ho hint h = (case path_exists ho (socket_path hint) h of (found, h) \<Rightarrow>
     if found then (Some hint, h)
     else (case list_dir ho UAPI_SOCK_DIR h of (dir, h) \<Rightarrow>
       (case dir of None \<Rightarrow> None
        | Some names \<Rightarrow> map_option (trim_end_matches (ascii ''.sock''))
            (List.find (\<lambda>name. starts_with hint name \<and> ends_with (ascii ''.sock'') name) names), h)))"

text \<open>The loop polls until the time is over; \<open>None\<close> when it never ends.\<close>

partial_function (option) poll_uapi :: "host \<Rightarrow> bytes \<Rightarrow> nat \<Rightarrow> nat \<Rightarrow> history \<Rightarrow> (bytes option \<times> history) option" where
  "poll_uapi ho hint start timeout h = (case instant_now ho h of (now, h) \<Rightarrow>
     if now - start < timeout then (case find_uapi_socket_for_hint ho hint h of (r, h) \<Rightarrow>
       if r \<noteq> None then Some (r, h) else poll_uapi ho hint start timeout (sleep 200 h))
     else Some (None, h))"

definition log_hint :: "bytes + bytes \<Rightarrow> bytes" where
  "log_hint tail = (case tail of Inl _ \<Rightarrow> []
     | Inr s \<Rightarrow> (let hint = ascii '' Log: '' @ last_chars 200 s in if 6 < length hint then hint else []))"

definition wait_and_resolve_uapi_iface :: "host \<Rightarrow> bytes \<Rightarrow> nat \<Rightarrow> history \<Rightarrow> ((bytes + bytes) \<times> history) option" where
  "wait_and_resolve_uapi_iface ho hint timeout h =
     (if ho_platform ho = NonUnix then Some (Inl (ascii ''WireGuard UAPI is not supported on this platform''), h)
      else (case instant_now ho h of (start, h) \<Rightarrow>
        case poll_uapi ho hint start timeout h of
          None \<Rightarrow> None
        | Some (Some resolved, h) \<Rightarrow> Some (Inr resolved, h)
        | Some (None, h) \<Rightarrow> (case read_file ho boringtun_log h of (tail, h) \<Rightarrow>
            Some (Inl (ascii ''WireGuard UAPI socket not ready for '' @ hint @ ascii '' in '' @ UAPI_SOCK_DIR @ ascii ''.'' @
              log_hint tail @ ascii '' Run sudo -v in Terminal, then CONNECT again.''), h))))"

section \<open>Requests\<close>

definition uapi_get_direct :: "host \<Rightarrow> bytes \<Rightarrow> history \<Rightarrow> (bytes + bytes) \<times> history" where
  "uapi_get_direct ho path h = (case exchange_on ho path (ascii ''get=1'' @ [10, 10]) h of (r, h) \<Rightarrow>
     (case r of NoConnection e \<Rightarrow> Inl (ascii ''UAPI connect '' @ path @ ascii '': '' @ e)
      | WriteFailed e \<Rightarrow> Inl (ascii ''UAPI write: '' @ e)
      | ReadFailed e \<Rightarrow> Inl (ascii ''UAPI read: '' @ e)
      | Answered s \<Rightarrow> Inr (concat (map (\<lambda>line. line @ [10]) (str_lines s))), h))"

definition uapi_get_privileged :: "host \<Rightarrow> bytes \<Rightarrow> history \<Rightarrow> (bytes + bytes) \<times> history" where
  "uapi_get_privileged ho path h =
     (case run_piped ho (lits [''sudo'', ''-n'', ''nc'', ''-U''] @ [path]) (ascii ''get=1'' @ [10, 10]) h of (r, h) \<Rightarrow>
     (case r of SpawnFailed e \<Rightarrow> Inl (ascii ''sudo nc UAPI get failed: '' @ e)
      | StdinFailed e \<Rightarrow> Inl (ascii ''UAPI get stdin: '' @ e)
      | WaitFailed e \<Rightarrow> Inl (ascii ''UAPI get wait: '' @ e)
      | Finished out \<Rightarrow> if out_ok out then Inr (out_stdout out)
          else Inl (ascii ''UAPI get failed: '' @ trim (out_stderr out)), h))"

definition uapi_get_raw :: "host \<Rightarrow> bytes \<Rightarrow> history \<Rightarrow> (bytes + bytes) \<times> history" where
  "uapi_get_raw ho iface h = (case uapi_get_privileged ho (socket_path iface) h of
       (Inr s, h) \<Rightarrow> (Inr s, h)
     | (Inl _, h) \<Rightarrow> uapi_get_direct ho (socket_path iface) h)"

text \<open>One line is read of the answer.\<close>

definition uapi_exchange_direct :: "host \<Rightarrow> bytes \<Rightarrow> bytes \<Rightarrow> history \<Rightarrow> (bytes + bytes) \<times> history" where
  "uapi_exchange_direct ho path payload h = (case exchange_on ho path payload h of (r, h) \<Rightarrow>
     (case r of NoConnection e \<Rightarrow> Inl (ascii ''UAPI connect '' @ path @ ascii '': '' @ e)
      | WriteFailed e \<Rightarrow> Inl (ascii ''UAPI write: '' @ e)
      | ReadFailed e \<Rightarrow> Inl (ascii ''UAPI read: '' @ e)
      | Answered s \<Rightarrow> Inr (case stream_lines s of line # _ \<Rightarrow> line | [] \<Rightarrow> []), h))"

definition uapi_exchange_privileged :: "host \<Rightarrow> bytes \<Rightarrow> bytes \<Rightarrow> history \<Rightarrow> (bytes + bytes) \<times> history" where
  "uapi_exchange_privileged ho path payload h =
     (case run_piped ho (lits [''sudo'', ''-n'', ''nc'', ''-U''] @ [path]) payload h of (r, h) \<Rightarrow>
     (case r of SpawnFailed e \<Rightarrow> Inl (ascii ''sudo nc UAPI failed: '' @ e)
      | StdinFailed e \<Rightarrow> Inl (ascii ''UAPI stdin write: '' @ e)
      | WaitFailed e \<Rightarrow> Inl (ascii ''UAPI nc wait: '' @ e)
      | Finished out \<Rightarrow> if out_ok out then Inr (trim (out_stdout out))
          else Inl (ascii ''UAPI via sudo nc failed: '' @ trim (out_stderr out)), h))"

definition set_payload :: "bytes \<Rightarrow> bytes" where "set_payload config_body = ascii ''set=1'' @ [10] @ config_body"

definition client_uapi_set :: "host \<Rightarrow> bytes \<Rightarrow> bytes \<Rightarrow> history \<Rightarrow> (bytes + unit) \<times> history" where
  "client_uapi_set ho iface config_body h =
     (if ho_platform ho = NonUnix then (Inl (ascii ''WireGuard UAPI is not supported on this platform''), h)
      else then_ok (case uapi_exchange_privileged ho (socket_path iface) (set_payload config_body) h of
          (Inr s, h) \<Rightarrow> (Inr s, h)
        | (Inl _, h) \<Rightarrow> uapi_exchange_direct ho (socket_path iface) (set_payload config_body) h)
       (\<lambda>response h. (if starts_with (ascii ''errno=0'') (trim response) then Inr ()
          else Inl (ascii ''WireGuard UAPI set failed: '' @ trim response), h)))"

section \<open>The wg tool\<close>

fun first_existing :: "host \<Rightarrow> bytes list \<Rightarrow> history \<Rightarrow> bytes option \<times> history" where
  "first_existing ho [] h = (None, h)"
| "first_existing ho (path # paths) h = (case path_exists ho path h of (found, h) \<Rightarrow>
     if found then (Some path, h) else first_existing ho paths h)"

text \<open>An environment variable that names an existing file.\<close>

definition env_file :: "host \<Rightarrow> string \<Rightarrow> history \<Rightarrow> bytes option \<times> history" where
  "env_file ho var h = (case ho_env ho var of None \<Rightarrow> (None, h) | Some path \<Rightarrow> first_existing ho [path] h)"

definition wg_binary :: "host \<Rightarrow> history \<Rightarrow> bytes option \<times> history" where
  "wg_binary ho h = (case env_file ho ''XELT_WG_CLI'' h of
       (Some path, h) \<Rightarrow> (Some path, h)
     | (None, h) \<Rightarrow>
     (case first_existing ho (lits [''/opt/homebrew/bin/wg'', ''/usr/local/bin/wg'', ''/opt/local/bin/wg'']) h of
       (Some path, h) \<Rightarrow> (Some path, h)
     | (None, h) \<Rightarrow>
     (case run ho (lits [''which'', ''wg'']) h of (r, h) \<Rightarrow>
       (case r of Inl _ \<Rightarrow> None
        | Inr out \<Rightarrow> if out_ok out \<and> trim (out_stdout out) \<noteq> [] then Some (trim (out_stdout out)) else None, h))))"

definition key_file :: "bytes \<Rightarrow> bytes" where "key_file iface = ascii ''/tmp/xelt_'' @ iface @ ascii ''.key''"

definition wg_command :: "host \<Rightarrow> bytes \<Rightarrow> bytes \<Rightarrow> bytes \<Rightarrow> bytes \<Rightarrow> bytes list" where
  "wg_command ho wg_path iface server_pub endpoint =
     [wg_path, ascii ''set'', iface, ascii ''private-key'', key_file iface, ascii ''peer'', server_pub,
      ascii ''allowed-ips'', tunnel_allowed_ips ho, ascii ''endpoint'', endpoint,
      ascii ''persistent-keepalive'', ascii ''25'']"

definition configure_wireguard_wg_cli ::
  "host \<Rightarrow> bytes \<Rightarrow> bytes \<Rightarrow> bytes \<Rightarrow> bytes \<Rightarrow> bytes \<Rightarrow> history \<Rightarrow> (bytes + unit) \<times> history" where
  "configure_wireguard_wg_cli ho iface priv_key server_pub endpoint wg_path h =
     (case write_file ho (key_file iface) priv_key h of
        (Some e, h) \<Rightarrow> (Inl (ascii ''Failed to write key file: '' @ e), h)
      | (None, h) \<Rightarrow> (case run_sudo ho (wg_command ho wg_path iface server_pub endpoint) h of (result, h) \<Rightarrow>
          (result, h @ [RemovedFile (key_file iface)])))"

section \<open>Configuration of the peer\<close>

definition peer_config :: "host \<Rightarrow> bytes \<Rightarrow> bytes \<Rightarrow> bytes \<Rightarrow> bytes" where
  "peer_config ho private_key_hex peer_key_hex endpoint =
     field ''private_key'' private_key_hex @ [10] @ field ''public_key'' peer_key_hex @ [10] @
     field ''replace_allowed_ips'' (ascii ''true'') @ [10] @ field ''allowed_ip'' (tunnel_allowed_ips ho) @ [10] @
     field ''endpoint'' endpoint @ [10] @ field ''persistent_keepalive_interval'' (ascii ''25'') @ [10, 10]"

definition configure_wireguard ::
  "host \<Rightarrow> bytes \<Rightarrow> bytes \<Rightarrow> bytes \<Rightarrow> bytes \<Rightarrow> history \<Rightarrow> (bytes + unit) \<times> history" where
  "configure_wireguard ho iface priv_key server_pub endpoint h = (case wg_key_b64_to_hex ho priv_key of
       Inl e \<Rightarrow> (Inl e, h)
     | Inr private_key_hex \<Rightarrow> (case wg_key_b64_to_hex ho server_pub of
       Inl e \<Rightarrow> (Inl e, h)
     | Inr peer_key_hex \<Rightarrow>
       (case client_uapi_set ho iface (peer_config ho private_key_hex peer_key_hex endpoint) h of
          (Inr _, h) \<Rightarrow> (Inr (), h)
        | (Inl _, h) \<Rightarrow> (case wg_binary ho h of
            (Some wg_path, h) \<Rightarrow> configure_wireguard_wg_cli ho iface priv_key server_pub endpoint wg_path h
          | (None, h) \<Rightarrow> (Inl (ascii ''Could not configure WireGuard tunnel via UAPI. Run sudo -v, or: brew install wireguard-tools''), h)))))"

section \<open>Age of the last handshake\<close>

text \<open>The last line with the field counts, and a value that does not parse clears it.\<close>

fun last_handshake_line :: "nat option \<Rightarrow> bytes list \<Rightarrow> nat option" where
  "last_handshake_line sec [] = sec"
| "last_handshake_line sec (line # ls) = (case strip_prefix (ascii ''last_handshake_time_sec='') line of
       Some val \<Rightarrow> last_handshake_line (parse_uint 18446744073709551616 val) ls
     | None \<Rightarrow> last_handshake_line sec ls)"

definition uapi_get_handshake_age :: "host \<Rightarrow> bytes \<Rightarrow> history \<Rightarrow> nat option \<times> history" where
  "uapi_get_handshake_age ho iface h =
     (if ho_platform ho = NonUnix then (None, h)
      else (case uapi_get_raw ho iface h of
        (Inl _, h) \<Rightarrow> (None, h)
      | (Inr response, h) \<Rightarrow> (case last_handshake_line None (str_lines response) of
          None \<Rightarrow> None | Some sec \<Rightarrow> if sec = 0 then None else Some sec, h)))"

definition wg_cli_get_handshake_age :: "host \<Rightarrow> bytes \<Rightarrow> history \<Rightarrow> nat option \<times> history" where
  "wg_cli_get_handshake_age ho iface h =
     (case run ho (lits [''sudo'', ''-n'', ''wg'', ''show''] @ [iface, ascii ''latest-handshakes'']) h of
        (Inl _, h) \<Rightarrow> (None, h)
      | (Inr out, h) \<Rightarrow>
        if \<not> out_ok out then (None, h)
        else (case split_ws (out_stdout out) of
            _ # ts_str # _ \<Rightarrow> (case parse_uint 18446744073709551616 ts_str of
                None \<Rightarrow> (None, h)
              | Some ts \<Rightarrow> if ts = 0 then (None, h)
                  else (case unix_time ho h of (now, h) \<Rightarrow> (map_option (\<lambda>now. now - ts) now, h)))
          | _ \<Rightarrow> (None, h)))"

definition get_handshake_age :: "host \<Rightarrow> bytes \<Rightarrow> history \<Rightarrow> nat option \<times> history" where
  "get_handshake_age ho iface h = (case uapi_get_handshake_age ho iface h of
       (Some age, h) \<Rightarrow> (Some age, h)
     | (None, h) \<Rightarrow> wg_cli_get_handshake_age ho iface h)"

section \<open>Changes\<close>

lemma first_existing_quiet [quiet]: "first_existing ho paths h = (r, h') \<Longrightarrow> changes h' = changes h"
  by (induction paths arbitrary: h) (auto split: prod.splits if_splits dest: quiet_ops)

end
