(* ===== verification/Client_Spawn.thy ===== *)
theory Client_Spawn
  imports Client_Uapi Eip3009
begin

text \<open>
  The tunnel process and the key of the desktop client (\<open>client/src-tauri/src/vpn.rs\<close>): the
  binary, a free interface name, starting the process (with \<open>sudo -n\<close> or the administrator
  prompt), killing it, the key file, and the address of the wallet derived from the key.
\<close>

section \<open>Binary and interface\<close>

definition boringtun_candidates :: "host \<Rightarrow> bytes list" where
  "boringtun_candidates ho = (let manifest = ho_manifest ho; workspace = path_join manifest (ascii ''../..'') in
     [path_join workspace (ascii ''target/release/boringtun-cli''),
      path_join workspace (ascii ''target/debug/boringtun-cli''),
      path_join manifest (ascii ''../../../target/release/boringtun-cli''),
      ascii ''/usr/local/bin/boringtun-cli'',
      ascii ''/opt/homebrew/bin/boringtun-cli''])"

definition boringtun_binary :: "host \<Rightarrow> history \<Rightarrow> (bytes + bytes) \<times> history" where
  "boringtun_binary ho h = (case env_file ho ''XELT_BORINGTUN_CLI'' h of
       (Some path, h) \<Rightarrow> (Inr path, h)
     | (None, h) \<Rightarrow>
     (case first_existing ho (boringtun_candidates ho) h of
       (Some path, h) \<Rightarrow> (Inr path, h)
     | (None, h) \<Rightarrow>
     (case run ho (lits [''which'', ''boringtun-cli'']) h of (r, h) \<Rightarrow>
       (case r of Inl _ \<Rightarrow> Inl (ascii ''boringtun-cli not found'')
        | Inr out \<Rightarrow> if out_ok out then Inr (trim (out_stdout out))
            else Inl (ascii ''boringtun-cli not found. Build it: cd x402-Project && cargo build --release -p boringtun-cli''), h))))"

definition iface_name :: "string \<Rightarrow> nat \<Rightarrow> bytes" where "iface_name prefix i = ascii prefix @ dec_of_nat i"

definition find_available_iface :: "host \<Rightarrow> history \<Rightarrow> (bytes + bytes) \<times> history" where
  "find_available_iface ho h = (case ho_platform ho of
       MacOS \<Rightarrow> (case run ho (lits [''ifconfig'', ''-l'']) h of (r, h) \<Rightarrow>
         (case r of Inl e \<Rightarrow> Inl (ascii ''ifconfig -l failed: '' @ e)
          | Inr existing \<Rightarrow> (case List.find (\<lambda>name. name \<notin> set (split_ws (out_stdout existing))) (map (iface_name ''utun'') [9..<31]) of
              Some name \<Rightarrow> Inr name | None \<Rightarrow> Inl (ascii ''No available utun interface found'')), h))
     | Linux \<Rightarrow> (case run ho (lits [''ip'', ''link'', ''show'']) h of (r, h) \<Rightarrow>
         (case r of Inl e \<Rightarrow> Inl (ascii ''ip link show failed: '' @ e)
          | Inr existing \<Rightarrow> (case List.find (\<lambda>name. \<not> has_infix (name @ ascii '':'') (out_stdout existing)) (map (iface_name ''wg'') [0..<21]) of
              Some name \<Rightarrow> Inr name | None \<Rightarrow> Inl (ascii ''No available wg interface found'')), h))
     | _ \<Rightarrow> (Inr (ascii ''wg0''), h))"

section \<open>The tunnel process\<close>

definition CLIENT_TUNNEL_PKILL_PATTERN :: bytes where "CLIENT_TUNNEL_PKILL_PATTERN = ascii ''disable-drop-privileges''"

record boringtun_spawn =
  bs_proc :: nat
  bs_tunnel_pid :: u32

definition boringtun_log_tail :: "host \<Rightarrow> history \<Rightarrow> bytes \<times> history" where
  "boringtun_log_tail ho h = (case read_file ho boringtun_log h of (r, h) \<Rightarrow>
     (last_chars 400 (case r of Inr s \<Rightarrow> s | Inl _ \<Rightarrow> []), h))"

definition client_tunnel_process_alive :: "host \<Rightarrow> history \<Rightarrow> bool \<times> history" where
  "client_tunnel_process_alive ho = run_ok ho [ascii ''pgrep'', ascii ''-f'', CLIENT_TUNNEL_PKILL_PATTERN]"

definition is_tunnel_process_alive :: "host \<Rightarrow> u32 \<Rightarrow> history \<Rightarrow> bool \<times> history" where
  "is_tunnel_process_alive ho pid = run_ok ho (lits [''sudo'', ''-n'', ''kill'', ''-0''] @ [dec pid])"

definition pkill_client :: "host \<Rightarrow> nat \<Rightarrow> history \<Rightarrow> history" where
  "pkill_client ho ms h =
     (let h = snd (run_ok ho [ascii ''pkill'', ascii ''-f'', CLIENT_TUNNEL_PKILL_PATTERN] h);
          h = snd (run_ok ho (lits [''sudo'', ''-n'', ''pkill'', ''-f''] @ [CLIENT_TUNNEL_PKILL_PATTERN]) h)
      in sleep ms h)"

definition kill_stale_client_boringtun :: "host \<Rightarrow> history \<Rightarrow> history" where
  "kill_stale_client_boringtun ho = pkill_client ho 300"

definition elevated_command :: "bytes \<Rightarrow> bytes \<Rightarrow> bytes" where
  "elevated_command path iface = shlex_quote path @ [32] @ shlex_quote iface @
     ascii '' --disable-drop-privileges --foreground </dev/null >> /tmp/boringtun.log 2>&1 & sleep 0.8; pgrep -f '' @
     [39] @ CLIENT_TUNNEL_PKILL_PATTERN @ [39] @ ascii '' | head -1''"

definition spawn_client_boringtun_elevated :: "host \<Rightarrow> bytes \<Rightarrow> bytes \<Rightarrow> history \<Rightarrow> (bytes + boringtun_spawn) \<times> history" where
  "spawn_client_boringtun_elevated ho path iface h =
     (if ho_platform ho \<noteq> MacOS then (Inl SUDO_HINT, h)
      else (let h = snd (write_file ho boringtun_log [] h) in
        then_ok (osascript ho (admin_script (elevated_command path iface)) h) (\<lambda>out h.
          let pid_str = trim out in
          case parse_u32 pid_str of
            None \<Rightarrow> (Inl (ascii ''boringtun started but PID unknown (got '' @ ho_debug ho pid_str @ ascii '')''), h)
          | Some tunnel_pid \<Rightarrow> (case client_tunnel_process_alive ho h of (alive, h) \<Rightarrow>
              if \<not> alive then (case boringtun_log_tail ho h of (log_tail, h) \<Rightarrow>
                (Inl (ascii ''boringtun-cli exited immediately after admin launch. Log: '' @ log_tail), h))
              else (case spawn ho (lits [''sleep'', ''999999'']) h of (r, h) \<Rightarrow>
                (case r of Inl e \<Rightarrow> Inl (ascii ''Failed to track tunnel process: '' @ e)
                 | Inr proc \<Rightarrow> Inr \<lparr>bs_proc = proc, bs_tunnel_pid = tunnel_pid\<rparr>, h))))))"

definition spawn_client_boringtun :: "host \<Rightarrow> bytes \<Rightarrow> bytes \<Rightarrow> history \<Rightarrow> (bytes + boringtun_spawn) \<times> history" where
  "spawn_client_boringtun ho path iface h =
     (case write_file ho boringtun_log [] h of
        (Some e, h) \<Rightarrow> (Inl (ascii ''Failed to create boringtun log: '' @ e), h)
      | (None, h) \<Rightarrow>
     (case ho_clone ho h of
        Some e \<Rightarrow> (Inl (ascii ''Failed to clone log handle: '' @ e), h)
      | None \<Rightarrow>
     (case spawn ho (lits [''sudo'', ''-n''] @ [path, iface] @ lits [''--disable-drop-privileges'', ''--foreground'']) h of
        (Inl e, h) \<Rightarrow> spawn_client_boringtun_elevated ho path iface h
      | (Inr proc, h) \<Rightarrow>
     (case try_wait ho proc (sleep 800 h) of (st, h) \<Rightarrow>
        if st = Exited False then
          (case boringtun_log_tail ho h of (log_tail, h) \<Rightarrow>
            if has_infix (ascii ''password'') log_tail \<or> has_infix (ascii ''askpass'') log_tail
            then spawn_client_boringtun_elevated ho path iface h
            else if trim log_tail = [] then (Inl SUDO_HINT, h)
            else (Inl (ascii ''boringtun-cli exited immediately. '' @ SUDO_HINT @ ascii '' Log: '' @ log_tail), h))
        else (Inr \<lparr>bs_proc = proc, bs_tunnel_pid = ho_pid ho proc\<rparr>, h)))))"

section \<open>Keys\<close>

definition key_path :: "host \<Rightarrow> history \<Rightarrow> bytes \<times> history" where
  "key_path ho h = (let dir = path_join (case ho_home ho of Some d \<Rightarrow> d | None \<Rightarrow> ascii ''.'') (ascii ''.xelt'') in
     (path_join dir (ascii ''client_key''), h @ [MadeDir dir]))"

definition load_or_create_key :: "host \<Rightarrow> history \<Rightarrow> (bytes + bytes) \<times> history" where
  "load_or_create_key ho h = (case key_path ho h of (path, h) \<Rightarrow>
     (case path_exists ho path h of (found, h) \<Rightarrow>
       if found then (case read_file ho path h of (r, h) \<Rightarrow>
         (case r of Inl e \<Rightarrow> Inl (ascii ''Failed to read key file: '' @ e)
          | Inr bytes \<Rightarrow> if length bytes \<noteq> 32 then Inl (ascii ''Invalid key file (expected 32 bytes)'') else Inr bytes, h))
       else (let secret = ho_random ho h in
         case write_file ho path secret (h @ [DrewKey secret]) of (r, h) \<Rightarrow>
         (case r of Some e \<Rightarrow> Inl (ascii ''Failed to write key file: '' @ e) | None \<Rightarrow> Inr secret, h))))"

text \<open>The address of the wallet, \<open>None\<close> where the derived scalar is refused (a panic).\<close>

definition derive_evm_address :: "eth \<Rightarrow> host \<Rightarrow> bytes \<Rightarrow> bytes option" where
  "derive_evm_address et ho x25519_private_bytes =
     (let derived = et_hkdf et HKDF_SALT x25519_private_bytes HKDF_INFO in
      if \<not> et_scalar_ok et derived then None
      else Some (ascii ''0x'' @ ho_hex_encode ho (drop 12 (et_keccak et (et_pub et derived)))))"

definition get_pubkey_b64 :: "host \<Rightarrow> history \<Rightarrow> (bytes + bytes) \<times> history" where
  "get_pubkey_b64 ho h = then_ok (load_or_create_key ho h) (\<lambda>private h. (Inr (ho_b64_encode ho (ho_public_key ho private)), h))"

definition get_wallet_address :: "eth \<Rightarrow> host \<Rightarrow> history \<Rightarrow> ((bytes + bytes) \<times> history) option" where
  "get_wallet_address et ho h = (case load_or_create_key ho h of
       (Inl e, h) \<Rightarrow> Some (Inl e, h)
     | (Inr key, h) \<Rightarrow> map_option (\<lambda>a. (Inr a, h)) (derive_evm_address et ho key))"

end
