(* ===== verification/Client_Vpn.thy ===== *)
theory Client_Vpn
  imports Client_Spawn
begin

text \<open>
  The connection manager of the desktop client (\<open>client/src-tauri/src/vpn.rs\<close>): connecting in
  ten steps with a guard that undoes the finished steps when a later one fails, disconnecting,
  and the health check.  The JSON of the registration and of the balance query is a parameter
  (\<open>js\<close>), as in \<open>Registration\<close>.
\<close>

section \<open>State\<close>

record connected_info =
  in_assigned_ip :: bytes
  in_server_endpoint :: bytes
  in_wallet_address :: bytes
  in_gateway_balance :: bytes

record session_registration =
  sr_server_public_key :: bytes
  sr_endpoint :: bytes
  sr_assigned_ip :: bytes

record connection_context =
  cc_iface :: bytes
  cc_boringtun_proc :: nat
  cc_original_gateway :: bytes
  cc_original_phys_iface :: bytes
  cc_original_dns :: original_dns
  cc_server_ip :: bytes

record vpn_manager =
  vm_ctx :: "connection_context option"

definition vpn_manager_new :: vpn_manager where "vpn_manager_new = \<lparr>vm_ctx = None\<rparr>"

definition is_connected :: "vpn_manager \<Rightarrow> bool" where "is_connected mgr \<longleftrightarrow> vm_ctx mgr \<noteq> None"

definition vpn_manager_status :: "vpn_manager \<Rightarrow> vpn_status" where
  "vpn_manager_status mgr = (if vm_ctx mgr \<noteq> None then Connected else Disconnected)"

section \<open>Cleanup guard\<close>

record cleanup =
  cu_steps :: "(bytes \<times> (history \<Rightarrow> history)) list"
  cu_armed :: bool

definition cleanup_new :: cleanup where "cleanup_new = \<lparr>cu_steps = [], cu_armed = True\<rparr>"

definition cleanup_push :: "string \<Rightarrow> (history \<Rightarrow> history) \<Rightarrow> cleanup \<Rightarrow> cleanup" where
  "cleanup_push name f c = c\<lparr>cu_steps := cu_steps c @ [(ascii name, f)]\<rparr>"

definition cleanup_disarm :: "cleanup \<Rightarrow> cleanup" where "cleanup_disarm c = c\<lparr>cu_armed := False\<rparr>"

definition cleanup_run :: "cleanup \<Rightarrow> history \<Rightarrow> cleanup \<times> history" where
  "cleanup_run c h = (if \<not> cu_armed c then (c, h)
     else (\<lparr>cu_steps = [], cu_armed = False\<rparr>, fold (\<lambda>(name, step) h. step h) (rev (cu_steps c)) h))"

definition cleanup_drop :: "cleanup \<Rightarrow> history \<Rightarrow> history" where
  "cleanup_drop c h = (if cu_armed c then snd (cleanup_run c h) else h)"

text \<open>\<open>if let Err(e) = step \<open>{\<close> cleanup.run(); return Err(e) \<open>}\<close>\<close>.\<close>

definition or_cleanup ::
  "(bytes + 'a) \<times> history \<Rightarrow> cleanup \<Rightarrow> ('a \<Rightarrow> history \<Rightarrow> (bytes + 'b) \<times> cleanup \<times> history) \<Rightarrow> (bytes + 'b) \<times> cleanup \<times> history" where
  "or_cleanup p c k = (case p of (r, h) \<Rightarrow>
     case r of Inl e \<Rightarrow> (Inl e, cleanup_run c h) | Inr x \<Rightarrow> k x h)"

section \<open>Connecting\<close>

text \<open>\<open>assigned_ip.split('/').next()\<close>.\<close>

definition bare_ip :: "bytes \<Rightarrow> bytes" where "bare_ip assigned = hd (split_on 47 assigned)"

text \<open>The steps before the cleanup guard: the key, a free interface, the binary, the process.\<close>

definition launch ::
  "host \<Rightarrow> history \<Rightarrow> (bytes + (bytes \<times> bytes \<times> boringtun_spawn)) \<times> history" where
  "launch ho h = then_ok (load_or_create_key ho h) (\<lambda>private h.
     let h = kill_stale_client_boringtun ho h in
     then_ok (find_available_iface ho h) (\<lambda>iface h.
     then_ok (boringtun_binary ho h) (\<lambda>boringtun_path h.
     then_ok (spawn_client_boringtun ho boringtun_path iface h) (\<lambda>sp h.
     (Inr (ho_b64_encode ho private, iface, sp), h)))))"

text \<open>The process is alive, and its interface and socket appear.\<close>

definition await_tunnel ::
  "host \<Rightarrow> cleanup \<Rightarrow> bytes \<Rightarrow> history \<Rightarrow> ((bytes + bytes) \<times> cleanup \<times> history) option" where
  "await_tunnel ho c iface h = (case client_tunnel_process_alive ho h of (alive, h) \<Rightarrow>
     if \<not> alive then (case cleanup_run c h of (c, h) \<Rightarrow> case boringtun_log_tail ho h of (log_tail, h) \<Rightarrow>
       Some (Inl (ascii ''boringtun-cli is not running. '' @ SUDO_HINT @ ascii '' Log: '' @ log_tail), c, h))
     else do {
       (r, h) \<leftarrow> wait_for_interface ho iface 10000000000 h;
       (case r of Inl e \<Rightarrow> Some (Inl e, cleanup_run c h)
        | Inr _ \<Rightarrow> do {
            (r, h) \<leftarrow> wait_and_resolve_uapi_iface ho iface 20000000000 h;
            Some (or_cleanup (r, h) c (\<lambda>uapi_iface h. (Inr uapi_iface, c, h))) }) })"

text \<open>The peer, the address, the saved state, the routes and DNS.\<close>

definition configure_tunnel ::
  "host \<Rightarrow> cleanup \<Rightarrow> bytes \<Rightarrow> bytes \<Rightarrow> bytes \<Rightarrow> bytes \<Rightarrow> bytes \<Rightarrow> bytes \<Rightarrow> bytes \<Rightarrow> history \<Rightarrow>
    (bytes + (bytes \<times> original_dns \<times> bytes)) \<times> cleanup \<times> history" where
  "configure_tunnel ho c uapi_iface priv_b64 server_pub endpoint ip_bare assigned server_ip h =
     or_cleanup (configure_wireguard ho uapi_iface priv_b64 server_pub endpoint h) c (\<lambda>_ h.
     or_cleanup (configure_interface_ip ho uapi_iface ip_bare assigned h) c (\<lambda>_ h.
     let c = cleanup_push ''teardown interface'' (teardown_interface ho uapi_iface) c in
     or_cleanup (case get_default_gateway ho h of (r, h) \<Rightarrow>
         (map_sum (\<lambda>e. ascii ''Failed to get default gateway: '' @ e) id r, h)) c (\<lambda>original_gw h.
     or_cleanup (case save_original_dns ho h of (r, h) \<Rightarrow>
         (map_sum (\<lambda>e. ascii ''Failed to save DNS state: '' @ e) id r, h)) c (\<lambda>original_dns h.
     case (if ho_platform ho = MacOS then (case get_default_interface ho h of (r, h) \<Rightarrow>
         (case r of Inr i \<Rightarrow> i | Inl _ \<Rightarrow> ascii ''en0'', h)) else ([], h)) of (phys_iface, h) \<Rightarrow>
     or_cleanup (configure_full_tunnel ho uapi_iface server_ip original_gw h) c (\<lambda>_ h.
     let c = cleanup_push ''teardown routes'' (teardown_routes ho uapi_iface server_ip original_gw) c in
     if \<not> use_split_tunnel ho server_ip then
       or_cleanup (set_vpn_dns ho h) c (\<lambda>_ h.
       (Inr (original_gw, original_dns, phys_iface),
         cleanup_push ''restore DNS'' (\<lambda>h. snd (restore_dns_best_effort ho h)) c, h))
     else (Inr (original_gw, original_dns, phys_iface), c, h))))))"

definition status_ok :: "nat \<Rightarrow> bool" where "status_ok n \<longleftrightarrow> 200 \<le> n \<and> n < 300"

definition ARC_DOMAIN :: nat where "ARC_DOMAIN = 26"

definition query_balance_of :: "'j json_api \<Rightarrow> host \<Rightarrow> bytes \<Rightarrow> history \<Rightarrow> (bytes + bytes) \<times> history" where
  "query_balance_of js ho wallet h = (case ho_http_client ho h of
       Some e \<Rightarrow> (Inl (ascii ''HTTP client error: '' @ e), h)
     | None \<Rightarrow> (case http_exchange ho (GATEWAY_API ho @ ascii ''/v1/balances'') (BalancesCall ARC_DOMAIN wallet) h of (r, h) \<Rightarrow>
       (case r of NotSent e \<Rightarrow> Inl (ascii ''Balance request failed: '' @ e)
        | Replied status text \<Rightarrow> (case js_parse js text of
            None \<Rightarrow> Inl (ascii ''Balance parse failed: '' @ js_error js text)
          | Some resp \<Rightarrow> Inr (case Option.bind (js_get js resp (ascii ''balances'')) (\<lambda>arr.
                Option.bind (js_first js arr) (\<lambda>b. Option.bind (js_get js b (ascii ''balance'')) (js_str js))) of
              Some balance \<Rightarrow> balance | None \<Rightarrow> ascii ''0'')), h)))"

definition session_balance :: "'j json_api \<Rightarrow> host \<Rightarrow> bytes \<Rightarrow> history \<Rightarrow> bytes \<times> history" where
  "session_balance js ho wallet h = (if starts_with (ascii ''0x'') wallet
     then (case query_balance_of js ho wallet h of (r, h) \<Rightarrow>
       (case r of Inr balance \<Rightarrow> balance | Inl _ \<Rightarrow> ascii ''0.000000'', h))
     else (ascii ''paid via x402'', h))"

definition establish_tunnel ::
  "'j json_api \<Rightarrow> host \<Rightarrow> vpn_manager \<Rightarrow> bytes \<Rightarrow> bytes \<Rightarrow> bytes \<Rightarrow> bytes \<Rightarrow> bytes \<Rightarrow> bytes \<Rightarrow> history \<Rightarrow>
    ((bytes + connected_info) \<times> vpn_manager \<times> history) option" where
  "establish_tunnel js ho mgr server_ip server_pub assigned endpoint ip_bare wallet h = (case launch ho h of
       (Inl e, h) \<Rightarrow> Some (Inl e, mgr, h)
     | (Inr (priv_b64, iface, sp), h) \<Rightarrow> do {
         let c = cleanup_push ''kill client boringtun'' (pkill_client ho 200) cleanup_new;
         (r, c, h) \<leftarrow> await_tunnel ho c iface h;
         (case r of Inl e \<Rightarrow> Some (Inl e, mgr, cleanup_drop c h)
          | Inr uapi_iface \<Rightarrow>
         (case configure_tunnel ho c uapi_iface priv_b64 server_pub endpoint ip_bare assigned server_ip h of
            (Inl e, c, h) \<Rightarrow> Some (Inl e, mgr, cleanup_drop c h)
          | (Inr (original_gw, original_dns, phys_iface), c, h) \<Rightarrow>
              let c = cleanup_disarm c;
                  h = h @ [StartedHealth uapi_iface (bs_tunnel_pid sp)];
                  mgr = mgr\<lparr>vm_ctx := Some \<lparr>cc_iface = uapi_iface, cc_boringtun_proc = bs_proc sp,
                    cc_original_gateway = original_gw, cc_original_phys_iface = phys_iface,
                    cc_original_dns = original_dns, cc_server_ip = server_ip\<rparr>\<rparr> in
              case session_balance js ho wallet h of (balance, h) \<Rightarrow>
              Some (Inr \<lparr>in_assigned_ip = ip_bare, in_server_endpoint = endpoint, in_wallet_address = wallet,
                in_gateway_balance = balance\<rparr>, mgr, cleanup_drop c h))) })"

definition vpn_connect_paid ::
  "'j json_api \<Rightarrow> host \<Rightarrow> vpn_manager \<Rightarrow> session_registration \<Rightarrow> bytes option \<Rightarrow> bytes option \<Rightarrow> history \<Rightarrow>
    ((bytes + connected_info) \<times> vpn_manager \<times> history) option" where
  "vpn_connect_paid js ho mgr reg server_ip wallet_address h =
     (if vm_ctx mgr \<noteq> None then Some (Inl (ascii ''Already connected''), mgr, h)
      else establish_tunnel js ho mgr (case server_ip of Some ip \<Rightarrow> ip | None \<Rightarrow> SERVER_IP ho)
        (sr_server_public_key reg) (sr_assigned_ip reg) (sr_endpoint reg) (bare_ip (sr_assigned_ip reg))
        (case wallet_address of Some w \<Rightarrow> w | None \<Rightarrow> ascii ''xelt'') h)"

text \<open>The answer of the registration server: three members that are strings.\<close>

definition register_response :: "'j json_api \<Rightarrow> bytes \<Rightarrow> bytes + session_registration" where
  "register_response js text = (let member = (\<lambda>name. Option.bind (js_parse js text) (\<lambda>j.
       Option.bind (js_get js j (ascii name)) (js_str js))) in
     case (member ''server_public_key'', member ''endpoint'', member ''assigned_ip'') of
       (Some key, Some endpoint, Some ip) \<Rightarrow>
         Inr \<lparr>sr_server_public_key = key, sr_endpoint = endpoint, sr_assigned_ip = ip\<rparr>
     | _ \<Rightarrow> Inl (ascii ''Failed to parse register response: '' @ js_error js text))"

definition vpn_register ::
  "'j json_api \<Rightarrow> host \<Rightarrow> bytes \<Rightarrow> bytes \<Rightarrow> bytes option \<Rightarrow> history \<Rightarrow> (bytes + session_registration) \<times> history" where
  "vpn_register js ho server_ip pub_b64 world_proof h = (case ho_http_client ho h of
       Some e \<Rightarrow> (Inl (ascii ''HTTP client error: '' @ e), h)
     | None \<Rightarrow> (case http_exchange ho (ascii ''http://'' @ server_ip @ ascii '':8080/v1/register'') (RegisterCall pub_b64 world_proof) h of (r, h) \<Rightarrow>
       (case r of NotSent e \<Rightarrow> Inl (ascii ''Failed to reach server: '' @ e)
        | Replied status text \<Rightarrow> if \<not> status_ok status
            then Inl (ascii ''Server returned '' @ ho_status_text ho status @ ascii '': '' @ text)
            else register_response js text, h)))"

definition vpn_connect ::
  "eth \<Rightarrow> 'j json_api \<Rightarrow> host \<Rightarrow> vpn_manager \<Rightarrow> bytes option \<Rightarrow> bytes option \<Rightarrow> history \<Rightarrow>
    ((bytes + connected_info) \<times> vpn_manager \<times> history) option" where
  "vpn_connect et js ho mgr world_proof server_ip h =
     (if vm_ctx mgr \<noteq> None then Some (Inl (ascii ''Already connected''), mgr, h)
      else let server_ip = (case server_ip of Some ip \<Rightarrow> ip | None \<Rightarrow> SERVER_IP ho) in
      case load_or_create_key ho h of
        (Inl e, h) \<Rightarrow> Some (Inl e, mgr, h)
      | (Inr private, h) \<Rightarrow> do {
          wallet \<leftarrow> derive_evm_address et ho private;
          (case vpn_register js ho server_ip (ho_b64_encode ho (ho_public_key ho private)) world_proof h of
             (Inl e, h) \<Rightarrow> Some (Inl e, mgr, h)
           | (Inr reg, h) \<Rightarrow> establish_tunnel js ho mgr server_ip (sr_server_public_key reg) (sr_assigned_ip reg)
               (sr_endpoint reg) (bare_ip (sr_assigned_ip reg)) wallet h) })"

section \<open>Disconnecting\<close>

definition vpn_disconnect :: "host \<Rightarrow> vpn_manager \<Rightarrow> history \<Rightarrow> (bytes + unit) \<times> vpn_manager \<times> history" where
  "vpn_disconnect ho mgr h = (case vm_ctx mgr of
       None \<Rightarrow> (Inl (ascii ''Not connected''), mgr, h)
     | Some ctx \<Rightarrow>
       (let mgr = mgr\<lparr>vm_ctx := None\<rparr>;
            h = h @ [CancelledHealth];
            h = snd (restore_dns ho (cc_original_dns ctx) h);
            h = teardown_routes ho (cc_iface ctx) (cc_server_ip ctx) (cc_original_gateway ctx) h;
            h = teardown_interface ho (cc_iface ctx) h;
            h = h @ [Reaped (cc_boringtun_proc ctx)];
            h = kill_stale_client_boringtun ho h
        in (Inr (), mgr, h)))"

section \<open>Health\<close>

definition handshake_fresh :: "nat option \<Rightarrow> bool" where
  "handshake_fresh age = (case age of Some a \<Rightarrow> a < 600 | None \<Rightarrow> True)"

definition check_health :: "host \<Rightarrow> vpn_manager \<Rightarrow> history \<Rightarrow> health_event \<times> history" where
  "check_health ho mgr h = (case vm_ctx mgr of
       None \<Rightarrow> (\<lparr>he_connected = False, he_process_alive = False, he_handshake_age_secs = None\<rparr>, h)
     | Some ctx \<Rightarrow> (case try_wait ho (cc_boringtun_proc ctx) h of (st, h) \<Rightarrow>
         let process_alive = (st = Running) in
         case get_handshake_age ho (cc_iface ctx) h of (handshake_age, h) \<Rightarrow>
         (\<lparr>he_connected = (process_alive \<and> handshake_fresh handshake_age), he_process_alive = process_alive,
            he_handshake_age_secs = handshake_age\<rparr>, h)))"

text \<open>One round of the health check: the count of dead checks, and an event.\<close>

definition health_round :: "host \<Rightarrow> bytes \<Rightarrow> u32 \<Rightarrow> nat \<Rightarrow> history \<Rightarrow> nat \<times> history" where
  "health_round ho iface tunnel_pid dead_checks h =
     (case is_tunnel_process_alive ho tunnel_pid h of (a, h) \<Rightarrow>
      case (if a then (True, h) else client_tunnel_process_alive ho h) of (process_alive, h) \<Rightarrow>
      case get_handshake_age ho iface h of (handshake_age, h) \<Rightarrow>
      (if process_alive then 0 else Suc dead_checks,
       h @ [Emitted (VpnHealth \<lparr>he_connected = (process_alive \<and> handshake_fresh handshake_age),
         he_process_alive = process_alive, he_handshake_age_secs = handshake_age\<rparr>)]))"

definition tunnel_stopped :: ui_event where
  "tunnel_stopped = VpnState \<lparr>vs_status = Error, vs_assigned_ip = None,
     vs_error = Some (ascii ''VPN tunnel stopped. Click DISCONNECT, run sudo -v, then CONNECT again.'')\<rparr>"

text \<open>\<open>cancelled\<close> says which branch of \<open>select!\<close> is taken.\<close>

partial_function (option) health_loop ::
  "host \<Rightarrow> (history \<Rightarrow> bool) \<Rightarrow> bytes \<Rightarrow> u32 \<Rightarrow> nat \<Rightarrow> history \<Rightarrow> history option" where
  "health_loop ho cancelled iface tunnel_pid dead_checks h =
     (if cancelled h then Some h
      else (case health_round ho iface tunnel_pid dead_checks (sleep 5000 h) of (dead_checks, h) \<Rightarrow>
        if 3 \<le> dead_checks then Some (h @ [Emitted tunnel_stopped])
        else health_loop ho cancelled iface tunnel_pid dead_checks h))"

definition start_health_check :: "host \<Rightarrow> (history \<Rightarrow> bool) \<Rightarrow> bytes \<Rightarrow> u32 \<Rightarrow> history \<Rightarrow> history option" where
  "start_health_check ho cancelled iface tunnel_pid h = health_loop ho cancelled iface tunnel_pid 0 (sleep 10000 h)"

end
