(* ===== verification/Client_Changes.thy ===== *)
theory Client_Changes
  imports Client_Vpn
begin

text \<open>
  What connecting and disconnecting change on the client machine: the privileged commands
  of a history, in their order, for every outcome.
\<close>

section \<open>Operations that only read\<close>

lemma snd_run [simp]: "snd (run ho argv h) = h @ [Ran argv (ho_run ho h argv)]"
  by (simp add: run_def Let_def)

lemma run_eq: "run ho argv h = (ho_run ho h argv, h @ [Ran argv (ho_run ho h argv)])"
  by (simp add: run_def Let_def)

lemma run_ok_eq: "\<exists>b. run_ok ho argv h = (b, h @ [Ran argv (ho_run ho h argv)])"
  by (simp add: run_ok_def run_eq)

lemma changes_run_ok_snd:
  "changes (snd (run_ok ho argv h)) =
    changes h @ (if take 2 argv = lits [''sudo'', ''-n''] then [Sudo (drop 2 argv)] else [])"
  using run_ok_eq [of ho argv h] by auto

lemma lits_simps [simp]: "lits [] = []" "lits (s # ss) = ascii s # lits ss"
  by (simp_all add: lits_def)

text \<open>Literals that the proofs tell apart.\<close>

lemma not_sudo [simp]:
  "ascii ''route'' \<noteq> ascii ''sudo''" "ascii ''ip'' \<noteq> ascii ''sudo''" "ascii ''networksetup'' \<noteq> ascii ''sudo''"
  "ascii ''ifconfig'' \<noteq> ascii ''sudo''" "ascii ''which'' \<noteq> ascii ''sudo''" "ascii ''pgrep'' \<noteq> ascii ''sudo''"
  "ascii ''pkill'' \<noteq> ascii ''sudo''" "ascii ''nc'' \<noteq> ascii ''resolvconf''" "ascii ''sleep'' \<noteq> ascii ''sudo''"
  "ascii ''pkill'' \<noteq> ascii ''resolvconf''"
  by (simp_all add: ascii_def)

lemma changes_Cons [simp]: "changes (e # es) = change_of e @ changes es"
  by (simp add: changes_def)

lemma get_default_interface_quiet [quiet]: "get_default_interface ho h = (r, h') \<Longrightarrow> changes h' = changes h"
  by (auto simp: get_default_interface_def run_eq)

lemma get_default_gateway_quiet [quiet]: "get_default_gateway ho h = (r, h') \<Longrightarrow> changes h' = changes h"
  by (auto simp: get_default_gateway_def platform_defs run_eq split: platform.splits)

lemma network_service_quiet [quiet]: "get_primary_network_service ho h = (r, h') \<Longrightarrow> changes h' = changes h"
  by (auto simp: get_primary_network_service_def run_eq split: sum.splits option.splits)

lemma save_dns_quiet [quiet]: "save_original_dns ho h = (r, h') \<Longrightarrow> changes h' = changes h"
  by (auto simp: save_original_dns_def platform_defs then_ok_def run_eq split: platform.splits sum.splits prod.splits
      dest!: quiet_ops network_service_quiet)

lemma interface_exists_quiet [quiet]: "interface_exists ho iface h = (r, h') \<Longrightarrow> changes h' = changes h"
  using run_ok_eq [of ho "[ascii ''ifconfig'', iface]" h]
  by (auto simp: interface_exists_def split: platform.splits dest!: quiet_ops)

lemma poll_interface_quiet [quiet]:
  "poll_interface ho iface start timeout h = Some (r, h') \<Longrightarrow> changes h' = changes h"
proof -
  have "changes (snd y) = changes h" if "poll_interface ho iface start timeout h = Some y" for y
  proof (rule poll_interface.raw_induct [OF _ that], goal_cases)
    case (1 f ho iface start timeout h y)
    obtain found h1 where e: "interface_exists ho iface h = (found, h1)" by fastforce
    obtain now h2 where n: "instant_now ho h1 = (now, h2)" by fastforce
    have q: "changes h1 = changes h" "changes h2 = changes h"
      using interface_exists_quiet [OF e] quiet_ops(4) [OF n] by simp_all
    show ?case
    proof (cases "found \<or> timeout < now - start")
      case True
      then show ?thesis using 1(2) e n q by (auto split: if_splits)
    next
      case False
      then have "f ho iface start timeout (sleep 100 h2) = Some y" using 1(2) e n by simp
      then have "changes (snd y) = changes (sleep 100 h2)" by (rule 1(1))
      then show ?thesis using q by (simp add: sleep_def)
    qed
  qed
  then show "poll_interface ho iface start timeout h = Some (r, h') \<Longrightarrow> changes h' = changes h" by fastforce
qed

lemma wait_for_interface_quiet [quiet]:
  "wait_for_interface ho iface timeout h = Some (r, h') \<Longrightarrow> changes h' = changes h"
  unfolding wait_for_interface_def using poll_interface_quiet quiet_ops(4) by (metis (no_types, lifting) case_prod_beta prod.collapse)

lemma find_uapi_quiet [quiet]: "find_uapi_socket_for_hint ho hint h = (r, h') \<Longrightarrow> changes h' = changes h"
  by (auto simp: find_uapi_socket_for_hint_def path_exists_def list_dir_def Let_def split: if_splits)

lemma poll_uapi_quiet [quiet]:
  "poll_uapi ho hint start timeout h = Some (r, h') \<Longrightarrow> changes h' = changes h"
proof -
  have "changes (snd y) = changes h" if "poll_uapi ho hint start timeout h = Some y" for y
  proof (rule poll_uapi.raw_induct [OF _ that], goal_cases)
    case (1 f ho hint start timeout h y)
    obtain now h1 where n: "instant_now ho h = (now, h1)" by fastforce
    obtain found h2 where e: "find_uapi_socket_for_hint ho hint h1 = (found, h2)" by fastforce
    have q: "changes h1 = changes h" "changes h2 = changes h"
      using find_uapi_quiet [OF e] quiet_ops(4) [OF n] by simp_all
    show ?case
    proof (cases "now - start < timeout \<and> found = None")
      case True
      then have "f ho hint start timeout (sleep 200 h2) = Some y" using 1(2) e n by simp
      then have "changes (snd y) = changes (sleep 200 h2)" by (rule 1(1))
      then show ?thesis using q by (simp add: sleep_def)
    next
      case False
      then have "y = (found, h2) \<or> y = (None, h1)"
        using 1(2) e by (cases found; cases "now - start < timeout") (simp_all add: n)
      then show ?thesis using q by auto
    qed
  qed
  then show "poll_uapi ho hint start timeout h = Some (r, h') \<Longrightarrow> changes h' = changes h" by fastforce
qed

lemma wait_uapi_quiet [quiet]:
  assumes "wait_and_resolve_uapi_iface ho hint timeout h = Some (r, h')"
  shows "changes h' = changes h"
proof (cases "ho_platform ho = NonUnix")
  case False
  obtain start h1 where n: "instant_now ho h = (start, h1)" by fastforce
  obtain p h2 where p: "poll_uapi ho hint start timeout h1 = Some (p, h2)"
    using assms False n by (auto simp: wait_and_resolve_uapi_iface_def split: option.splits)
  have "changes h2 = changes h" using poll_uapi_quiet [OF p] quiet_ops(4) [OF n] by simp
  then show ?thesis using assms False n p
    by (auto simp: wait_and_resolve_uapi_iface_def read_file_def Let_def split: option.splits)
qed (use assms in \<open>simp add: wait_and_resolve_uapi_iface_def\<close>)

lemma privileged_exchange_quiet [quiet]:
  "uapi_exchange_privileged ho path payload h = (r, h') \<Longrightarrow> changes h' = changes h"
  by (auto simp: uapi_exchange_privileged_def run_piped_def Let_def)

lemma direct_exchange_quiet [quiet]:
  "uapi_exchange_direct ho path payload h = (r, h') \<Longrightarrow> changes h' = changes h"
  by (auto simp: uapi_exchange_direct_def exchange_on_def Let_def)

lemma client_uapi_set_quiet [quiet]:
  assumes "client_uapi_set ho iface body h = (r, h')"
  shows "changes h' = changes h"
proof (cases "ho_platform ho = NonUnix")
  case False
  obtain s h1 where p: "uapi_exchange_privileged ho (socket_path iface) (set_payload body) h = (s, h1)" by fastforce
  obtain t h2 where d: "uapi_exchange_direct ho (socket_path iface) (set_payload body) h1 = (t, h2)" by fastforce
  have "h' = h1 \<or> h' = h2" using assms False p d by (auto simp: client_uapi_set_def then_ok_def split: sum.splits)
  then show ?thesis using privileged_exchange_quiet [OF p] direct_exchange_quiet [OF d] by auto
qed (use assms in \<open>simp add: client_uapi_set_def\<close>)

lemma env_file_quiet [quiet]: "env_file ho var h = (r, h') \<Longrightarrow> changes h' = changes h"
  by (auto simp only: env_file_def split: option.splits dest: first_existing_quiet)

lemma wg_binary_quiet [quiet]:
  assumes "wg_binary ho h = (r, h')"
  shows "changes h' = changes h"
proof -
  obtain a h1 where 1: "env_file ho ''XELT_WG_CLI'' h = (a, h1)" by fastforce
  obtain b h2 where 2: "first_existing ho (lits [''/opt/homebrew/bin/wg'', ''/usr/local/bin/wg'', ''/opt/local/bin/wg'']) h1 = (b, h2)"
    by fastforce
  show ?thesis using assms env_file_quiet [OF 1] first_existing_quiet [OF 2]
    by (simp add: wg_binary_def 1 2 [simplified] run_eq split: option.splits) auto
qed

lemma key_file_not_resolv [simp]: "key_file iface \<noteq> resolv_conf"
  by (simp add: key_file_def resolv_conf_def ascii_def)

lemma wg_cli_changes:
  assumes "configure_wireguard_wg_cli ho iface priv_key server_pub endpoint wg_path h = (r, h')"
  shows "changes h' = changes h \<or> changes h' = changes h @ [Sudo (wg_command ho wg_path iface server_pub endpoint)]"
proof -
  obtain w h1 where w: "write_file ho (key_file iface) priv_key h = (w, h1)" by fastforce
  obtain s h2 where s: "run_sudo ho (wg_command ho wg_path iface server_pub endpoint) h1 = (s, h2)" by fastforce
  show ?thesis using assms quiet_ops(10) [OF key_file_not_resolv w] changes_run_sudo [OF s]
    by (auto simp: configure_wireguard_wg_cli_def w s split: option.splits)
qed

text \<open>Configuring the peer runs the \<open>wg\<close> tool at most once.\<close>

lemma configure_wireguard_changes:
  assumes "configure_wireguard ho iface priv_key server_pub endpoint h = (r, h')"
  obtains wg where "changes h' = changes h @ map Sudo wg" "length wg \<le> 1"
    "set wg \<subseteq> range (\<lambda>p. wg_command ho p iface server_pub endpoint)"
proof -
  have "changes h' = changes h \<or> (\<exists>p. changes h' = changes h @ [Sudo (wg_command ho p iface server_pub endpoint)])"
  proof (cases "wg_key_b64_to_hex ho priv_key"; cases "wg_key_b64_to_hex ho server_pub")
    fix k q assume k: "wg_key_b64_to_hex ho priv_key = Inr k" "wg_key_b64_to_hex ho server_pub = Inr q"
    obtain s h1 where s: "client_uapi_set ho iface (peer_config ho k q endpoint) h = (s, h1)" by fastforce
    obtain b h2 where b: "wg_binary ho h1 = (b, h2)" by fastforce
    note same = client_uapi_set_quiet [OF s] wg_binary_quiet [OF b]
    show ?thesis
    proof (cases "s = Inr () \<or> b = None")
      case True
      then show ?thesis using assms same by (auto simp: configure_wireguard_def k s b split: sum.splits)
    next
      case False
      then obtain e p where "s = Inl e" "b = Some p" by (cases s; cases b) auto
      then have "configure_wireguard_wg_cli ho iface priv_key server_pub endpoint p h2 = (r, h')"
        using assms by (simp add: configure_wireguard_def k s b)
      from wg_cli_changes [OF this] show ?thesis using same by auto
    qed
  qed (use assms in \<open>auto simp: configure_wireguard_def\<close>)
  then show ?thesis
  proof (elim disjE exE)
    assume "changes h' = changes h"
    then show ?thesis using that [of "[]"] by simp
  next
    fix p assume "changes h' = changes h @ [Sudo (wg_command ho p iface server_pub endpoint)]"
    then show ?thesis using that [of "[wg_command ho p iface server_pub endpoint]"] by simp
  qed
qed

section \<open>Sequences\<close>

lemma run_all_changes:
  assumes "run_all ho cs h = (r, h')"
  obtains k where "k \<le> length cs" "changes h' = changes h @ map Sudo (take k cs)" "r = Inr () \<longrightarrow> k = length cs"
  using assms
proof (induction cs arbitrary: h thesis)
  case Nil
  then show ?case by simp
next
  case (Cons c cs)
  obtain s h1 where s: "run_sudo ho c h = (s, h1)" by fastforce
  note 1 = changes_run_sudo [OF s]
  show ?case
  proof (cases s)
    case (Inl e)
    then show ?thesis using Cons.prems s 1 by (intro Cons.prems(1) [of 1]) (auto simp: then_ok_def)
  next
    case (Inr u)
    then have "run_all ho cs h1 = (r, h')" using Cons.prems(2) s by (simp add: then_ok_def)
    then obtain k where "k \<le> length cs" "changes h' = changes h1 @ map Sudo (take k cs)" "r = Inr () \<longrightarrow> k = length cs"
      using Cons.IH by blast
    then show ?thesis using 1 by (intro Cons.prems(1) [of "Suc k"]) auto
  qed
qed

lemma try_all_changes [simp]: "changes (try_all ho cs h) = changes h @ map Sudo cs"
proof (induction cs arbitrary: h)
  case (Cons c cs)
  obtain s h1 where s: "run_sudo ho c h = (s, h1)" by fastforce
  then show ?case using Cons.IH [of h1] changes_run_sudo [OF s] by simp
qed simp

lemma teardown_routes_changes [simp]:
  "changes (teardown_routes ho iface ip gw h) = changes h @ map Sudo (teardown_route_commands ho iface ip)"
  by (simp add: teardown_routes_def)

lemma teardown_interface_changes [simp]:
  "changes (teardown_interface ho iface h) = changes h @ map Sudo (teardown_interface_commands ho iface)"
  by (simp add: teardown_interface_def)

definition pkill_command :: "bytes list" where
  "pkill_command = lits [''pkill'', ''-f''] @ [CLIENT_TUNNEL_PKILL_PATTERN]"

lemma pkill_changes [simp]: "changes (pkill_client ho ms h) = changes h @ [Sudo pkill_command]"
  by (simp add: pkill_client_def Let_def sleep_def changes_run_ok_snd pkill_command_def)

lemma configure_interface_changes:
  assumes "configure_interface_ip ho iface ip_bare assigned h = (r, h')"
  obtains k where "k \<le> length (interface_commands ho iface ip_bare assigned)"
    "changes h' = changes h @ map Sudo (take k (interface_commands ho iface ip_bare assigned))"
    "r = Inr () \<longrightarrow> k = length (interface_commands ho iface ip_bare assigned) \<and> supported ho"
proof (cases "supported ho")
  case True
  then have "run_all ho (interface_commands ho iface ip_bare assigned) h = (r, h')"
    using assms by (simp add: configure_interface_ip_def)
  from run_all_changes [OF this] show ?thesis using that True by blast
next
  case False
  then show ?thesis using assms that [of 0] by (auto simp: configure_interface_ip_def)
qed

lemma configure_full_tunnel_changes:
  assumes "configure_full_tunnel ho iface ip gw h = (r, h')"
  obtains k where "k \<le> length (tunnel_commands ho iface ip gw)"
    "changes h' = changes h @ map Sudo (take k (tunnel_commands ho iface ip gw))"
    "r = Inr () \<longrightarrow> k = length (tunnel_commands ho iface ip gw)"
proof (cases "supported ho")
  case True
  define h1 where "h1 = (if ho_platform ho = MacOS \<and> \<not> use_split_tunnel ho ip then snd (get_default_interface ho h) else h)"
  have "changes h1 = changes h" using get_default_interface_quiet [of ho h] by (auto simp: h1_def prod_eq_iff)
  moreover have "run_all ho (tunnel_commands ho iface ip gw) h1 = (r, h')"
    using assms True by (simp add: configure_full_tunnel_def h1_def)
  ultimately show ?thesis using run_all_changes [of ho "tunnel_commands ho iface ip gw" h1 r h'] that by metis
next
  case False
  then show ?thesis using assms that [of 0] by (auto simp: configure_full_tunnel_def)
qed

text \<open>The changes to DNS: the servers of a service (none when it is not found), an entry of
  \<open>resolvconf\<close>, or the file.\<close>

definition dns_changes :: "host \<Rightarrow> change list \<Rightarrow> bool" where
  "dns_changes ho ds \<longleftrightarrow> ho_platform ho \<noteq> Linux \<and> ds = [] \<or>
     ho_platform ho = MacOS \<and> (\<exists>service. ds = [Sudo (lits [''networksetup'', ''-setdnsservers''] @ [service] @ lits [''1.1.1.1'', ''8.8.8.8''])]) \<or>
     ho_platform ho = Linux \<and> ds \<in> {[Sudo (lits [''resolvconf'', ''-a'', ''tun.xelt''])], [Resolv vpn_resolv_conf]}"

lemma set_vpn_dns_changes:
  assumes "set_vpn_dns ho h = (r, h')"
  obtains ds where "changes h' = changes h @ ds" "dns_changes ho ds"
proof (cases "ho_platform ho")
  case MacOS
  obtain s h1 where s: "get_primary_network_service ho h = (s, h1)" by fastforce
  note q = network_service_quiet [OF s]
  show ?thesis
  proof (cases s)
    case (Inl e)
    then show ?thesis using assms MacOS s q that [of "[]"] by (simp add: set_vpn_dns_def platform_defs then_ok_def dns_changes_def)
  next
    case (Inr service)
    let ?cmd = "lits [''networksetup'', ''-setdnsservers''] @ [service] @ lits [''1.1.1.1'', ''8.8.8.8'']"
    have "run_sudo ho ?cmd h1 = (r, h')" using assms MacOS s Inr by (simp add: set_vpn_dns_def platform_defs then_ok_def)
    then have "changes h' = changes h @ [Sudo ?cmd]" using q by (simp only: changes_run_sudo)
    then show ?thesis using that MacOS unfolding dns_changes_def by blast
  qed
next
  case Linux
  obtain b where b: "run_ok ho (lits [''which'', ''resolvconf'']) h = (b, h @ [Ran (lits [''which'', ''resolvconf'']) (ho_run ho h (lits [''which'', ''resolvconf'']))])"
    using run_ok_eq by blast
  show ?thesis
  proof (cases b)
    case True
    then have "changes h' = changes h @ [Sudo (lits [''resolvconf'', ''-a'', ''tun.xelt''])]"
      using assms Linux b by (auto simp: set_vpn_dns_def platform_defs run_piped_def Let_def)
    then show ?thesis using that Linux by (simp add: dns_changes_def)
  next
    case False
    then have "changes h' = changes h @ [Resolv vpn_resolv_conf]"
      using assms Linux b by (auto simp: set_vpn_dns_def platform_defs write_file_def Let_def)
    then show ?thesis using that Linux by (simp add: dns_changes_def)
  qed
qed (use assms that [of "[]"] in \<open>simp_all add: set_vpn_dns_def platform_defs dns_changes_def\<close>)

section \<open>Launching\<close>

lemma path_join_not_resolv: "b \<noteq> [] \<Longrightarrow> last b \<noteq> 102 \<Longrightarrow> path_join a b \<noteq> resolv_conf"
  by (auto simp: path_join_def resolv_conf_def ascii_def dest!: arg_cong [where f = last])

lemma log_not_resolv [simp]: "boringtun_log \<noteq> resolv_conf"
  by (simp add: boringtun_log_def resolv_conf_def ascii_def)

lemma key_quiet [quiet]:
  assumes "load_or_create_key ho h = (r, h')"
  shows "changes h' = changes h"
proof -
  have "path_join dir (ascii ''client_key'') \<noteq> resolv_conf" for dir
    by (rule path_join_not_resolv) (simp_all add: ascii_def)
  then show ?thesis using assms
    by (auto simp: load_or_create_key_def key_path_def path_exists_def read_file_def write_file_def Let_def split: if_splits)
qed

lemma find_iface_quiet [quiet]: "find_available_iface ho h = (r, h') \<Longrightarrow> changes h' = changes h"
  by (auto simp: find_available_iface_def run_eq split: platform.splits)

lemma boringtun_binary_quiet [quiet]:
  assumes "boringtun_binary ho h = (r, h')"
  shows "changes h' = changes h"
proof -
  obtain a h1 where 1: "env_file ho ''XELT_BORINGTUN_CLI'' h = (a, h1)" by fastforce
  obtain b h2 where 2: "first_existing ho (boringtun_candidates ho) h1 = (b, h2)" by fastforce
  show ?thesis using assms env_file_quiet [OF 1] first_existing_quiet [OF 2]
    by (simp add: boringtun_binary_def 1 2 run_eq split: option.splits) auto
qed

lemma log_tail_quiet [quiet]: "boringtun_log_tail ho h = (r, h') \<Longrightarrow> changes h' = changes h"
  by (auto simp: boringtun_log_tail_def read_file_def Let_def)

lemma alive_quiet [quiet]: "client_tunnel_process_alive ho h = (r, h') \<Longrightarrow> changes h' = changes h"
  by (auto simp: client_tunnel_process_alive_def dest!: changes_run_ok)

lemma elevated_quiet [quiet]:
  assumes "spawn_client_boringtun_elevated ho path iface h = (r, h')"
  shows "changes h' = changes h"
proof (cases "ho_platform ho = MacOS")
  case True
  obtain w h1 where w: "write_file ho boringtun_log [] h = (w, h1)" by fastforce
  obtain s h2 where s: "osascript ho (admin_script (elevated_command path iface)) h1 = (s, h2)" by fastforce
  obtain a h3 where a: "client_tunnel_process_alive ho h2 = (a, h3)" by fastforce
  obtain t h4 where t: "boringtun_log_tail ho h3 = (t, h4)" by fastforce
  obtain p h5 where p: "spawn ho (lits [''sleep'', ''999999'']) h3 = (p, h5)" by fastforce
  have "h' \<in> {h2, h4, h5}"
    using assms True unfolding spawn_client_boringtun_elevated_def
    by (auto simp del: lits_simps simp: w s a t p then_ok_def Let_def split: sum.splits option.splits if_splits)
  then show ?thesis
    using quiet_ops(10) [OF log_not_resolv w] osascript_quiet [OF s] alive_quiet [OF a] log_tail_quiet [OF t] quiet_ops(8) [OF p] by auto
qed (use assms in \<open>simp add: spawn_client_boringtun_elevated_def\<close>)

lemma spawn_client_quiet [quiet]:
  assumes "spawn_client_boringtun ho path iface h = (r, h')"
  shows "changes h' = changes h"
proof -
  obtain w h1 where w: "write_file ho boringtun_log [] h = (w, h1)" by fastforce
  obtain s h2 where s: "spawn ho (lits [''sudo'', ''-n''] @ [path, iface] @ lits [''--disable-drop-privileges'', ''--foreground'']) h1 = (s, h2)"
    by fastforce
  note q = quiet_ops(10) [OF log_not_resolv w] quiet_ops(8) [OF s]
  note d = spawn_client_boringtun_def [where ho = ho and path = path and iface = iface and h = h]
  consider "h' = h1" | e where "s = Inl e" "spawn_client_boringtun_elevated ho path iface h2 = (r, h')"
    | proc where "w = None" "ho_clone ho h1 = None" "s = Inr proc"
    using assms s by (cases w; cases "ho_clone ho h1"; cases s) (auto simp: d w)
  then show ?thesis
  proof cases
    case 3
    obtain st h3 where st: "try_wait ho proc (sleep 800 h2) = (st, h3)" by fastforce
    obtain t h4 where t: "boringtun_log_tail ho h3 = (t, h4)" by fastforce
    have "changes h3 = changes h2" using quiet_ops(9) [OF st] by (simp add: sleep_def)
    moreover have "h' = h3 \<or> h' = h4 \<or> spawn_client_boringtun_elevated ho path iface h4 = (r, h')"
      using assms 3 s by (auto simp: d w st t split: if_splits)
    ultimately show ?thesis using q log_tail_quiet [OF t] elevated_quiet [of ho path iface h4 r h'] by auto
  qed (use q elevated_quiet [of ho path iface h2 r h'] in auto)
qed

lemma launch_changes:
  assumes "launch ho h = (r, h')"
  shows "changes h' = changes h @ [Sudo pkill_command] \<or> (\<exists>e. r = Inl e \<and> changes h' = changes h)"
proof -
  obtain k h1 where k: "load_or_create_key ho h = (k, h1)" by fastforce
  obtain i h2 where i: "find_available_iface ho (kill_stale_client_boringtun ho h1) = (i, h2)" by fastforce
  obtain b h3 where b: "boringtun_binary ho h2 = (b, h3)" by fastforce
  note q = key_quiet [OF k] find_iface_quiet [OF i] boringtun_binary_quiet [OF b]
  have 2: "changes h2 = changes h @ [Sudo pkill_command]" "changes h3 = changes h2"
    using q by (simp_all add: kill_stale_client_boringtun_def)
  consider e where "k = Inl e" | e where "i = Inl e" | e where "b = Inl e" | key iface path where "k = Inr key" "i = Inr iface" "b = Inr path"
    by (cases k; cases i; cases b) auto
  then show ?thesis
  proof cases
    case 4
    obtain s h4 where s: "spawn_client_boringtun ho path iface h3 = (s, h4)" by fastforce
    have "h' = h4" using assms by (cases s) (simp_all add: launch_def then_ok_def Let_def k i b 4 s)
    then show ?thesis using spawn_client_quiet [OF s] 2 by simp
  qed (use assms 2 q(1) in \<open>auto simp: launch_def then_ok_def Let_def k i b split: sum.splits\<close>)
qed

end
