(* ===== verification/Client_Connect.thy ===== *)
theory Client_Connect
  imports Client_Changes
begin

text \<open>
  The changes of a whole connection attempt: the ones of a connection that succeeds, and, for
  each step that can fail, the ones made so far and the ones of the cleanup guard.
\<close>

section \<open>Configuration\<close>

text \<open>What is changed after the peer is configured, when the attempt fails: part of the commands of
  the failing step, then the cleanup of the steps before it.\<close>

inductive aborted :: "host \<Rightarrow> bytes \<Rightarrow> bytes \<Rightarrow> bytes \<Rightarrow> bytes \<Rightarrow> change list \<Rightarrow> bool"
  for ho iface ip_bare assigned server_ip where
  at_address: "k \<le> length (interface_commands ho iface ip_bare assigned) \<Longrightarrow>
    aborted ho iface ip_bare assigned server_ip
      (map Sudo (take k (interface_commands ho iface ip_bare assigned) @ [pkill_command]))"
| at_routes: "k \<le> length (tunnel_commands ho iface server_ip gw) \<Longrightarrow>
    aborted ho iface ip_bare assigned server_ip
      (map Sudo (interface_commands ho iface ip_bare assigned @ take k (tunnel_commands ho iface server_ip gw) @
        teardown_interface_commands ho iface @ [pkill_command]))"
| at_dns: "dns_changes ho ds \<Longrightarrow> \<not> use_split_tunnel ho server_ip \<Longrightarrow>
    aborted ho iface ip_bare assigned server_ip
      (map Sudo (interface_commands ho iface ip_bare assigned @ tunnel_commands ho iface server_ip gw) @ ds @
       map Sudo (teardown_route_commands ho iface server_ip @ teardown_interface_commands ho iface @ [pkill_command]))"

definition kill_guard :: "host \<Rightarrow> cleanup" where
  "kill_guard ho = cleanup_push ''kill client boringtun'' (pkill_client ho 200) cleanup_new"

lemma fold_pkill [simp]: "changes (fold (\<lambda>(name, step) h. step h) [(n, pkill_client ho ms)] h) = changes h @ [Sudo pkill_command]"
  by simp

lemma run_kill_guard:
  "cleanup_run (kill_guard ho) h = (\<lparr>cu_steps = [], cu_armed = False\<rparr>, pkill_client ho 200 h)"
  by (simp add: kill_guard_def cleanup_run_def cleanup_push_def cleanup_new_def)

lemma run_interface_guard:
  "cleanup_run (cleanup_push n (teardown_interface ho iface) (kill_guard ho)) h =
    (\<lparr>cu_steps = [], cu_armed = False\<rparr>, pkill_client ho 200 (teardown_interface ho iface h))"
  by (simp add: kill_guard_def cleanup_run_def cleanup_push_def cleanup_new_def)

lemma run_routes_guard:
  "cleanup_run (cleanup_push m (teardown_routes ho iface ip gw) (cleanup_push n (teardown_interface ho iface) (kill_guard ho))) h =
    (\<lparr>cu_steps = [], cu_armed = False\<rparr>, pkill_client ho 200 (teardown_interface ho iface (teardown_routes ho iface ip gw h)))"
  by (simp add: kill_guard_def cleanup_run_def cleanup_push_def cleanup_new_def)

lemmas run_guards = run_kill_guard run_interface_guard run_routes_guard

text \<open>The saved state of DNS.\<close>

definition saved_dns :: "host \<Rightarrow> original_dns \<Rightarrow> bool" where
  "saved_dns ho dns \<longleftrightarrow> (case ho_platform ho of MacOS \<Rightarrow> (\<exists>s l. dns = MacDns s l) | Linux \<Rightarrow> (\<exists>b. dns = LinuxDns b) | _ \<Rightarrow> dns = NoDns)"

lemma saved_dns: "save_original_dns ho h = (Inr dns, h') \<Longrightarrow> saved_dns ho dns"
  by (auto simp: saved_dns_def save_original_dns_def platform_defs then_ok_def run_eq Let_def read_file_def split: platform.splits sum.splits prod.splits)

lemma configure_routes_changes:
  fixes ho iface ip_bare assigned ip gw
  defines "c1 \<equiv> cleanup_push ''teardown interface'' (teardown_interface ho iface) (kill_guard ho)"
  assumes "or_cleanup (configure_full_tunnel ho iface ip gw h) c1 (\<lambda>_ h.
     let c = cleanup_push ''teardown routes'' (teardown_routes ho iface ip gw) c1 in
     if \<not> use_split_tunnel ho ip then
       or_cleanup (set_vpn_dns ho h) c (\<lambda>_ h.
       (Inr (gw, dns, phys), cleanup_push ''restore DNS'' (\<lambda>h. snd (restore_dns_best_effort ho h)) c, h))
     else (Inr (gw, dns, phys), c, h)) = (r, c', h')" (is "or_cleanup ?m c1 ?k = _")
    and h: "changes h = changes h0 @ map Sudo (interface_commands ho iface ip_bare assigned)"
  shows "case r of
      Inl e \<Rightarrow> \<not> cu_armed c' \<and> (\<exists>cs. changes h' = changes h0 @ cs \<and> aborted ho iface ip_bare assigned ip cs)
    | Inr (gw', dns', phys') \<Rightarrow> gw' = gw \<and> dns' = dns \<and> (\<exists>ds. (if use_split_tunnel ho ip then ds = [] else dns_changes ho ds) \<and>
        changes h' = changes h0 @ map Sudo (interface_commands ho iface ip_bare assigned @ tunnel_commands ho iface ip gw) @ ds)"
proof -
  obtain t h1 where t: "?m = (t, h1)" by fastforce
  from configure_full_tunnel_changes [OF t] obtain k where k: "k \<le> length (tunnel_commands ho iface ip gw)"
    "changes h1 = changes h @ map Sudo (take k (tunnel_commands ho iface ip gw))" "t = Inr () \<longrightarrow> k = length (tunnel_commands ho iface ip gw)" .
  show ?thesis
  proof (cases t)
    case (Inl e)
    then have r: "r = Inl e" "\<not> cu_armed c'" "h' = pkill_client ho 200 (teardown_interface ho iface h1)"
      using assms(2) t by (auto simp: or_cleanup_def c1_def run_guards)
    then have "changes h' = changes h0 @ map Sudo (interface_commands ho iface ip_bare assigned @ take k (tunnel_commands ho iface ip gw) @
        teardown_interface_commands ho iface @ [pkill_command])" using h k(2) by simp
    then show ?thesis using at_routes [OF k(1)] r by auto
  next
    case (Inr u)
    then have c: "changes h1 = changes h0 @ map Sudo (interface_commands ho iface ip_bare assigned @ tunnel_commands ho iface ip gw)"
      using k h by (cases u) simp
    show ?thesis
    proof (cases "use_split_tunnel ho ip")
      case True
      then have "r = Inr (gw, dns, phys)" "h' = h1" using assms(2) t Inr by (auto simp: or_cleanup_def Let_def)
      then show ?thesis using c True by auto
    next
      case False
      obtain s h2 where s: "set_vpn_dns ho h1 = (s, h2)" by fastforce
      from set_vpn_dns_changes [OF s] obtain ds where ds: "changes h2 = changes h1 @ ds" "dns_changes ho ds" .
      show ?thesis
      proof (cases s)
        case (Inl e)
        then have r: "r = Inl e" "\<not> cu_armed c'"
            "h' = pkill_client ho 200 (teardown_interface ho iface (teardown_routes ho iface ip gw h2))"
          using assms(2) t Inr False s by (auto simp: or_cleanup_def Let_def c1_def run_guards)
        then have "changes h' = changes h0 @ (map Sudo (interface_commands ho iface ip_bare assigned @ tunnel_commands ho iface ip gw) @ ds @
            map Sudo (teardown_route_commands ho iface ip @ teardown_interface_commands ho iface @ [pkill_command]))"
          using c ds by simp
        then show ?thesis using at_dns [OF ds(2) False] r by auto
      next
        case (Inr v)
        then have "r = Inr (gw, dns, phys)" "h' = h2" using assms(2) t \<open>t = Inr u\<close> False s by (auto simp: or_cleanup_def Let_def)
        then show ?thesis using c ds False by auto
      qed
    qed
  qed
qed

text \<open>The whole configuration: the commands of the \<open>wg\<close> tool come first.\<close>

lemma configure_tunnel_changes:
  assumes "configure_tunnel ho (kill_guard ho) iface priv_b64 server_pub endpoint ip_bare assigned ip h = (r, c', h')"
  obtains wg where "length wg \<le> 1" "set wg \<subseteq> range (\<lambda>p. wg_command ho p iface server_pub endpoint)"
    "case r of
      Inl e \<Rightarrow> \<not> cu_armed c' \<and> (\<exists>cs. changes h' = changes h @ map Sudo wg @ cs \<and> aborted ho iface ip_bare assigned ip cs)
    | Inr (gw, dns, phys) \<Rightarrow> saved_dns ho dns \<and> supported ho \<and> (\<exists>ds. (if use_split_tunnel ho ip then ds = [] else dns_changes ho ds) \<and>
        changes h' = changes h @ map Sudo (wg @ interface_commands ho iface ip_bare assigned @ tunnel_commands ho iface ip gw) @ ds)"
proof -
  obtain w h1 where w: "configure_wireguard ho iface priv_b64 server_pub endpoint h = (w, h1)" by fastforce
  from configure_wireguard_changes [OF w] obtain wg where wg: "changes h1 = changes h @ map Sudo wg" "length wg \<le> 1"
    "set wg \<subseteq> range (\<lambda>p. wg_command ho p iface server_pub endpoint)" .
  obtain a h2 where a: "configure_interface_ip ho iface ip_bare assigned h1 = (a, h2)" by fastforce
  let ?ic = "interface_commands ho iface ip_bare assigned"
  from configure_interface_changes [OF a] obtain k where k: "k \<le> length ?ic" "changes h2 = changes h1 @ map Sudo (take k ?ic)"
    "a = Inr () \<longrightarrow> k = length ?ic \<and> supported ho" .
  obtain g h3 where g: "get_default_gateway ho h2 = (g, h3)" by fastforce
  obtain s h4 where s: "save_original_dns ho h3 = (s, h4)" by fastforce
  define h5 where "h5 = (if ho_platform ho = MacOS then snd (get_default_interface ho h4) else h4)"
  have "changes h5 = changes h4" using get_default_interface_quiet [of ho h4] by (auto simp: h5_def prod_eq_iff)
  then have q: "changes h3 = changes h2" "changes h4 = changes h2" "changes h5 = changes h2"
    using get_default_gateway_quiet [OF g] save_dns_quiet [OF s] by simp_all
  let ?goal = "case r of
      Inl e \<Rightarrow> \<not> cu_armed c' \<and> (\<exists>cs. changes h' = changes h @ map Sudo wg @ cs \<and> aborted ho iface ip_bare assigned ip cs)
    | Inr (gw, dns, phys) \<Rightarrow> saved_dns ho dns \<and> supported ho \<and> (\<exists>ds. (if use_split_tunnel ho ip then ds = [] else dns_changes ho ds) \<and>
        changes h' = changes h @ map Sudo (wg @ ?ic @ tunnel_commands ho iface ip gw) @ ds)"
  have early: ?goal if "r = Inl e" "c' = \<lparr>cu_steps = [], cu_armed = False\<rparr>"
      "changes h' = changes h1 @ map Sudo (take k ?ic @ [pkill_command])" "k \<le> length ?ic" for e k
    using that at_address [OF that(4)] wg(1) by auto
  have later: ?goal if "r = Inl e" "c' = \<lparr>cu_steps = [], cu_armed = False\<rparr>" "a = Inr ()"
      "changes h' = changes h2 @ map Sudo (teardown_interface_commands ho iface @ [pkill_command])" for e
    using that at_routes [of 0 ho iface ip undefined ip_bare assigned] wg(1) k by auto
  note d = configure_tunnel_def [where ho = ho and uapi_iface = iface and h = h]
  have ?goal
  proof (cases "w = Inr () \<and> a = Inr ()")
    case False
    then consider e where "w = Inl e" | e where "w = Inr ()" "a = Inl e" by (cases w; cases a) auto
    then show ?thesis
    proof cases
      case 1
      then show ?thesis using assms early [of e 0] by (auto simp: d w or_cleanup_def run_guards)
    next
      case 2
      then show ?thesis using assms early [of e k] k by (auto simp: d w a or_cleanup_def run_guards)
    qed
  next
    case True
    show ?thesis
    proof (cases g; cases s)
      fix gw dns assume gs: "g = Inr gw" "s = Inr dns"
      obtain phys where phys: "(if ho_platform ho = MacOS then (case get_default_interface ho h4 of (r, h) \<Rightarrow>
          (case r of Inr i \<Rightarrow> i | Inl _ \<Rightarrow> ascii ''en0'', h)) else ([], h4)) = (phys, h5)"
        by (cases "get_default_interface ho h4"; cases "ho_platform ho = MacOS") (simp_all add: h5_def)
      have h5: "changes h5 = changes h1 @ map Sudo ?ic" using k True q by simp
      note rest = configure_routes_changes [OF _ h5, where r = r and c' = c' and h' = h' and gw = gw and dns = dns and phys = phys and ip = ip]
      have "or_cleanup (configure_full_tunnel ho iface ip gw h5) (cleanup_push ''teardown interface'' (teardown_interface ho iface) (kill_guard ho)) (\<lambda>_ h.
         let c = cleanup_push ''teardown routes'' (teardown_routes ho iface ip gw) (cleanup_push ''teardown interface'' (teardown_interface ho iface) (kill_guard ho)) in
         if \<not> use_split_tunnel ho ip then
           or_cleanup (set_vpn_dns ho h) c (\<lambda>_ h.
           (Inr (gw, dns, phys), cleanup_push ''restore DNS'' (\<lambda>h. snd (restore_dns_best_effort ho h)) c, h))
         else (Inr (gw, dns, phys), c, h)) = (r, c', h')"
        using assms True by (simp add: d w a g s gs or_cleanup_def [where p = "(Inr x, y)" for x y] phys Let_def)
      from rest [OF this] show ?thesis
        using saved_dns [OF s [unfolded gs]] k True wg(1) by (auto split: sum.splits)
    qed (use assms True later q in \<open>auto simp: d w a g s or_cleanup_def run_guards Let_def\<close>)
  qed
  then show ?thesis using that wg by blast
qed

section \<open>The attempt\<close>

text \<open>The changes of a failed attempt.\<close>

inductive failed_attempt :: "host \<Rightarrow> bytes \<Rightarrow> bytes \<Rightarrow> bytes \<Rightarrow> bytes \<Rightarrow> bytes \<Rightarrow> change list \<Rightarrow> bool"
  for ho server_pub endpoint ip_bare assigned server_ip where
  at_start: "failed_attempt ho server_pub endpoint ip_bare assigned server_ip []"
| at_launch: "failed_attempt ho server_pub endpoint ip_bare assigned server_ip [Sudo pkill_command]"
| at_wait: "failed_attempt ho server_pub endpoint ip_bare assigned server_ip [Sudo pkill_command, Sudo pkill_command]"
| at_configuration: "length wg \<le> 1 \<Longrightarrow> set wg \<subseteq> range (\<lambda>p. wg_command ho p iface server_pub endpoint) \<Longrightarrow>
    aborted ho iface ip_bare assigned server_ip cs \<Longrightarrow>
    failed_attempt ho server_pub endpoint ip_bare assigned server_ip (map Sudo (pkill_command # wg) @ cs)"

text \<open>The changes of a connection.\<close>

definition connection_changes ::
  "host \<Rightarrow> bytes \<Rightarrow> bytes \<Rightarrow> bytes \<Rightarrow> bytes \<Rightarrow> connection_context \<Rightarrow> change list \<Rightarrow> bool" where
  "connection_changes ho server_pub endpoint ip_bare assigned ctx cs \<longleftrightarrow> (\<exists>wg ds.
     length wg \<le> 1 \<and> set wg \<subseteq> range (\<lambda>p. wg_command ho p (cc_iface ctx) server_pub endpoint) \<and>
     (if use_split_tunnel ho (cc_server_ip ctx) then ds = [] else dns_changes ho ds) \<and>
     cs = map Sudo (pkill_command # wg @ interface_commands ho (cc_iface ctx) ip_bare assigned @
       tunnel_commands ho (cc_iface ctx) (cc_server_ip ctx) (cc_original_gateway ctx)) @ ds)"

lemma await_tunnel_changes:
  assumes "await_tunnel ho (kill_guard ho) iface h = Some (r, c', h')"
  shows "case r of Inl e \<Rightarrow> \<not> cu_armed c' \<and> changes h' = changes h @ [Sudo pkill_command]
    | Inr uapi_iface \<Rightarrow> c' = kill_guard ho \<and> changes h' = changes h"
proof -
  obtain a h1 where a: "client_tunnel_process_alive ho h = (a, h1)" by fastforce
  note q = alive_quiet [OF a]
  show ?thesis
  proof (cases a)
    case False
    obtain t h2 where t: "boringtun_log_tail ho (pkill_client ho 200 h1) = (t, h2)" by fastforce
    then show ?thesis using assms False a q log_tail_quiet [OF t]
      by (auto simp: await_tunnel_def run_kill_guard)
  next
    case True
    obtain s h2 where s: "wait_for_interface ho iface 10000000000 h1 = Some (s, h2)"
      using assms True a by (auto simp: await_tunnel_def bind_eq_Some_conv)
    show ?thesis
    proof (cases s)
      case (Inl e)
      then show ?thesis using assms True a q s wait_for_interface_quiet [OF s]
        by (auto simp: await_tunnel_def run_kill_guard)
    next
      case (Inr u)
      obtain t h3 where t: "wait_and_resolve_uapi_iface ho iface 20000000000 h2 = Some (t, h3)"
        using assms True a s Inr by (auto simp: await_tunnel_def bind_eq_Some_conv)
      then show ?thesis using assms True a q s Inr wait_for_interface_quiet [OF s] wait_uapi_quiet [OF t]
        by (cases t) (auto simp: await_tunnel_def run_kill_guard or_cleanup_def)
    qed
  qed
qed

lemma session_balance_quiet [quiet]: "session_balance js ho wallet h = (b, h') \<Longrightarrow> changes h' = changes h"
  by (auto simp: session_balance_def query_balance_of_def http_exchange_def Let_def split: option.splits if_splits)

lemma establish_changes:
  assumes "establish_tunnel js ho mgr ip server_pub assigned endpoint ip_bare wallet h = Some (r, mgr', h')"
  shows "\<exists>cs. changes h' = changes h @ cs \<and> (case r of
      Inl e \<Rightarrow> mgr' = mgr \<and> failed_attempt ho server_pub endpoint ip_bare assigned ip cs
    | Inr info \<Rightarrow> supported ho \<and> (\<exists>ctx. vm_ctx mgr' = Some ctx \<and> cc_server_ip ctx = ip \<and> saved_dns ho (cc_original_dns ctx) \<and>
        connection_changes ho server_pub endpoint ip_bare assigned ctx cs))"
proof -
  obtain l h1 where l: "launch ho h = (l, h1)" by fastforce
  note lc = launch_changes [OF l]
  note d = establish_tunnel_def [where h = h] kill_guard_def [symmetric]
  show ?thesis
  proof (cases l)
    case (Inl e)
    then show ?thesis using assms l lc at_start at_launch by (auto simp: d)
  next
    case (Inr x)
    obtain priv_b64 iface sp where x: "x = (priv_b64, iface, sp)" by (cases x) auto
    have c1: "changes h1 = changes h @ [Sudo pkill_command]" using lc Inr by auto
    obtain a c2 h2 where a: "await_tunnel ho (kill_guard ho) iface h1 = Some (a, c2, h2)"
      using assms l Inr x by (auto simp: d bind_eq_Some_conv)
    note ac = await_tunnel_changes [OF a]
    show ?thesis
    proof (cases a)
      case (Inl e)
      then show ?thesis using assms l \<open>l = Inr x\<close> x a ac c1 at_wait by (auto simp: d cleanup_drop_def)
    next
      case (Inr uapi)
      obtain t c3 h3 where t: "configure_tunnel ho (kill_guard ho) uapi priv_b64 server_pub endpoint ip_bare assigned ip h2 = (t, c3, h3)"
        by (cases "configure_tunnel ho (kill_guard ho) uapi priv_b64 server_pub endpoint ip_bare assigned ip h2") auto
      from configure_tunnel_changes [OF t] obtain wg where wg: "length wg \<le> 1"
        "set wg \<subseteq> range (\<lambda>p. wg_command ho p uapi server_pub endpoint)" and tc: "case t of
          Inl e \<Rightarrow> \<not> cu_armed c3 \<and> (\<exists>cs. changes h3 = changes h2 @ map Sudo wg @ cs \<and> aborted ho uapi ip_bare assigned ip cs)
        | Inr (gw, dns, phys) \<Rightarrow> saved_dns ho dns \<and> supported ho \<and> (\<exists>ds. (if use_split_tunnel ho ip then ds = [] else dns_changes ho ds) \<and>
            changes h3 = changes h2 @ map Sudo (wg @ interface_commands ho uapi ip_bare assigned @ tunnel_commands ho uapi ip gw) @ ds)" .
      have c2: "c2 = kill_guard ho" "changes h2 = changes h @ [Sudo pkill_command]" using ac Inr c1 by auto
      show ?thesis
      proof (cases t)
        case (Inl e)
        then obtain cs where cs: "\<not> cu_armed c3" "changes h3 = changes h2 @ map Sudo wg @ cs" "aborted ho uapi ip_bare assigned ip cs"
          using tc by auto
        have "r = Inl e" "mgr' = mgr" "h' = h3"
          using assms l \<open>l = Inr x\<close> x a \<open>a = Inr uapi\<close> c2 t Inl cs(1) by (auto simp: d cleanup_drop_def)
        then show ?thesis using at_configuration [OF wg cs(3)] cs(2) c2 by auto
      next
        case (Inr y)
        obtain gw dns phys where y: "y = (gw, dns, phys)" by (cases y) auto
        then obtain ds where ds: "saved_dns ho dns" "supported ho" "if use_split_tunnel ho ip then ds = [] else dns_changes ho ds"
            "changes h3 = changes h2 @ map Sudo (wg @ interface_commands ho uapi ip_bare assigned @ tunnel_commands ho uapi ip gw) @ ds"
          using tc Inr by auto
        obtain b h4 where b: "session_balance js ho wallet (h3 @ [StartedHealth uapi (bs_tunnel_pid sp)]) = (b, h4)" by fastforce
        define ctx where "ctx = \<lparr>cc_iface = uapi, cc_boringtun_proc = bs_proc sp, cc_original_gateway = gw,
          cc_original_phys_iface = phys, cc_original_dns = dns, cc_server_ip = ip\<rparr>"
        have "\<exists>info. r = Inr info" "vm_ctx mgr' = Some ctx" "h' = h4"
          using assms l \<open>l = Inr x\<close> x a \<open>a = Inr uapi\<close> c2 t Inr y b
          by (auto simp: d cleanup_drop_def cleanup_disarm_def Let_def ctx_def)
        moreover have "changes h4 = changes h3" using session_balance_quiet [OF b] by simp
        moreover have "connection_changes ho server_pub endpoint ip_bare assigned ctx
            (map Sudo (pkill_command # wg @ interface_commands ho uapi ip_bare assigned @ tunnel_commands ho uapi ip gw) @ ds)"
          unfolding connection_changes_def using wg ds by (intro exI [of _ wg] exI [of _ ds]) (simp add: ctx_def)
        ultimately show ?thesis using ds c2 by (auto simp: ctx_def)
      qed
    qed
  qed
qed

lemma connect_paid_changes:
  assumes "vpn_connect_paid js ho mgr reg server_ip wallet h = Some (r, mgr', h')" "vm_ctx mgr = None"
  defines "ip \<equiv> (case server_ip of Some ip \<Rightarrow> ip | None \<Rightarrow> SERVER_IP ho)"
    and "assigned \<equiv> sr_assigned_ip reg" and "pub \<equiv> sr_server_public_key reg" and "ep \<equiv> sr_endpoint reg"
  shows "\<exists>cs. changes h' = changes h @ cs \<and> (case r of
      Inl e \<Rightarrow> mgr' = mgr \<and> failed_attempt ho pub ep (bare_ip assigned) assigned ip cs
    | Inr info \<Rightarrow> supported ho \<and> (\<exists>ctx. vm_ctx mgr' = Some ctx \<and> cc_server_ip ctx = ip \<and> saved_dns ho (cc_original_dns ctx) \<and>
        connection_changes ho pub ep (bare_ip assigned) assigned ctx cs))"
  using establish_changes [of js ho mgr ip pub assigned ep "bare_ip assigned" "case wallet of Some w \<Rightarrow> w | None \<Rightarrow> ascii ''xelt''" h r mgr' h'] assms
  by (simp add: vpn_connect_paid_def)

section \<open>Disconnecting\<close>

text \<open>The changes of DNS when it is restored.\<close>

fun restoring :: "original_dns \<Rightarrow> change list" where
  "restoring (MacDns service servers) = [Sudo (lits [''networksetup'', ''-setdnsservers''] @ [service] @
     (if servers = [] then [ascii ''Empty''] else servers))]"
| "restoring (LinuxDns backup) = (if backup = [] then [] else [Resolv backup])"
| "restoring NoDns = []"

lemma restore_dns_changes: "restore_dns ho dns h = (r, h') \<Longrightarrow> changes h' = changes h @ restoring dns"
  by (cases dns) (auto simp: restore_dns_def platform_defs write_file_def Let_def split: if_splits simp del: lits_simps dest: changes_run_sudo)

lemma disconnect_changes:
  assumes "vpn_disconnect ho mgr h = (r, mgr', h')" "vm_ctx mgr = Some ctx"
  shows "r = Inr () \<and> vm_ctx mgr' = None \<and> changes h' = changes h @ restoring (cc_original_dns ctx) @
    map Sudo (teardown_route_commands ho (cc_iface ctx) (cc_server_ip ctx) @
      teardown_interface_commands ho (cc_iface ctx) @ [pkill_command])"
proof -
  obtain s h1 where s: "restore_dns ho (cc_original_dns ctx) (h @ [CancelledHealth]) = (s, h1)" by fastforce
  show ?thesis using assms restore_dns_changes [OF s]
    by (auto simp: vpn_disconnect_def Let_def s kill_stale_client_boringtun_def)
qed

end
