(* ===== verification/Client_Props.thy ===== *)
theory Client_Props
  imports Client_Connect Uapi_Text
begin

text \<open>
  Properties of the connection manager of the desktop client: what a disconnect undoes, what a
  failed connection leaves behind, and the exact command behind the administrator prompt.
\<close>

section \<open>A machine\<close>

text \<open>A Linux machine where every program succeeds, or where one routing command fails (the one of
  nine words: the rule that suppresses the default route of the main table).  Its clock counts the
  time slept.\<close>

fun slept :: "history \<Rightarrow> nat" where
  "slept [] = 0"
| "slept (e # h) = (case e of Slept ms \<Rightarrow> ms * 1000000 | _ \<Rightarrow> 0) + slept h"

lemma slept_append [simp]: "slept (h @ es) = slept h + slept es"
  by (induction h) auto

definition tux :: "bool \<Rightarrow> host" where
  "tux fails = \<lparr>ho_platform = Linux, ho_env = (\<lambda>_. None), ho_manifest = [], ho_home = None,
     ho_run = (\<lambda>h argv. Inr \<lparr>out_ok = (fails \<longrightarrow> length argv \<noteq> 9), out_stdout = ascii ''default via gw'', out_stderr = ascii ''failed''\<rparr>),
     ho_pipe = (\<lambda>h argv input. Finished \<lparr>out_ok = True, out_stdout = ascii ''errno=0'', out_stderr = []\<rparr>),
     ho_spawn = (\<lambda>h argv. Inr 1), ho_poll = (\<lambda>h child. Running), ho_pid = (\<lambda>child. 7),
     ho_exists = (\<lambda>h path. True), ho_read = (\<lambda>h path. Inr (replicate 32 1)), ho_write = (\<lambda>h path c. None),
     ho_list = (\<lambda>h path. None), ho_random = (\<lambda>h. []), ho_clock = slept, ho_time = (\<lambda>h. None),
     ho_exchange = (\<lambda>h path p. NoConnection []), ho_http = (\<lambda>h url call. NotSent []), ho_http_client = (\<lambda>h. None),
     ho_status_text = (\<lambda>n. []), ho_open = (\<lambda>h url. None), ho_clone = (\<lambda>h. None), ho_debug = id,
     ho_b64_decode = (\<lambda>s. Inr (replicate 32 1)), ho_b64_encode = id, ho_hex_encode = to_hex, ho_public_key = id\<rparr>"

definition tux_reg :: session_registration where
  "tux_reg = \<lparr>sr_server_public_key = ascii ''key'', sr_endpoint = ascii ''1.2.3.4:51820'', sr_assigned_ip = ascii ''10.0.0.2/32''\<rparr>"

definition no_json :: "unit json_api" where
  "no_json = \<lparr>js_parse = (\<lambda>_. None), js_get = (\<lambda>_ _. None), js_str = (\<lambda>_. None), js_bool = (\<lambda>_. None),
     js_first = (\<lambda>_. None), js_error = id\<rparr>"

lemma tux_words:
  "split_ws (ascii ''default via gw'') = map ascii [''default'', ''via'', ''gw'']"
  "trim (ascii ''errno=0'') = ascii ''errno=0''"
  "has_infix (ascii ''wg0:'') (ascii ''default via gw'') = False"
  "is_loopback_server (ascii ''204.168.211.96'') = False"
  "has_infix (ascii ''password'') (trim (ascii ''failed'')) = False"
  "has_infix (ascii ''askpass'') (trim (ascii ''failed'')) = False"
  "trim (ascii ''failed'') \<noteq> []"
  by code_simp+

lemma tux_find [simp]: "find_available_iface (tux f) h = (Inr (ascii ''wg0''), h @ [Ran (lits [''ip'', ''link'', ''show'']) (ho_run (tux f) h (lits [''ip'', ''link'', ''show'']))])"
proof -
  have "iface_name ''wg'' 0 = ascii ''wg0''" by (simp add: iface_name_def ascii_def dec_of_nat_small)
  moreover have "[0..<21] = 0 # [1..<21]" by (simp add: upt_conv_Cons)
  moreover have "ho_run (tux f) h a = Inr \<lparr>out_ok = (f \<longrightarrow> length a \<noteq> 9), out_stdout = ascii ''default via gw'', out_stderr = ascii ''failed''\<rparr>" for a
    by (simp add: tux_def)
  moreover have "ascii ''wg0'' @ ascii '':'' = ascii ''wg0:''" by (simp add: ascii_def)
  ultimately show ?thesis using tux_words(3) by (simp add: find_available_iface_def run_eq tux_def)
qed

lemma tux_fields [simp]:
  "ho_run (tux f) h a = Inr \<lparr>out_ok = (f \<longrightarrow> length a \<noteq> 9), out_stdout = ascii ''default via gw'', out_stderr = ascii ''failed''\<rparr>"
  "ho_platform (tux f) = Linux" "ho_env (tux f) v = None" "ho_exists (tux f) h path = True" "ho_read (tux f) h path = Inr (replicate 32 1)"
  "ho_write (tux f) h path c = None" "ho_spawn (tux f) h a = Inr 1" "ho_poll (tux f) h child = Running" "ho_clone (tux f) h = None"
  "ho_b64_decode (tux f) s = Inr (replicate 32 1)" "ho_clock (tux f) = slept"
  "ho_pipe (tux f) h a input = Finished \<lparr>out_ok = True, out_stdout = ascii ''errno=0'', out_stderr = []\<rparr>"
  by (simp_all add: tux_def)

lemma tux_launch: "\<exists>h'. launch (tux f) h = (Inr (ho_b64_encode (tux f) (replicate 32 1), ascii ''wg0'', \<lparr>bs_proc = 1, bs_tunnel_pid = ho_pid (tux f) 1\<rparr>), h')"
  by (simp add: launch_def then_ok_def load_or_create_key_def key_path_def path_exists_def read_file_def boringtun_binary_def
      env_file_def boringtun_candidates_def Let_def spawn_client_boringtun_def write_file_def spawn_def try_wait_def)

lemma tux_await: "\<exists>h'. await_tunnel (tux f) c (ascii ''wg0'') h = Some (Inr (ascii ''wg0''), c, h')"
  by (simp add: await_tunnel_def client_tunnel_process_alive_def run_ok_def run_eq wait_for_interface_def instant_now_def
      poll_interface.simps [of "tux f"] interface_exists_def path_exists_def wait_and_resolve_uapi_iface_def poll_uapi.simps [of "tux f"]
      find_uapi_socket_for_hint_def or_cleanup_def Let_def)

lemma tux_sudo [simp]: "length args \<noteq> 7 \<or> \<not> f \<Longrightarrow> run_sudo (tux f) args h = (Inr (), h @ [Ran (lits [''sudo'', ''-n''] @ args) (Inr \<lparr>out_ok = True, out_stdout = ascii ''default via gw'', out_stderr = ascii ''failed''\<rparr>)])"
  by (auto simp: run_sudo_def run_sudo_n_def run_eq)

lemma tux_configure: "\<exists>h' dns c' phys. configure_tunnel (tux False) c (ascii ''wg0'') k p e ip a (ascii ''204.168.211.96'') h =
    (Inr (ascii ''gw'', dns, phys), c', h') \<and> Sudo (lits [''resolvconf'', ''-a'', ''tun.xelt'']) \<in> set (changes h')"
proof -
  have "\<not> use_split_tunnel (tux False) (ascii ''204.168.211.96'')"
    using tux_words(4) by (simp add: use_split_tunnel_def split_tunnel_enabled_def)
  moreover have "starts_with (ascii ''errno=0'') (ascii ''errno=0'')" by (simp add: starts_with_def)
  moreover have "split_ws (ascii ''default via gw'') = [ascii ''default'', ascii ''via'', ascii ''gw'']" using tux_words(1) by simp
  ultimately show ?thesis using tux_words(2)
    by (simp add: configure_tunnel_def or_cleanup_def configure_wireguard_def wg_key_b64_to_hex_def client_uapi_set_def
        uapi_exchange_privileged_def run_piped_def then_ok_def configure_interface_ip_def supported_def interface_commands_def
        get_default_gateway_def run_eq save_original_dns_def platform_defs read_file_def configure_full_tunnel_def tunnel_commands_def
        set_vpn_dns_def platform_defs run_ok_def Let_def)
qed

lemma tux_connects:
  "\<exists>info mgr' h'. vpn_connect_paid no_json (tux False) vpn_manager_new tux_reg None None h = Some (Inr info, mgr', h') \<and>
    Sudo (lits [''resolvconf'', ''-a'', ''tun.xelt'']) \<in> set (changes h')"
proof -
  let ?k = "ho_b64_encode (tux False) (replicate 32 1)"
  obtain h1 where 1: "launch (tux False) h = (Inr (?k, ascii ''wg0'', \<lparr>bs_proc = 1, bs_tunnel_pid = ho_pid (tux False) 1\<rparr>), h1)"
    using tux_launch by blast
  obtain h2 where 2: "await_tunnel (tux False) (kill_guard (tux False)) (ascii ''wg0'') h1 = Some (Inr (ascii ''wg0''), kill_guard (tux False), h2)"
    using tux_await by blast
  obtain h3 dns c' phys where 3: "configure_tunnel (tux False) (kill_guard (tux False)) (ascii ''wg0'') ?k (sr_server_public_key tux_reg) (sr_endpoint tux_reg)
      (bare_ip (sr_assigned_ip tux_reg)) (sr_assigned_ip tux_reg) (ascii ''204.168.211.96'') h2 = (Inr (ascii ''gw'', dns, phys), c', h3)"
      "Sudo (lits [''resolvconf'', ''-a'', ''tun.xelt'']) \<in> set (changes h3)"
    using tux_configure by blast
  obtain b h4 where 4: "session_balance no_json (tux False) (ascii ''xelt'') (h3 @ [StartedHealth (ascii ''wg0'') (ho_pid (tux False) 1)]) = (b, h4)"
    by fastforce
  have ip: "SERVER_IP (tux False) = ascii ''204.168.211.96''" by (simp add: SERVER_IP_def env_or_def)
  have "changes h4 = changes h3" using session_balance_quiet [OF 4] by simp
  then show ?thesis using 1 2 3 4
    by (simp add: vpn_connect_paid_def vpn_manager_new_def establish_tunnel_def kill_guard_def [symmetric] ip Let_def cleanup_drop_def cleanup_disarm_def)
qed

definition mark_rule :: "bytes list" where
  "mark_rule = lits [''not'', ''fwmark'', ''51820'', ''table'', ''51820'']"

lemma tux_sudo_fails: "length args = 7 \<Longrightarrow> \<exists>e h'. run_sudo (tux True) args h = (Inl e, h') \<and> changes h' = changes h @ [Sudo args]"
proof -
  assume l: "length args = 7"
  have "ascii ''Command failed: sudo '' @ x \<noteq> SUDO_HINT" for x by (simp add: SUDO_HINT_def ascii_def)
  then have "\<exists>e h'. run_sudo (tux True) args h = (Inl e, h')"
    using l tux_words(5-7) by (simp add: run_sudo_def run_sudo_n_def run_eq)
  then show ?thesis using changes_run_sudo by blast
qed

definition is_dns :: "bytes list \<Rightarrow> bool" where
  "is_dns c \<longleftrightarrow> take 2 c \<in> {lits [''networksetup'', ''-setdnsservers''], lits [''resolvconf'', ''-a'']}"

fun dns_change :: "change \<Rightarrow> bool" where
  "dns_change (Sudo c) = is_dns c"
| "dns_change (Resolv text) = True"

lemma no_dns_commands:
  "\<not> is_dns (wg_command ho p i pub ep)" "\<not> is_dns pkill_command"
  "c \<in> set (interface_commands ho i ip_bare assigned) \<Longrightarrow> \<not> is_dns c"
  "c \<in> set (tunnel_commands ho i ip gw) \<Longrightarrow> \<not> is_dns c"
  "c \<in> set (teardown_interface_commands ho i) \<Longrightarrow> \<not> is_dns c"
  "c \<in> set (teardown_route_commands ho i ip) \<Longrightarrow> \<not> is_dns c"
  by (auto simp: is_dns_def wg_command_def pkill_command_def interface_commands_def tunnel_commands_def
      teardown_interface_commands_def teardown_route_commands_def ascii_def split: platform.splits if_splits)

text \<open>Changes that add the rule and leave DNS alone.\<close>

definition rule_added :: "change list \<Rightarrow> bool" where
  "rule_added cs \<longleftrightarrow> Sudo (lits [''ip'', ''rule'', ''add''] @ mark_rule) \<in> set cs \<and> (\<forall>d \<in> set cs. \<not> dns_change d)"

lemma tux_tunnel_fails:
  "\<exists>e h' cs. configure_full_tunnel (tux True) iface (ascii ''204.168.211.96'') gw h = (Inl e, h') \<and>
    changes h' = changes h @ cs \<and> rule_added cs"
proof -
  let ?last = "lits [''ip'', ''rule'', ''add'', ''table'', ''main'', ''suppress_prefixlength'', ''0'']"
  let ?cs = "[lits [''wg'', ''set''] @ [iface] @ lits [''fwmark'', ''51820''], lits [''ip'', ''rule'', ''add''] @ mark_rule,
    lits [''ip'', ''route'', ''add'', ''default'', ''dev''] @ [iface] @ lits [''table'', ''51820'']]"
  have three: "\<exists>h'. run_all (tux True) (?cs @ cs) h = run_all (tux True) cs h' \<and> changes h' = changes h @ map Sudo ?cs" for cs
    by (simp add: then_ok_def mark_rule_def, rule exI, rule conjI, rule refl, simp)
  have t: "\<not> use_split_tunnel (tux True) (ascii ''204.168.211.96'')"
    using tux_words(4) by (simp add: use_split_tunnel_def split_tunnel_enabled_def)
  then have "configure_full_tunnel (tux True) iface (ascii ''204.168.211.96'') gw h = run_all (tux True) (?cs @ [?last]) h"
    by (simp add: configure_full_tunnel_def supported_def tunnel_commands_def mark_rule_def)
  moreover obtain h1 where 1: "run_all (tux True) (?cs @ [?last]) h = run_all (tux True) [?last] h1" "changes h1 = changes h @ map Sudo ?cs"
    using three by blast
  moreover obtain e h2 where "run_sudo (tux True) ?last h1 = (Inl e, h2)" "changes h2 = changes h1 @ [Sudo ?last]"
    using tux_sudo_fails [of ?last h1] by auto
  ultimately have "configure_full_tunnel (tux True) iface (ascii ''204.168.211.96'') gw h = (Inl e, h2)"
      "changes h2 = changes h @ map Sudo (?cs @ [?last])"
    by (simp_all only: run_all.simps then_ok_def prod.case sum.case append_assoc map_append list.map)
  moreover have tc: "set (?cs @ [?last]) = set (tunnel_commands (tux True) iface (ascii ''204.168.211.96'') gw)"
    using t by (simp add: tunnel_commands_def mark_rule_def)
  have "\<forall>c \<in> set (?cs @ [?last]). \<not> is_dns c" unfolding tc using no_dns_commands(4) by blast
  then have "rule_added (map Sudo (?cs @ [?last]))" unfolding rule_added_def by simp
  ultimately show ?thesis by blast
qed

lemma tux_configure_fails: "\<exists>e h' c' cs. configure_tunnel (tux True) (kill_guard (tux True)) (ascii ''wg0'') k p e1 ip a (ascii ''204.168.211.96'') h =
    (Inl e, c', h') \<and> changes h' = changes h @ cs \<and> rule_added cs"
proof -
  let ?ho = "tux True" and ?wg = "ascii ''wg0''" and ?ip = "ascii ''204.168.211.96''"
  have "starts_with (ascii ''errno=0'') (ascii ''errno=0'')" by (simp add: starts_with_def)
  then obtain h1 where 1: "configure_wireguard ?ho ?wg k p e1 h = (Inr (), h1)" "changes h1 = changes h"
    using tux_words(2) by (simp add: configure_wireguard_def wg_key_b64_to_hex_def client_uapi_set_def uapi_exchange_privileged_def run_piped_def then_ok_def Let_def)
  obtain h2 where 2: "configure_interface_ip ?ho ?wg ip a h1 = (Inr (), h2)"
    by (simp add: configure_interface_ip_def supported_def interface_commands_def then_ok_def)
  have c2: "changes h2 = changes h1 @ map Sudo (interface_commands ?ho ?wg ip a)"
    using configure_interface_changes [OF 2] by auto
  have "split_ws (ascii ''default via gw'') = [ascii ''default'', ascii ''via'', ascii ''gw'']" using tux_words(1) by simp
  then obtain h3 where 3: "get_default_gateway ?ho h2 = (Inr (ascii ''gw''), h3)"
    by (simp add: get_default_gateway_def platform_defs run_eq)
  obtain dns h4 where 4: "save_original_dns ?ho h3 = (Inr dns, h4)" by (simp add: save_original_dns_def platform_defs read_file_def Let_def)
  obtain e h6 cs where 6: "configure_full_tunnel ?ho ?wg ?ip (ascii ''gw'') h4 = (Inl e, h6)" "changes h6 = changes h4 @ cs" "rule_added cs"
    using tux_tunnel_fails by blast
  let ?cs = "map Sudo (interface_commands ?ho ?wg ip a) @ cs @ map Sudo (teardown_interface_commands ?ho ?wg @ [pkill_command])"
  have "configure_tunnel ?ho (kill_guard ?ho) ?wg k p e1 ip a ?ip h =
      (Inl e, \<lparr>cu_steps = [], cu_armed = False\<rparr>, pkill_client ?ho 200 (teardown_interface ?ho ?wg h6))"
    by (simp add: configure_tunnel_def or_cleanup_def 1 2 3 4 6 Let_def run_guards)
  moreover have "changes (pkill_client ?ho 200 (teardown_interface ?ho ?wg h6)) = changes h @ ?cs"
    using 1(2) c2 get_default_gateway_quiet [OF 3] save_dns_quiet [OF 4] 6(2) by simp
  moreover have "rule_added ?cs" using 6(3) no_dns_commands by (auto simp: rule_added_def)
  ultimately show ?thesis by blast
qed

lemma tux_connect_fails:
  "\<exists>e mgr' h'. vpn_connect_paid no_json (tux True) vpn_manager_new tux_reg None None [] = Some (Inl e, mgr', h') \<and> rule_added (changes h')"
proof -
  let ?k = "ho_b64_encode (tux True) (replicate 32 1)"
  obtain h1 where 1: "launch (tux True) [] = (Inr (?k, ascii ''wg0'', \<lparr>bs_proc = 1, bs_tunnel_pid = ho_pid (tux True) 1\<rparr>), h1)"
    using tux_launch by blast
  obtain h2 where 2: "await_tunnel (tux True) (kill_guard (tux True)) (ascii ''wg0'') h1 = Some (Inr (ascii ''wg0''), kill_guard (tux True), h2)"
    using tux_await by blast
  have ip: "SERVER_IP (tux True) = ascii ''204.168.211.96''" by (simp add: SERVER_IP_def env_or_def)
  obtain e h3 c' cs where 3: "configure_tunnel (tux True) (kill_guard (tux True)) (ascii ''wg0'') ?k (sr_server_public_key tux_reg) (sr_endpoint tux_reg)
      (bare_ip (sr_assigned_ip tux_reg)) (sr_assigned_ip tux_reg) (ascii ''204.168.211.96'') h2 = (Inl e, c', h3)"
      "changes h3 = changes h2 @ cs" "rule_added cs"
    using tux_configure_fails by blast
  have c: "\<not> cu_armed c'" by (rule configure_tunnel_changes [OF 3(1)]) simp
  have "changes h2 = [Sudo pkill_command]" using launch_changes [OF 1] await_tunnel_changes [OF 2] by simp
  then have "rule_added (changes h3)" using 3(2,3) no_dns_commands(2) by (simp add: rule_added_def)
  moreover have "vpn_connect_paid no_json (tux True) vpn_manager_new tux_reg None None [] = Some (Inl e, vpn_manager_new, h3)"
    by (simp add: vpn_connect_paid_def vpn_manager_new_def establish_tunnel_def kill_guard_def [symmetric] ip Let_def cleanup_drop_def 1 2 3(1) c)
  ultimately show ?thesis by blast
qed

section \<open>Undoing\<close>

text \<open>The command that takes back what a command sets up: deleting an interface removes its address,
  its peer and its mark, and flushing a table removes its routes.\<close>

inductive undoes :: "bytes list \<Rightarrow> bytes list \<Rightarrow> bool" where
  ip_address: "undoes (lits [''ip'', ''addr'', ''add''] @ [a, dev, i]) (lits [''ip'', ''link'', ''delete''] @ [i])"
| ip_up: "undoes (lits [''ip'', ''link'', ''set''] @ [i, up]) (lits [''ip'', ''link'', ''delete''] @ [i])"
| ip_peer: "undoes ([w, ascii ''set'', i] @ config) (lits [''ip'', ''link'', ''delete''] @ [i])"
| ip_rule: "undoes (lits [''ip'', ''rule'', ''add''] @ rule) (lits [''ip'', ''rule'', ''delete''] @ rule)"
| ip_route: "undoes (lits [''ip'', ''route'', ''add''] @ [net, dev, i]) (lits [''ip'', ''route'', ''del''] @ [net, dev, i])"
| ip_table: "undoes (lits [''ip'', ''route'', ''add'', ''default'', ''dev''] @ [i] @ lits [''table''] @ [t]) (lits [''ip'', ''route'', ''flush'', ''table''] @ [t])"
| mac_address: "undoes ([ascii ''ifconfig'', i] @ config) [ascii ''ifconfig'', i, ascii ''destroy'']"
| mac_peer: "undoes ([w, ascii ''set'', i] @ config) [ascii ''ifconfig'', i, ascii ''destroy'']"
| mac_net: "undoes (lits [''route'', ''add'', ''-net''] @ route) (lits [''route'', ''delete'', ''-net''] @ route)"
| mac_host: "undoes (lits [''route'', ''add'', ''-host''] @ [dest, gw]) (lits [''route'', ''delete'', ''-host''] @ [dest])"

lemma interface_commands_undone:
  assumes "c \<in> set (interface_commands ho i ip_bare assigned)"
  shows "\<exists>u \<in> set (teardown_interface_commands ho i). undoes c u"
  using assms undoes.intros(1) [of "ip_cidr assigned" "ascii ''dev''" i] undoes.intros(2) [of i "ascii ''up''"] undoes.intros(7) [of i "[ip_bare, ip_bare, ascii ''up'']"]
  by (auto simp: interface_commands_def teardown_interface_commands_def split: platform.splits)

lemma wg_commands_undone:
  assumes "supported ho"
  shows "\<exists>u \<in> set (teardown_interface_commands ho i). undoes (wg_command ho p i pub ep) u"
  using assms undoes.intros(3) [of p i] undoes.intros(8) [of p i]
  by (auto simp: wg_command_def teardown_interface_commands_def supported_def)

lemma tunnel_commands_undone:
  assumes "c \<in> set (tunnel_commands ho i ip gw)"
  shows "\<exists>u \<in> set (teardown_route_commands ho i ip @ teardown_interface_commands ho i). undoes c u"
proof -
  note rules = undoes.intros(3) [of "ascii ''wg''" i "lits [''fwmark'', ''51820'']"]
    undoes.intros(4) [of "lits [''not'', ''fwmark'', ''51820'', ''table'', ''51820'']"]
    undoes.intros(4) [of "lits [''table'', ''main'', ''suppress_prefixlength'', ''0'']"]
    undoes.intros(5) [of VPN_SUBNET "ascii ''dev''" i] undoes.intros(6) [of i "ascii ''51820''"]
    undoes.intros(9) [of "[VPN_SUBNET, ascii ''-interface'', i]"]
    undoes.intros(9) [of "[ascii ''0.0.0.0/1'', ascii ''-interface'', i]"]
    undoes.intros(9) [of "[ascii ''128.0.0.0/1'', ascii ''-interface'', i]"]
    undoes.intros(10) [of ip gw]
  show ?thesis
  proof (cases "ho_platform ho")
    case MacOS
    then show ?thesis using assms rules by (auto simp: tunnel_commands_def teardown_route_commands_def split: if_splits)
  next
    case Linux
    then show ?thesis using assms rules
      by (auto simp: tunnel_commands_def teardown_route_commands_def teardown_interface_commands_def split: if_splits)
  qed (use assms in \<open>simp_all add: tunnel_commands_def\<close>)
qed

lemma dns_changes_is_dns: "dns_changes ho ds \<Longrightarrow> Sudo c \<in> set ds \<Longrightarrow> is_dns c"
  by (auto simp: dns_changes_def is_dns_def)

lemma connection_undone:
  assumes "connection_changes ho pub ep ip_bare assigned ctx cs" "supported ho" "Sudo c \<in> set cs" "c \<noteq> pkill_command" "\<not> is_dns c"
  shows "\<exists>u \<in> set (teardown_route_commands ho (cc_iface ctx) (cc_server_ip ctx) @ teardown_interface_commands ho (cc_iface ctx)). undoes c u"
proof -
  obtain wg ds where wg: "set wg \<subseteq> range (\<lambda>p. wg_command ho p (cc_iface ctx) pub ep)" "dns_changes ho ds \<or> ds = []"
    "cs = map Sudo (pkill_command # wg @ interface_commands ho (cc_iface ctx) ip_bare assigned @
       tunnel_commands ho (cc_iface ctx) (cc_server_ip ctx) (cc_original_gateway ctx)) @ ds"
    using assms(1) by (auto simp: connection_changes_def split: if_splits)
  then consider "c \<in> set wg" | "c \<in> set (interface_commands ho (cc_iface ctx) ip_bare assigned)"
    | "c \<in> set (tunnel_commands ho (cc_iface ctx) (cc_server_ip ctx) (cc_original_gateway ctx))"
    using assms(3-5) dns_changes_is_dns by fastforce
  then show ?thesis
  proof cases
    case 1
    then obtain p where "c = wg_command ho p (cc_iface ctx) pub ep" using wg(1) by auto
    then show ?thesis using wg_commands_undone [OF assms(2), of "cc_iface ctx" p pub ep] by auto
  next
    case 2
    then show ?thesis using interface_commands_undone by fastforce
  next
    case 3
    then show ?thesis by (rule tunnel_commands_undone)
  qed
qed



lemma undoes_shape:
  "undoes c u \<Longrightarrow> hd c = ascii ''ifconfig'' \<or> c ! 1 \<in> {ascii ''set'', ascii ''add''} \<or> c ! 2 \<in> {ascii ''set'', ascii ''add''}"
  by (erule undoes.cases) simp_all

lemma teardown_route_kept: "c \<in> set (teardown_route_commands ho i ip) \<Longrightarrow> \<not> undoes c u"
proof
  assume "c \<in> set (teardown_route_commands ho i ip)" "undoes c u"
  then show False using undoes_shape [of c u]
    by (cases "ho_platform ho") (auto simp: teardown_route_commands_def, simp_all add: ascii_def)
qed

lemma teardown_interface_kept:
  assumes "c \<in> set (teardown_interface_commands ho i)" "undoes c u"
  shows "\<exists>u \<in> set (teardown_interface_commands ho i). undoes c u"
proof (cases "ho_platform ho")
  case MacOS
  then show ?thesis using assms(1) mac_address [of i "[ascii ''down'']"] mac_address [of i "[ascii ''destroy'']"]
    by (auto simp: teardown_interface_commands_def)
next
  case Linux
  then show ?thesis using assms(1) undoes_shape [OF assms(2)]
    by (simp add: teardown_interface_commands_def) (simp add: ascii_def)
qed (use assms(1) in \<open>simp_all add: teardown_interface_commands_def\<close>)

lemma pkill_kept: "\<not> undoes pkill_command u"
  using undoes_shape [of pkill_command u] by (simp add: pkill_command_def CLIENT_TUNNEL_PKILL_PATTERN_def ascii_def) blast

text \<open>An attempt that reached DNS has taken back what it set up.\<close>

lemma failed_attempt_undone:
  assumes "failed_attempt ho pub ep ip_bare assigned ip cs" "d \<in> set cs" "dns_change d" "Sudo c \<in> set cs" "undoes c u" "\<not> is_dns c"
  shows "\<exists>u. Sudo u \<in> set cs \<and> undoes c u"
  using assms(1)
proof cases
  case (at_configuration wg iface ds)
  note cs = at_configuration(1)
  have wg: "\<not> is_dns x" if "x \<in> set wg" for x using at_configuration(3) that no_dns_commands(1) by auto
  from at_configuration(4) show ?thesis
  proof cases
    case (at_address k)
    then show ?thesis using assms(2,3) cs wg no_dns_commands by (auto dest!: in_set_takeD)
  next
    case (at_routes k gw)
    then show ?thesis using assms(2,3) cs wg no_dns_commands by (auto dest!: in_set_takeD)
  next
    case (at_dns dns gw)
    let ?down = "teardown_route_commands ho iface ip @ teardown_interface_commands ho iface"
    have down: "Sudo u \<in> set cs" if "u \<in> set ?down" for u using that cs at_dns(1) by auto
    have "d \<in> set dns" using assms(2,3) cs at_dns(1) wg no_dns_commands by auto
    then have sup: "supported ho" using at_dns(2) by (auto simp: dns_changes_def supported_def)
    consider "c \<in> set wg" | "c \<in> set (interface_commands ho iface ip_bare assigned)" | "c \<in> set (tunnel_commands ho iface ip gw)"
      | "c \<in> set (teardown_route_commands ho iface ip)" | "c \<in> set (teardown_interface_commands ho iface)" | "c = pkill_command"
      using assms(4,6) cs at_dns(1) dns_changes_is_dns [OF at_dns(2)] by auto
    then have "\<exists>u \<in> set ?down. undoes c u"
    proof cases
      case 1
      then obtain p where "c = wg_command ho p iface pub ep" using at_configuration(3) by auto
      then show ?thesis using wg_commands_undone [OF sup, of iface p pub ep] by auto
    next
      case 2
      then show ?thesis using interface_commands_undone by fastforce
    next
      case 3
      then show ?thesis by (rule tunnel_commands_undone)
    next
      case 5
      then show ?thesis using teardown_interface_kept [OF 5 assms(5)] by auto
    qed (use assms(5) teardown_route_kept pkill_kept in auto)
    then show ?thesis using down by blast
  qed
qed (use assms pkill_kept no_dns_commands(2) in auto)

text \<open>C22: a failed connection leaves the manager disconnected and is rolled back.  The changes are
  those of \<open>failed_attempt\<close>: nothing, or the commands up to the failing one and then the cleanup
  of the finished steps in reverse, with the tunnel process killed last.  If the attempt
  changed DNS, every command that set up the interface, its peer or the routes was
  taken back.\<close>

theorem failed_connect_rolls_back:
  assumes "vpn_connect_paid js ho mgr reg server_ip wallet h = Some (Inl e, mgr', h1)" "vm_ctx mgr = None"
  shows "mgr' = mgr \<and> (\<exists>cs. changes h1 = changes h @ cs \<and> (cs = [] \<or> last cs = Sudo pkill_command) \<and>
    failed_attempt ho (sr_server_public_key reg) (sr_endpoint reg) (bare_ip (sr_assigned_ip reg)) (sr_assigned_ip reg)
      (case server_ip of Some ip \<Rightarrow> ip | None \<Rightarrow> SERVER_IP ho) cs \<and>
    (\<forall>d \<in> set cs. dns_change d \<longrightarrow> (\<forall>c u. Sudo c \<in> set cs \<and> undoes c u \<and> \<not> is_dns c \<longrightarrow> (\<exists>u. Sudo u \<in> set cs \<and> undoes c u))))"
proof -
  obtain cs where cs: "changes h1 = changes h @ cs" "mgr' = mgr" "failed_attempt ho (sr_server_public_key reg) (sr_endpoint reg)
      (bare_ip (sr_assigned_ip reg)) (sr_assigned_ip reg) (case server_ip of Some ip \<Rightarrow> ip | None \<Rightarrow> SERVER_IP ho) cs"
    using connect_paid_changes [OF assms] by auto
  have "cs = [] \<or> last cs = Sudo pkill_command" using cs(3) by (auto elim!: failed_attempt.cases aborted.cases)
  moreover have "\<exists>u. Sudo u \<in> set cs \<and> undoes c u" if "d \<in> set cs" "dns_change d" "Sudo c \<in> set cs" "undoes c u" "\<not> is_dns c" for d c u
    using failed_attempt_undone [OF cs(3) that] .
  ultimately show ?thesis using cs by blast
qed

theorem failed_connect_rolls_back_witness:
  "\<exists>e mgr' h1. vpn_connect_paid no_json (tux True) vpn_manager_new tux_reg None None [] = Some (Inl e, mgr', h1) \<and>
    mgr' = vpn_manager_new \<and> last (changes h1) = Sudo pkill_command"
proof -
  obtain e mgr' h1 where c: "vpn_connect_paid no_json (tux True) vpn_manager_new tux_reg None None [] = Some (Inl e, mgr', h1)" "rule_added (changes h1)"
    using tux_connect_fails by blast
  have n: "vm_ctx vpn_manager_new = None" by (simp add: vpn_manager_new_def)
  show ?thesis using failed_connect_rolls_back [OF c(1) n] c by (fastforce simp: rule_added_def)
qed

lemma no_mark_rule_deleted:
  assumes "ho_platform ho = Linux" "\<not> dns_change (Sudo (lits [''ip'', ''rule'', ''delete''] @ mark_rule))"
  shows "lits [''ip'', ''rule'', ''delete''] @ mark_rule \<notin> set (interface_commands ho i ip_bare assigned @ tunnel_commands ho i ip gw @
      teardown_interface_commands ho i @ [pkill_command, wg_command ho p i pub ep])"
proof -
  have "ascii ''rule'' \<noteq> ascii ''set''" "ascii ''ip'' \<noteq> ascii ''pkill''" "ascii ''rule'' \<noteq> ascii ''addr''" "ascii ''rule'' \<noteq> ascii ''link''"
    "ascii ''rule'' \<noteq> ascii ''route''" "ascii ''delete'' \<noteq> ascii ''add''" "ascii ''ip'' \<noteq> ascii ''wg''"
    by (simp_all add: ascii_def)
  then show ?thesis using assms(1)
    by (auto simp: interface_commands_def tunnel_commands_def teardown_interface_commands_def pkill_command_def wg_command_def mark_rule_def)
qed

text \<open>A connection that fails between its routing commands leaves the first ones in place.  On
  Linux, when an attempt fails before DNS is changed, the rule that sends unmarked packets to
  the table of the tunnel is never deleted, although the attempt may have added it.\<close>

lemma partial_routing_left:
  assumes "vpn_connect_paid js ho mgr reg server_ip wallet h = Some (Inl e, mgr', h1)" "vm_ctx mgr = None" "ho_platform ho = Linux"
    and "changes h1 = changes h @ cs" "\<forall>d \<in> set cs. \<not> dns_change d"
  shows "Sudo (lits [''ip'', ''rule'', ''delete''] @ mark_rule) \<notin> set cs"
proof
  let ?del = "lits [''ip'', ''rule'', ''delete''] @ mark_rule"
  assume del: "Sudo ?del \<in> set cs"
  then have "\<not> dns_change (Sudo ?del)" using assms(5) by blast
  note no = no_mark_rule_deleted [OF assms(3) this]
  have f: "failed_attempt ho (sr_server_public_key reg) (sr_endpoint reg) (bare_ip (sr_assigned_ip reg)) (sr_assigned_ip reg)
      (case server_ip of Some ip \<Rightarrow> ip | None \<Rightarrow> SERVER_IP ho) cs"
    using connect_paid_changes [OF assms(1,2)] assms(4) by auto
  have pk: "?del \<noteq> pkill_command" using no by auto
  from f show False
  proof cases
    case (at_configuration wg iface ds)
    have w: "?del \<notin> set wg"
    proof
      assume "?del \<in> set wg"
      then obtain p where "?del = wg_command ho p iface (sr_server_public_key reg) (sr_endpoint reg)" using at_configuration(3) by blast
      then show False using no [where p = p and i = iface and pub = "sr_server_public_key reg" and ep = "sr_endpoint reg"] by simp
    qed
    from at_configuration(4) show False
    proof cases
      case (at_dns dns gw)
      then have "dns \<noteq> []" using assms(3) by (auto simp: dns_changes_def)
      then have d: "hd dns \<in> set dns" by simp
      have "dns_change x" if "x \<in> set dns" for x
        using dns_changes_is_dns [OF at_dns(2)] that by (cases x) simp_all
      with d show False using assms(5) at_configuration(1) at_dns(1) by auto
    qed (use del no w pk at_configuration(1) in \<open>auto dest!: in_set_takeD\<close>)
  qed (use del pk in auto)
qed

text \<open>On Linux the entry that connecting gave to \<open>resolvconf\<close> outlives the disconnect.  The
  disconnect writes the saved contents of \<open>/etc/resolv.conf\<close> (unless they were empty) and runs
  no \<open>resolvconf\<close> command.\<close>

lemma resolvconf_entry_stays:
  assumes "vpn_connect_paid js ho mgr reg server_ip wallet h = Some (Inr info, mgr', h1)" "vm_ctx mgr = None" "ho_platform ho = Linux"
    and "vpn_disconnect ho mgr' h2 = (r, mgr'', h3)"
  shows "\<exists>backup undo. changes h3 = changes h2 @ (if backup = [] then [] else [Resolv backup]) @ map Sudo undo \<and>
    (\<forall>c \<in> set undo. hd c \<noteq> ascii ''resolvconf'')"
proof -
  obtain ctx where ctx: "vm_ctx mgr' = Some ctx" "saved_dns ho (cc_original_dns ctx)"
    using connect_paid_changes [OF assms(1,2)] by auto
  obtain backup where b: "cc_original_dns ctx = LinuxDns backup" using ctx(2) assms(3) by (auto simp: saved_dns_def)
  let ?undo = "teardown_route_commands ho (cc_iface ctx) (cc_server_ip ctx) @ teardown_interface_commands ho (cc_iface ctx) @ [pkill_command]"
  have "ascii ''ip'' \<noteq> ascii ''resolvconf''" by (simp add: ascii_def)
  then have "\<forall>c \<in> set ?undo. hd c \<noteq> ascii ''resolvconf''"
    using assms(3) by (simp add: teardown_route_commands_def teardown_interface_commands_def pkill_command_def)
  moreover have "changes h3 = changes h2 @ (if backup = [] then [] else [Resolv backup]) @ map Sudo ?undo"
    using disconnect_changes [OF assms(4) ctx(1)] b by simp
  ultimately show ?thesis by blast
qed

text \<open>C27: the command behind the administrator prompt is exactly the one that was asked for.
  Whatever the arguments contain, the script passes the AppleScript string and the shell
  so that the program starts with these arguments and nothing else runs.\<close>

theorem admin_command_exact:
  assumes "run_as_admin_macos ho args h = (r, h')" "admin_binary args = Some bin"
  shows "\<exists>script reply. h' = h @ [Ran [ascii ''osascript'', ascii ''-e'', script] reply] \<and> admin_runs script = Some (bin # tl args)"
proof -
  have "bin \<noteq> []" "\<forall>c \<in> set bin. safe_char c" using admin_binary_plain [OF assms(2)] by auto
  then show ?thesis using admin_runs_command [of bin args] assms
    by (auto simp: run_as_admin_macos_def osascript_def run_eq)
qed

theorem admin_command_exact_witness:
  "\<exists>h' script reply. h' = [Ran [ascii ''osascript'', ascii ''-e'', script] reply] \<and>
    admin_runs script = Some [ascii ''/sbin/route'', [39, 59, 34, 36, 96, 92]]"
proof -
  let ?args = "[ascii ''route'', [39, 59, 34, 36, 96, 92]]"
  obtain r h' where r: "run_as_admin_macos (tux False) ?args [] = (r, h')" by fastforce
  have "admin_binary ?args = Some (ascii ''/sbin/route'')" by (simp add: admin_binary_def)
  from admin_command_exact [OF r this] show ?thesis by auto
qed

end
