(* ===== verification/Client_Live.thy ===== *)
theory Client_Live
  imports Client_Props
begin

text \<open>
  What the desktop client does in the end: connecting returns although it polls, and the health
  check raises its alarm exactly at the third dead check in a row.
\<close>

section \<open>Polling ends\<close>

text \<open>The clock never goes back, and sleeping takes at least the time asked for.\<close>

definition clock_runs :: "host \<Rightarrow> bool" where
  "clock_runs ho \<longleftrightarrow> (\<forall>h e. ho_clock ho h \<le> ho_clock ho (h @ [e])) \<and>
     (\<forall>h ms. ho_clock ho h + ms * 1000000 \<le> ho_clock ho (h @ [Slept ms]))"

lemma clock_forward:
  assumes "clock_runs ho"
  shows "ho_clock ho h \<le> ho_clock ho (h @ es)"
proof (induction es rule: rev_induct)
  case (snoc e es)
  have "ho_clock ho (h @ es) \<le> ho_clock ho ((h @ es) @ [e])" using assms by (simp only: clock_runs_def) 
  then show ?case using snoc by simp
qed simp

lemma clock_sleeps: "clock_runs ho \<Longrightarrow> ho_clock ho h + ms * 1000000 \<le> ho_clock ho (sleep ms h)"
  by (simp add: clock_runs_def sleep_def)

lemma interface_exists_extends: "interface_exists ho iface h = (r, h') \<Longrightarrow> \<exists>es. h' = h @ es"
  using run_ok_eq [of ho "[ascii ''ifconfig'', iface]" h]
  by (auto simp: interface_exists_def path_exists_def Let_def split: platform.splits)

lemma find_uapi_extends: "find_uapi_socket_for_hint ho hint h = (r, h') \<Longrightarrow> \<exists>es. h' = h @ es"
  by (auto simp: find_uapi_socket_for_hint_def path_exists_def list_dir_def Let_def split: if_splits)

lemma poll_interface_returns:
  assumes c: "clock_runs ho" and "start + timeout < ho_clock ho h + n * 100000000"
  shows "\<exists>x. poll_interface ho iface start timeout h = Some x"
  using assms(2)
proof (induction n arbitrary: h)
  case 0
  obtain found h1 where f: "interface_exists ho iface h = (found, h1)" by fastforce
  obtain es where "h1 = h @ es" using interface_exists_extends [OF f] by blast
  then have "timeout < ho_clock ho h1 - start" using 0 clock_forward [OF c, of h es] by simp
  then show ?case by (subst poll_interface.simps) (simp add: f instant_now_def Let_def)
next
  case (Suc n)
  obtain found h1 where f: "interface_exists ho iface h = (found, h1)" by fastforce
  obtain es where "h1 = h @ es" using interface_exists_extends [OF f] by blast
  then have "ho_clock ho h \<le> ho_clock ho (h1 @ [ReadClock (ho_clock ho h1)])" using clock_forward [OF c, of h] by simp
  then have "start + timeout < ho_clock ho (sleep 100 (h1 @ [ReadClock (ho_clock ho h1)])) + n * 100000000"
    using clock_sleeps [OF c, of "h1 @ [ReadClock (ho_clock ho h1)]" 100] Suc.prems by simp
  from Suc.IH [OF this] show ?case
    by (subst poll_interface.simps) (simp add: f instant_now_def Let_def)
qed

lemma poll_uapi_returns:
  assumes c: "clock_runs ho" and "start + timeout \<le> ho_clock ho h + n * 200000000"
  shows "\<exists>x. poll_uapi ho hint start timeout h = Some x"
  using assms(2)
proof (induction n arbitrary: h)
  case 0
  then have "\<not> ho_clock ho h - start < timeout" by simp
  then show ?case by (subst poll_uapi.simps) (simp add: instant_now_def Let_def)
next
  case (Suc n)
  let ?h = "h @ [ReadClock (ho_clock ho h)]"
  obtain found h1 where f: "find_uapi_socket_for_hint ho hint ?h = (found, h1)" by fastforce
  obtain es where "h1 = ?h @ es" using find_uapi_extends [OF f] by blast
  then have "ho_clock ho h \<le> ho_clock ho h1" using clock_forward [OF c, of h] by simp
  then have "start + timeout \<le> ho_clock ho (sleep 200 h1) + n * 200000000"
    using clock_sleeps [OF c, of h1 200] Suc.prems by simp
  from Suc.IH [OF this] show ?case
    by (subst poll_uapi.simps) (simp add: f instant_now_def Let_def)
qed

lemma enough_polls:
  assumes "0 < k"
  shows "\<exists>n. (m::nat) < c + n * k"
proof
  have "m * 1 \<le> m * k" using assms by (intro mult_le_mono2) simp
  then show "m < c + Suc m * k" using assms unfolding mult_Suc mult_1_right by linarith
qed

lemma wait_for_interface_returns: "clock_runs ho \<Longrightarrow> \<exists>x. wait_for_interface ho iface timeout h = Some x"
  using enough_polls [of 100000000] poll_interface_returns
  by (simp add: wait_for_interface_def instant_now_def Let_def) blast

lemma wait_uapi_returns:
  assumes "clock_runs ho"
  shows "\<exists>x. wait_and_resolve_uapi_iface ho hint timeout h = Some x"
proof (cases "ho_platform ho = NonUnix")
  case False
  obtain start h1 where s: "instant_now ho h = (start, h1)" by fastforce
  obtain n where "start + timeout < ho_clock ho h1 + n * 200000000" using enough_polls [of 200000000] by auto
  then obtain r h2 where "poll_uapi ho hint start timeout h1 = Some (r, h2)"
    using poll_uapi_returns [OF assms, of start timeout h1 n hint] by auto
  then show ?thesis using False s
    by (cases r) (auto simp: wait_and_resolve_uapi_iface_def read_file_def Let_def)
qed (simp add: wait_and_resolve_uapi_iface_def)

lemma await_tunnel_returns:
  assumes "clock_runs ho"
  shows "\<exists>x. await_tunnel ho c iface h = Some x"
proof -
  obtain a h1 where a: "client_tunnel_process_alive ho h = (a, h1)" by fastforce
  obtain r h2 where r: "wait_for_interface ho iface 10000000000 h1 = Some (r, h2)"
    using wait_for_interface_returns [OF assms] by (metis prod.exhaust)
  obtain u h3 where u: "wait_and_resolve_uapi_iface ho iface 20000000000 h2 = Some (u, h3)"
    using wait_uapi_returns [OF assms] by (metis prod.exhaust)
  show ?thesis by (cases a; cases r) (simp_all add: await_tunnel_def a r u or_cleanup_def split: prod.splits sum.splits)
qed

text \<open>C28: connecting returns.  On a machine whose clock runs, an attempt to connect ends, with a
  connection or an error: both polling loops give up after their time.\<close>

theorem connect_returns:
  assumes "clock_runs ho"
  shows "\<exists>r mgr' h'. vpn_connect_paid js ho mgr reg server_ip wallet h = Some (r, mgr', h')"
proof -
  have "\<exists>x. establish_tunnel js ho mgr ip pub assigned ep ip_bare w h = Some x" for ip pub assigned ep ip_bare w
  proof -
    obtain l h1 where l: "launch ho h = (l, h1)" by fastforce
    show ?thesis
    proof (cases l)
      case (Inr p)
      obtain k iface sp where p: "p = (k, iface, sp)" by (cases p)
      obtain a c h2 where a: "await_tunnel ho (kill_guard ho) iface h1 = Some (a, c, h2)"
        using await_tunnel_returns [OF assms] by (metis prod_cases3)
      show ?thesis
        by (cases a) (simp_all add: establish_tunnel_def l Inr p a kill_guard_def [symmetric] Let_def split: prod.splits sum.splits)
    qed (simp add: establish_tunnel_def l)
  qed
  then show ?thesis by (auto simp: vpn_connect_paid_def split: prod.splits)
qed

lemma tux_clock: "clock_runs (tux f)"
  by (simp add: clock_runs_def)

theorem connect_returns_witness:
  "clock_runs (tux True) \<and> (\<exists>r mgr' h'. vpn_connect_paid no_json (tux True) vpn_manager_new tux_reg None None [] = Some (r, mgr', h'))"
  using tux_clock connect_returns [OF tux_clock, of no_json True vpn_manager_new tux_reg None None "[]"] by blast

section \<open>Health check\<close>

text \<open>What the user interface is told: the liveness of the process, and the alarms.\<close>

fun reported_alive :: "event \<Rightarrow> bool list" where
  "reported_alive (Emitted (VpnHealth he)) = [he_process_alive he]"
| "reported_alive _ = []"

definition alive_log :: "history \<Rightarrow> bool list" where "alive_log h = concat (map reported_alive h)"

definition alarms :: "history \<Rightarrow> nat" where "alarms h = length (filter (\<lambda>e. e = Emitted tunnel_stopped) h)"

lemma logs_append [simp]: "alive_log (h @ es) = alive_log h @ alive_log es" "alarms (h @ es) = alarms h + alarms es"
  by (simp_all add: alive_log_def alarms_def)

lemma logs_Cons [simp]:
  "alive_log [] = []" "alive_log (e # es) = reported_alive e @ alive_log es"
  "alarms [] = 0" "alarms (e # es) = (if e = Emitted tunnel_stopped then 1 else 0) + alarms es"
  by (simp_all add: alive_log_def alarms_def)

text \<open>The dead checks at the end of a list.\<close>

definition trail :: "bool list \<Rightarrow> nat" where "trail bs = length (takeWhile Not (rev bs))"

lemma trail_simps [simp]: "trail [] = 0" "trail (bs @ [b]) = (if b then 0 else Suc (trail bs))"
  by (simp_all add: trail_def)

definition silent :: "history \<Rightarrow> history \<Rightarrow> bool" where
  "silent h h' \<longleftrightarrow> alive_log h' = alive_log h \<and> alarms h' = alarms h"

lemma run_ok_silent: "run_ok ho argv h = (r, h') \<Longrightarrow> silent h h'"
  by (auto simp: silent_def run_ok_def run_eq)

lemma handshake_age_silent: "get_handshake_age ho iface h = (r, h') \<Longrightarrow> silent h h'"
  by (auto simp: silent_def get_handshake_age_def uapi_get_handshake_age_def wg_cli_get_handshake_age_def uapi_get_raw_def
      uapi_get_privileged_def uapi_get_direct_def run_piped_def exchange_on_def run_eq unix_time_def Let_def
      split: prod.splits option.splits sum.splits if_splits list.splits)

lemma health_round_logs:
  assumes "health_round ho iface pid dead h = (dead', h')"
  obtains alive where "alive_log h' = alive_log h @ [alive]" "alarms h' = alarms h" "dead' = (if alive then 0 else Suc dead)"
    "alive \<longleftrightarrow> fst (is_tunnel_process_alive ho pid h) \<or> fst (client_tunnel_process_alive ho (snd (is_tunnel_process_alive ho pid h)))"
proof -
  obtain a h1 where a: "is_tunnel_process_alive ho pid h = (a, h1)" by fastforce
  obtain b h2 where b: "client_tunnel_process_alive ho h1 = (b, h2)" by fastforce
  define h3 where "h3 = (if a then h1 else h2)"
  obtain age h4 where age: "get_handshake_age ho iface h3 = (age, h4)" by fastforce
  have q: "silent h h1" "silent h1 h2" "silent h3 h4"
    using run_ok_silent [of ho _ h a h1] run_ok_silent [of ho _ h1 b h2] a b handshake_age_silent [OF age]
    by (simp_all add: is_tunnel_process_alive_def client_tunnel_process_alive_def)
  then have "silent h h4" by (cases a) (simp_all add: silent_def h3_def)
  moreover define e where "e = Emitted (VpnHealth \<lparr>he_connected = ((a \<or> b) \<and> handshake_fresh age), he_process_alive = (a \<or> b), he_handshake_age_secs = age\<rparr>)"
  have "reported_alive e = [a \<or> b]" "e \<noteq> Emitted tunnel_stopped" by (simp_all add: e_def tunnel_stopped_def)
  moreover have "dead' = (if a \<or> b then 0 else Suc dead) \<and> h' = h4 @ [e]"
  proof (cases a)
    case True
    then have "get_handshake_age ho iface h1 = (age, h4)" using age by (simp add: h3_def)
    then show ?thesis using assms a True by (simp add: health_round_def e_def)
  next
    case False
    then have "get_handshake_age ho iface h2 = (age, h4)" using age by (simp add: h3_def)
    then show ?thesis using assms a b False by (simp add: health_round_def e_def)
  qed
  ultimately have "alive_log h' = alive_log h @ [a \<or> b]" "alarms h' = alarms h" "dead' = (if a \<or> b then 0 else Suc dead)"
    by (simp_all add: silent_def)
  then show ?thesis by (rule that) (simp add: a b)
qed

text \<open>The loop in terms of the checks before it: \<open>pre\<close> ends with the dead checks counted so far.\<close>

lemma health_loop_logs:
  assumes "health_loop ho cancelled iface pid dead h = Some h'" "trail pre = dead" "dead < 3"
  shows "\<exists>bs. alive_log h' = alive_log h @ bs \<and> alarms h' = alarms h + (if 3 \<le> trail (pre @ bs) then 1 else 0) \<and>
    (\<forall>n < length bs. trail (pre @ take n bs) < 3) \<and> (trail (pre @ bs) < 3 \<longrightarrow> cancelled h')"
proof -
  let ?P = "\<lambda>ho cancelled iface pid dead h h'. \<forall>pre. trail pre = dead \<and> dead < 3 \<longrightarrow>
    (\<exists>bs. alive_log h' = alive_log h @ bs \<and> alarms h' = alarms h + (if 3 \<le> trail (pre @ bs) then 1 else 0) \<and>
    (\<forall>n < length bs. trail (pre @ take n bs) < 3) \<and> (trail (pre @ bs) < 3 \<longrightarrow> cancelled h'))"
  have "?P ho cancelled iface pid dead h h'"
  proof (rule health_loop.raw_induct [OF _ assms(1), where P = ?P], goal_cases)
    case (1 f ho cancelled iface pid dead h h')
    show ?case
    proof (intro allI impI, elim conjE)
      fix pre assume pre: "trail pre = dead" "dead < 3"
      show "\<exists>bs. alive_log h' = alive_log h @ bs \<and> alarms h' = alarms h + (if 3 \<le> trail (pre @ bs) then 1 else 0) \<and>
        (\<forall>n < length bs. trail (pre @ take n bs) < 3) \<and> (trail (pre @ bs) < 3 \<longrightarrow> cancelled h')"
      proof (cases "cancelled h")
        case True
        then show ?thesis using 1(2) pre by (intro exI [of _ "[]"]) auto
      next
        case False
        obtain dead1 h1 where r: "health_round ho iface pid dead (sleep 5000 h) = (dead1, h1)" by fastforce
        from health_round_logs [OF r] obtain b where b: "alive_log h1 = alive_log h @ [b]" "alarms h1 = alarms h"
          "dead1 = trail (pre @ [b])" using pre(1) by (auto simp: sleep_def)
        show ?thesis
        proof (cases "3 \<le> dead1")
          case True
          then have "h' = h1 @ [Emitted tunnel_stopped]" using 1(2) False r by simp
          then show ?thesis using b True pre
            by (intro exI [of _ "[b]"]) (simp add: tunnel_stopped_def)
        next
          case alive: False
          then have "f ho cancelled iface pid dead1 h1 = Some h'" using 1(2) False r by simp
          from 1(1) [OF this, rule_format, of "pre @ [b]"] b(3) alive obtain bs where
            bs: "alive_log h' = alive_log h1 @ bs" "alarms h' = alarms h1 + (if 3 \<le> trail ((pre @ [b]) @ bs) then 1 else 0)"
              "\<forall>n < length bs. trail ((pre @ [b]) @ take n bs) < 3" "trail ((pre @ [b]) @ bs) < 3 \<longrightarrow> cancelled h'" by auto
          have "trail (pre @ take n (b # bs)) < 3" if "n < length (b # bs)" for n
            using that bs(3) pre by (cases n) auto
          then show ?thesis using bs b(1,2) by (intro exI [of _ "b # bs"]) auto
        qed
      qed
    qed
  qed
  then show ?thesis using assms(2,3) by blast
qed

text \<open>C26: the health check raises its alarm exactly when it should.  It ends in one of two ways: the
  last three checks in a row found the process dead, and it has told the user interface
  once that the tunnel stopped; or it was cancelled, and it has not.  It never goes on after
  three dead checks in a row.\<close>

theorem health_alarm_exact:
  assumes "start_health_check ho cancelled iface pid h = Some h'"
  shows "\<exists>bs. alive_log h' = alive_log h @ bs \<and> alarms h' = alarms h + (if 3 \<le> trail bs then 1 else 0) \<and>
    (\<forall>n < length bs. trail (take n bs) < 3) \<and> (trail bs < 3 \<longrightarrow> cancelled h')"
proof -
  have "health_loop ho cancelled iface pid 0 (sleep 10000 h) = Some h'" using assms by (simp add: start_health_check_def)
  from health_loop_logs [OF this, of "[]"] show ?thesis by (simp add: sleep_def)
qed

lemma dead_round:
  assumes "\<forall>g. \<not> fst (is_tunnel_process_alive ho pid g) \<and> \<not> fst (client_tunnel_process_alive ho g)"
  shows "\<exists>h'. health_round ho iface pid dead h = (Suc dead, h') \<and> alive_log h' = alive_log h @ [False] \<and> alarms h' = alarms h"
proof -
  obtain dead' h' where r: "health_round ho iface pid dead h = (dead', h')" by fastforce
  from health_round_logs [OF r] obtain alive where "alive_log h' = alive_log h @ [alive]" "alarms h' = alarms h"
    "dead' = (if alive then 0 else Suc dead)" "\<not> alive" using assms by metis
  then show ?thesis using r by simp
qed

lemma dead_loop:
  assumes "\<forall>g. \<not> fst (is_tunnel_process_alive ho pid g) \<and> \<not> fst (client_tunnel_process_alive ho g)" "\<forall>g. \<not> cancelled g"
  shows "\<exists>h'. start_health_check ho cancelled iface pid h = Some h' \<and> alive_log h' = alive_log h @ [False, False, False] \<and>
    alarms h' = Suc (alarms h)"
proof -
  note round = dead_round [OF assms(1)]
  obtain h1 where 1: "health_round ho iface pid 0 (sleep 5000 (sleep 10000 h)) = (Suc 0, h1)"
    "alive_log h1 = alive_log h @ [False]" "alarms h1 = alarms h" using round [of iface 0 "sleep 5000 (sleep 10000 h)"] by (auto simp: sleep_def)
  obtain h2 where 2: "health_round ho iface pid (Suc 0) (sleep 5000 h1) = (Suc (Suc 0), h2)"
    "alive_log h2 = alive_log h1 @ [False]" "alarms h2 = alarms h1" using round [of iface "Suc 0" "sleep 5000 h1"] by (auto simp: sleep_def)
  obtain h3 where 3: "health_round ho iface pid (Suc (Suc 0)) (sleep 5000 h2) = (Suc (Suc (Suc 0)), h3)"
    "alive_log h3 = alive_log h2 @ [False]" "alarms h3 = alarms h2" using round [of iface "Suc (Suc 0)" "sleep 5000 h2"] by (auto simp: sleep_def)
  have "start_health_check ho cancelled iface pid h = Some (h3 @ [Emitted tunnel_stopped])"
    unfolding start_health_check_def
    by (subst health_loop.simps, simp add: assms(2) 1(1), subst health_loop.simps, simp add: assms(2) 2(1), subst health_loop.simps, simp add: assms(2) 3(1))
  then show ?thesis using 1 2 3 by (simp add: tunnel_stopped_def)
qed

text \<open>A machine on which no program runs.\<close>

definition broken :: host where "broken = (tux False)\<lparr>ho_run := (\<lambda>h argv. Inl [])\<rparr>"

lemma broken_dead: "\<forall>g. \<not> fst (is_tunnel_process_alive broken pid g) \<and> \<not> fst (client_tunnel_process_alive broken g)"
  by (simp add: is_tunnel_process_alive_def client_tunnel_process_alive_def run_ok_def run_eq broken_def tux_def)

theorem health_alarm_exact_witness:
  "\<exists>h' bs. start_health_check broken (\<lambda>g. False) (ascii ''wg0'') 7 [] = Some h' \<and> alive_log h' = bs \<and> 3 \<le> trail bs \<and>
    alarms h' = 1 \<and> (\<forall>n < length bs. trail (take n bs) < 3)"
proof -
  obtain h' where h: "start_health_check broken (\<lambda>g. False) (ascii ''wg0'') 7 [] = Some h'"
    using dead_loop [OF broken_dead, where iface = "ascii ''wg0''" and pid = 7 and h = "[]" and cancelled = "\<lambda>g. False"] by auto
  from health_alarm_exact [OF h] show ?thesis using h by (auto simp: not_less split: if_splits)
qed

text \<open>A dead tunnel is reported.  If the process stays dead and nobody cancels the check, the
  health check ends after three rounds, and the user interface is told once.\<close>

lemma dead_tunnel_reported:
  assumes "\<forall>g. \<not> fst (is_tunnel_process_alive ho pid g) \<and> \<not> fst (client_tunnel_process_alive ho g)" "\<forall>g. \<not> cancelled g"
  shows "\<exists>h'. start_health_check ho cancelled iface pid h = Some h' \<and> alive_log h' = alive_log h @ [False, False, False] \<and>
    alarms h' = Suc (alarms h)"
  by (rule dead_loop [OF assms])

end
