(* ===== verification/Client_Device.thy ===== *)
theory Client_Device
  imports Client_Live
begin

text \<open>
  The desktop client and the parts it works with: the configuration it sends, as the device
  reads it, the key file over several connections, and the wallet of the client against
  the wallet of the tunnel.
\<close>

section \<open>The configuration on the device\<close>

lemma parse_show_socket_v4:
  assumes "length a = 4"
  shows "parse_socket_addr (show_socket_addr (V4 a, port)) = Some (V4 a, port)"
proof -
  have "read_ipv4 (show_ipv4 a @ 58 # dec port) = Some (a, 58 # dec port)"
    by (rule read_show_ipv4 [OF assms]) (simp add: not_digit)
  moreover have "read_number 10 65536 None True (dec_of_nat (unat port)) = Some (unat port, [])"
    using read_number_dec [of "unat port" 65536 None "[]" True] unat_u16_less [of port] by simp
  ultimately show ?thesis
    by (simp add: parse_socket_addr_def read_socket_v4_def read_port_def read_char_def dec_def)
qed

lemma parse_show_network:
  assumes "length a = 4" "cidr \<le> 32"
  shows "allowed_ip_from_str (show_ipv4 a @ 47 # dec cidr) = Some \<lparr>ai_addr = V4 a, ai_cidr = cidr\<rparr>"
proof -
  have s: "47 \<notin> set (dec cidr)" using dec_of_nat_chars [of "unat cidr"] by (auto simp: dec_def)
  have p: "parse_ip (show_ipv4 a) = Some (V4 a)"
    using read_show_ipv4 [OF assms(1), of "[]"] by (simp add: parse_ip_def)
  have u: "parse_u8 (dec cidr) = Some cidr" using parse_uint_dec [of "unat cidr" 256] unat_u8_less [of cidr] by (simp add: parse_u8_def dec_def)
  have "split_on 47 (show_ipv4 a @ 47 # dec cidr) = [show_ipv4 a, dec cidr]"
    using show_ipv4_chars [OF assms(1)] split_on_append [of 47 "show_ipv4 a" "dec cidr"] split_on_none [OF s] by auto
  then show ?thesis using assms(2) by (simp add: allowed_ip_from_str_def p u)
qed

lemma client_keys_plain:
  "10 \<notin> set (ascii ''private_key'')" "61 \<notin> set (ascii ''private_key'')"
  "10 \<notin> set (ascii ''endpoint'')" "61 \<notin> set (ascii ''endpoint'')"
  "10 \<notin> set (ascii ''persistent_keepalive_interval'')" "61 \<notin> set (ascii ''persistent_keepalive_interval'')"
  "10 \<notin> set (ascii ''25'')" "10 \<notin> set (ascii ''10.0.0.0/24'')" "10 \<notin> set (ascii ''0.0.0.0/0'')"
  by (simp_all add: ascii_def)

lemma client_keys_differ:
  "ascii ''endpoint'' \<noteq> ascii ''remove''" "ascii ''endpoint'' \<noteq> ascii ''preshared_key''"
  "ascii ''persistent_keepalive_interval'' \<noteq> ascii ''remove''" "ascii ''persistent_keepalive_interval'' \<noteq> ascii ''preshared_key''"
  "ascii ''persistent_keepalive_interval'' \<noteq> ascii ''endpoint''"
  by (simp_all add: ascii_def)

lemma decimal_literals:
  "ascii ''25'' = dec (25 :: u16)" "ascii ''10.0.0.0/24'' = show_ipv4 [10, 0, 0, 0] @ 47 # dec (24 :: u8)"
  "ascii ''0.0.0.0/0'' = show_ipv4 [0, 0, 0, 0] @ 47 # dec (0 :: u8)"
  by code_simp+

lemma client_values:
  "parse_u16 (ascii ''25'') = Some 25"
  "allowed_ip_from_str (ascii ''10.0.0.0/24'') = Some \<lparr>ai_addr = V4 [10, 0, 0, 0], ai_cidr = 24\<rparr>"
  "allowed_ip_from_str (ascii ''0.0.0.0/0'') = Some \<lparr>ai_addr = V4 [0, 0, 0, 0], ai_cidr = 0\<rparr>"
  unfolding decimal_literals using parse_uint_dec [of 25 65536] by (simp add: parse_u16_def dec_def, simp_all add: parse_show_network)

text \<open>The network that the client routes into the tunnel.\<close>

definition tunnel_network :: "host \<Rightarrow> allowed_ip" where
  "tunnel_network ho = (if split_tunnel_enabled ho then \<lparr>ai_addr = V4 [10, 0, 0, 0], ai_cidr = 24\<rparr>
     else \<lparr>ai_addr = V4 [0, 0, 0, 0], ai_cidr = 0\<rparr>)"

lemma tunnel_allowed_ips:
  "allowed_ip_from_str (tunnel_allowed_ips ho) = Some (tunnel_network ho)" "10 \<notin> set (tunnel_allowed_ips ho)"
  using client_values(2,3) client_keys_plain(8,9) by (simp_all add: tunnel_allowed_ips_def tunnel_network_def VPN_SUBNET_def)

lemma dec_no_newline: "10 \<notin> set (dec w)"
  using dec_of_nat_chars by (auto simp: dec_def)

lemma client_request:
  assumes "length sk = 32" "length pk = 32" "length a = 4"
  shows "api_handler ex b64 evs now d (map Some (stream_lines (set_payload (peer_config ho (to_hex sk) (to_hex pk) (show_socket_addr (V4 a, port)))))) =
    Option.bind (set_key ex d sk (ue_dev (evs 7))) (\<lambda>d. map_option (Pair (status_lines 0))
      (update_peer ex d pk False True (Some (V4 a, port)) [tunnel_network ho] (Some 25) None (ue_dev (evs 1))))"
proof -
  let ?sk = "field ''private_key'' (to_hex sk)" and ?pk = "field ''public_key'' (to_hex pk)"
  let ?ls = "[field ''replace_allowed_ips'' (ascii ''true''), field ''allowed_ip'' (tunnel_allowed_ips ho),
    field ''endpoint'' (show_socket_addr (V4 a, port)), field ''persistent_keepalive_interval'' (ascii ''25''), []]"
  have t: "10 \<notin> set (to_hex sk)" "61 \<notin> set (to_hex sk)" "10 \<notin> set (to_hex pk)" "61 \<notin> set (to_hex pk)"
    using to_hex_chars by blast+
  have ep: "10 \<notin> set (show_socket_addr (V4 a, port))"
    using show_ipv4_chars [OF assms(3)] dec_no_newline by auto
  have "set_payload (peer_config ho (to_hex sk) (to_hex pk) (show_socket_addr (V4 a, port))) =
      with_newlines (ascii ''set=1'' # ?sk # ?pk # ?ls)"
    by (simp add: set_payload_def peer_config_def with_newlines_def)
  moreover have "\<forall>l \<in> set (ascii ''set=1'' # ?sk # ?pk # ?ls). 10 \<notin> set l"
    using field_no_newline t ep keys_plain client_keys_plain tunnel_allowed_ips(2) by simp
  ultimately have lines: "stream_lines (set_payload (peer_config ho (to_hex sk) (to_hex pk) (show_socket_addr (V4 a, port)))) =
      map (\<lambda>l. l @ [10]) (ascii ''set=1'' # ?sk # ?pk # ?ls)"
    by (simp only: stream_with_newlines)
  have pk_line: "set_line ex b64 d' (ascii ''public_key'') (to_hex pk) ev = Some (Inr (Some pk), d')" for d' ev
    using hex_key_roundtrip [OF assms(2), of b64] keys_differ by (simp add: set_line_def)
  have sk_line: "set_line ex b64 d (ascii ''private_key'') (to_hex sk) ev = map_option (Pair (Inr None)) (set_key ex d sk (ue_dev ev))" for ev
    using hex_key_roundtrip [OF assms(1), of b64] by (simp add: set_line_def)
  have peer: "api_set_peer ex b64 evs d' (section_new pk) (map (\<lambda>l. Some (l @ [10])) ?ls) = map_option (Pair 0)
      (update_peer ex d' pk False True (Some (V4 a, port)) [tunnel_network ho] (Some 25) None (ue_dev (evs 1)))" for d'
    by (simp add: pop_line Let_def field_nonempty split_once_field keys_plain client_keys_plain section_line_def keys_differ client_keys_differ client_values
        set_or_def tunnel_allowed_ips parse_show_socket_v4 [OF assms(3)] commit_section_def section_new_def del: show_socket_addr.simps)
  have two: "api_set ex b64 evs d (map Some (map (\<lambda>l. l @ [10]) (?sk # ?pk # ?ls))) =
      Option.bind (set_key ex d sk (ue_dev (evs 7))) (\<lambda>d'. api_set_peer ex b64 evs d' (section_new pk) (map (\<lambda>l. Some (l @ [10])) ?ls))"
    using split_on_field [OF client_keys_plain(2) t(2)] split_on_field [OF keys_plain(4) t(4)]
    by (cases "set_key ex d sk (ue_dev (evs 7))")
      (simp_all add: pop_line field_nonempty sk_line pk_line Let_def comp_def numeral_eq_Suc del: api_set_peer.simps)
  show ?thesis unfolding lines
    using keys_differ(1) two peer
    by (cases "set_key ex d sk (ue_dev (evs 7))")
      (simp_all add: api_handler_def api_command_def pop_line option.map_comp comp_def del: api_set_peer.simps api_set.simps)
qed

text \<open>What the tool \<open>nc\<close> prints when the device accepts a request.\<close>

definition accepted :: piped where
  "accepted = Finished \<lparr>out_ok = True, out_stdout = with_newlines (status_lines 0), out_stderr = []\<rparr>"

lemma accepted_starts: "starts_with (ascii ''errno=0'') (trim (trim (with_newlines (status_lines 0))))"
  by code_simp

lemma first_existing_extends: "first_existing ho paths h = (b, h') \<Longrightarrow> \<exists>es. h' = h @ es"
proof (induction paths arbitrary: h)
  case (Cons p paths)
  then show ?case by (fastforce simp: path_exists_def Let_def split: if_splits)
qed simp

lemma wg_binary_extends:
  assumes "wg_binary ho h = (b, h')"
  shows "\<exists>es. h' = h @ es"
proof -
  obtain x h1 where 1: "env_file ho ''XELT_WG_CLI'' h = (x, h1)" by fastforce
  obtain y h2 where 2: "first_existing ho (lits [''/opt/homebrew/bin/wg'', ''/usr/local/bin/wg'', ''/opt/local/bin/wg'']) h1 = (y, h2)"
    by fastforce
  have "\<exists>es. h1 = h @ es" using 1 first_existing_extends by (auto simp: env_file_def simp del: first_existing.simps split: option.splits)
  moreover have "\<exists>es. h2 = h1 @ es" using first_existing_extends [OF 2] .
  moreover have "h' \<in> {h1, h2} \<or> (\<exists>e. h' = h2 @ [e])"
    using assms by (cases x; cases y) (auto simp add: wg_binary_def 1 2 run_eq simp del: first_existing.simps lits_simps)
  ultimately show ?thesis by auto
qed

lemma run_sudo_extends: "run_sudo ho args h = (r, h') \<Longrightarrow> \<exists>es. h' = h @ es"
  by (auto simp: run_sudo_def run_sudo_n_def run_as_admin_macos_def osascript_def run_eq split: sum.splits if_splits option.splits)

lemma wg_cli_extends:
  assumes "configure_wireguard_wg_cli ho iface priv_key server_pub endpoint wg_path h = (r, h')"
  shows "\<exists>es. h' = h @ es"
proof -
  obtain w h1 where w: "write_file ho (key_file iface) priv_key h = (w, h1)" by fastforce
  obtain s h2 where s: "run_sudo ho (wg_command ho wg_path iface server_pub endpoint) h1 = (s, h2)" by fastforce
  show ?thesis using assms run_sudo_extends [OF s] w
    by (auto simp: configure_wireguard_wg_cli_def w s write_file_def Let_def split: option.splits)
qed

lemma client_uapi_set_first:
  assumes "client_uapi_set ho iface body h = (s, h1)" "ho_platform ho \<noteq> NonUnix"
  shows "\<exists>reply es. h1 = h @ RanPiped (lits [''sudo'', ''-n'', ''nc'', ''-U''] @ [socket_path iface]) (set_payload body) reply # es \<and>
    (reply = accepted \<longrightarrow> s = Inr () \<and> es = [])"
proof -
  let ?argv = "lits [''sudo'', ''-n'', ''nc'', ''-U''] @ [socket_path iface]"
  define reply where "reply = ho_pipe ho h ?argv (set_payload body)"
  obtain p where p: "uapi_exchange_privileged ho (socket_path iface) (set_payload body) h =
      (p, h @ [RanPiped ?argv (set_payload body) reply])" "reply = accepted \<longrightarrow> p = Inr (trim (with_newlines (status_lines 0)))"
    by (simp add: uapi_exchange_privileged_def run_piped_def Let_def reply_def [simplified] accepted_def)
  obtain q where q: "uapi_exchange_direct ho (socket_path iface) (set_payload body) h2 = (q h2, h2 @ [Exchanged (socket_path iface) (set_payload body) (ho_exchange ho h2 (socket_path iface) (set_payload body))])" for h2
    by (simp add: uapi_exchange_direct_def exchange_on_def Let_def)
  show ?thesis
  proof (cases p)
    case (Inr x)
    then show ?thesis using assms p accepted_starts by (auto simp: client_uapi_set_def then_ok_def simp del: lits_simps)
  next
    case (Inl e)
    then have "reply \<noteq> accepted" "\<exists>es. h1 = h @ RanPiped ?argv (set_payload body) reply # es"
      using assms p q by (auto simp: client_uapi_set_def then_ok_def simp del: lits_simps split: sum.splits)
    then show ?thesis by blast
  qed
qed



section \<open>The key of the client\<close>

text \<open>A file keeps its contents until it is written again or removed.\<close>

definition untouched :: "bytes \<Rightarrow> history \<Rightarrow> bool" where
  "untouched path es \<longleftrightarrow> (\<forall>c e. WroteFile path c e \<notin> set es) \<and> RemovedFile path \<notin> set es"

definition files_kept :: "host \<Rightarrow> bool" where
  "files_kept ho \<longleftrightarrow>
     (\<forall>h path es. untouched path es \<and> ho_exists ho h path \<longrightarrow>
        ho_exists ho (h @ es) path \<and> ho_read ho (h @ es) path = ho_read ho h path) \<and>
     (\<forall>h path c. ho_write ho h path c = None \<longrightarrow>
        ho_exists ho (h @ [WroteFile path c None]) path \<and> ho_read ho (h @ [WroteFile path c None]) path = Inr c)"

definition client_key_file :: "host \<Rightarrow> bytes" where
  "client_key_file ho = path_join (path_join (case ho_home ho of Some d \<Rightarrow> d | None \<Rightarrow> ascii ''.'') (ascii ''.xelt'')) (ascii ''client_key'')"

lemma untouched_simps [simp]:
  "untouched path []" "untouched path (e # es) \<longleftrightarrow> (\<forall>c r. e \<noteq> WroteFile path c r) \<and> e \<noteq> RemovedFile path \<and> untouched path es"
  "untouched path (es @ fs) \<longleftrightarrow> untouched path es \<and> untouched path fs"
  by (auto simp: untouched_def)

lemma key_in_file:
  assumes f: "files_kept ho" and r: "\<forall>h. length (ho_random ho h) = 32" and l: "load_or_create_key ho h = (Inr k, h1)"
  shows "ho_exists ho h1 (client_key_file ho) \<and> ho_read ho h1 (client_key_file ho) = Inr k \<and> length k = 32"
proof -
  let ?p = "client_key_file ho"
  have kept: "ho_exists ho (g @ es) ?p \<and> ho_read ho (g @ es) ?p = ho_read ho g ?p" if "untouched ?p es" "ho_exists ho g ?p" for g es
    using f that by (simp add: files_kept_def)
  obtain dir where h0: "key_path ho h = (?p, h @ [MadeDir dir])"
    by (simp add: key_path_def client_key_file_def Let_def)
  let ?h = "h @ [MadeDir dir]"
  show ?thesis
  proof (cases "ho_exists ho ?h ?p")
    case True
    let ?h2 = "?h @ [Asked ?p True]"
    have "ho_read ho ?h2 ?p = Inr k" "length k = 32" "h1 = ?h2 @ [ReadFile ?p (Inr k)]"
      using l True by (auto simp: load_or_create_key_def h0 path_exists_def read_file_def Let_def split: sum.splits if_splits)
    then show ?thesis
      using kept [of "[Asked ?p True]" ?h] kept [of "[Asked ?p True, ReadFile ?p (Inr k)]" ?h] True by simp
  next
    case False
    let ?h2 = "?h @ [Asked ?p False]"
    let ?h3 = "?h2 @ [DrewKey (ho_random ho ?h2)]"
    have "ho_write ho ?h3 ?p k = None" "k = ho_random ho ?h2" "h1 = ?h3 @ [WroteFile ?p k None]"
      using l False by (auto simp: load_or_create_key_def h0 path_exists_def write_file_def Let_def split: option.splits)
    moreover have "ho_exists ho (g @ [WroteFile ?p c None]) ?p \<and> ho_read ho (g @ [WroteFile ?p c None]) ?p = Inr c"
      if "ho_write ho g ?p c = None" for g c using f that by (simp add: files_kept_def)
    ultimately show ?thesis using r by metis
  qed
qed

text \<open>The client keeps its key.  Once a key was loaded or created, every later connection finds
  the same key, as long as the key file is left alone.\<close>

lemma client_key_stable:
  assumes "files_kept ho" "\<forall>h. length (ho_random ho h) = 32" "load_or_create_key ho h = (Inr k, h1)"
    and "untouched (client_key_file ho) es"
  shows "\<exists>h2. load_or_create_key ho (h1 @ es) = (Inr k, h2)"
proof -
  let ?p = "client_key_file ho"
  have kept: "ho_exists ho (g @ es) ?p \<and> ho_read ho (g @ es) ?p = ho_read ho g ?p" if "untouched ?p es" "ho_exists ho g ?p" for g es
    using assms(1) that by (simp add: files_kept_def)
  note k = key_in_file [OF assms(1-3)]
  obtain dir where h0: "key_path ho (h1 @ es) = (?p, (h1 @ es) @ [MadeDir dir])"
    by (simp add: key_path_def client_key_file_def Let_def)
  have "ho_exists ho (h1 @ es @ [MadeDir dir]) ?p" "ho_read ho (h1 @ es @ [MadeDir dir, Asked ?p True]) ?p = Inr k"
    using kept [of "es @ [MadeDir dir]" h1] kept [of "es @ [MadeDir dir, Asked ?p True]" h1] assms(4) k by simp_all
  then show ?thesis using k by (simp add: load_or_create_key_def h0 path_exists_def read_file_def Let_def)
qed

text \<open>A machine whose disk holds what was written last.\<close>

fun disk_step :: "bytes \<Rightarrow> event \<Rightarrow> bytes option \<Rightarrow> bytes option" where
  "disk_step path (WroteFile p c None) f = (if p = path then Some c else f)"
| "disk_step path (RemovedFile p) f = (if p = path then None else f)"
| "disk_step path e f = f"

definition disk :: "bytes \<Rightarrow> history \<Rightarrow> bytes option" where "disk path h = fold (disk_step path) h None"

definition box :: host where
  "box = (tux False)\<lparr>ho_exists := (\<lambda>h path. disk path h \<noteq> None), ho_random := (\<lambda>h. replicate 32 7),
     ho_read := (\<lambda>h path. case disk path h of Some c \<Rightarrow> Inr c | None \<Rightarrow> Inl [])\<rparr>"

lemma disk_untouched: "untouched path es \<Longrightarrow> disk path (h @ es) = disk path h"
proof (induction es rule: rev_induct)
  case (snoc e es)
  then have "disk_step path e f = f" for f by (cases "(path, e, f)" rule: disk_step.cases) auto
  then show ?case using snoc by (simp add: disk_def)
qed simp

lemma box_files: "files_kept box"
  using disk_untouched by (simp add: files_kept_def box_def tux_def) (simp add: disk_def)

section \<open>The wallet of the client\<close>

text \<open>The two derivations of the program, in the client and in the tunnel, give one address.\<close>

lemma client_wallet_is_tunnel_wallet:
  "derive_evm_address et ho key = map_option (\<lambda>w. ascii ''0x'' @ ho_hex_encode ho (pw_ethereum_address w)) (from_wireguard_key et key)"
  by (simp add: derive_evm_address_def from_wireguard_key_def compute_address_def Let_def)

end
