(* ===== verification/Client_App.thy ===== *)
theory Client_App
  imports Client_Live
begin

text \<open>
  The commands of the desktop application (\<open>client/src-tauri/src/lib.rs\<close>) with the events they
  send to the user interface, and the search for the payment server with its health report
  (\<open>client/src-tauri/src/api_health.rs\<close>).
\<close>

section \<open>Commands\<close>

definition emit :: "ui_event \<Rightarrow> history \<Rightarrow> history" where "emit e h = h @ [Emitted e]"

definition state_event :: "vpn_status \<Rightarrow> bytes option \<Rightarrow> bytes option \<Rightarrow> ui_event" where
  "state_event status assigned error = VpnState \<lparr>vs_status = status, vs_assigned_ip = assigned, vs_error = error\<rparr>"

definition cmd_connect_paid ::
  "'j json_api \<Rightarrow> host \<Rightarrow> vpn_manager \<Rightarrow> session_registration \<Rightarrow> bytes option \<Rightarrow> bytes option \<Rightarrow> history \<Rightarrow>
    ((bytes + connected_info) \<times> vpn_manager \<times> history) option" where
  "cmd_connect_paid js ho mgr registration server_ip wallet_address h = do {
     (result, mgr, h) \<leftarrow> vpn_connect_paid js ho mgr registration server_ip wallet_address (emit (state_event Connecting None None) h);
     Some (result, mgr, case result of
         Inr info \<Rightarrow> emit (state_event Connected (Some (in_assigned_ip info)) None) h
       | Inl e \<Rightarrow> emit (state_event Error None (Some e)) h) }"

definition cmd_disconnect :: "host \<Rightarrow> vpn_manager \<Rightarrow> history \<Rightarrow> (bytes + unit) \<times> vpn_manager \<times> history" where
  "cmd_disconnect ho mgr h = (case vpn_disconnect ho mgr (emit (state_event Disconnecting None None) h) of
     (result, mgr, h) \<Rightarrow> (result, mgr, emit (state_event Disconnected None (case result of Inl e \<Rightarrow> Some e | Inr _ \<Rightarrow> None)) h))"

definition cmd_check_sudo :: "host \<Rightarrow> history \<Rightarrow> bool \<times> history" where "cmd_check_sudo = check_sudo_available"

definition cmd_get_status :: "vpn_manager \<Rightarrow> vpn_status" where "cmd_get_status = vpn_manager_status"

definition cmd_get_pubkey :: "host \<Rightarrow> history \<Rightarrow> (bytes + bytes) \<times> history" where "cmd_get_pubkey = get_pubkey_b64"

definition receipt_url :: "bytes \<Rightarrow> bool" where
  "receipt_url url \<longleftrightarrow> has_infix (ascii ''/xelt-receipt'') url \<and>
     (starts_with (ascii ''http://localhost:'') url \<or> starts_with (ascii ''http://127.0.0.1:'') url \<or>
      starts_with (ascii ''https://'') url)"

definition open_receipt :: "host \<Rightarrow> bytes \<Rightarrow> history \<Rightarrow> (bytes + unit) \<times> history" where
  "open_receipt ho url h = (if \<not> receipt_url url then (Inl (ascii ''refused: not a receipt URL''), h)
     else (let r = ho_open ho h url in (case r of Some e \<Rightarrow> Inl e | None \<Rightarrow> Inr (), h @ [OpenedUrl url r])))"

section \<open>The payment server\<close>

record server_health =
  sh_server_reachable :: bool
  sh_boringtun_ok :: bool
  sh_message :: "bytes option"
  sh_api_base :: bytes

fun first_lan_ipv4 :: "host \<Rightarrow> bytes list \<Rightarrow> history \<Rightarrow> bytes option \<times> history" where
  "first_lan_ipv4 ho [] h = (None, h)"
| "first_lan_ipv4 ho (iface # rest) h = (case run ho (lits [''ipconfig'', ''getifaddr''] @ [iface]) h of (r, h) \<Rightarrow>
     (case r of Inr out \<Rightarrow> if out_ok out \<and> trim (out_stdout out) \<noteq> [] then (Some (trim (out_stdout out)), h)
         else first_lan_ipv4 ho rest h
      | Inl _ \<Rightarrow> first_lan_ipv4 ho rest h))"

definition primary_lan_ipv4 :: "host \<Rightarrow> history \<Rightarrow> bytes option \<times> history" where
  "primary_lan_ipv4 ho h = (if ho_platform ho = MacOS then first_lan_ipv4 ho (lits [''en0'', ''en1'']) h else (None, h))"

text \<open>Lower case outside ASCII makes none of the three names.\<close>

definition is_loopback_host :: "bytes \<Rightarrow> bool" where
  "is_loopback_host host \<longleftrightarrow> ascii_lower (trim host) \<in> set (lits [''127.0.0.1'', ''localhost'', ''::1''])"

text \<open>The elements in their order, each once.\<close>

fun first_seen :: "bytes set \<Rightarrow> bytes list \<Rightarrow> bytes list" where
  "first_seen seen [] = []"
| "first_seen seen (c # cs) = (if c \<in> seen then first_seen seen cs else c # first_seen (insert c seen) cs)"

definition http_base :: "bytes \<Rightarrow> bytes" where "http_base host = ascii ''http://'' @ host @ ascii '':4021''"

definition x402_candidates :: "host \<Rightarrow> bytes option \<Rightarrow> history \<Rightarrow> bytes list \<times> history" where
  "x402_candidates ho server_ip h = (case primary_lan_ipv4 ho h of (lan, h) \<Rightarrow>
     (first_seen {}
       ((case ho_env ho ''XELT_X402_API_URL'' of Some url \<Rightarrow> [trim_end_matches [47] url] | None \<Rightarrow> []) @
        (case server_ip of
           Some ip \<Rightarrow> if is_loopback_host ip then [http_base (ascii ''localhost''), http_base (ascii ''127.0.0.1'')] else [http_base ip]
         | None \<Rightarrow> [http_base (ascii ''localhost''), http_base (ascii ''127.0.0.1'')]) @
        (case lan of Some ip \<Rightarrow> [http_base ip] | None \<Rightarrow> [])), h))"

definition health_url :: "bytes \<Rightarrow> bytes" where "health_url base = base @ ascii ''/health''"

definition healthy :: "http_reply \<Rightarrow> bool" where
  "healthy r \<longleftrightarrow> (case r of Replied status _ \<Rightarrow> status_ok status | NotSent _ \<Rightarrow> False)"

fun first_healthy :: "host \<Rightarrow> bytes list \<Rightarrow> history \<Rightarrow> bytes option \<times> history" where
  "first_healthy ho [] h = (None, h)"
| "first_healthy ho (base # rest) h = (case http_exchange ho (health_url base) HealthCall h of (r, h) \<Rightarrow>
     if healthy r then (Some base, h) else first_healthy ho rest h)"

definition resolve_x402_api_base :: "host \<Rightarrow> bytes option \<Rightarrow> history \<Rightarrow> bytes \<times> history" where
  "resolve_x402_api_base ho server_ip h = (case x402_candidates ho server_ip h of (candidates, h) \<Rightarrow>
     let fallback = (case candidates of c # _ \<Rightarrow> c | [] \<Rightarrow> ascii ''http://localhost:4021'') in
     if ho_http_client ho h \<noteq> None then (fallback, h)
     else (case first_healthy ho candidates h of (Some base, h) \<Rightarrow> (base, h) | (None, h) \<Rightarrow> (fallback, h)))"

definition get_x402_api_base :: "host \<Rightarrow> bytes option \<Rightarrow> history \<Rightarrow> (bytes + bytes) \<times> history" where
  "get_x402_api_base ho server_ip h = (case resolve_x402_api_base ho server_ip h of (base, h) \<Rightarrow> (Inr base, h))"

definition boringtun_member :: "'j json_api \<Rightarrow> 'j \<Rightarrow> string \<Rightarrow> 'j option" where
  "boringtun_member js body name = Option.bind (js_get js body (ascii ''boringtun'')) (\<lambda>b. js_get js b (ascii name))"

definition health_report :: "'j json_api \<Rightarrow> host \<Rightarrow> bytes \<Rightarrow> http_reply \<Rightarrow> bytes + server_health" where
  "health_report js ho base r = (case r of
       NotSent _ \<Rightarrow> Inr \<lparr>sh_server_reachable = False, sh_boringtun_ok = False,
         sh_message = Some (ascii ''VPN server not running at '' @ base @ ascii ''. Start Terminal 2: cd vpn-server && pnpm dev''), sh_api_base = base\<rparr>
     | Replied status text \<Rightarrow>
         if \<not> status_ok status then Inr \<lparr>sh_server_reachable = True, sh_boringtun_ok = False,
           sh_message = Some (ascii ''VPN server error ('' @ ho_status_text ho status @ ascii '') at '' @ base), sh_api_base = base\<rparr>
         else (case js_parse js text of None \<Rightarrow> Inl (js_error js text)
           | Some body \<Rightarrow> (let ok = (case Option.bind (boringtun_member js body ''ok'') (js_bool js) of Some b \<Rightarrow> b | None \<Rightarrow> False) in
               Inr \<lparr>sh_server_reachable = True, sh_boringtun_ok = ok,
                 sh_message = (if ok then None else Some (case Option.bind (boringtun_member js body ''message'') (js_str js) of
                     Some m \<Rightarrow> m | None \<Rightarrow> ascii ''VPN backend (boringtun) is not running on port 8080. Start Terminal 1.'')),
                 sh_api_base = base\<rparr>)))"

definition fetch_server_health :: "'j json_api \<Rightarrow> host \<Rightarrow> bytes option \<Rightarrow> history \<Rightarrow> (bytes + server_health) \<times> history" where
  "fetch_server_health js ho server_ip h = (case resolve_x402_api_base ho server_ip h of (base, h) \<Rightarrow>
     (case ho_http_client ho h of Some e \<Rightarrow> (Inl e, h)
      | None \<Rightarrow> (case http_exchange ho (health_url base) HealthCall h of (r, h) \<Rightarrow> (health_report js ho base r, h))))"

section \<open>Properties\<close>

lemma first_seen_spec: "distinct (first_seen seen cs) \<and> set (first_seen seen cs) = set cs - seen"
  by (induction seen cs rule: first_seen.induct) auto

lemma candidates_spec: "x402_candidates ho server_ip h = (cs, h') \<Longrightarrow> distinct cs \<and> cs \<noteq> []"
proof -
  assume x: "x402_candidates ho server_ip h = (cs, h')"
  obtain lan h1 where "primary_lan_ipv4 ho h = (lan, h1)" by fastforce
  then obtain xs where "cs = first_seen {} xs" "xs \<noteq> []" using x
    by (cases server_ip) (auto simp: x402_candidates_def split: if_splits)
  then show "distinct cs \<and> cs \<noteq> []" using first_seen_spec [of "{}" xs] by (cases xs) auto
qed

text \<open>The requests of the search, with their answers.\<close>

definition probe :: "bytes \<Rightarrow> http_reply \<Rightarrow> event" where "probe base r = Requested (health_url base) HealthCall r"

lemma first_healthy_spec:
  assumes "first_healthy ho cs h = (found, h')"
  shows "\<exists>rs. h' = h @ map2 probe cs rs \<and> length rs \<le> length cs \<and>
    (\<forall>i < length rs - 1. \<not> healthy (rs ! i)) \<and>
    (case found of Some base \<Rightarrow> rs \<noteq> [] \<and> healthy (last rs) \<and> base = cs ! (length rs - 1)
     | None \<Rightarrow> length rs = length cs \<and> (\<forall>r \<in> set rs. \<not> healthy r))"
  using assms
proof (induction cs arbitrary: h)
  case Nil
  then show ?case by (intro exI [of _ "[]"]) auto
next
  case (Cons c cs)
  obtain r where r: "http_exchange ho (health_url c) HealthCall h = (r, h @ [probe c r])"
    by (simp add: http_exchange_def probe_def Let_def)
  show ?case
  proof (cases "healthy r")
    case True
    then show ?thesis using Cons.prems r by (intro exI [of _ "[r]"]) auto
  next
    case False
    then have "first_healthy ho cs (h @ [probe c r]) = (found, h')" using Cons.prems r by simp
    from Cons.IH [OF this] obtain rs where rs: "h' = (h @ [probe c r]) @ map2 probe cs rs" "length rs \<le> length cs"
      "\<forall>i < length rs - 1. \<not> healthy (rs ! i)"
      "case found of Some base \<Rightarrow> rs \<noteq> [] \<and> healthy (last rs) \<and> base = cs ! (length rs - 1)
        | None \<Rightarrow> length rs = length cs \<and> (\<forall>r \<in> set rs. \<not> healthy r)" by blast
    have "\<not> healthy ((r # rs) ! i)" if "i < length rs" for i
      using that rs(3) False by (cases i) auto
    then show ?thesis using rs False
      by (intro exI [of _ "r # rs"]) (auto simp: nth_Cons' split: option.splits)
  qed
qed

text \<open>The application finds the first payment server that answers.  It asks distinct candidates
  one after the other, at least one exists, and it stops at the first whose health check
  succeeds; if none does, every candidate was asked and the first is taken.\<close>

lemma payment_server_found:
  assumes "resolve_x402_api_base ho server_ip h = (base, h')" "\<forall>g. ho_http_client ho g = None"
  shows "\<exists>cs h1 rs. x402_candidates ho server_ip h = (cs, h1) \<and> distinct cs \<and> base \<in> set cs \<and>
    h' = h1 @ map2 probe cs rs \<and> length rs \<le> length cs \<and> (\<forall>i < length rs - 1. \<not> healthy (rs ! i)) \<and>
    (rs \<noteq> [] \<and> healthy (last rs) \<and> base = cs ! (length rs - 1) \<or>
     length rs = length cs \<and> (\<forall>r \<in> set rs. \<not> healthy r) \<and> base = hd cs)"
proof -
  obtain cs h1 where c: "x402_candidates ho server_ip h = (cs, h1)" by fastforce
  note d = candidates_spec [OF c]
  obtain found h2 where f: "first_healthy ho cs h1 = (found, h2)" by fastforce
  from first_healthy_spec [OF f] obtain rs where rs: "h2 = h1 @ map2 probe cs rs" "length rs \<le> length cs"
    "\<forall>i < length rs - 1. \<not> healthy (rs ! i)"
    "case found of Some base \<Rightarrow> rs \<noteq> [] \<and> healthy (last rs) \<and> base = cs ! (length rs - 1)
      | None \<Rightarrow> length rs = length cs \<and> (\<forall>r \<in> set rs. \<not> healthy r)" by blast
  have h: "h' = h2" "base = (case found of Some b \<Rightarrow> b | None \<Rightarrow> hd cs)"
    using assms c f d by (cases found; cases cs; simp add: resolve_x402_api_base_def)+
  show ?thesis
  proof (cases found)
    case None
    then show ?thesis using c d rs h by (intro exI [of _ cs] exI [of _ h1] exI [of _ rs]) simp
  next
    case (Some b)
    then have "rs \<noteq> []" "healthy (last rs)" "base = cs ! (length rs - 1)" using rs(4) h by auto
    moreover have "length rs - 1 < length cs" using rs(2) \<open>rs \<noteq> []\<close> by (cases rs) auto
    then have "base \<in> set cs" using calculation(3) by simp
    ultimately show ?thesis using c d rs h by (intro exI [of _ cs] exI [of _ h1] exI [of _ rs]) simp
  qed
qed

text \<open>Any site can be opened as a receipt.  The filter for receipt URLs, meant for the pages of
  the application itself, accepts every https URL whose path starts with the name of the
  receipt page, on whatever host.\<close>

lemma receipt_on_any_host:
  "receipt_url (ascii ''https://'' @ host @ ascii ''/xelt-receipt'' @ rest) \<and>
    open_receipt ho (ascii ''https://'' @ host @ ascii ''/xelt-receipt'' @ rest) h =
      (case ho_open ho h (ascii ''https://'' @ host @ ascii ''/xelt-receipt'' @ rest) of Some e \<Rightarrow> Inl e | None \<Rightarrow> Inr (),
       h @ [OpenedUrl (ascii ''https://'' @ host @ ascii ''/xelt-receipt'' @ rest)
         (ho_open ho h (ascii ''https://'' @ host @ ascii ''/xelt-receipt'' @ rest))])"
proof -
  have "starts_with p (p @ s)" for p s by (simp add: starts_with_def)
  then have i: "has_infix p (p @ s)" for p s by (metis append_is_Nil_conv has_infix.elims(3))
  have "has_infix p (q @ p @ s)" for p q s using i by (induction q) (auto simp del: append_assoc)
  from this [of "ascii ''/xelt-receipt''" "ascii ''https://'' @ host" rest]
  have "receipt_url (ascii ''https://'' @ host @ ascii ''/xelt-receipt'' @ rest)"
    by (simp add: receipt_url_def starts_with_def)
  then show ?thesis by (simp add: open_receipt_def Let_def)
qed

end
