(* ===== verification/Spec2Isabelle.thy ===== *)
theory Spec2Isabelle
  imports Device_Ledger Flush Tunn_Connect Bindings Payment_Protocol Tx_Rlp Eip3009 Key_Parse Dev_Lock Registration_Props
    Ws_Relay Event_Loop Startup Client_Device Client_App
begin

text \<open>
  \<^bold>\<open>Xelt-Vpn: a verification library of its Rust code.\<close>  The program is a WireGuard tunnel (a fork
  of BoringTun) whose peers pay for their traffic, a registration server beside it, and a
  desktop client that starts and configures a tunnel.  The Rust sources are
  \<open>protocol/boringtun/src\<close> (below: the tunnel crate), \<open>protocol/boringtun-cli/src\<close> and
  \<open>client/src-tauri/src\<close>.

  \<^bold>\<open>How the parts interact.\<close>  A tunnel (\<open>Tunn\<close>) turns packets of one peer into datagrams and back:
  it runs the Noise handshake, holds up to eight sessions with their replay windows, and keeps
  timers.  A device holds the peers, finds the tunnel a datagram or packet belongs to, shares
  one rate limiter between the tunnels, charges the quota of a peer for what it forwards, and
  handles the payment messages that travel inside the tunnel.  The registration server
  adds and removes peers of the device through the text protocol of its configuration
  socket.  The desktop client starts the tunnel process, configures it through the same
  socket, and changes routes and DNS of its machine.

  \<^bold>\<open>Conventions.\<close>  A \<open>Result\<close> is a sum with \<open>Inl\<close> for the error; a call that may panic or not end
  has an option type, and \<open>None\<close> is that outcome; machine integers are words that wrap as in
  the release profile; text is its UTF-8 bytes; clock readings are numbers of nanoseconds.
  What an operation reads from outside (clocks, random bytes, answers of services, the
  operating system) is an argument, so every theorem holds for all of it.  Log output is
  left out.

  \<^bold>\<open>Theories and sources.\<close>
  \<^item> \<open>Prelude\<close>, \<open>Errors\<close>: words, bytes, slices; the locales \<open>invariant_machine\<close> and \<open>fallible_machine\<close>
    that lift an invariant from one operation to all runs; \<open>noise/errors.rs\<close>.
  \<^item> \<open>Crypto_Api\<close>, \<open>Packet\<close>, \<open>Replay_Window\<close>, \<open>Session\<close>, \<open>Handshake\<close>, \<open>Rate_Limiter\<close>: \<open>noise/handshake.rs\<close>,
    \<open>noise/session.rs\<close>, \<open>noise/rate_limiter.rs\<close> and the wire formats of \<open>noise/mod.rs\<close>.  The
    replay window is proved to implement a set of counters; the locale \<open>replay_filter\<close>
    carries that to the session.
  \<^item> \<open>Tunn\<close>, \<open>Tunn_Invariant\<close>, \<open>Tunn_Index\<close>, \<open>Tunn_Clock\<close>, \<open>Flush\<close>: \<open>noise/mod.rs\<close> and
    \<open>noise/timers.rs\<close>; the invariant under which no panic is reachable, the indexes a tunnel
    gives out, its clock, the flush loop.
  \<^item> \<open>Tunn_Connect\<close>: two tunnels together, from the first datagram of the handshake to the
    delivery of packets in both directions.
  \<^item> \<open>Bindings\<close>: \<open>ffi/mod.rs\<close> and \<open>jni.rs\<close>; tunnels behind handles, and what a C or Java program
    may rely on.
  \<^item> \<open>Quota\<close>, \<open>Payment_Protocol\<close>, \<open>Eip3009\<close>, \<open>Payment_Config\<close>, \<open>Tx_Rlp\<close>, \<open>Key_Parse\<close>, \<open>Deposit\<close>: the files of
    \<open>payment/\<close> and \<open>serialization.rs\<close>; ledgers, codecs (locale \<open>tlv_codec\<close>), signatures.
  \<^item> \<open>Index_Lfsr\<close>, \<open>Peer\<close>, \<open>Device\<close>, \<open>Device_Tables\<close>, \<open>Device_Payment\<close>, \<open>Payment_Flow\<close>, \<open>Device_Io\<close>,
    \<open>Device_Run\<close>, \<open>Device_Ledger\<close>: \<open>device/mod.rs\<close>, \<open>device/peer.rs\<close>, \<open>device/allowed_ips.rs\<close>; the agreement
    of the tables, payments, and the bound of forwarded bytes by payments over every run.
  \<^item> \<open>Dev_Lock\<close>, \<open>Event_Poll\<close>, \<open>Event_Loop\<close>: \<open>device/dev_lock.rs\<close>, \<open>device/epoll.rs\<close> and the event loop of
    \<open>device/mod.rs\<close> as steps of threads: who may write, who holds an event, how an exit spreads.
  \<^item> \<open>Ws_Relay\<close>: \<open>device/ws_proxy.rs\<close> and \<open>device/ws_bridge.rs\<close>, and the way over both.
  \<^item> \<open>Startup\<close>: \<open>boringtun-cli/src/main.rs\<close> and \<open>device/drop_privileges.rs\<close>; what is started, in
    which order, and that root cannot come back.
  \<^item> \<open>Text_Parse\<close>, \<open>Uapi\<close>, \<open>Uapi_Text\<close>: \<open>device/api.rs\<close>; the requests mean the operations of the
    device, and its report is read back.
  \<^item> \<open>Registration\<close>, \<open>Registration_Run\<close>, \<open>Registration_Props\<close>: \<open>device/http_api.rs\<close> together with the device.
  \<^item> \<open>Client_Sys\<close>, \<open>Client_Admin\<close>, \<open>Client_Net\<close>, \<open>Client_Uapi\<close>, \<open>Client_Spawn\<close>, \<open>Client_Vpn\<close>: \<open>vpn.rs\<close> of the
    client.  The machine is a \<open>host\<close>, which answers each interaction as a function of the
    history so far; an operation extends the history.
  \<^item> \<open>Client_Changes\<close>, \<open>Client_Connect\<close>, \<open>Client_Props\<close>, \<open>Client_Live\<close>, \<open>Client_Device\<close>: the privileged
    commands of every outcome of connecting and disconnecting; loops that end; the
    configuration of the client as the device reads it.
  \<^item> \<open>Client_App\<close>: \<open>lib.rs\<close> and \<open>api_health.rs\<close> of the client.

  \<^bold>\<open>Parameters.\<close>  Third-party code is a record of functions with its documented behaviour as a
  named hypothesis, and each has a concrete instance for the witnesses: \<open>crypto\<close> with
  \<open>crypto_ok\<close> (BLAKE2s, X25519, AEADs), \<open>eth\<close> with \<open>eth_ok\<close> (Keccak, secp256k1), \<open>ip_table\<close> and
  \<open>ip_net\<close> with \<open>ip_table_ok\<close> (longest-prefix table), base64, hexadecimal and JSON coding, the
  settlement service and the node behind RPC.  The client's \<open>host\<close> has one law,
  \<open>clock_runs\<close>, used only for the end of its polling loops.

  \<^bold>\<open>Bounds.\<close>  There is no fuel: loops that may not end are partial functions with value \<open>None\<close>, and
  that they return is proved where the code relies on it (the flush loop, the polling loops of a
  connection, the relays once they are told to stop); the other loops are structural or have
  a measure.  Counters stay below \<open>2 ^ 64 - 1024\<close> where a theorem says so,
  because the replay window starts anew when the counter wraps (\<open>replay_after_wrap\<close>).

  \<^bold>\<open>Not modelled.\<close>  The event queue of macOS (\<open>device/kqueue.rs\<close>, the same interface as
  \<open>epoll.rs\<close> on other system calls) and the interfaces \<open>tun_linux.rs\<close> and \<open>tun_darwin.rs\<close> (but
  for the names) are sequences of system calls on raw descriptors.  The
  logging function of \<open>ffi/mod.rs\<close> installs a subscriber of the tracing crate, and the loss
  estimate of \<open>wireguard_stats\<close> is floating-point arithmetic.  The window and tray code of the
  client calls the tauri library.  The TypeScript and Solidity parts, tests and benchmarks are outside the
  Rust implementation.
\<close>

end
